(* ===== verification/Prelude.thy ===== *)
theory Prelude
  imports Main "HOL-Library.AList"
begin

text \<open>
  Shared ground of the development: the exceptions of \<^verbatim>\<open>tortoise/exceptions.py\<close> and of
  the Python language as error values, the result type and its sequencing, Python dictionaries
  as association lists in insertion order, Python string helpers (\<^verbatim>\<open>partition\<close>,
  \<^verbatim>\<open>split\<close>, \<^verbatim>\<open>join\<close>, \<^verbatim>\<open>replace\<close>) and the collections of simplification rules
  the component theories use.
\<close>

named_theorems res_simps \<open>sequencing of computations that may raise\<close>
named_theorems dict_simps \<open>Python dictionaries as association lists\<close>

section \<open>Exceptions\<close>

text \<open>
  An exception is its class; the message texts are not modelled. The first group are the
  classes of \<^verbatim>\<open>exceptions.py\<close>, the second the classes of the Python language and its
  standard library which the sources raise or catch.
\<close>

datatype exn =
    BaseORMException | FieldError | ParamsError | ConfigurationError
  | TransactionManagementError | OperationalError | IntegrityError | NoValuesFetched
  | NotExistOrMultiple | MultipleObjectsReturned | ObjectDoesNotExistError | DoesNotExist
  | IncompleteInstanceError | DBConnectionError | ValidationError | UnSupportedError
  | PyException | PyTypeError | PyValueError | PyLookupError | PyKeyError | PyIndexError
  | PyAttributeError | PyNotImplementedError | PyRecursionError | PyRuntimeError
  | PyConnectionError | PyOSError | PyOverflowError

text \<open>The direct base classes, in the order of the class statement.\<close>

fun exn_bases :: "exn \<Rightarrow> exn list" where
  "exn_bases BaseORMException = [PyException]"
| "exn_bases FieldError = [BaseORMException]"
| "exn_bases ParamsError = [BaseORMException]"
| "exn_bases ConfigurationError = [BaseORMException]"
| "exn_bases TransactionManagementError = [BaseORMException]"
| "exn_bases OperationalError = [BaseORMException]"
| "exn_bases IntegrityError = [OperationalError]"
| "exn_bases NoValuesFetched = [OperationalError]"
| "exn_bases NotExistOrMultiple = [OperationalError]"
| "exn_bases MultipleObjectsReturned = [NotExistOrMultiple]"
| "exn_bases ObjectDoesNotExistError = [OperationalError, PyKeyError]"
| "exn_bases DoesNotExist = [NotExistOrMultiple]"
| "exn_bases IncompleteInstanceError = [OperationalError]"
| "exn_bases DBConnectionError = [BaseORMException, PyConnectionError]"
| "exn_bases ValidationError = [BaseORMException]"
| "exn_bases UnSupportedError = [BaseORMException]"
| "exn_bases PyException = []"
| "exn_bases PyTypeError = [PyException]"
| "exn_bases PyValueError = [PyException]"
| "exn_bases PyLookupError = [PyException]"
| "exn_bases PyKeyError = [PyLookupError]"
| "exn_bases PyIndexError = [PyLookupError]"
| "exn_bases PyAttributeError = [PyException]"
| "exn_bases PyNotImplementedError = [PyRuntimeError]"
| "exn_bases PyRecursionError = [PyRuntimeError]"
| "exn_bases PyRuntimeError = [PyException]"
| "exn_bases PyConnectionError = [PyOSError]"
| "exn_bases PyOSError = [PyException]"
| "exn_bases PyOverflowError = [PyException]"

text \<open>
  \<^verbatim>\<open>except C\<close> catches an exception whose class is \<open>C\<close> or derives from it. The hierarchy is
  at most six classes deep, so a search of depth six is exhaustive (\<open>exn_isa_step\<close>).
\<close>

fun exn_isa_fuel :: "nat \<Rightarrow> exn \<Rightarrow> exn \<Rightarrow> bool" where
  "exn_isa_fuel 0 e c = (e = c)"
| "exn_isa_fuel (Suc n) e c = (e = c \<or> list_ex (\<lambda>b. exn_isa_fuel n b c) (exn_bases e))"

definition exn_isa :: "exn \<Rightarrow> exn \<Rightarrow> bool" where
  "exn_isa e c = exn_isa_fuel 6 e c"

lemma exn_isa_fuel_6: "exn_isa_fuel 6 e c = exn_isa_fuel (Suc (Suc (Suc (Suc (Suc (Suc 0)))))) e c"
  by (simp add: numeral_eq_Suc)

lemma exn_isa_step: "exn_isa e c \<longleftrightarrow> e = c \<or> (\<exists>b\<in>set (exn_bases e). exn_isa b c)"
  by (cases e) (auto simp: exn_isa_def exn_isa_fuel_6)

lemma exn_isa_refl [simp]: "exn_isa e e"
  by (subst exn_isa_step) simp

section \<open>Results\<close>

type_synonym 'a res = "exn + 'a"

definition rbind :: "'a res \<Rightarrow> ('a \<Rightarrow> 'b res) \<Rightarrow> 'b res" where
  "rbind x f = (case x of Inl e \<Rightarrow> Inl e | Inr a \<Rightarrow> f a)"

lemma rbind_simps [simp, res_simps]:
  "rbind (Inl e) f = Inl e"
  "rbind (Inr a) f = f a"
  by (simp_all add: rbind_def)

lemma rbind_eq_Inr [res_simps]: "rbind x f = Inr b \<longleftrightarrow> (\<exists>a. x = Inr a \<and> f a = Inr b)"
  by (cases x) auto

lemma rbind_eq_Inl [res_simps]: "rbind x f = Inl e \<longleftrightarrow> x = Inl e \<or> (\<exists>a. x = Inr a \<and> f a = Inl e)"
  by (cases x) auto

lemma rbind_assoc: "rbind (rbind x f) g = rbind x (\<lambda>a. rbind (f a) g)"
  by (cases x) auto

lemma rbind_Inr [simp]: "rbind x Inr = x"
  by (cases x) auto

lemma rbind_cong [fundef_cong]:
  "x = y \<Longrightarrow> (\<And>a. y = Inr a \<Longrightarrow> f a = g a) \<Longrightarrow> rbind x f = rbind y g"
  by (cases y) auto

text \<open>Evaluation looks at the first computation before it enters the second.\<close>

declare rbind_def [code_unfold]

text \<open>A loop that stops at the first exception: comprehension and accumulation.\<close>

fun rmap :: "('a \<Rightarrow> 'b res) \<Rightarrow> 'a list \<Rightarrow> 'b list res" where
  "rmap f [] = Inr []"
| "rmap f (x # xs) = rbind (f x) (\<lambda>y. rbind (rmap f xs) (\<lambda>ys. Inr (y # ys)))"

fun rfold :: "('a \<Rightarrow> 's \<Rightarrow> 's res) \<Rightarrow> 'a list \<Rightarrow> 's \<Rightarrow> 's res" where
  "rfold f [] s = Inr s"
| "rfold f (x # xs) s = rbind (f x s) (rfold f xs)"

lemma rmap_cong [fundef_cong]:
  "xs = ys \<Longrightarrow> (\<And>x. x \<in> set ys \<Longrightarrow> f x = g x) \<Longrightarrow> rmap f xs = rmap g ys"
  by (induction ys arbitrary: xs) auto

lemma rfold_cong [fundef_cong]:
  "xs = ys \<Longrightarrow> s = t \<Longrightarrow> (\<And>x u. x \<in> set ys \<Longrightarrow> f x u = g x u) \<Longrightarrow> rfold f xs s = rfold g ys t"
  by (induction ys arbitrary: xs s t) (auto intro!: rbind_cong)

lemma rmap_length: "rmap f xs = Inr ys \<Longrightarrow> length ys = length xs"
  by (induction xs arbitrary: ys) (auto simp: rbind_eq_Inr)

lemma rmap_nth: "rmap f xs = Inr ys \<Longrightarrow> i < length xs \<Longrightarrow> f (xs ! i) = Inr (ys ! i)"
proof (induction xs arbitrary: ys i)
  case (Cons x xs)
  then show ?case by (cases i) (auto simp: rbind_eq_Inr)
qed simp

lemma rmap_total: "(\<And>x. x \<in> set xs \<Longrightarrow> f x = Inr (g x)) \<Longrightarrow> rmap f xs = Inr (map g xs)"
  by (induction xs) auto

lemma rfold_append: "rfold f (xs @ ys) s = rbind (rfold f xs s) (rfold f ys)"
proof (induction xs arbitrary: s)
  case (Cons x xs)
  then show ?case by (cases "f x s") auto
qed simp

text \<open>An invariant of every step is an invariant of the loop.\<close>

lemma rfold_invariant:
  assumes "rfold f xs s = Inr t" and "P s"
    and "\<And>x u v. x \<in> set xs \<Longrightarrow> P u \<Longrightarrow> f x u = Inr v \<Longrightarrow> P v"
  shows "P t"
  using assms
proof (induction xs arbitrary: s)
  case (Cons x xs)
  from Cons.prems(1) obtain u where u: "f x s = Inr u" "rfold f xs u = Inr t"
    by (auto simp: rbind_eq_Inr)
  from Cons.prems(2,3) u(1) have "P u" by auto
  show ?case
    by (rule Cons.IH [OF u(2) \<open>P u\<close>]) (use Cons.prems(3) in auto)
qed simp

text \<open>\<^verbatim>\<open>if c: raise e\<close>\<close>

definition guard_exn :: "bool \<Rightarrow> exn \<Rightarrow> unit res" where
  "guard_exn c e = (if c then Inl e else Inr ())"

lemma guard_exn_simps [simp, res_simps]:
  "guard_exn True e = Inl e" "guard_exn False e = Inr ()"
  "guard_exn c e = Inr u \<longleftrightarrow> \<not> c"
  by (simp_all add: guard_exn_def)

text \<open>\<^verbatim>\<open>d[k]\<close>\<close>

definition dict_at :: "('k \<times> 'v) list \<Rightarrow> 'k \<Rightarrow> 'v res" where
  "dict_at d k = (case map_of d k of None \<Rightarrow> Inl PyKeyError | Some v \<Rightarrow> Inr v)"

lemma dict_at_Inr [simp]: "dict_at d k = Inr v \<longleftrightarrow> map_of d k = Some v"
  by (simp add: dict_at_def split: option.splits)

lemma dict_at_Inl [simp]: "dict_at d k = Inl e \<longleftrightarrow> map_of d k = None \<and> e = PyKeyError"
  by (auto simp: dict_at_def split: option.splits)

section \<open>Dictionaries\<close>

text \<open>
  A Python dictionary keeps its insertion order, and writing an existing key keeps its place:
  that is \<open>AList.update\<close>. \<open>dict_update\<close> is \<^verbatim>\<open>d.update(e)\<close> and \<^verbatim>\<open>{**d, **e}\<close>.
\<close>

type_synonym ('k, 'v) dict = "('k \<times> 'v) list"

definition dict_keys :: "('k, 'v) dict \<Rightarrow> 'k list" where
  "dict_keys d = map fst d"

definition dict_has :: "('k, 'v) dict \<Rightarrow> 'k \<Rightarrow> bool" where
  "dict_has d k = (map_of d k \<noteq> None)"

fun dict_update :: "('k, 'v) dict \<Rightarrow> ('k, 'v) dict \<Rightarrow> ('k, 'v) dict" where
  "dict_update d [] = d"
| "dict_update d ((k, v) # e) = dict_update (AList.update k v d) e"

lemma dict_has_update [dict_simps]: "dict_has (AList.update k v d) j \<longleftrightarrow> j = k \<or> dict_has d j"
  by (auto simp: dict_has_def update_conv')

lemma map_of_update [dict_simps]: "map_of (AList.update k v d) j = (if j = k then Some v else map_of d j)"
  by (simp add: update_conv')

lemma distinct_dict_update [dict_simps]:
  "distinct (map fst d) \<Longrightarrow> distinct (map fst (dict_update d e))"
  by (induction d e rule: dict_update.induct) (auto intro: distinct_update)

lemma map_of_dict_update:
  "distinct (map fst e) \<Longrightarrow> map_of (dict_update d e) = map_of d ++ map_of e"
proof (induction d e rule: dict_update.induct)
  case (2 d k v e)
  then have "map_of e k = None" by (auto simp: map_of_eq_None_iff)
  with 2 show ?case
    by (auto simp: update_conv' map_add_def fun_eq_iff split: option.splits)
qed simp

lemma keys_update [dict_simps]: "fst ` set (AList.update k v d) = insert k (fst ` set d)"
  by (induction d) auto

lemma keys_dict_update [dict_simps]: "fst ` set (dict_update d e) = fst ` set d \<union> fst ` set e"
  by (induction d e rule: dict_update.induct) (auto simp: keys_update)

lemma dict_has_iff: "dict_has d k \<longleftrightarrow> k \<in> fst ` set d"
  by (auto simp: dict_has_def map_of_eq_None_iff)

section \<open>Strings\<close>

text \<open>\<^verbatim>\<open>s.partition("__")\<close>: the text before the first double underscore and the text after it.\<close>

fun partition2 :: "string \<Rightarrow> string \<times> string" where
  "partition2 [] = ([], [])"
| "partition2 [c] = ([c], [])"
| "partition2 (c # d # s) =
     (if c = CHR ''_'' \<and> d = CHR ''_'' then ([], s)
      else (let (a, b) = partition2 (d # s) in (c # a, b)))"

text \<open>\<^verbatim>\<open>s.split("__")\<close>, and its first element.\<close>

fun split2 :: "string \<Rightarrow> string list" where
  "split2 [] = [[]]"
| "split2 [c] = [[c]]"
| "split2 (c # d # s) =
     (if c = CHR ''_'' \<and> d = CHR ''_'' then [] # split2 s
      else (case split2 (d # s) of [] \<Rightarrow> [[c]] | x # xs \<Rightarrow> (c # x) # xs))"

abbreviation split2_head :: "string \<Rightarrow> string" where
  "split2_head s \<equiv> fst (partition2 s)"

lemma split2_not_Nil [simp]: "split2 s \<noteq> []"
  by (induction s rule: split2.induct) (auto split: list.splits)

lemma hd_split2: "hd (split2 s) = fst (partition2 s)"
  by (induction s rule: split2.induct) (auto split: list.splits prod.splits)

lemma partition2_length: "s \<noteq> [] \<Longrightarrow> length (snd (partition2 s)) < length s"
proof (induction s rule: partition2.induct)
  case (3 c d s)
  then show ?case by (cases "partition2 (d # s)") (auto simp: Let_def)
qed simp_all

lemma partition2_join:
  assumes "partition2 s = (a, b)" "b \<noteq> []"
  shows "s = a @ ''__'' @ b"
  using assms
  by (induction s arbitrary: a b rule: partition2.induct)
    (auto split: if_splits prod.splits simp: Let_def)

fun join_str :: "string \<Rightarrow> string list \<Rightarrow> string" where
  "join_str sep [] = []"
| "join_str sep [x] = x"
| "join_str sep (x # y # xs) = x @ sep @ join_str sep (y # xs)"

text \<open>\<^verbatim>\<open>s.replace(c, r)\<close> for a one-character pattern.\<close>

definition replace_chr :: "char \<Rightarrow> string \<Rightarrow> string \<Rightarrow> string" where
  "replace_chr c r s = concat (map (\<lambda>x. if x = c then r else [x]) s)"

lemma replace_chr_simps [simp]:
  "replace_chr c r [] = []"
  "replace_chr c r (x # s) = (if x = c then r else [x]) @ replace_chr c r s"
  "replace_chr c r (s @ t) = replace_chr c r s @ replace_chr c r t"
  by (simp_all add: replace_chr_def)

text \<open>\<^verbatim>\<open>s.split(sep)\<close> and \<^verbatim>\<open>s.lower()\<close> on ASCII strings.\<close>

fun split_chr :: "char \<Rightarrow> string \<Rightarrow> string list" where
  "split_chr c [] = [[]]"
| "split_chr c (x # s) =
     (if x = c then [] # split_chr c s
      else (case split_chr c s of [] \<Rightarrow> [[x]] | y # ys \<Rightarrow> (x # y) # ys))"

lemma split_chr_not_Nil [simp]: "split_chr c s \<noteq> []"
  by (induction s) (auto split: list.splits)

definition lower_chr :: "char \<Rightarrow> char" where
  "lower_chr c = (if 65 \<le> (of_char c :: nat) \<and> (of_char c :: nat) \<le> 90
                  then char_of ((of_char c :: nat) + 32) else c)"

definition lower :: "string \<Rightarrow> string" where
  "lower s = map lower_chr s"

text \<open>\<^verbatim>\<open>str(n)\<close> of an integer.\<close>

fun digits_of :: "nat \<Rightarrow> string" where
  "digits_of n = (if n < 10 then [char_of (48 + n)]
                  else digits_of (n div 10) @ [char_of (48 + n mod 10)])"

declare digits_of.simps [simp del]

definition str_int :: "int \<Rightarrow> string" where
  "str_int i = (if i < 0 then CHR ''-'' # digits_of (nat (- i)) else digits_of (nat i))"

text \<open>\<^verbatim>\<open>str | None\<close> as a condition, and \<^verbatim>\<open>a or b\<close> on optional strings.\<close>

definition str_or :: "string option \<Rightarrow> string \<Rightarrow> string" where
  "str_or x d = (case x of None \<Rightarrow> d | Some s \<Rightarrow> if s = [] then d else s)"

lemma str_or_simps [simp]:
  "str_or None d = d" "s \<noteq> [] \<Longrightarrow> str_or (Some s) d = s" "str_or (Some []) d = d"
  by (simp_all add: str_or_def)

end
