(* ===== verification/Terms.thy ===== *)
theory Terms
  imports Prelude
begin

text \<open>
  The values that flow through the ORM (\<open>pyval\<close>) and the SQL objects it builds through the
  third-party package pypika (\<open>table\<close>, \<open>term\<close>, \<open>crit\<close>).

  pypika is not part of the repository, so nothing is assumed about what its calls compute:
  every constructor of \<open>table\<close>, \<open>term\<close> and \<open>crit\<close> records one call the sources make, with
  its arguments. Where the sources inspect a pypika object (\<^verbatim>\<open>Table.__eq__\<close>,
  \<^verbatim>\<open>get_table_name\<close>, \<^verbatim>\<open>is_aggregate\<close>) the answer is a component of the record \<open>pypika\<close>,
  an argument of the definitions. What a criterion means on a database row is the argument
  \<open>ev\<close> of the theorems, constrained by \<open>sql_laws\<close>.
\<close>

section \<open>Python types and values\<close>

datatype pytype =
    PyInt | PyStr | PyBool | PyFloat | PyDecimal | PyDatetime | PyDate | PyTime
  | PyTimedelta | PyUUID | PyBytes | PyJson | PyRelation | PyOther string

type_synonym mid = "string \<times> string"  \<comment> \<open>a model class: its app label and class name\<close>

datatype table =
    Table string "string option"   \<comment> \<open>\<^verbatim>\<open>Table(name, schema=schema)\<close>\<close>
  | TableAs table string           \<comment> \<open>\<^verbatim>\<open>table.as_(alias)\<close>\<close>

datatype cmp = CmpEq | CmpNe | CmpGe | CmpLe | CmpGt | CmpLt

datatype pyval =
    VNone
  | VBool bool
  | VInt int
  | VStr string
  | VList "pyval list"
  | VDelta int int int             \<comment> \<open>\<^verbatim>\<open>timedelta\<close>: days, seconds, microseconds\<close>
  | VEnum bool string pyval        \<comment> \<open>member of an enum (an \<^verbatim>\<open>IntEnum\<close> when the flag is set)\<close>
  | VInst mid pyval                \<comment> \<open>model instance and its \<^verbatim>\<open>pk\<close>\<close>
  | VTerm "term"                   \<comment> \<open>any pypika term (\<^verbatim>\<open>F\<close>, arithmetic, function, subquery)\<close>
  | VObj pytype nat bool           \<comment> \<open>another object: its type, identity and truth value\<close>
  | VCallable nat                  \<comment> \<open>a function (used as a default)\<close>
  | VCoroutine nat                 \<comment> \<open>a coroutine function (used as a default)\<close>
and "term" =
    TField table string            \<comment> \<open>\<^verbatim>\<open>table[name]\<close>\<close>
  | TBare string                   \<comment> \<open>\<^verbatim>\<open>Field(name)\<close>\<close>
  | TAlias string                  \<comment> \<open>\<^verbatim>\<open>Term(name)\<close>, a reference to an alias\<close>
  | TWrap pyval                    \<comment> \<open>\<^verbatim>\<open>ValueWrapper(v)\<close> of the dialect\<close>
  | TConst pyval                   \<comment> \<open>\<^verbatim>\<open>wrap_constant(v)\<close>\<close>
  | TFunc string "pyval list"      \<comment> \<open>a function call\<close>
  | TDistinct "term"               \<comment> \<open>\<^verbatim>\<open>func(...).distinct()\<close>\<close>
  | TOver "term"                   \<comment> \<open>\<^verbatim>\<open>func(...).over()\<close>\<close>
  | TArith string "term" "term"
  | TAs "term" string              \<comment> \<open>\<^verbatim>\<open>term.as_(alias)\<close>\<close>
  | TCase "(crit \<times> term) list" "term option"
  | TParam nat                     \<comment> \<open>the dialect's placeholder at a position\<close>
  | TCriterion crit
and crit =
    EmptyCriterion                 \<comment> \<open>\<^verbatim>\<open>query_utils.EmptyCriterion()\<close>\<close>
  | CAnd crit crit                 \<comment> \<open>pypika's \<^verbatim>\<open>a & b\<close>\<close>
  | COr crit crit                  \<comment> \<open>pypika's \<^verbatim>\<open>a | b\<close>\<close>
  | CNegate crit                   \<comment> \<open>\<^verbatim>\<open>a.negate()\<close>\<close>
  | CCmp cmp "term" pyval
  | CIsIn "term" pyval
  | CNotIn "term" pyval
  | CBetween "term" pyval pyval
  | CIsNull "term"
  | CNotNull "term"
  | CLike "term" "term" string     \<comment> \<open>\<^verbatim>\<open>filters.Like\<close>: left, right, escape clause\<close>
  | CBackend string "term" pyval   \<comment> \<open>an operator that a database backend overrides\<close>

text \<open>\<^verbatim>\<open>bool(v)\<close>\<close>

fun truthy :: "pyval \<Rightarrow> bool" where
  "truthy VNone = False"
| "truthy (VBool b) = b"
| "truthy (VInt i) = (i \<noteq> 0)"
| "truthy (VStr s) = (s \<noteq> [])"
| "truthy (VList xs) = (xs \<noteq> [])"
| "truthy (VDelta d s m) = (d \<noteq> 0 \<or> s \<noteq> 0 \<or> m \<noteq> 0)"
| "truthy (VEnum i n v) = (i \<longrightarrow> truthy v)"
| "truthy (VInst m k) = True"
| "truthy (VTerm t) = (case t of TCriterion EmptyCriterion \<Rightarrow> False | _ \<Rightarrow> True)"
| "truthy (VObj t n b) = b"
| "truthy (VCallable n) = True"
| "truthy (VCoroutine n) = True"

text \<open>\<^verbatim>\<open>isinstance(v, int)\<close> with the value: booleans and \<^verbatim>\<open>IntEnum\<close> members are integers.\<close>

fun as_int :: "pyval \<Rightarrow> int option" where
  "as_int (VInt i) = Some i"
| "as_int (VBool b) = Some (if b then 1 else 0)"
| "as_int (VEnum True n v) = as_int v"
| "as_int _ = None"

fun isinst :: "pyval \<Rightarrow> pytype \<Rightarrow> bool" where
  "isinst (VBool b) t = (t = PyBool \<or> t = PyInt)"
| "isinst (VInt i) t = (t = PyInt)"
| "isinst (VStr s) t = (t = PyStr)"
| "isinst (VList xs) t = (t = PyJson)"
| "isinst (VDelta d s m) t = (t = PyTimedelta)"
| "isinst (VEnum i n v) t = (i \<and> t = PyInt)"
| "isinst (VObj u n b) t = (t = u \<or> u = PyDatetime \<and> t = PyDate)"
| "isinst _ t = False"

text \<open>\<^verbatim>\<open>v.pk if hasattr(v, "pk") else v\<close>: only model instances have the attribute.\<close>

fun pk_or_self :: "pyval \<Rightarrow> pyval" where
  "pk_or_self (VInst m k) = k"
| "pk_or_self v = v"

section \<open>The interfaces of code that is not in the repository\<close>

record pypika =
  tbl_eq :: "table \<Rightarrow> table \<Rightarrow> bool"       \<comment> \<open>\<^verbatim>\<open>Table.__eq__\<close>\<close>
  tbl_name :: "table \<Rightarrow> string"              \<comment> \<open>\<^verbatim>\<open>get_table_name()\<close>\<close>
  is_aggregate :: "term \<Rightarrow> bool"             \<comment> \<open>truth value of \<^verbatim>\<open>Term.is_aggregate\<close>\<close>

text \<open>
  Documented behaviour of pypika tables: equality is an equivalence, an alias is the name a
  query refers to a table by, a table without one goes by its own name, and tables that
  differ in that name are different.
\<close>

definition pypika_ok :: "pypika \<Rightarrow> bool" where
  "pypika_ok pp \<longleftrightarrow>
     (\<forall>t. tbl_eq pp t t) \<and> (\<forall>t u. tbl_eq pp t u \<longrightarrow> tbl_eq pp u t) \<and>
     (\<forall>t u v. tbl_eq pp t u \<longrightarrow> tbl_eq pp u v \<longrightarrow> tbl_eq pp t v) \<and>
     (\<forall>n s. tbl_name pp (Table n s) = n) \<and> (\<forall>t a. tbl_name pp (TableAs t a) = a) \<and>
     (\<forall>t u. tbl_eq pp t u \<longrightarrow> tbl_name pp t = tbl_name pp u)"

text \<open>\<^verbatim>\<open>t in tables\<close>\<close>

definition tbl_in :: "pypika \<Rightarrow> table \<Rightarrow> table list \<Rightarrow> bool" where
  "tbl_in pp t ts = list_ex (\<lambda>u. tbl_eq pp t u) ts"

text \<open>
  The truth value of a SQL condition on a row is true, false or unknown (\<open>None\<close>). The laws
  are those of the SQL standard for AND, OR and NOT, which is what pypika renders \<^verbatim>\<open>&\<close>,
  \<^verbatim>\<open>|\<close> and \<^verbatim>\<open>negate()\<close> to.
\<close>

type_synonym tv = "bool option"

fun and3 :: "tv \<Rightarrow> tv \<Rightarrow> tv" where
  "and3 (Some False) b = Some False"
| "and3 (Some True) b = b"
| "and3 None b = (if b = Some False then Some False else None)"

fun not3 :: "tv \<Rightarrow> tv" where
  "not3 None = None"
| "not3 (Some b) = Some (\<not> b)"

definition or3 :: "tv \<Rightarrow> tv \<Rightarrow> tv" where
  "or3 a b = not3 (and3 (not3 a) (not3 b))"

definition sql_laws :: "(crit \<Rightarrow> tv) \<Rightarrow> bool" where
  "sql_laws ev \<longleftrightarrow>
     (\<forall>a b. ev (CAnd a b) = and3 (ev a) (ev b)) \<and>
     (\<forall>a b. ev (COr a b) = or3 (ev a) (ev b)) \<and>
     (\<forall>a. ev (CNegate a) = not3 (ev a))"

lemma tv_exhaust: "(a = None \<Longrightarrow> P) \<Longrightarrow> (a = Some True \<Longrightarrow> P) \<Longrightarrow> (a = Some False \<Longrightarrow> P) \<Longrightarrow> P"
  for a :: tv
  by (cases a) auto

lemma and3_ac:
  "and3 a b = and3 b a" "and3 (and3 a b) c = and3 a (and3 b c)" "and3 a (and3 b c) = and3 b (and3 a c)"
  by (rule tv_exhaust [of a]; rule tv_exhaust [of b]; rule tv_exhaust [of c]; simp)+

lemma and3_True [simp]: "and3 a (Some True) = a" "and3 (Some True) a = a"
  by (rule tv_exhaust [of a]; simp)+

lemma not3_not3 [simp]: "not3 (not3 a) = a"
  by (cases a) auto

lemma de_morgan3:
  "not3 (and3 a b) = or3 (not3 a) (not3 b)" "not3 (or3 a b) = and3 (not3 a) (not3 b)"
  by (simp_all add: or3_def)

lemma or3_ac: "or3 a b = or3 b a" "or3 (or3 a b) c = or3 a (or3 b c)"
  by (simp_all add: or3_def and3_ac)

text \<open>
  The Python constructors and comparisons the fields call on values whose classes are outside
  the model (\<^verbatim>\<open>float\<close>, \<^verbatim>\<open>Decimal\<close>, \<^verbatim>\<open>UUID\<close>, dates): \<open>call t v\<close> is \<^verbatim>\<open>T(v)\<close>,
  \<open>lt a b\<close> is \<^verbatim>\<open>a < b\<close>, \<open>str_obj v\<close> is \<^verbatim>\<open>str(v)\<close>.
\<close>

record pylib =
  call :: "pytype \<Rightarrow> pyval \<Rightarrow> pyval res"
  lt :: "pyval \<Rightarrow> pyval \<Rightarrow> bool"
  str_obj :: "pyval \<Rightarrow> string"
  json_loads_ok :: "pyval \<Rightarrow> bool"
  json_dumps :: "pyval \<Rightarrow> string"
  json_loads :: "pyval \<Rightarrow> pyval"
  bytes_decode :: "pyval \<Rightarrow> string res"
  regex_match :: "string \<Rightarrow> nat \<Rightarrow> string \<Rightarrow> bool"
  ipv4_ok :: "pyval \<Rightarrow> bool"
  ipv6_ok :: "pyval \<Rightarrow> bool"
  custom_validator :: "nat \<Rightarrow> pyval \<Rightarrow> bool"

fun py_str :: "pylib \<Rightarrow> pyval \<Rightarrow> string" where
  "py_str lib VNone = ''None''"
| "py_str lib (VBool b) = (if b then ''True'' else ''False'')"
| "py_str lib (VInt i) = str_int i"
| "py_str lib (VStr s) = s"
| "py_str lib v = str_obj lib v"

definition py_lt :: "pylib \<Rightarrow> pyval \<Rightarrow> pyval \<Rightarrow> bool" where
  "py_lt lib a b =
     (case (as_int a, as_int b) of (Some i, Some j) \<Rightarrow> i < j | _ \<Rightarrow> lt lib a b)"

end
