(* ===== verification/ModelFields.thy ===== *)
theory ModelFields
  imports Terms
begin

text \<open>
  The field classes: \<^verbatim>\<open>fields/base.py\<close> (construction, validation, conversion, dialect
  overrides), \<^verbatim>\<open>fields/data.py\<close> (the data fields), the constructors of
  \<^verbatim>\<open>fields/relational.py\<close>, and \<^verbatim>\<open>validators.py\<close>. A field object is the record \<open>field\<close>; its
  Python class, with the attributes that class adds, is the datatype \<open>fclass\<close>. An object
  reference between fields is the name of the target: \<open>reference\<close> is the foreign key's name
  in the same model, \<open>to_field_instance\<close> the model and field name of the target.
\<close>

section \<open>Validators\<close>

datatype validator =
    RegexValidator string nat
  | MaxLengthValidator int
  | MinLengthValidator int
  | MinValueValidator pyval
  | MaxValueValidator pyval
  | CommaSeparatedIntegerListValidator bool
  | Validate_ipv4 | Validate_ipv6 | Validate_ipv46
  | CustomValidator nat

text \<open>\<^verbatim>\<open>isinstance(value, (int, float, Decimal))\<close>\<close>

definition is_numeric :: "pyval \<Rightarrow> bool" where
  "is_numeric v = (isinst v PyInt \<or> isinst v PyFloat \<or> isinst v PyDecimal)"

definition mk_min_value_validator :: "pyval \<Rightarrow> validator res" where
  "mk_min_value_validator v = (if is_numeric v then Inr (MinValueValidator v) else Inl ValidationError)"

definition mk_max_value_validator :: "pyval \<Rightarrow> validator res" where
  "mk_max_value_validator v = (if is_numeric v then Inr (MaxValueValidator v) else Inl ValidationError)"

text \<open>\<^verbatim>\<open>len(v)\<close>\<close>

fun py_len :: "pyval \<Rightarrow> int res" where
  "py_len (VStr s) = Inr (int (length s))"
| "py_len (VList xs) = Inr (int (length xs))"
| "py_len _ = Inl PyTypeError"

text \<open>
  The pattern \<^verbatim>\<open>^(-)?\d+(?:,(-)?\d+)*\Z\<close> (without \<^verbatim>\<open>(-)?\<close> unless negatives are
  allowed) matches a string whose comma-separated parts all are digit strings, each with an
  optional sign. Strings are ASCII here.
\<close>

definition is_digit :: "char \<Rightarrow> bool" where
  "is_digit c = (48 \<le> (of_char c :: nat) \<and> (of_char c :: nat) \<le> 57)"

definition int_part :: "bool \<Rightarrow> string \<Rightarrow> bool" where
  "int_part neg p =
     (let d = (if neg \<and> p \<noteq> [] \<and> hd p = CHR ''-'' then tl p else p)
      in d \<noteq> [] \<and> list_all is_digit d)"

definition csv_int_match :: "bool \<Rightarrow> string \<Rightarrow> bool" where
  "csv_int_match neg s = list_all (int_part neg) (split_chr CHR '','' s)"

text \<open>One call of a validator: it returns, or raises.\<close>

fun run_validator :: "pylib \<Rightarrow> validator \<Rightarrow> pyval \<Rightarrow> unit res" where
  "run_validator lib (RegexValidator p fl) v =
     (case v of VStr s \<Rightarrow> guard_exn (\<not> regex_match lib p fl s) ValidationError
      | _ \<Rightarrow> Inl PyTypeError)"
| "run_validator lib (MaxLengthValidator n) v =
     (if v = VNone then Inl ValidationError
      else rbind (py_len v) (\<lambda>l. guard_exn (l > n) ValidationError))"
| "run_validator lib (MinLengthValidator n) v =
     (if v = VNone then Inl ValidationError
      else rbind (py_len v) (\<lambda>l. guard_exn (l < n) ValidationError))"
| "run_validator lib (MinValueValidator m) v =
     (if \<not> is_numeric v then Inl ValidationError
      else guard_exn (py_lt lib v m) ValidationError)"
| "run_validator lib (MaxValueValidator m) v =
     (if \<not> is_numeric v then Inl ValidationError
      else guard_exn (py_lt lib m v) ValidationError)"
| "run_validator lib (CommaSeparatedIntegerListValidator neg) v =
     (case v of VStr s \<Rightarrow> guard_exn (\<not> csv_int_match neg s) ValidationError
      | _ \<Rightarrow> Inl PyTypeError)"
| "run_validator lib Validate_ipv4 v = guard_exn (\<not> ipv4_ok lib v) ValidationError"
| "run_validator lib Validate_ipv6 v = guard_exn (\<not> ipv6_ok lib v) ValidationError"
| "run_validator lib Validate_ipv46 v =
     (case guard_exn (\<not> ipv4_ok lib v) ValidationError of
        Inr u \<Rightarrow> Inr u
      | Inl _ \<Rightarrow> (case guard_exn (\<not> ipv6_ok lib v) ValidationError of
           Inr u \<Rightarrow> Inr u | Inl _ \<Rightarrow> Inl ValidationError))"
| "run_validator lib (CustomValidator n) v = guard_exn (\<not> custom_validator lib n v) ValidationError"

section \<open>Field objects\<close>

datatype on_delete = CASCADE | RESTRICT | SET_NULL | SET_DEFAULT | NO_ACTION

fun on_delete_str :: "on_delete \<Rightarrow> string" where
  "on_delete_str CASCADE = ''CASCADE''"
| "on_delete_str RESTRICT = ''RESTRICT''"
| "on_delete_str SET_NULL = ''SET NULL''"
| "on_delete_str SET_DEFAULT = ''SET DEFAULT''"
| "on_delete_str NO_ACTION = ''NO ACTION''"

type_synonym enum_type = "(string \<times> pyval) list"  \<comment> \<open>members in order: name, value\<close>

datatype fclass =
    IntField | BigIntField | SmallIntField
  | CharField int                   \<comment> \<open>\<^verbatim>\<open>max_length\<close>\<close>
  | TextField | BooleanField
  | DecimalField int int            \<comment> \<open>\<^verbatim>\<open>max_digits\<close>, \<^verbatim>\<open>decimal_places\<close>\<close>
  | DatetimeField bool bool         \<comment> \<open>\<^verbatim>\<open>auto_now\<close>, \<^verbatim>\<open>auto_now_add\<close>\<close>
  | DateField
  | TimeField bool bool
  | TimeDeltaField | FloatField | JSONField | UUIDField | BinaryField
  | IntEnumField enum_type
  | CharEnumField int enum_type
  | ForeignKeyFieldInstance | OneToOneFieldInstance
  | BackwardFKRelation | BackwardOneToOneRelation
  | ManyToManyFieldInstance

datatype related_name = NoName | NoRelation | RelName string  \<comment> \<open>\<^verbatim>\<open>None\<close>, \<^verbatim>\<open>False\<close>, a name\<close>

text \<open>The attributes of the relational classes; other classes do not have them.\<close>

record relattrs =
  related_model :: "mid option"
  to_field :: "string option"
  to_field_instance :: "(mid \<times> string) option"
  db_constraint :: bool
  model_name :: string
  related_name :: related_name
  on_delete :: on_delete
  relation_field :: string
  relation_source_field :: string
  through :: "string option"
  forward_key :: string
  backward_key :: string
  m2m_generated :: bool
  create_unique_index :: bool

record field =
  fclass :: fclass
  source_field :: "string option"
  generated :: bool
  pk :: bool
  default :: pyval
  null :: bool
  unique :: bool
  index :: bool
  model_field_name :: string
  description :: "string option"
  validators :: "validator list"
  fmodel :: "mid option"
  reference :: "string option"
  rel :: relattrs

definition no_relattrs :: relattrs where
  "no_relattrs = \<lparr> related_model = None, to_field = None, to_field_instance = None,
     db_constraint = True, model_name = [], related_name = NoName, on_delete = CASCADE,
     relation_field = [], relation_source_field = [], through = None, forward_key = [],
     backward_key = [], m2m_generated = False, create_unique_index = True \<rparr>"

text \<open>The class attributes \<^verbatim>\<open>indexable\<close>, \<^verbatim>\<open>has_db_field\<close>, \<^verbatim>\<open>allows_generated\<close>, \<^verbatim>\<open>field_type\<close>
  and \<^verbatim>\<open>skip_to_python_if_native\<close>.\<close>

fun indexable :: "fclass \<Rightarrow> bool" where
  "indexable TextField = False"
| "indexable JSONField = False"
| "indexable BinaryField = False"
| "indexable _ = True"

fun is_relational :: "fclass \<Rightarrow> bool" where
  "is_relational ForeignKeyFieldInstance = True"
| "is_relational OneToOneFieldInstance = True"
| "is_relational BackwardFKRelation = True"
| "is_relational BackwardOneToOneRelation = True"
| "is_relational ManyToManyFieldInstance = True"
| "is_relational _ = False"

definition has_db_field :: "fclass \<Rightarrow> bool" where
  "has_db_field c = (\<not> is_relational c)"

fun allows_generated :: "fclass \<Rightarrow> bool" where
  "allows_generated IntField = True"
| "allows_generated BigIntField = True"
| "allows_generated SmallIntField = True"
| "allows_generated (IntEnumField e) = True"
| "allows_generated _ = False"

fun skip_to_python_if_native :: "fclass \<Rightarrow> bool" where
  "skip_to_python_if_native (DecimalField a b) = True"
| "skip_to_python_if_native DateField = True"
| "skip_to_python_if_native (TimeField a b) = True"
| "skip_to_python_if_native _ = False"

fun field_type :: "fclass \<Rightarrow> pytype" where
  "field_type IntField = PyInt"
| "field_type BigIntField = PyInt"
| "field_type SmallIntField = PyInt"
| "field_type (CharField n) = PyStr"
| "field_type TextField = PyStr"
| "field_type BooleanField = PyBool"
| "field_type (DecimalField a b) = PyDecimal"
| "field_type (DatetimeField a b) = PyDatetime"
| "field_type DateField = PyDate"
| "field_type (TimeField a b) = PyTime"
| "field_type TimeDeltaField = PyTimedelta"
| "field_type FloatField = PyFloat"
| "field_type JSONField = PyJson"
| "field_type UUIDField = PyUUID"
| "field_type BinaryField = PyBytes"
| "field_type (IntEnumField e) = PyInt"
| "field_type (CharEnumField n e) = PyStr"
| "field_type _ = PyRelation"

text \<open>\<^verbatim>\<open>isinstance(field, C)\<close> for the relational classes, which derive from each other.\<close>

definition is_fk :: "fclass \<Rightarrow> bool" where
  "is_fk c = (c = ForeignKeyFieldInstance \<or> c = OneToOneFieldInstance)"

definition is_backward_fk :: "fclass \<Rightarrow> bool" where
  "is_backward_fk c = (c = BackwardFKRelation \<or> c = BackwardOneToOneRelation)"

section \<open>Construction\<close>

text \<open>
  The keyword arguments of \<^verbatim>\<open>Field.__init__\<close>. \<open>None\<close> in an option is an argument left out
  or passed as \<^verbatim>\<open>None\<close>; \<open>kw_index\<close> and \<open>kw_pk\<close> are the deprecated names taken out of
  \<^verbatim>\<open>**kwargs\<close>.
\<close>

record field_args =
  a_source_field :: "string option"
  a_generated :: "bool option"
  a_primary_key :: "bool option"
  a_null :: bool
  a_default :: "pyval option"
  a_unique :: bool
  a_db_index :: "bool option"
  a_description :: "string option"
  a_validators :: "validator list"
  a_index :: "bool option"
  a_pk :: "bool option"

definition no_args :: field_args where
  "no_args = \<lparr> a_source_field = None, a_generated = None, a_primary_key = None, a_null = False,
     a_default = None, a_unique = False, a_db_index = None, a_description = None,
     a_validators = [], a_index = None, a_pk = None \<rparr>"

definition merge_alias :: "bool option \<Rightarrow> bool option \<Rightarrow> bool option res" where
  "merge_alias new old =
     (case old of None \<Rightarrow> Inr new
      | Some b \<Rightarrow> (case new of None \<Rightarrow> Inr (Some b)
           | Some c \<Rightarrow> if c \<noteq> b then Inl ConfigurationError else Inr new))"

definition field_init :: "fclass \<Rightarrow> field_args \<Rightarrow> field res" where
  "field_init c a =
     rbind (merge_alias (a_db_index a) (a_index a)) (\<lambda>db_index.
     rbind (guard_exn (\<not> indexable c \<and> (a_unique a \<or> db_index = Some True)) ConfigurationError) (\<lambda>_.
     rbind (merge_alias (a_primary_key a) (a_pk a)) (\<lambda>primary_key.
     rbind (guard_exn (a_null a \<and> (a_pk a = Some True \<or> primary_key = Some True)) ConfigurationError) (\<lambda>_.
     let is_pk = (primary_key = Some True) in
     Inr \<lparr> fclass = c, source_field = a_source_field a,
           generated = (a_generated a = Some True), pk = is_pk,
           default = (case a_default a of None \<Rightarrow> VNone | Some d \<Rightarrow> d),
           null = a_null a, unique = (is_pk \<or> a_unique a),
           index = (is_pk \<or> db_index = Some True), model_field_name = [],
           description = a_description a, validators = a_validators a,
           fmodel = None, reference = None, rel = no_relattrs \<rparr>))))"

definition plain_field :: "fclass \<Rightarrow> field" where
  "plain_field c = \<lparr> fclass = c, source_field = None, generated = False, pk = False, default = VNone,
     null = False, unique = False, index = False, model_field_name = [], description = None,
     validators = [], fmodel = None, reference = None, rel = no_relattrs \<rparr>"

lemma field_init_no_args: "field_init c no_args = Inr (plain_field c)"
  by (simp add: field_init_def merge_alias_def no_args_def plain_field_def)

text \<open>The subclasses, each checking its own arguments before or after the base class does.\<close>

definition int_field_init :: "fclass \<Rightarrow> field_args \<Rightarrow> field res" where
  "int_field_init c a =
     field_init c
       (if a_primary_key a = Some True \<or> a_pk a = Some True
        then a\<lparr>a_generated := Some (case a_generated a of None \<Rightarrow> True | Some g \<Rightarrow> g)\<rparr> else a)"

definition char_field_init :: "int \<Rightarrow> field_args \<Rightarrow> field res" where
  "char_field_init max_length a =
     (if max_length < 1 then Inl ConfigurationError
      else rbind (field_init (CharField max_length) a) (\<lambda>f.
        Inr (f\<lparr>validators := validators f @ [MaxLengthValidator max_length]\<rparr>)))"

definition text_field_init :: "field_args \<Rightarrow> field res" where
  "text_field_init a =
     (if a_unique a then Inl ConfigurationError
      else if a_db_index a = Some True \<or> a_index a = Some True then Inl ConfigurationError
      else field_init TextField (a\<lparr>a_unique := False, a_db_index := None\<rparr>))"

definition decimal_field_init :: "int \<Rightarrow> int \<Rightarrow> field_args \<Rightarrow> field res" where
  "decimal_field_init max_digits decimal_places a =
     (if max_digits < 1 then Inl ConfigurationError
      else if decimal_places < 0 then Inl ConfigurationError
      else field_init (DecimalField max_digits decimal_places) a)"

definition datetime_field_init :: "bool \<Rightarrow> bool \<Rightarrow> field_args \<Rightarrow> field res" where
  "datetime_field_init auto_now auto_now_add a =
     (if auto_now_add \<and> auto_now then Inl ConfigurationError
      else field_init (DatetimeField auto_now (auto_now \<or> auto_now_add)) a)"

definition time_field_init :: "bool \<Rightarrow> bool \<Rightarrow> field_args \<Rightarrow> field res" where
  "time_field_init auto_now auto_now_add a =
     (if auto_now_add \<and> auto_now then Inl ConfigurationError
      else field_init (TimeField auto_now (auto_now \<or> auto_now_add)) a)"

text \<open>\<^verbatim>\<open>uuid4\<close> is the callable with identity 4.\<close>

definition uuid_field_init :: "field_args \<Rightarrow> field res" where
  "uuid_field_init a =
     field_init UUIDField
       (if (a_primary_key a = Some True \<or> a_pk a = Some True) \<and> a_default a = None
        then a\<lparr>a_default := Some (VCallable 4)\<rparr> else a)"

text \<open>\<^verbatim>\<open>int(item.value)\<close>, and \<^verbatim>\<open>str(item.value)\<close>.\<close>

definition enum_int :: "pylib \<Rightarrow> pyval \<Rightarrow> int res" where
  "enum_int lib v =
     (case as_int v of Some i \<Rightarrow> Inr i
      | None \<Rightarrow> rbind (call lib PyInt v) (\<lambda>w. case as_int w of Some i \<Rightarrow> Inr i | None \<Rightarrow> Inl PyTypeError))"

definition nl :: string where
  "nl = [char_of (10::nat)]"

definition int_enum_check :: "pylib \<Rightarrow> int \<Rightarrow> enum_type \<Rightarrow> unit res" where
  "int_enum_check lib minimum e =
     rfold (\<lambda>(n, v) _. case enum_int lib v of
         Inl x \<Rightarrow> Inl (if exn_isa x PyValueError then ConfigurationError else x)
       | Inr i \<Rightarrow> guard_exn (\<not> (minimum \<le> i \<and> i < 32768)) ConfigurationError) e ()"

definition int_enum_description :: "pylib \<Rightarrow> enum_type \<Rightarrow> string res" where
  "int_enum_description lib e =
     rbind (rmap (\<lambda>(n, v). rbind (enum_int lib v) (\<lambda>i. Inr (n @ '': '' @ str_int i))) e)
       (\<lambda>ls. Inr (take 2048 (join_str nl ls)))"

definition int_enum_field_init ::
    "pylib \<Rightarrow> enum_type \<Rightarrow> string option \<Rightarrow> bool \<Rightarrow> field_args \<Rightarrow> field res" where
  "int_enum_field_init lib e descr gen a =
     rbind (int_enum_check lib (if gen then 1 else - 32768) e) (\<lambda>_.
     rbind (case descr of Some d \<Rightarrow> Inr d | None \<Rightarrow> int_enum_description lib e) (\<lambda>d.
     int_field_init (IntEnumField e) (a\<lparr>a_description := Some d, a_generated := None\<rparr>)))"

definition char_enum_max_length :: "pylib \<Rightarrow> int \<Rightarrow> enum_type \<Rightarrow> int" where
  "char_enum_max_length lib max_length e =
     (if max_length = 0
      then foldl (\<lambda>m (n, v). let l = int (length (py_str lib v)) in if l > m then l else m) max_length e
      else max_length)"

definition char_enum_field_init ::
    "pylib \<Rightarrow> enum_type \<Rightarrow> string option \<Rightarrow> int \<Rightarrow> field_args \<Rightarrow> field res" where
  "char_enum_field_init lib e descr max_length a =
     (let d = (case descr of Some d \<Rightarrow> d
                | None \<Rightarrow> take 2048 (join_str nl (map (\<lambda>(n, v). n @ '': '' @ py_str lib v) e)));
          m = char_enum_max_length lib max_length e
      in rbind (char_field_init m (a\<lparr>a_description := Some d\<rparr>)) (\<lambda>f.
           Inr (f\<lparr>fclass := CharEnumField m e\<rparr>)))"

end
