(* ===== verification/Timezone.thy ===== *)
theory Timezone
  imports Terms
begin

text \<open>
  \<^verbatim>\<open>tortoise/timezone.py\<close>: the time zone settings, which live in the environment of the process,
  and aware and naive values. What the packages datetime, pytz, ciso8601 and decimal compute is
  the record \<open>clock_env\<close>; a time zone is the identity of its object.
\<close>

type_synonym tzinfo = nat

record clock_env =
  environ :: "string \<Rightarrow> string option"              \<comment> \<open>\<^verbatim>\<open>os.environ\<close>\<close>
  pytz_timezone :: "string \<Rightarrow> tzinfo res"           \<comment> \<open>\<^verbatim>\<open>pytz.timezone(name)\<close>\<close>
  pytz_utc :: tzinfo                                \<comment> \<open>\<^verbatim>\<open>pytz.utc\<close>\<close>
  has_localize :: "tzinfo \<Rightarrow> bool"
  tz_localize :: "tzinfo \<Rightarrow> pyval \<Rightarrow> bool option \<Rightarrow> pyval res"  \<comment> \<open>\<^verbatim>\<open>tz.localize(v, is_dst=d)\<close>\<close>
  now_in :: "tzinfo \<Rightarrow> pyval"                       \<comment> \<open>\<^verbatim>\<open>datetime.now(tz)\<close>\<close>
  utcoffset :: "pyval \<Rightarrow> pyval res"
  astimezone :: "tzinfo \<Rightarrow> pyval \<Rightarrow> pyval res"
  replace_tzinfo :: "tzinfo option \<Rightarrow> pyval \<Rightarrow> pyval res"
  dt_time :: "pyval \<Rightarrow> pyval res"                   \<comment> \<open>\<^verbatim>\<open>v.time()\<close>\<close>
  dt_date :: "pyval \<Rightarrow> pyval res"                   \<comment> \<open>\<^verbatim>\<open>v.date()\<close>\<close>
  parse_dt :: "pyval \<Rightarrow> pyval res"                  \<comment> \<open>\<^verbatim>\<open>parse_datetime(v)\<close>\<close>
  fromtimestamp :: "int \<Rightarrow> pyval res"
  time_iso :: "string \<Rightarrow> pyval res"                 \<comment> \<open>\<^verbatim>\<open>time.fromisoformat(v)\<close>\<close>
  quantize :: "int \<Rightarrow> pyval \<Rightarrow> pyval res"           \<comment> \<open>\<^verbatim>\<open>Decimal(v).quantize(...).normalize()\<close>\<close>

section \<open>Settings\<close>

definition get_use_tz :: "clock_env \<Rightarrow> bool" where
  "get_use_tz ce = (environ ce ''USE_TZ'' = Some ''True'')"

text \<open>An empty \<^verbatim>\<open>TIMEZONE\<close> counts as none.\<close>

definition get_timezone :: "clock_env \<Rightarrow> string" where
  "get_timezone ce =
     (case environ ce ''TIMEZONE'' of None \<Rightarrow> ''UTC'' | Some z \<Rightarrow> if z = [] then ''UTC'' else z)"

definition get_default_timezone :: "clock_env \<Rightarrow> tzinfo res" where
  "get_default_timezone ce = pytz_timezone ce (get_timezone ce)"

definition now :: "clock_env \<Rightarrow> pyval res" where
  "now ce =
     (if get_use_tz ce then Inr (now_in ce (pytz_utc ce))
      else rbind (get_default_timezone ce) (\<lambda>tz. Inr (now_in ce tz)))"

definition zone_arg :: "clock_env \<Rightarrow> string option \<Rightarrow> tzinfo res" where
  "zone_arg ce z = (case z of None \<Rightarrow> get_default_timezone ce | Some n \<Rightarrow> pytz_timezone ce n)"

section \<open>Aware and naive values\<close>

text \<open>A value without \<^verbatim>\<open>utcoffset\<close> raises \<^verbatim>\<open>AttributeError\<close>, which is the library's answer.\<close>

definition is_aware :: "clock_env \<Rightarrow> pyval \<Rightarrow> bool res" where
  "is_aware ce v = rbind (utcoffset ce v) (\<lambda>d. Inr (d \<noteq> VNone))"

definition is_naive :: "clock_env \<Rightarrow> pyval \<Rightarrow> bool res" where
  "is_naive ce v = rbind (utcoffset ce v) (\<lambda>d. Inr (d = VNone))"

definition localtime :: "clock_env \<Rightarrow> pyval \<Rightarrow> string option \<Rightarrow> pyval res" where
  "localtime ce v z =
     rbind (if v = VNone then now ce else Inr v) (\<lambda>w.
     rbind (zone_arg ce z) (\<lambda>tz.
     rbind (is_naive ce w) (\<lambda>n.
     if n then Inl PyValueError else astimezone ce tz w)))"

definition make_aware :: "clock_env \<Rightarrow> pyval \<Rightarrow> string option \<Rightarrow> bool option \<Rightarrow> pyval res" where
  "make_aware ce v z is_dst =
     rbind (zone_arg ce z) (\<lambda>tz.
     if has_localize ce tz then tz_localize ce tz v is_dst
     else rbind (is_aware ce v) (\<lambda>a.
       if a then Inl PyValueError else replace_tzinfo ce (Some tz) v))"

definition make_naive :: "clock_env \<Rightarrow> pyval \<Rightarrow> string option \<Rightarrow> pyval res" where
  "make_naive ce v z =
     rbind (zone_arg ce z) (\<lambda>tz.
     rbind (is_naive ce v) (\<lambda>n.
     if n then Inl PyValueError
     else rbind (astimezone ce tz v) (\<lambda>w. replace_tzinfo ce None w)))"

section \<open>Laws of the libraries\<close>

text \<open>
  Documented behaviour of datetime and pytz: only dates with time and times have \<^verbatim>\<open>utcoffset\<close>;
  \<^verbatim>\<open>localize\<close>, \<^verbatim>\<open>astimezone\<close> and \<^verbatim>\<open>now(tz)\<close> give aware datetimes, as \<^verbatim>\<open>replace(tzinfo=tz)\<close>
  does for a datetime, while it keeps the class of a time.
\<close>

definition aware :: "clock_env \<Rightarrow> pyval \<Rightarrow> bool" where
  "aware ce v \<longleftrightarrow> is_aware ce v = Inr True"

definition tz_laws :: "clock_env \<Rightarrow> bool" where
  "tz_laws ce \<longleftrightarrow>
     (\<forall>v d. utcoffset ce v = Inr d \<longrightarrow> isinst v PyDatetime \<or> isinst v PyTime) \<and>
     (\<forall>tz v d w. tz_localize ce tz v d = Inr w \<longrightarrow> isinst w PyDatetime \<and> aware ce w) \<and>
     (\<forall>tz v w. astimezone ce tz v = Inr w \<longrightarrow> isinst w PyDatetime \<and> aware ce w) \<and>
     (\<forall>tz. isinst (now_in ce tz) PyDatetime \<and> aware ce (now_in ce tz)) \<and>
     (\<forall>tz v w t. replace_tzinfo ce tz v = Inr w \<longrightarrow> isinst v t \<longrightarrow> isinst w t) \<and>
     (\<forall>tz v w. replace_tzinfo ce (Some tz) v = Inr w \<longrightarrow> isinst v PyDatetime \<longrightarrow> aware ce w)"

lemma is_naive_not_aware: "is_naive ce v = Inr n \<longleftrightarrow> is_aware ce v = Inr (\<not> n)"
  by (auto simp: is_naive_def is_aware_def rbind_eq_Inr)

lemma localtime_aware:
  assumes "tz_laws ce" "localtime ce v z = Inr w"
  shows "isinst w PyDatetime \<and> aware ce w"
  using assms by (auto simp: localtime_def tz_laws_def rbind_eq_Inr split: if_splits)

lemma make_aware_aware:
  assumes "tz_laws ce" "isinst v PyDatetime" "make_aware ce v z d = Inr w"
  shows "isinst w PyDatetime \<and> aware ce w"
  using assms unfolding tz_laws_def make_aware_def
  by (auto simp: rbind_eq_Inr split: if_splits)

lemma now_aware:
  assumes "tz_laws ce" "now ce = Inr w"
  shows "isinst w PyDatetime \<and> aware ce w"
  using assms by (auto simp: now_def tz_laws_def rbind_eq_Inr split: if_splits)

end
