(* ===== verification/FieldValues.thy ===== *)
theory FieldValues
  imports ModelFields Timezone
begin

text \<open>
  Conversions between Python and the database (\<^verbatim>\<open>to_db_value\<close>, \<^verbatim>\<open>to_python_value\<close>,
  \<^verbatim>\<open>validate\<close> of \<^verbatim>\<open>fields/base.py\<close> and their overrides in \<^verbatim>\<open>fields/data.py\<close>), and the
  per-dialect attributes (\<^verbatim>\<open>get_for_dialect\<close> over the inner classes \<^verbatim>\<open>_db_<dialect>\<close>).
\<close>

section \<open>Validation\<close>

text \<open>\<^verbatim>\<open>value.value\<close> of an enum member, the value itself otherwise.\<close>

fun enum_value :: "pyval \<Rightarrow> pyval" where
  "enum_value (VEnum i n v) = v"
| "enum_value v = v"

definition validate :: "pylib \<Rightarrow> field \<Rightarrow> pyval \<Rightarrow> unit res" where
  "validate lib f v =
     rfold (\<lambda>vd _. if null f \<and> v = VNone then Inr () else run_validator lib vd (enum_value v))
       (validators f) ()"

lemma validate_null [simp]: "null f \<Longrightarrow> validate lib f VNone = Inr ()"
proof -
  assume "null f"
  then have "rfold (\<lambda>vd _. if null f \<and> VNone = VNone then Inr () else run_validator lib vd (enum_value VNone)) vs () = Inr ()" for vs
    by (induction vs) auto
  then show ?thesis by (simp add: validate_def)
qed

lemma rfold_unit_Inr:
  "rfold (\<lambda>x (_::unit). f x) xs () = Inr u \<longleftrightarrow> (\<forall>x\<in>set xs. f x = Inr ())"
  by (induction xs) (auto simp: rbind_eq_Inr)

lemma validate_Inr:
  "validate lib f v = Inr () \<longleftrightarrow>
     (null f \<and> v = VNone) \<or> (\<forall>vd\<in>set (validators f). run_validator lib vd (enum_value v) = Inr ())"
  by (auto simp: validate_def rfold_unit_Inr)

section \<open>Conversions\<close>

text \<open>
  What a conversion may read or write beside its value: whether the \<^verbatim>\<open>instance\<close> argument is a
  model instance (it has \<^verbatim>\<open>_saved_in_db\<close>) and the current value of this field on it; the
  environment of the process with its clock. The result pairs the converted value with the
  value written back to the instance, if any.
\<close>

datatype inst_arg = ModelClass | Instance pyval  \<comment> \<open>an instance with this field's current value\<close>

type_synonym conv = "(pyval \<times> pyval option) res"

text \<open>\<^verbatim>\<open>Field.to_db_value\<close> and \<^verbatim>\<open>Field.to_python_value\<close>\<close>

definition coerce :: "pylib \<Rightarrow> fclass \<Rightarrow> pyval \<Rightarrow> pyval res" where
  "coerce lib c v = (if v \<noteq> VNone \<and> \<not> isinst v (field_type c) then call lib (field_type c) v else Inr v)"

definition base_to_db :: "pylib \<Rightarrow> field \<Rightarrow> pyval \<Rightarrow> pyval res" where
  "base_to_db lib f v = rbind (coerce lib (fclass f) v) (\<lambda>w. rbind (validate lib f w) (\<lambda>_. Inr w))"

definition base_to_python :: "pylib \<Rightarrow> field \<Rightarrow> pyval \<Rightarrow> pyval res" where
  "base_to_python lib f v = rbind (coerce lib (fclass f) v) (\<lambda>w. rbind (validate lib f w) (\<lambda>_. Inr w))"

text \<open>
  \<^verbatim>\<open>timedelta(microseconds=v)\<close> normalises to days, seconds below a day and microseconds below
  a second, and raises when the days leave the range of the type.
\<close>

definition mk_timedelta :: "int \<Rightarrow> pyval res" where
  "mk_timedelta v =
     (let d = v div 86400000000; r = v mod 86400000000
      in if \<bar>d\<bar> > 999999999 then Inl PyOverflowError
         else Inr (VDelta d (r div 1000000) (r mod 1000000)))"

definition timedelta_to_db :: "pylib \<Rightarrow> field \<Rightarrow> pyval \<Rightarrow> pyval res" where
  "timedelta_to_db lib f v =
     rbind (validate lib f v) (\<lambda>_.
       case v of VNone \<Rightarrow> Inr VNone
       | VDelta d s m \<Rightarrow> Inr (VInt ((d * 86400000000) + (s * 1000000) + m))
       | _ \<Rightarrow> Inl PyAttributeError)"

definition timedelta_to_python :: "pylib \<Rightarrow> field \<Rightarrow> pyval \<Rightarrow> pyval res" where
  "timedelta_to_python lib f v =
     rbind (validate lib f v) (\<lambda>_.
       case v of VNone \<Rightarrow> Inr VNone
       | VDelta d s m \<Rightarrow> Inr v
       | _ \<Rightarrow> (case as_int v of Some i \<Rightarrow> mk_timedelta i | None \<Rightarrow> call lib PyTimedelta v))"

text \<open>\<^verbatim>\<open>self.enum_type(value)\<close>: the member with that value, or \<^verbatim>\<open>ValueError\<close>.\<close>

text \<open>\<^verbatim>\<open>==\<close> of enum values: integers compare by number whatever their class.\<close>

definition py_eq :: "pyval \<Rightarrow> pyval \<Rightarrow> bool" where
  "py_eq a b = (case (as_int a, as_int b) of (Some i, Some j) \<Rightarrow> i = j | _ \<Rightarrow> a = b)"

fun enum_find :: "enum_type \<Rightarrow> pyval \<Rightarrow> (string \<times> pyval) option" where
  "enum_find [] v = None"
| "enum_find ((n, w) # e) v = (if py_eq w v then Some (n, w) else enum_find e v)"

definition enum_call :: "bool \<Rightarrow> enum_type \<Rightarrow> pyval \<Rightarrow> pyval res" where
  "enum_call is_int e v =
     (case v of
        VEnum i n w \<Rightarrow> (if map_of e n = Some w \<and> i = is_int then Inr v
            else if i then (case enum_find e w of None \<Rightarrow> Inl PyValueError | Some (m, u) \<Rightarrow> Inr (VEnum is_int m u))
            else Inl PyValueError)
      | _ \<Rightarrow> (case enum_find e v of None \<Rightarrow> Inl PyValueError | Some (n, w) \<Rightarrow> Inr (VEnum is_int n w)))"

definition int_enum_to_python :: "pylib \<Rightarrow> enum_type \<Rightarrow> field \<Rightarrow> pyval \<Rightarrow> pyval res" where
  "int_enum_to_python lib e f v =
     rbind (if v = VNone then Inr VNone else enum_call True e v) (\<lambda>w.
     rbind (validate lib f w) (\<lambda>_. Inr w))"

definition int_enum_to_db :: "pylib \<Rightarrow> enum_type \<Rightarrow> field \<Rightarrow> pyval \<Rightarrow> pyval res" where
  "int_enum_to_db lib e f v =
     rbind (case v of VEnum True n w \<Rightarrow> rbind (enum_int lib w) (\<lambda>i. Inr (VInt i)) | _ \<Rightarrow> Inr v) (\<lambda>u.
     rbind (case as_int u of
              Some i \<Rightarrow> rbind (enum_call True e u) (\<lambda>m. rbind (enum_int lib (enum_value m)) (\<lambda>j. Inr (VInt j)))
            | None \<Rightarrow> Inr u) (\<lambda>w.
     rbind (validate lib f w) (\<lambda>_. Inr w)))"

definition char_enum_to_python :: "pylib \<Rightarrow> enum_type \<Rightarrow> field \<Rightarrow> pyval \<Rightarrow> pyval res" where
  "char_enum_to_python lib e f v =
     rbind (validate lib f v) (\<lambda>_. if v = VNone then Inr VNone else enum_call False e v)"

definition char_enum_to_db :: "pylib \<Rightarrow> enum_type \<Rightarrow> field \<Rightarrow> pyval \<Rightarrow> pyval res" where
  "char_enum_to_db lib e f v =
     rbind (validate lib f v) (\<lambda>_.
       case v of
         VEnum i n w \<Rightarrow> Inr (VStr (py_str lib w))
       | VStr s \<Rightarrow> rbind (enum_call False e v) (\<lambda>m. Inr (VStr (py_str lib (enum_value m))))
       | _ \<Rightarrow> Inr v)"

definition json_to_db :: "pylib \<Rightarrow> field \<Rightarrow> pyval \<Rightarrow> pyval res" where
  "json_to_db lib f v =
     rbind (validate lib f v) (\<lambda>_.
       case v of VNone \<Rightarrow> Inr VNone
       | VStr s \<Rightarrow> (if json_loads_ok lib v then Inr v else Inl FieldError)
       | _ \<Rightarrow> (if isinst v PyBytes
            then (if json_loads_ok lib v then rbind (bytes_decode lib v) (\<lambda>s. Inr (VStr s)) else Inl FieldError)
            else Inr (VStr (json_dumps lib v))))"

definition json_to_python :: "pylib \<Rightarrow> field \<Rightarrow> pyval \<Rightarrow> pyval res" where
  "json_to_python lib f v =
     (if isinst v PyStr \<or> isinst v PyBytes
      then (if json_loads_ok lib v then Inr (json_loads lib v) else Inl FieldError)
      else rbind (validate lib f v) (\<lambda>_. Inr v))"

definition uuid_to_db :: "pylib \<Rightarrow> pyval \<Rightarrow> pyval res" where
  "uuid_to_db lib v = Inr (if truthy v then VStr (py_str lib v) else v)"

definition uuid_to_python :: "pylib \<Rightarrow> pyval \<Rightarrow> pyval res" where
  "uuid_to_python lib v = (if v = VNone \<or> isinst v PyUUID then Inr v else call lib PyUUID v)"

definition decimal_to_python :: "pylib \<Rightarrow> clock_env \<Rightarrow> int \<Rightarrow> field \<Rightarrow> pyval \<Rightarrow> pyval res" where
  "decimal_to_python lib ce places f v =
     rbind (if v \<noteq> VNone then quantize ce places v else Inr v) (\<lambda>w.
     rbind (validate lib f w) (\<lambda>_. Inr w))"

text \<open>\<^verbatim>\<open>auto_now\<close> and \<^verbatim>\<open>auto_now_add\<close>: the clock is read, and written to the instance.\<close>

definition auto_now_applies :: "bool \<Rightarrow> bool \<Rightarrow> inst_arg \<Rightarrow> bool" where
  "auto_now_applies auto_now auto_now_add ia =
     (case ia of ModelClass \<Rightarrow> False
      | Instance cur \<Rightarrow> auto_now \<or> (auto_now_add \<and> cur = VNone))"

definition datetime_to_db ::
    "pylib \<Rightarrow> clock_env \<Rightarrow> bool \<Rightarrow> bool \<Rightarrow> field \<Rightarrow> pyval \<Rightarrow> inst_arg \<Rightarrow> conv" where
  "datetime_to_db lib ce an ana f v ia =
     (if auto_now_applies an ana ia then rbind (now ce) (\<lambda>n. Inr (n, Some n))
      else
        rbind (if v \<noteq> VNone \<and> isinst v PyDatetime \<and> get_use_tz ce
               then rbind (is_naive ce v) (\<lambda>n. if n then make_aware ce v (Some ''UTC'') None else Inr v)
               else Inr v) (\<lambda>w.
        rbind (validate lib f w) (\<lambda>_. Inr (w, None))))"

definition datetime_to_python :: "pylib \<Rightarrow> clock_env \<Rightarrow> field \<Rightarrow> pyval \<Rightarrow> pyval res" where
  "datetime_to_python lib ce f v =
     rbind (if v = VNone then Inr VNone
            else rbind (if isinst v PyDatetime then Inr v
                        else case as_int v of Some i \<Rightarrow> fromtimestamp ce i | None \<Rightarrow> parse_dt ce v) (\<lambda>w.
                 rbind (is_naive ce w) (\<lambda>n.
                 if n then make_aware ce w (Some (get_timezone ce)) None else localtime ce w None)))
       (\<lambda>w. rbind (validate lib f w) (\<lambda>_. Inr w))"

definition parse_date_value :: "clock_env \<Rightarrow> pyval \<Rightarrow> pyval res" where
  "parse_date_value ce v =
     (if v \<noteq> VNone \<and> \<not> isinst v PyDate then rbind (parse_dt ce v) (dt_date ce) else Inr v)"

definition date_to_db :: "pylib \<Rightarrow> clock_env \<Rightarrow> field \<Rightarrow> pyval \<Rightarrow> pyval res" where
  "date_to_db lib ce f v =
     rbind (parse_date_value ce v) (\<lambda>w. rbind (validate lib f w) (\<lambda>_. Inr w))"

definition date_to_python :: "pylib \<Rightarrow> clock_env \<Rightarrow> field \<Rightarrow> pyval \<Rightarrow> pyval res" where
  "date_to_python lib ce f v =
     rbind (parse_date_value ce v) (\<lambda>w. rbind (validate lib f w) (\<lambda>_. Inr w))"

text \<open>\<^verbatim>\<open>value.replace(tzinfo=get_default_timezone())\<close> of a naive value.\<close>

definition time_zoned :: "clock_env \<Rightarrow> pyval \<Rightarrow> pyval res" where
  "time_zoned ce v =
     rbind (is_naive ce v) (\<lambda>n.
     if n then rbind (get_default_timezone ce) (\<lambda>tz. replace_tzinfo ce (Some tz) v) else Inr v)"

definition time_to_db ::
    "pylib \<Rightarrow> clock_env \<Rightarrow> bool \<Rightarrow> bool \<Rightarrow> field \<Rightarrow> pyval \<Rightarrow> inst_arg \<Rightarrow> conv" where
  "time_to_db lib ce an ana f v ia =
     (if auto_now_applies an ana ia
      then rbind (rbind (now ce) (dt_time ce)) (\<lambda>n. Inr (n, Some n))
      else if isinst v PyTimedelta then Inr (v, None)
      else
        rbind (if v \<noteq> VNone \<and> get_use_tz ce then time_zoned ce v else Inr v) (\<lambda>w.
        rbind (validate lib f w) (\<lambda>_. Inr (w, None))))"

definition time_to_python :: "pylib \<Rightarrow> clock_env \<Rightarrow> field \<Rightarrow> pyval \<Rightarrow> pyval res" where
  "time_to_python lib ce f v =
     rbind (case v of VStr s \<Rightarrow> time_iso ce s | _ \<Rightarrow> Inr v) (\<lambda>w.
       if isinst w PyTimedelta then Inr w
       else
         rbind (if v \<noteq> VNone then time_zoned ce w else Inr w) (\<lambda>u.
         rbind (validate lib f u) (\<lambda>_. Inr u)))"

text \<open>Method dispatch on the class of the field.\<close>

definition pure_conv :: "pyval res \<Rightarrow> conv" where
  "pure_conv r = rbind r (\<lambda>v. Inr (v, None))"

fun to_db_class :: "pylib \<Rightarrow> clock_env \<Rightarrow> fclass \<Rightarrow> field \<Rightarrow> pyval \<Rightarrow> inst_arg \<Rightarrow> conv" where
  "to_db_class lib ce (DatetimeField an ana) f v ia = datetime_to_db lib ce an ana f v ia"
| "to_db_class lib ce (TimeField an ana) f v ia = time_to_db lib ce an ana f v ia"
| "to_db_class lib ce DateField f v ia = pure_conv (date_to_db lib ce f v)"
| "to_db_class lib ce TimeDeltaField f v ia = pure_conv (timedelta_to_db lib f v)"
| "to_db_class lib ce JSONField f v ia = pure_conv (json_to_db lib f v)"
| "to_db_class lib ce UUIDField f v ia = pure_conv (uuid_to_db lib v)"
| "to_db_class lib ce (IntEnumField e) f v ia = pure_conv (int_enum_to_db lib e f v)"
| "to_db_class lib ce (CharEnumField n e) f v ia = pure_conv (char_enum_to_db lib e f v)"
| "to_db_class lib ce c f v ia = pure_conv (base_to_db lib f v)"

definition to_db_value :: "pylib \<Rightarrow> clock_env \<Rightarrow> field \<Rightarrow> pyval \<Rightarrow> inst_arg \<Rightarrow> conv" where
  "to_db_value lib ce f v ia = to_db_class lib ce (fclass f) f v ia"

fun to_python_class :: "pylib \<Rightarrow> clock_env \<Rightarrow> fclass \<Rightarrow> field \<Rightarrow> pyval \<Rightarrow> pyval res" where
  "to_python_class lib ce (DecimalField d p) f v = decimal_to_python lib ce p f v"
| "to_python_class lib ce (DatetimeField an ana) f v = datetime_to_python lib ce f v"
| "to_python_class lib ce (TimeField an ana) f v = time_to_python lib ce f v"
| "to_python_class lib ce DateField f v = date_to_python lib ce f v"
| "to_python_class lib ce TimeDeltaField f v = timedelta_to_python lib f v"
| "to_python_class lib ce JSONField f v = json_to_python lib f v"
| "to_python_class lib ce UUIDField f v = uuid_to_python lib v"
| "to_python_class lib ce (IntEnumField e) f v = int_enum_to_python lib e f v"
| "to_python_class lib ce (CharEnumField n e) f v = char_enum_to_python lib e f v"
| "to_python_class lib ce c f v = base_to_python lib f v"

definition to_python_value :: "pylib \<Rightarrow> clock_env \<Rightarrow> field \<Rightarrow> pyval \<Rightarrow> pyval res" where
  "to_python_value lib ce f v = to_python_class lib ce (fclass f) f v"

text \<open>\<^verbatim>\<open>Field.required\<close>\<close>

definition required :: "field \<Rightarrow> bool" where
  "required f = (default f = VNone \<and> \<not> null f \<and> \<not> generated f)"

end
