(* ===== verification/Filters.thy ===== *)
theory Filters
  imports FieldValues
begin

text \<open>
  \<^verbatim>\<open>filters.py\<close>: the LIKE escaping, the value encoders and the filter operators. An operator
  is a name (\<open>filter_op\<close>), because the code compares operators (\<^verbatim>\<open>op == operator.eq\<close>) and
  looks them up in a backend's table of overrides; \<open>apply_op\<close> is the call
  \<^verbatim>\<open>operator(field, value)\<close>. A result \<open>None\<close> is the Python value \<^verbatim>\<open>None\<close>, which the
  operators with the body \<^verbatim>\<open>pass\<close> return.
\<close>

section \<open>LIKE patterns\<close>

definition bs :: char where
  "bs = CHR 0x5C"  \<comment> \<open>the backslash\<close>

definition escape_like :: "string \<Rightarrow> string" where
  "escape_like v =
     replace_chr CHR ''_'' [bs, CHR ''_'']
       (replace_chr CHR ''%'' [bs, CHR ''%''] (replace_chr bs [bs, bs] v))"

text \<open>The default \<^verbatim>\<open>escape\<close> argument of \<^verbatim>\<open>Like\<close>, and the SQL text of the criterion.\<close>

definition like_escape :: string where
  "like_escape = '' ESCAPE '' @ [CHR 0x27, bs, CHR 0x27]"

definition like_sql :: "(term \<Rightarrow> string) \<Rightarrow> term \<Rightarrow> term \<Rightarrow> string \<Rightarrow> string option \<Rightarrow> bool \<Rightarrow> string" where
  "like_sql get_sql left right escape alias with_alias =
     (let sql = get_sql left @ '' LIKE '' @ get_sql right @ escape
      in if with_alias \<and> alias \<noteq> None \<and> alias \<noteq> Some []
         then sql @ '' '' @ [CHR 0x22] @ the alias @ [CHR 0x22] else sql)"

section \<open>Value encoders\<close>

datatype encoder =
    EncList | EncRelatedList field | EncBool | EncString | EncJson
  | EncToDb field                 \<comment> \<open>the bound method \<^verbatim>\<open>field.to_db_value\<close>\<close>

text \<open>\<^verbatim>\<open>for element in values\<close>\<close>

fun py_iter :: "pyval \<Rightarrow> pyval list res" where
  "py_iter (VList xs) = Inr xs"
| "py_iter (VStr s) = Inr (map (\<lambda>c. VStr [c]) s)"
| "py_iter _ = Inl PyTypeError"

text \<open>Filters convert values with the model class as the instance argument.\<close>

definition to_db_cls :: "pylib \<Rightarrow> clock_env \<Rightarrow> field \<Rightarrow> pyval \<Rightarrow> pyval res" where
  "to_db_cls lib ce f v = rbind (to_db_value lib ce f v ModelClass) (\<lambda>(w, _). Inr w)"

definition list_encoder :: "pylib \<Rightarrow> clock_env \<Rightarrow> pyval \<Rightarrow> field \<Rightarrow> pyval res" where
  "list_encoder lib ce values f =
     rbind (py_iter values) (\<lambda>xs. rbind (rmap (to_db_cls lib ce f) xs) (\<lambda>ys. Inr (VList ys)))"

definition related_list_encoder :: "pylib \<Rightarrow> clock_env \<Rightarrow> pyval \<Rightarrow> field \<Rightarrow> pyval res" where
  "related_list_encoder lib ce values f =
     rbind (py_iter values) (\<lambda>xs. rbind (rmap (\<lambda>e. to_db_cls lib ce f (pk_or_self e)) xs) (\<lambda>ys. Inr (VList ys)))"

definition bool_encoder :: "pyval \<Rightarrow> pyval" where
  "bool_encoder v = VBool (truthy v)"

definition string_encoder :: "pylib \<Rightarrow> pyval \<Rightarrow> pyval" where
  "string_encoder lib v = VStr (py_str lib v)"

definition json_encoder :: "pyval \<Rightarrow> pyval" where
  "json_encoder v = v"

text \<open>\<^verbatim>\<open>param["value_encoder"](value, model, field_object)\<close>\<close>

fun apply_encoder :: "pylib \<Rightarrow> clock_env \<Rightarrow> encoder \<Rightarrow> pyval \<Rightarrow> field \<Rightarrow> pyval res" where
  "apply_encoder lib ce EncList v f = list_encoder lib ce v f"
| "apply_encoder lib ce (EncRelatedList g) v f = related_list_encoder lib ce v g"
| "apply_encoder lib ce EncBool v f = Inr (bool_encoder v)"
| "apply_encoder lib ce EncString v f = Inr (string_encoder lib v)"
| "apply_encoder lib ce EncJson v f = Inr (json_encoder v)"
| "apply_encoder lib ce (EncToDb g) v f = to_db_cls lib ce g v"

section \<open>Operators\<close>

datatype date_part =
    DpYear | DpQuarter | DpMonth | DpWeek | DpDay | DpHour | DpMinute | DpSecond | DpMicrosecond

fun date_part_str :: "date_part \<Rightarrow> string" where
  "date_part_str DpYear = ''YEAR''"
| "date_part_str DpQuarter = ''QUARTER''"
| "date_part_str DpMonth = ''MONTH''"
| "date_part_str DpWeek = ''WEEK''"
| "date_part_str DpDay = ''DAY''"
| "date_part_str DpHour = ''HOUR''"
| "date_part_str DpMinute = ''MINUTE''"
| "date_part_str DpSecond = ''SECOND''"
| "date_part_str DpMicrosecond = ''MICROSECOND''"

datatype filter_op =
    OpEq | OpGe | OpLe | OpGt | OpLt        \<comment> \<open>\<^verbatim>\<open>operator.eq\<close> and its kin\<close>
  | OpNotEqual | OpIsIn | OpNotIn | OpBetween | OpIsNull | OpNotNull
  | OpContains | OpStartsWith | OpEndsWith | OpSearch | OpPosixRegex
  | OpIExact | OpIContains | OpIStartsWith | OpIEndsWith
  | OpExtract date_part
  | OpJsonContains | OpJsonContainedBy | OpJsonFilter
  | OpBackend string                        \<comment> \<open>an overriding operator of a backend\<close>

definition cast_varchar :: "term \<Rightarrow> term" where
  "cast_varchar t = TFunc ''CAST'' [VTerm t, VStr ''VARCHAR'']"

definition upper_of :: "pyval \<Rightarrow> term" where
  "upper_of v = TFunc ''UPPER'' [v]"

definition mk_like :: "term \<Rightarrow> pyval \<Rightarrow> crit" where
  "mk_like t v = CLike t (TConst v) like_escape"

definition is_in :: "term \<Rightarrow> pyval \<Rightarrow> crit" where
  "is_in t v = (if truthy v then CIsIn t v else CCmp CmpEq (TWrap (VInt 1)) (VTerm (TWrap (VInt 0))))"

definition not_in :: "term \<Rightarrow> pyval \<Rightarrow> crit" where
  "not_in t v = (if truthy v then COr (CNotIn t v) (CIsNull t)
                 else CCmp CmpEq (TWrap (VInt 1)) (VTerm (TWrap (VInt 1))))"

definition between_and :: "term \<Rightarrow> pyval \<Rightarrow> crit res" where
  "between_and t v =
     (case v of VList (a # b # _) \<Rightarrow> Inr (CBetween t a b)
      | VList _ \<Rightarrow> Inl PyIndexError
      | VStr (a # b # _) \<Rightarrow> Inr (CBetween t (VStr [a]) (VStr [b]))
      | VStr _ \<Rightarrow> Inl PyIndexError
      | _ \<Rightarrow> Inl PyTypeError)"

definition not_equal :: "term \<Rightarrow> pyval \<Rightarrow> crit" where
  "not_equal t v = COr (CCmp CmpNe t v) (CIsNull t)"

definition is_null :: "term \<Rightarrow> pyval \<Rightarrow> crit" where
  "is_null t v = (if truthy v then CIsNull t else CNotNull t)"

definition not_null :: "term \<Rightarrow> pyval \<Rightarrow> crit" where
  "not_null t v = (if truthy v then CNotNull t else CIsNull t)"

text \<open>\<^verbatim>\<open>escape_like(value)\<close> calls a string method on the value.\<close>

definition with_str :: "pyval \<Rightarrow> (string \<Rightarrow> crit) \<Rightarrow> crit res" where
  "with_str v k = (case v of VStr s \<Rightarrow> Inr (k s) | _ \<Rightarrow> Inl PyAttributeError)"

definition contains :: "term \<Rightarrow> pyval \<Rightarrow> crit res" where
  "contains t v = with_str v (\<lambda>s. mk_like (cast_varchar t) (VStr (''%'' @ escape_like s @ ''%'')))"

definition starts_with :: "term \<Rightarrow> pyval \<Rightarrow> crit res" where
  "starts_with t v = with_str v (\<lambda>s. mk_like (cast_varchar t) (VStr (escape_like s @ ''%'')))"

definition ends_with :: "term \<Rightarrow> pyval \<Rightarrow> crit res" where
  "ends_with t v = with_str v (\<lambda>s. mk_like (cast_varchar t) (VStr (''%'' @ escape_like s)))"

definition insensitive_exact :: "pylib \<Rightarrow> term \<Rightarrow> pyval \<Rightarrow> crit" where
  "insensitive_exact lib t v =
     CCmp CmpEq (upper_of (VTerm (cast_varchar t))) (VTerm (upper_of (VStr (py_str lib v))))"

definition insensitive_contains :: "term \<Rightarrow> pyval \<Rightarrow> crit res" where
  "insensitive_contains t v = with_str v (\<lambda>s.
     mk_like (upper_of (VTerm (cast_varchar t))) (VTerm (upper_of (VStr (''%'' @ escape_like s @ ''%'')))))"

definition insensitive_starts_with :: "term \<Rightarrow> pyval \<Rightarrow> crit res" where
  "insensitive_starts_with t v = with_str v (\<lambda>s.
     mk_like (upper_of (VTerm (cast_varchar t))) (VTerm (upper_of (VStr (escape_like s @ ''%'')))))"

definition insensitive_ends_with :: "term \<Rightarrow> pyval \<Rightarrow> crit res" where
  "insensitive_ends_with t v = with_str v (\<lambda>s.
     mk_like (upper_of (VTerm (cast_varchar t))) (VTerm (upper_of (VStr (''%'' @ escape_like s)))))"

definition extract_equal :: "date_part \<Rightarrow> term \<Rightarrow> pyval \<Rightarrow> crit" where
  "extract_equal p t v = CCmp CmpEq (TFunc ''EXTRACT'' [VStr (date_part_str p), VTerm t]) v"

fun apply_op :: "pylib \<Rightarrow> filter_op \<Rightarrow> term \<Rightarrow> pyval \<Rightarrow> crit option res" where
  "apply_op lib OpEq t v = Inr (Some (CCmp CmpEq t v))"
| "apply_op lib OpGe t v = Inr (Some (CCmp CmpGe t v))"
| "apply_op lib OpLe t v = Inr (Some (CCmp CmpLe t v))"
| "apply_op lib OpGt t v = Inr (Some (CCmp CmpGt t v))"
| "apply_op lib OpLt t v = Inr (Some (CCmp CmpLt t v))"
| "apply_op lib OpNotEqual t v = Inr (Some (not_equal t v))"
| "apply_op lib OpIsIn t v = Inr (Some (is_in t v))"
| "apply_op lib OpNotIn t v = Inr (Some (not_in t v))"
| "apply_op lib OpBetween t v = rbind (between_and t v) (\<lambda>c. Inr (Some c))"
| "apply_op lib OpIsNull t v = Inr (Some (is_null t v))"
| "apply_op lib OpNotNull t v = Inr (Some (not_null t v))"
| "apply_op lib OpContains t v = rbind (contains t v) (\<lambda>c. Inr (Some c))"
| "apply_op lib OpStartsWith t v = rbind (starts_with t v) (\<lambda>c. Inr (Some c))"
| "apply_op lib OpEndsWith t v = rbind (ends_with t v) (\<lambda>c. Inr (Some c))"
| "apply_op lib OpSearch t v = Inr None"
| "apply_op lib OpPosixRegex t v = Inl PyNotImplementedError"
| "apply_op lib OpIExact t v = Inr (Some (insensitive_exact lib t v))"
| "apply_op lib OpIContains t v = rbind (insensitive_contains t v) (\<lambda>c. Inr (Some c))"
| "apply_op lib OpIStartsWith t v = rbind (insensitive_starts_with t v) (\<lambda>c. Inr (Some c))"
| "apply_op lib OpIEndsWith t v = rbind (insensitive_ends_with t v) (\<lambda>c. Inr (Some c))"
| "apply_op lib (OpExtract p) t v = Inr (Some (extract_equal p t v))"
| "apply_op lib OpJsonContains t v = Inr None"
| "apply_op lib OpJsonContainedBy t v = Inr None"
| "apply_op lib OpJsonFilter t v = Inr None"
| "apply_op lib (OpBackend n) t v = Inr (Some (CBackend n t v))"

text \<open>\<^verbatim>\<open>FilterInfoDict\<close>; the keys marked \<^verbatim>\<open>NotRequired\<close> are optional.\<close>

record filter_info =
  fi_field :: string
  fi_operator :: filter_op
  fi_backward_key :: "string option"
  fi_table :: "table option"
  fi_value_encoder :: "encoder option"
  fi_source_field :: "string option"

section \<open>What the LIKE operators mean\<close>

text \<open>
  The SQL standard's LIKE with the escape character backslash, as laws on the matching
  relation \<open>like pattern text\<close>: the percent sign stands for any text, the underscore for any
  character, an escaped character and any other character for themselves.
\<close>

definition like_laws :: "(string \<Rightarrow> string \<Rightarrow> bool) \<Rightarrow> bool" where
  "like_laws like \<longleftrightarrow>
     (\<forall>s. like [] s \<longleftrightarrow> s = []) \<and>
     (\<forall>p s. like (CHR ''%'' # p) s \<longleftrightarrow> (\<exists>u v. s = u @ v \<and> like p v)) \<and>
     (\<forall>p s. like (CHR ''_'' # p) s \<longleftrightarrow> (\<exists>c v. s = c # v \<and> like p v)) \<and>
     (\<forall>c p s. like (bs # c # p) s \<longleftrightarrow> (\<exists>v. s = c # v \<and> like p v)) \<and>
     (\<forall>c p s. c \<noteq> CHR ''%'' \<longrightarrow> c \<noteq> CHR ''_'' \<longrightarrow> c \<noteq> bs \<longrightarrow>
        (like (c # p) s \<longleftrightarrow> (\<exists>v. s = c # v \<and> like p v)))"

definition esc1 :: "char \<Rightarrow> string" where
  "esc1 c = (if c = CHR ''%'' \<or> c = CHR ''_'' \<or> c = bs then [bs, c] else [c])"

lemma bs_neq [simp]:
  "bs \<noteq> CHR ''%''" "bs \<noteq> CHR ''_''" "CHR ''%'' \<noteq> bs" "CHR ''_'' \<noteq> bs"
  by (simp_all add: bs_def)

lemma escape_like_simps [simp]:
  "escape_like [] = []" "escape_like (c # v) = esc1 c @ escape_like v"
  by (simp add: escape_like_def)
    (cases "c = bs"; cases "c = CHR ''%''"; cases "c = CHR ''_''"; simp add: escape_like_def esc1_def)

lemma like_lawsD:
  assumes "like_laws like"
  shows "like [] s \<longleftrightarrow> s = []"
    and "like (CHR ''%'' # p) s \<longleftrightarrow> (\<exists>u v. s = u @ v \<and> like p v)"
    and "like (CHR ''_'' # p) s \<longleftrightarrow> (\<exists>c v. s = c # v \<and> like p v)"
    and "like (bs # c # p) s \<longleftrightarrow> (\<exists>v. s = c # v \<and> like p v)"
    and "c \<noteq> CHR ''%'' \<Longrightarrow> c \<noteq> CHR ''_'' \<Longrightarrow> c \<noteq> bs \<Longrightarrow>
          like (c # p) s \<longleftrightarrow> (\<exists>v. s = c # v \<and> like p v)"
  by (use assms in \<open>simp_all add: like_laws_def\<close>)

lemma like_esc1:
  assumes "like_laws like"
  shows "like (esc1 c @ p) s \<longleftrightarrow> (\<exists>v. s = c # v \<and> like p v)"
  by (cases "c = CHR ''%'' \<or> c = CHR ''_'' \<or> c = bs")
    (simp_all add: esc1_def like_lawsD(4,5) [OF assms])

lemma like_escape_append:
  assumes "like_laws like"
  shows "like (escape_like v @ p) s \<longleftrightarrow> (\<exists>t. s = v @ t \<and> like p t)"
  by (induction v arbitrary: s) (auto simp: like_esc1 [OF assms])

lemmas like_percent = like_lawsD(2,1)

text \<open>A matcher that satisfies the laws.\<close>

fun like_ref :: "string \<Rightarrow> string \<Rightarrow> bool" where
  "like_ref [] s = (s = [])"
| "like_ref (c # p) [] = (c = CHR ''%'' \<and> like_ref p [])"
| "like_ref (c # p) (x # s) =
     (if c = CHR ''%'' then like_ref p (x # s) \<or> like_ref (c # p) s
      else if c = CHR ''_'' then like_ref p s
      else if c = bs then (case p of [] \<Rightarrow> False | d # q \<Rightarrow> d = x \<and> like_ref q s)
      else c = x \<and> like_ref p s)"

lemma like_ref_percent: "like_ref (CHR ''%'' # p) s \<longleftrightarrow> (\<exists>u v. s = u @ v \<and> like_ref p v)"
proof (induction s)
  case (Cons x s)
  have "(\<exists>u v. x # s = u @ v \<and> like_ref p v) \<longleftrightarrow>
        like_ref p (x # s) \<or> (\<exists>u v. s = u @ v \<and> like_ref p v)"
    by (auto simp: Cons_eq_append_conv)
  with Cons show ?case by simp
qed simp

lemma like_ref_chars:
  "like_ref (CHR ''_'' # p) s \<longleftrightarrow> (\<exists>c v. s = c # v \<and> like_ref p v)"
  "like_ref (bs # c # p) s \<longleftrightarrow> (\<exists>v. s = c # v \<and> like_ref p v)"
  "c \<noteq> CHR ''%'' \<Longrightarrow> c \<noteq> CHR ''_'' \<Longrightarrow> c \<noteq> bs \<Longrightarrow>
     like_ref (c # p) s \<longleftrightarrow> (\<exists>v. s = c # v \<and> like_ref p v)"
  by (cases s; auto simp: bs_def)+

lemma like_ref_laws: "like_laws like_ref"
  unfolding like_laws_def by (simp add: like_ref_percent like_ref_chars)

text \<open>
  C10. The patterns of \<^verbatim>\<open>contains\<close>, \<^verbatim>\<open>starts_with\<close> and \<^verbatim>\<open>ends_with\<close> match, under any LIKE that
  follows the SQL standard with backslash as the escape character, exactly the texts in which
  the filter value occurs literally (anywhere, at the start, at the end): percent signs,
  underscores and backslashes of the value are not wildcards.
\<close>

theorem like_filters_literal:
  assumes "like_laws like"
  shows "\<exists>p q r.
    apply_op lib OpContains t (VStr v) = Inr (Some (CLike (cast_varchar t) (TConst (VStr p)) like_escape)) \<and>
    apply_op lib OpStartsWith t (VStr v) = Inr (Some (CLike (cast_varchar t) (TConst (VStr q)) like_escape)) \<and>
    apply_op lib OpEndsWith t (VStr v) = Inr (Some (CLike (cast_varchar t) (TConst (VStr r)) like_escape)) \<and>
    (\<forall>s. like p s \<longleftrightarrow> (\<exists>a b. s = a @ v @ b)) \<and>
    (\<forall>s. like q s \<longleftrightarrow> (\<exists>b. s = v @ b)) \<and>
    (\<forall>s. like r s \<longleftrightarrow> (\<exists>a. s = a @ v))"
proof -
  have tail: "like ''%'' s" for s
    using like_percent [OF assms] by blast
  have p: "like (CHR ''%'' # escape_like v @ ''%'') s \<longleftrightarrow> (\<exists>a b. s = a @ v @ b)" for s
    by (auto simp: like_percent [OF assms] like_escape_append [OF assms] tail)
  have q: "like (escape_like v @ ''%'') s \<longleftrightarrow> (\<exists>b. s = v @ b)" for s
    by (simp add: like_escape_append [OF assms] tail)
  have r: "like (CHR ''%'' # escape_like v) s \<longleftrightarrow> (\<exists>a. s = a @ v)" for s
    using like_escape_append [OF assms, of v "[]"] by (auto simp: like_percent [OF assms])
  show ?thesis
    by (auto simp: contains_def starts_with_def ends_with_def with_str_def mk_like_def p q r)
qed

theorem like_filters_literal_witness:
  "like_ref (CHR ''%'' # escape_like ''5%'' @ ''%'') ''cut 5% off'' \<and>
   \<not> like_ref (CHR ''%'' # escape_like ''5%'' @ ''%'') ''cut 50 off''"
proof -
  from like_filters_literal [OF like_ref_laws, of _ "TBare ''n''" "''5%''"]
  have *: "like_ref (CHR ''%'' # escape_like ''5%'' @ ''%'') s \<longleftrightarrow> (\<exists>a b. s = a @ ''5%'' @ b)" for s
    by (auto simp: contains_def with_str_def mk_like_def)
  have "''cut 5% off'' = ''cut '' @ ''5%'' @ '' off''" by simp
  then have "like_ref (CHR ''%'' # escape_like ''5%'' @ ''%'') ''cut 5% off''"
    unfolding * by blast
  moreover have "\<not> like_ref (CHR ''%'' # escape_like ''5%'' @ ''%'') ''cut 50 off''"
    by (simp add: esc1_def bs_def)
  ultimately show ?thesis by simp
qed

end
