(* ===== verification/Dialects.thy ===== *)
theory Dialects
  imports ModelFields
begin

text \<open>
  Per-database attributes of the field classes: the class attributes \<^verbatim>\<open>SQL_TYPE\<close>,
  \<^verbatim>\<open>GENERATED_SQL\<close> and \<^verbatim>\<open>function_cast\<close>, their overrides in the inner classes
  \<^verbatim>\<open>_db_<dialect>\<close> of \<^verbatim>\<open>fields/data.py\<close> (inherited by subclasses that do not redefine them),
  and their resolution by \<^verbatim>\<open>Field.get_for_dialect\<close>.
\<close>

datatype dattr =
    DNone                \<comment> \<open>\<^verbatim>\<open>None\<close>\<close>
  | DStr string
  | DFunction string     \<comment> \<open>a function of that name\<close>
  | DFieldObj            \<comment> \<open>the field object itself\<close>

section \<open>Class attributes\<close>

fun sql_type :: "fclass \<Rightarrow> dattr" where
  "sql_type IntField = DStr ''INT''"
| "sql_type BigIntField = DStr ''BIGINT''"
| "sql_type SmallIntField = DStr ''SMALLINT''"
| "sql_type (CharField n) = DStr (''VARCHAR('' @ str_int n @ '')'')"
| "sql_type TextField = DStr ''TEXT''"
| "sql_type BooleanField = DStr ''BOOL''"
| "sql_type (DecimalField d p) = DStr (''DECIMAL('' @ str_int d @ '','' @ str_int p @ '')'')"
| "sql_type (DatetimeField a b) = DStr ''TIMESTAMP''"
| "sql_type DateField = DStr ''DATE''"
| "sql_type (TimeField a b) = DStr ''TIME''"
| "sql_type TimeDeltaField = DStr ''BIGINT''"
| "sql_type FloatField = DStr ''DOUBLE PRECISION''"
| "sql_type JSONField = DStr ''JSON''"
| "sql_type UUIDField = DStr ''CHAR(36)''"
| "sql_type BinaryField = DStr ''BLOB''"
| "sql_type (IntEnumField e) = DStr ''SMALLINT''"
| "sql_type (CharEnumField n e) = DStr (''VARCHAR('' @ str_int n @ '')'')"
| "sql_type _ = DNone"

text \<open>\<^verbatim>\<open>getattr(self, key, None)\<close> for the keys \<^verbatim>\<open>get_for_dialect\<close> is called with.\<close>

definition class_attr :: "fclass \<Rightarrow> string \<Rightarrow> dattr" where
  "class_attr c key = (if key = ''SQL_TYPE'' then sql_type c else DNone)"

section \<open>The inner classes\<close>

abbreviation gen_sql :: "string \<Rightarrow> (string \<times> dattr) list" where
  "gen_sql s \<equiv> [(''GENERATED_SQL'', DStr s)]"

abbreviation typ_sql :: "string \<Rightarrow> (string \<times> dattr) list" where
  "typ_sql s \<equiv> [(''SQL_TYPE'', DStr s)]"

text \<open>The public entries of the class dictionary of \<^verbatim>\<open>_db_<dialect>\<close>, if the class has one.\<close>

fun int_db :: "string \<Rightarrow> (string \<times> dattr) list option" where
  "int_db d =
     (if d = ''postgres'' then Some (gen_sql ''SERIAL NOT NULL PRIMARY KEY'')
      else if d = ''sqlite'' then Some (gen_sql ''INTEGER PRIMARY KEY AUTOINCREMENT NOT NULL'')
      else if d = ''mysql'' then Some (gen_sql ''INT NOT NULL PRIMARY KEY AUTO_INCREMENT'')
      else if d = ''mssql'' then Some (gen_sql ''INT IDENTITY(1,1) NOT NULL PRIMARY KEY'')
      else if d = ''oracle'' then Some (gen_sql ''INT GENERATED BY DEFAULT AS IDENTITY PRIMARY KEY NOT NULL'')
      else None)"

fun bigint_db :: "string \<Rightarrow> (string \<times> dattr) list option" where
  "bigint_db d =
     (if d = ''postgres'' then Some (gen_sql ''BIGSERIAL NOT NULL PRIMARY KEY'')
      else if d = ''mysql'' then Some (gen_sql ''BIGINT NOT NULL PRIMARY KEY AUTO_INCREMENT'')
      else if d = ''mssql'' then Some (gen_sql ''BIGINT IDENTITY(1,1) NOT NULL PRIMARY KEY'')
      else if d = ''oracle'' then
        Some (typ_sql ''INT'' @ gen_sql ''INT GENERATED BY DEFAULT AS IDENTITY PRIMARY KEY NOT NULL'')
      else int_db d)"

fun smallint_db :: "string \<Rightarrow> (string \<times> dattr) list option" where
  "smallint_db d =
     (if d = ''postgres'' then Some (gen_sql ''SMALLSERIAL NOT NULL PRIMARY KEY'')
      else if d = ''mysql'' then Some (gen_sql ''SMALLINT NOT NULL PRIMARY KEY AUTO_INCREMENT'')
      else if d = ''mssql'' then Some (gen_sql ''SMALLINT IDENTITY(1,1) NOT NULL PRIMARY KEY'')
      else if d = ''oracle'' then
        Some (gen_sql ''SMALLINT GENERATED BY DEFAULT AS IDENTITY PRIMARY KEY NOT NULL'')
      else int_db d)"

text \<open>
  \<^verbatim>\<open>_get_dialects\<close> calls the inner class with the field; only \<^verbatim>\<open>CharField._db_oracle\<close> accepts
  the argument, and then it is the dictionary of the \<^emph>\<open>instance\<close> that is read, which holds
  the attribute \<^verbatim>\<open>field\<close> and not the class's property \<^verbatim>\<open>SQL_TYPE\<close>.
\<close>

fun char_db :: "string \<Rightarrow> (string \<times> dattr) list option" where
  "char_db d = (if d = ''oracle'' then Some [(''field'', DFieldObj)] else None)"

fun text_db :: "string \<Rightarrow> (string \<times> dattr) list option" where
  "text_db d =
     (if d = ''mysql'' then Some (typ_sql ''LONGTEXT'')
      else if d = ''mssql'' then Some (typ_sql ''NVARCHAR(MAX)'')
      else if d = ''oracle'' then Some (typ_sql ''NCLOB'') else None)"

fun boolean_db :: "string \<Rightarrow> (string \<times> dattr) list option" where
  "boolean_db d =
     (if d = ''sqlite'' then Some (typ_sql ''INT'')
      else if d = ''mssql'' then Some (typ_sql ''BIT'')
      else if d = ''oracle'' then Some (typ_sql ''NUMBER(1)'') else None)"

fun decimal_db :: "string \<Rightarrow> (string \<times> dattr) list option" where
  "decimal_db d =
     (if d = ''sqlite'' then Some (typ_sql ''VARCHAR(40)'' @ [(''function_cast'', DFunction ''function_cast'')])
      else None)"

fun datetime_db :: "string \<Rightarrow> (string \<times> dattr) list option" where
  "datetime_db d =
     (if d = ''mysql'' then Some (typ_sql ''DATETIME(6)'')
      else if d = ''postgres'' then Some (typ_sql ''TIMESTAMPTZ'')
      else if d = ''mssql'' then Some (typ_sql ''DATETIME2'')
      else if d = ''oracle'' then Some (typ_sql ''TIMESTAMP WITH TIME ZONE'') else None)"

fun time_db :: "string \<Rightarrow> (string \<times> dattr) list option" where
  "time_db d =
     (if d = ''oracle'' then Some (typ_sql ''NVARCHAR2(8)'')
      else if d = ''mysql'' then Some (typ_sql ''TIME(6)'')
      else if d = ''postgres'' then Some (typ_sql ''TIMETZ'') else None)"

fun timedelta_db :: "string \<Rightarrow> (string \<times> dattr) list option" where
  "timedelta_db d = (if d = ''oracle'' then Some (typ_sql ''NUMBER(19)'') else None)"

fun float_db :: "string \<Rightarrow> (string \<times> dattr) list option" where
  "float_db d =
     (if d = ''sqlite'' then Some (typ_sql ''REAL'')
      else if d = ''mysql'' then Some (typ_sql ''DOUBLE'') else None)"

fun json_db :: "string \<Rightarrow> (string \<times> dattr) list option" where
  "json_db d =
     (if d = ''postgres'' then Some (typ_sql ''JSONB'')
      else if d = ''mssql'' then Some (typ_sql ''NVARCHAR(MAX)'')
      else if d = ''oracle'' then Some (typ_sql ''NCLOB'') else None)"

fun uuid_db :: "string \<Rightarrow> (string \<times> dattr) list option" where
  "uuid_db d = (if d = ''postgres'' then Some (typ_sql ''UUID'') else None)"

fun binary_db :: "string \<Rightarrow> (string \<times> dattr) list option" where
  "binary_db d =
     (if d = ''postgres'' then Some (typ_sql ''BYTEA'')
      else if d = ''mysql'' then Some (typ_sql ''LONGBLOB'')
      else if d = ''mssql'' then Some (typ_sql ''VARBINARY(MAX)'') else None)"

fun dialect_dict :: "fclass \<Rightarrow> string \<Rightarrow> (string \<times> dattr) list option" where
  "dialect_dict IntField d = int_db d"
| "dialect_dict BigIntField d = bigint_db d"
| "dialect_dict SmallIntField d = smallint_db d"
| "dialect_dict (IntEnumField e) d = smallint_db d"
| "dialect_dict (CharField n) d = char_db d"
| "dialect_dict (CharEnumField n e) d = char_db d"
| "dialect_dict TextField d = text_db d"
| "dialect_dict BooleanField d = boolean_db d"
| "dialect_dict (DecimalField a b) d = decimal_db d"
| "dialect_dict (DatetimeField a b) d = datetime_db d"
| "dialect_dict (TimeField a b) d = time_db d"
| "dialect_dict TimeDeltaField d = timedelta_db d"
| "dialect_dict FloatField d = float_db d"
| "dialect_dict JSONField d = json_db d"
| "dialect_dict UUIDField d = uuid_db d"
| "dialect_dict BinaryField d = binary_db d"
| "dialect_dict _ d = None"

section \<open>Resolution\<close>

definition get_for_dialect_class :: "fclass \<Rightarrow> string \<Rightarrow> string \<Rightarrow> dattr" where
  "get_for_dialect_class c dialect key =
     (let data = (case dialect_dict c dialect of None \<Rightarrow> [] | Some xs \<Rightarrow> xs)
      in case map_of data key of Some v \<Rightarrow> v | None \<Rightarrow> class_attr c key)"

definition get_for_dialect :: "field \<Rightarrow> string \<Rightarrow> string \<Rightarrow> dattr" where
  "get_for_dialect f dialect key = get_for_dialect_class (fclass f) dialect key"

definition dialects :: "string list" where
  "dialects = [''mssql'', ''mysql'', ''oracle'', ''postgres'', ''sqlite'']"

text \<open>\<^verbatim>\<open>get_db_field_types\<close>: the default SQL type under the blank key, then the overrides.\<close>

definition get_db_field_types :: "field \<Rightarrow> (string \<times> dattr) list option" where
  "get_db_field_types f =
     (if \<not> has_db_field (fclass f) then None
      else Some (([], sql_type (fclass f)) #
        concat (map (\<lambda>d. case dialect_dict (fclass f) d of None \<Rightarrow> []
             | Some xs \<Rightarrow> (case map_of xs ''SQL_TYPE'' of None \<Rightarrow> [] | Some v \<Rightarrow> [(d, v)])) dialects)))"

end
