(* ===== verification/Indexes.thy ===== *)
theory Indexes
  imports Terms
begin

text \<open>
  The index classes: \<^verbatim>\<open>indexes.py\<close>, \<^verbatim>\<open>contrib/mysql/indexes.py\<close>, \<^verbatim>\<open>contrib/postgres/indexes.py\<close>.
  An index over expressions holds the SQL that pypika writes for each of them; how pypika
  writes a value (\<^verbatim>\<open>ValueWrapper\<close>) is an argument. Their SQL is made in \<open>Schema\<close>.
\<close>

datatype index_class =
    PlainIndex | PartialIndex | FullTextIndex | SpatialIndex
  | PostgreSQLIndex | BloomIndex | BrinIndex | GinIndex | GistIndex | HashIndex | SpGistIndex

record index_obj =
  idx_class :: index_class
  idx_fields :: "string list"
  idx_expressions :: "string list"      \<comment> \<open>\<^verbatim>\<open>expression.get_sql()\<close> of each\<close>
  idx_name :: "string option"
  idx_extra :: string

text \<open>\<^verbatim>\<open>INDEX_TYPE\<close>\<close>

fun index_type :: "index_class \<Rightarrow> string" where
  "index_type FullTextIndex = ''FULLTEXT''"
| "index_type SpatialIndex = ''SPATIAL''"
| "index_type BloomIndex = ''BLOOM''"
| "index_type BrinIndex = ''BRIN''"
| "index_type GinIndex = ''GIN''"
| "index_type GistIndex = ''GIST''"
| "index_type HashIndex = ''HASH''"
| "index_type SpGistIndex = ''SPGIST''"
| "index_type c = []"

fun postgres_index :: "index_class \<Rightarrow> bool" where
  "postgres_index PlainIndex = False"
| "postgres_index PartialIndex = False"
| "postgres_index FullTextIndex = False"
| "postgres_index SpatialIndex = False"
| "postgres_index c = True"

definition index_init :: "index_class \<Rightarrow> string list \<Rightarrow> string list option \<Rightarrow> string option \<Rightarrow> index_obj res" where
  "index_init c expressions names name =
     (let given = (case names of None \<Rightarrow> [] | Some ns \<Rightarrow> ns) in
      if expressions = [] \<and> given = [] then Inl PyValueError
      else if expressions \<noteq> [] \<and> given \<noteq> [] then Inl PyValueError
      else Inr \<lparr> idx_class = c, idx_fields = given, idx_expressions = expressions, idx_name = name, idx_extra = [] \<rparr>)"

text \<open>\<^verbatim>\<open>PartialIndex.__init__\<close>; \<^verbatim>\<open>PostgreSQLIndex.__init__\<close> repeats it.\<close>

definition condition_sql :: "(pyval \<Rightarrow> string) \<Rightarrow> (string, pyval) dict \<Rightarrow> string" where
  "condition_sql wrap condition =
     '' WHERE '' @ join_str '' AND '' (map (\<lambda>(k, v). k @ '' = '' @ wrap v) condition)"

definition partial_index_init ::
    "(pyval \<Rightarrow> string) \<Rightarrow> index_class \<Rightarrow> string list \<Rightarrow> string list option \<Rightarrow> string option \<Rightarrow>
     (string, pyval) dict option \<Rightarrow> index_obj res" where
  "partial_index_init wrap c expressions names name condition =
     rbind (index_init c expressions names name) (\<lambda>i.
     case condition of
       None \<Rightarrow> Inr i
     | Some d \<Rightarrow> Inr (if d \<noteq> [] then i\<lparr>idx_extra := condition_sql wrap d\<rparr> else i))"

definition full_text_init ::
    "string list \<Rightarrow> string list option \<Rightarrow> string option \<Rightarrow> string option \<Rightarrow> index_obj res" where
  "full_text_init expressions names name parser_name =
     rbind (index_init FullTextIndex expressions names name) (\<lambda>i.
     case parser_name of
       None \<Rightarrow> Inr i
     | Some p \<Rightarrow> Inr (if p \<noteq> [] then i\<lparr>idx_extra := '' WITH PARSER '' @ p\<rparr> else i))"

text \<open>An index has either fields or expressions, whichever class made it.\<close>

definition index_wf :: "index_obj \<Rightarrow> bool" where
  "index_wf i \<longleftrightarrow> (idx_fields i = []) \<noteq> (idx_expressions i = [])"

lemma index_init_wf: "index_init c es ns n = Inr i \<Longrightarrow> index_wf i"
  by (auto simp: index_init_def index_wf_def Let_def split: if_splits)

lemma partial_index_wf: "partial_index_init wrap c es ns n d = Inr i \<Longrightarrow> index_wf i"
  using index_init_wf unfolding partial_index_init_def rbind_eq_Inr index_wf_def
  by (fastforce split: option.splits if_splits)

lemma full_text_wf: "full_text_init es ns n p = Inr i \<Longrightarrow> index_wf i"
  using index_init_wf unfolding full_text_init_def rbind_eq_Inr index_wf_def
  by (fastforce split: option.splits if_splits)

end
