(* ===== verification/Meta.thy ===== *)
theory Meta
  imports Filters Dialects Indexes "HOL-Library.List_Lexorder" "HOL-Library.Char_ord"
begin

text \<open>
  The metadata of a model class (\<^verbatim>\<open>MetaInfo\<close> of \<^verbatim>\<open>models.py\<close>) and the tables of filters that
  \<^verbatim>\<open>filters.py\<close> generates for its fields. Python sets of names are lists without repetition,
  in the (unspecified) iteration order of the set. \<^verbatim>\<open>meta.pk\<close> is the name under which the
  primary key's field object stands in \<^verbatim>\<open>fields_map\<close>.
\<close>

section \<open>The record of a model's metadata\<close>

datatype order = Asc | Desc

datatype index_decl =
    IdxFields "string list"              \<comment> \<open>a tuple of field names\<close>
  | IdxObject index_obj

record meta =
  mname :: string
  abstract :: bool
  db_table :: string
  schema :: "string option"
  mapp :: "string option"
  unique_together :: "string list list"
  indexes :: "index_decl list"
  default_ordering :: "(string \<times> order) list"
  ordering_validated :: bool
  field_names :: "string list"          \<comment> \<open>\<^verbatim>\<open>fields\<close>\<close>
  db_fields :: "string list"
  m2m_fields :: "string list"
  fk_fields :: "string list"
  o2o_fields :: "string list"
  backward_fk_fields :: "string list"
  backward_o2o_fields :: "string list"
  fetch_fields :: "string list"
  fields_db_projection :: "(string, string) dict"
  fields_db_projection_reverse :: "(string, string) dict"
  own_filters :: "(string, filter_info) dict"      \<comment> \<open>\<^verbatim>\<open>_filters\<close>\<close>
  filters :: "(string, filter_info) dict"
  fields_map :: "(string, field) dict"
  inited :: bool
  default_connection :: "string option"
  pk_attr :: string
  generated_db_fields :: "string list"
  table_description :: string
  pk_name :: "string option"
  db_pk_column :: string

definition empty_meta :: meta where
  "empty_meta = \<lparr> mname = [], abstract = False, db_table = [], schema = None, mapp = None,
     unique_together = [], indexes = [], default_ordering = [], ordering_validated = False,
     field_names = [], db_fields = [], m2m_fields = [], fk_fields = [], o2o_fields = [],
     backward_fk_fields = [], backward_o2o_fields = [], fetch_fields = [],
     fields_db_projection = [], fields_db_projection_reverse = [], own_filters = [],
     filters = [], fields_map = [], inited = False, default_connection = None, pk_attr = [],
     generated_db_fields = [], table_description = [], pk_name = None, db_pk_column = [] \<rparr>"

text \<open>\<^verbatim>\<open>s.add(x)\<close> and \<^verbatim>\<open>a | b\<close>\<close>

definition set_add :: "'a \<Rightarrow> 'a list \<Rightarrow> 'a list" where
  "set_add x s = (if x \<in> set s then s else s @ [x])"

definition set_union :: "'a list \<Rightarrow> 'a list \<Rightarrow> 'a list" where
  "set_union a b = a @ filter (\<lambda>x. x \<notin> set a) b"

lemma set_set_add [simp]: "set (set_add x s) = insert x (set s)"
  by (auto simp: set_add_def)

lemma set_set_union [simp]: "set (set_union a b) = set a \<union> set b"
  by (auto simp: set_union_def)

lemma distinct_set_add [simp]: "distinct s \<Longrightarrow> distinct (set_add x s)"
  by (simp add: set_add_def)

lemma distinct_set_union [simp]: "distinct a \<Longrightarrow> distinct b \<Longrightarrow> distinct (set_union a b)"
  by (auto simp: set_union_def)

text \<open>\<^verbatim>\<open>meta.pk\<close>, and reading a field object.\<close>

definition meta_pk :: "meta \<Rightarrow> field option" where
  "meta_pk m = (case pk_name m of None \<Rightarrow> None | Some n \<Rightarrow> map_of (fields_map m) n)"

definition get_pk :: "meta \<Rightarrow> field res" where
  "get_pk m = (case meta_pk m of None \<Rightarrow> Inl PyAttributeError | Some f \<Rightarrow> Inr f)"

section \<open>The filters of a field\<close>

definition plain_filter :: "string \<Rightarrow> string \<Rightarrow> filter_op \<Rightarrow> encoder option \<Rightarrow> filter_info" where
  "plain_filter f src op enc =
     \<lparr> fi_field = f, fi_operator = op, fi_backward_key = None, fi_table = None,
       fi_value_encoder = enc, fi_source_field = Some src \<rparr>"

definition table_filter :: "string \<Rightarrow> string \<Rightarrow> table \<Rightarrow> filter_op \<Rightarrow> encoder option \<Rightarrow> filter_info" where
  "table_filter f bk t op enc =
     \<lparr> fi_field = f, fi_operator = op, fi_backward_key = Some bk, fi_table = Some t,
       fi_value_encoder = enc, fi_source_field = None \<rparr>"

text \<open>\<^verbatim>\<open>get_m2m_filters\<close>; \<open>target\<close> is the related model's primary key.\<close>

definition get_m2m_filters :: "string \<Rightarrow> field \<Rightarrow> field \<Rightarrow> (string, filter_info) dict" where
  "get_m2m_filters name f target =
     (let fk = forward_key (rel f); bk = backward_key (rel f);
          t = Table (case through (rel f) of None \<Rightarrow> [] | Some s \<Rightarrow> s) None
      in [(name, table_filter fk bk t OpEq (Some (EncToDb target))),
          (name @ ''__not'', table_filter fk bk t OpNotEqual (Some (EncToDb target))),
          (name @ ''__in'', table_filter fk bk t OpIsIn (Some (EncRelatedList target))),
          (name @ ''__not_in'', table_filter fk bk t OpNotIn (Some (EncRelatedList target)))])"

text \<open>\<^verbatim>\<open>get_backward_fk_filters\<close>; \<open>rm\<close> is the related model's metadata, \<open>target\<close> its \<^verbatim>\<open>pk\<close>.\<close>

definition get_backward_fk_filters :: "string \<Rightarrow> field \<Rightarrow> meta \<Rightarrow> field \<Rightarrow> (string, filter_info) dict" where
  "get_backward_fk_filters name f rm target =
     (let fk = pk_attr rm; bk = relation_field (rel f); t = Table (db_table rm) None
      in [(name, table_filter fk bk t OpEq (Some (EncToDb target))),
          (name @ ''__not'', table_filter fk bk t OpNotEqual (Some (EncToDb target))),
          (name @ ''__in'', table_filter fk bk t OpIsIn (Some (EncRelatedList target))),
          (name @ ''__not_in'', table_filter fk bk t OpNotIn (Some (EncRelatedList target))),
          (name @ ''__isnull'', table_filter fk bk t OpIsNull None),
          (name @ ''__not_isnull'', table_filter fk bk t OpNotNull None)])"

definition get_json_filter :: "string \<Rightarrow> string \<Rightarrow> (string, filter_info) dict" where
  "get_json_filter name src =
     [(name, plain_filter name src OpEq None),
      (name @ ''__not'', plain_filter name src OpNotEqual None),
      (name @ ''__isnull'', plain_filter name src OpIsNull (Some EncBool)),
      (name @ ''__not_isnull'', plain_filter name src OpNotNull (Some EncBool)),
      (name @ ''__contains'', plain_filter name src OpJsonContains None),
      (name @ ''__contained_by'', plain_filter name src OpJsonContainedBy None),
      (name @ ''__filter'', plain_filter name src OpJsonFilter (Some EncJson))]"

text \<open>The last table of \<^verbatim>\<open>get_filters_for_field\<close>: suffix, operator and encoder.\<close>

definition value_filters :: "(string \<times> filter_op \<times> encoder option) list" where
  "value_filters =
     [([], OpEq, None),
      (''__not'', OpNotEqual, None),
      (''__in'', OpIsIn, Some EncList),
      (''__not_in'', OpNotIn, Some EncList),
      (''__isnull'', OpIsNull, Some EncBool),
      (''__not_isnull'', OpNotNull, Some EncBool),
      (''__gte'', OpGe, None),
      (''__lte'', OpLe, None),
      (''__gt'', OpGt, None),
      (''__lt'', OpLt, None),
      (''__range'', OpBetween, Some EncList),
      (''__contains'', OpContains, Some EncString),
      (''__startswith'', OpStartsWith, Some EncString),
      (''__search'', OpSearch, Some EncString),
      (''__endswith'', OpEndsWith, Some EncString),
      (''__iexact'', OpIExact, Some EncString),
      (''__icontains'', OpIContains, Some EncString),
      (''__istartswith'', OpIStartsWith, Some EncString),
      (''__iendswith'', OpIEndsWith, Some EncString),
      (''__posix_regex'', OpPosixRegex, Some EncString),
      (''__year'', OpExtract DpYear, None),
      (''__quarter'', OpExtract DpQuarter, None),
      (''__month'', OpExtract DpMonth, None),
      (''__week'', OpExtract DpWeek, None),
      (''__day'', OpExtract DpDay, None),
      (''__hour'', OpExtract DpHour, None),
      (''__minute'', OpExtract DpMinute, None),
      (''__second'', OpExtract DpSecond, None),
      (''__microsecond'', OpExtract DpMicrosecond, None)]"

text \<open>
  \<^verbatim>\<open>get_filters_for_field(field_name, field, source_field)\<close>. \<open>metas\<close> gives the metadata of
  every model class; the field is \<open>None\<close> for the filters of an annotation.
\<close>

definition get_filters_for_field ::
    "(mid \<Rightarrow> meta) \<Rightarrow> string \<Rightarrow> field option \<Rightarrow> string \<Rightarrow> (string, filter_info) dict res" where
  "get_filters_for_field metas name fo src =
     (case fo of
        Some f \<Rightarrow>
          if fclass f = ManyToManyFieldInstance then
            (case related_model (rel f) of None \<Rightarrow> Inl PyAttributeError
             | Some r \<Rightarrow> rbind (get_pk (metas r)) (\<lambda>target. Inr (get_m2m_filters name f target)))
          else if is_backward_fk (fclass f) then
            (case related_model (rel f) of None \<Rightarrow> Inl PyAttributeError
             | Some r \<Rightarrow> rbind (get_pk (metas r)) (\<lambda>target.
                 Inr (get_backward_fk_filters name f (metas r) target)))
          else if fclass f = JSONField then Inr (get_json_filter name src)
          else
            let actual = (if name = ''pk'' then model_field_name f else name)
            in Inr (map (\<lambda>(suf, op, enc). (name @ suf, plain_filter actual src op enc)) value_filters)
      | None \<Rightarrow> Inr (map (\<lambda>(suf, op, enc). (name @ suf, plain_filter name src op enc)) value_filters))"

section \<open>Operations of \<^verbatim>\<open>MetaInfo\<close>\<close>

definition source_or :: "field \<Rightarrow> string \<Rightarrow> string" where
  "source_or f name = str_or (source_field f) name"

definition finalise_fields :: "meta \<Rightarrow> meta" where
  "finalise_fields m =
     (let fs = map fst (fields_map m)
      in m\<lparr> db_fields := remdups (map snd (fields_db_projection m)),
            field_names := fs,
            fields_db_projection_reverse :=
              dict_update [] (map (\<lambda>(k, v). (v, k)) (fields_db_projection m)),
            fetch_fields :=
              set_union (set_union (set_union (set_union (m2m_fields m) (backward_fk_fields m))
                (fk_fields m)) (backward_o2o_fields m)) (o2o_fields m),
            generated_db_fields :=
              map (\<lambda>(k, f). source_or f (model_field_name f)) (filter (\<lambda>(k, f). generated f) (fields_map m)),
            ordering_validated :=
              list_all (\<lambda>(f, d). split2_head f \<in> set fs) (default_ordering m) \<rparr>)"

definition add_field :: "(mid \<Rightarrow> meta) \<Rightarrow> mid \<Rightarrow> meta \<Rightarrow> string \<Rightarrow> field \<Rightarrow> meta res" where
  "add_field metas self m name v =
     (if dict_has (fields_map m) name then Inl ConfigurationError
      else
        let f = v\<lparr>fmodel := Some self, model_field_name := name\<rparr>;
            m1 = m\<lparr>fields_map := AList.update name f (fields_map m)\<rparr>;
            m2 = (if has_db_field (fclass f)
                  then m1\<lparr>fields_db_projection := AList.update name (source_or f name) (fields_db_projection m1)\<rparr>
                  else m1);
            m3 = (if fclass f = ManyToManyFieldInstance then m2\<lparr>m2m_fields := set_add name (m2m_fields m2)\<rparr>
                  else if fclass f = BackwardOneToOneRelation
                    then m2\<lparr>backward_o2o_fields := set_add name (backward_o2o_fields m2)\<rparr>
                  else if is_backward_fk (fclass f)
                    then m2\<lparr>backward_fk_fields := set_add name (backward_fk_fields m2)\<rparr>
                  else m2)
        in rbind (get_filters_for_field (metas(self := m3)) name (Some f) (source_or f name)) (\<lambda>fl.
             Inr (finalise_fields (m3\<lparr>own_filters := dict_update (own_filters m3) fl\<rparr>))))"

text \<open>\<^verbatim>\<open>_generate_filters\<close>: \<open>ov\<close> is the table \<^verbatim>\<open>FILTER_FUNC_OVERRIDE\<close> of the backend.\<close>

fun generate_filters_loop ::
    "(filter_op, filter_op) dict \<Rightarrow> (string, filter_info) dict \<Rightarrow> (string, filter_info) dict \<Rightarrow> (string, filter_info) dict" where
  "generate_filters_loop ov [] acc = acc"
| "generate_filters_loop ov ((key, fi) # rest) acc =
     generate_filters_loop ov rest
       (AList.update key
          (case map_of ov (fi_operator fi) of None \<Rightarrow> fi | Some op \<Rightarrow> fi\<lparr>fi_operator := op\<rparr>) acc)"

definition generate_filters :: "(filter_op, filter_op) dict \<Rightarrow> meta \<Rightarrow> meta" where
  "generate_filters ov m = m\<lparr>filters := generate_filters_loop ov (own_filters m) (filters m)\<rparr>"

definition get_filter :: "meta \<Rightarrow> string \<Rightarrow> filter_info res" where
  "get_filter m key = dict_at (filters m) key"

definition ordering :: "meta \<Rightarrow> (string \<times> order) list res" where
  "ordering m = (if \<not> ordering_validated m then Inl ConfigurationError else Inr (default_ordering m))"

section \<open>Well-formed metadata\<close>

text \<open>
  What the rest of the ORM relies on: the derived sets and dictionaries agree with
  \<^verbatim>\<open>fields_map\<close>, the projection maps exactly the fields with a database column, and each
  relation is in the set of its kind.
\<close>

definition kind_sets_ok :: "meta \<Rightarrow> bool" where
  "kind_sets_ok m \<longleftrightarrow> (\<forall>n f. map_of (fields_map m) n = Some f \<longrightarrow>
     (n \<in> set (m2m_fields m) \<longleftrightarrow> fclass f = ManyToManyFieldInstance) \<and>
     (n \<in> set (backward_o2o_fields m) \<longleftrightarrow> fclass f = BackwardOneToOneRelation) \<and>
     (n \<in> set (backward_fk_fields m) \<longleftrightarrow> fclass f = BackwardFKRelation))"

definition meta_wf :: "meta \<Rightarrow> bool" where
  "meta_wf m \<longleftrightarrow>
     distinct (map fst (fields_map m)) \<and>
     distinct (map fst (fields_db_projection m)) \<and>
     field_names m = map fst (fields_map m) \<and>
     set (db_fields m) = snd ` set (fields_db_projection m) \<and>
     set (fetch_fields m) = set (m2m_fields m) \<union> set (backward_fk_fields m) \<union> set (fk_fields m)
        \<union> set (backward_o2o_fields m) \<union> set (o2o_fields m) \<and>
     set (fetch_fields m) \<subseteq> set (field_names m) \<and>
     (\<forall>n. dict_has (fields_db_projection m) n \<longleftrightarrow>
          (\<exists>f. map_of (fields_map m) n = Some f \<and> has_db_field (fclass f))) \<and>
     (\<forall>n f. map_of (fields_map m) n = Some f \<longrightarrow> model_field_name f = n) \<and>
     kind_sets_ok m"

text \<open>Every table of filters has the field's own name.\<close>

lemma get_filters_for_field_name:
  "get_filters_for_field metas name fo src = Inr fl \<Longrightarrow> dict_has fl name"
  by (auto simp: get_filters_for_field_def rbind_eq_Inr Let_def dict_has_def get_m2m_filters_def
      get_backward_fk_filters_def get_json_filter_def value_filters_def
      split: option.splits if_splits)

lemma finalise_fields_simps [simp]:
  "fields_map (finalise_fields m) = fields_map m"
  "fields_db_projection (finalise_fields m) = fields_db_projection m"
  "m2m_fields (finalise_fields m) = m2m_fields m"
  "backward_fk_fields (finalise_fields m) = backward_fk_fields m"
  "backward_o2o_fields (finalise_fields m) = backward_o2o_fields m"
  "fk_fields (finalise_fields m) = fk_fields m"
  "o2o_fields (finalise_fields m) = o2o_fields m"
  "field_names (finalise_fields m) = map fst (fields_map m)"
  "pk_attr (finalise_fields m) = pk_attr m"
  "pk_name (finalise_fields m) = pk_name m"
  "db_pk_column (finalise_fields m) = db_pk_column m"
  "db_table (finalise_fields m) = db_table m"
  "own_filters (finalise_fields m) = own_filters m"
  "inited (finalise_fields m) = inited m"
  "set (db_fields (finalise_fields m)) = snd ` set (fields_db_projection m)"
  "set (fetch_fields (finalise_fields m)) = set (m2m_fields m) \<union> set (backward_fk_fields m)
     \<union> set (fk_fields m) \<union> set (backward_o2o_fields m) \<union> set (o2o_fields m)"
  by (auto simp: finalise_fields_def Let_def)

lemma kind_sets_finalise: "kind_sets_ok (generate_filters ov (finalise_fields m)) \<longleftrightarrow> kind_sets_ok m"
  by (simp add: kind_sets_ok_def generate_filters_def)

lemma meta_wf_finalise:
  assumes "meta_wf m"
  shows "meta_wf (generate_filters ov (finalise_fields m))"
proof -
  have "set (fetch_fields (finalise_fields m)) = set (fetch_fields m)" using assms by (simp add: meta_wf_def)
  moreover have "set (fetch_fields m) \<subseteq> fst ` set (fields_map m)" using assms unfolding meta_wf_def by force
  ultimately have "set (fetch_fields (finalise_fields m)) \<subseteq> set (field_names (finalise_fields m))" by auto
  then show ?thesis
    using assms unfolding meta_wf_def kind_sets_finalise
    by (elim conjE, intro conjI) (simp_all add: generate_filters_def del: finalise_fields_simps(16), simp_all)
qed

text \<open>What a successful \<^verbatim>\<open>add_field\<close> has done, field by field.\<close>

lemma add_field_Inr:
  assumes "add_field metas self m name v = Inr m'"
  shows "\<not> dict_has (fields_map m) name"
    and "fields_map m' = AList.update name (v\<lparr>fmodel := Some self, model_field_name := name\<rparr>) (fields_map m)"
    and "fields_db_projection m' =
      (if has_db_field (fclass v) then AList.update name (source_or v name) (fields_db_projection m)
       else fields_db_projection m)"
    and "set (m2m_fields m') = (if fclass v = ManyToManyFieldInstance then insert name (set (m2m_fields m)) else set (m2m_fields m))"
    and "set (backward_o2o_fields m') = (if fclass v = BackwardOneToOneRelation then insert name (set (backward_o2o_fields m)) else set (backward_o2o_fields m))"
    and "set (backward_fk_fields m') = (if fclass v = BackwardFKRelation then insert name (set (backward_fk_fields m)) else set (backward_fk_fields m))"
    and "fk_fields m' = fk_fields m" "o2o_fields m' = o2o_fields m"
    and "field_names m' = map fst (fields_map m')"
    and "set (db_fields m') = snd ` set (fields_db_projection m')"
    and "set (fetch_fields m') = set (m2m_fields m') \<union> set (backward_fk_fields m') \<union> set (fk_fields m')
          \<union> set (backward_o2o_fields m') \<union> set (o2o_fields m')"
    and "pk_attr m' = pk_attr m" "pk_name m' = pk_name m" "db_pk_column m' = db_pk_column m"
    and "db_table m' = db_table m" "inited m' = inited m"
proof -
  define m3 where "m3 = (let f = v\<lparr>fmodel := Some self, model_field_name := name\<rparr>;
        m1 = m\<lparr>fields_map := AList.update name f (fields_map m)\<rparr>;
        m2 = (if has_db_field (fclass f)
              then m1\<lparr>fields_db_projection := AList.update name (source_or f name) (fields_db_projection m1)\<rparr>
              else m1)
     in (if fclass f = ManyToManyFieldInstance then m2\<lparr>m2m_fields := set_add name (m2m_fields m2)\<rparr>
         else if fclass f = BackwardOneToOneRelation
           then m2\<lparr>backward_o2o_fields := set_add name (backward_o2o_fields m2)\<rparr>
         else if is_backward_fk (fclass f)
           then m2\<lparr>backward_fk_fields := set_add name (backward_fk_fields m2)\<rparr>
         else m2))"
  from assms obtain fl where m': "m' = finalise_fields (m3\<lparr>own_filters := dict_update (own_filters m3) fl\<rparr>)"
    and new: "\<not> dict_has (fields_map m) name"
    by (auto simp: add_field_def rbind_eq_Inr Let_def m3_def split: if_splits)
  note m3 = m3_def [unfolded Let_def source_or_def is_backward_fk_def, simplified]
  show "\<not> dict_has (fields_map m) name" by (rule new)
  show "fields_map m' = AList.update name (v\<lparr>fmodel := Some self, model_field_name := name\<rparr>) (fields_map m)"
    by (simp add: m' m3)
  show "fields_db_projection m' =
      (if has_db_field (fclass v) then AList.update name (source_or v name) (fields_db_projection m)
       else fields_db_projection m)"
    by (simp add: m' m3 source_or_def)
  show "set (m2m_fields m') = (if fclass v = ManyToManyFieldInstance then insert name (set (m2m_fields m)) else set (m2m_fields m))"
    "set (backward_o2o_fields m') = (if fclass v = BackwardOneToOneRelation then insert name (set (backward_o2o_fields m)) else set (backward_o2o_fields m))"
    "set (backward_fk_fields m') = (if fclass v = BackwardFKRelation then insert name (set (backward_fk_fields m)) else set (backward_fk_fields m))"
    by (simp_all add: m' m3)
  show "fk_fields m' = fk_fields m" "o2o_fields m' = o2o_fields m" "pk_attr m' = pk_attr m"
    "pk_name m' = pk_name m" "db_pk_column m' = db_pk_column m" "db_table m' = db_table m" "inited m' = inited m"
    by (simp_all add: m' m3)
  show "field_names m' = map fst (fields_map m')" "set (db_fields m') = snd ` set (fields_db_projection m')"
    "set (fetch_fields m') = set (m2m_fields m') \<union> set (backward_fk_fields m') \<union> set (fk_fields m')
          \<union> set (backward_o2o_fields m') \<union> set (o2o_fields m')"
    by (simp_all add: m')
qed

lemma add_field_keeps_wf:
  assumes wf: "meta_wf m" and add: "add_field metas self m name v = Inr m'"
  shows "meta_wf m'"
proof -
  note a = add_field_Inr [OF add]
  have new: "name \<notin> set (map fst (fields_map m))" "map_of (fields_map m) name = None"
    using a(1) by (simp add: dict_has_iff, simp add: dict_has_def)
  have keys: "set (map fst (fields_map m')) = insert name (set (map fst (fields_map m)))"
    by (simp add: a(2) keys_update)
  have not_rel: "name \<notin> set (fetch_fields m)"
    using wf new(1) by (auto simp: meta_wf_def)
  show ?thesis
    unfolding meta_wf_def
  proof (intro conjI)
    show "distinct (map fst (fields_map m'))" "distinct (map fst (fields_db_projection m'))"
      using wf by (simp_all add: a(2,3) meta_wf_def distinct_update)
    show "field_names m' = map fst (fields_map m')" by (rule a(9))
    show "set (db_fields m') = snd ` set (fields_db_projection m')" by (rule a(10))
    show "set (fetch_fields m') = set (m2m_fields m') \<union> set (backward_fk_fields m') \<union> set (fk_fields m')
          \<union> set (backward_o2o_fields m') \<union> set (o2o_fields m')" by (rule a(11))
    show "set (fetch_fields m') \<subseteq> set (field_names m')"
      using wf keys unfolding a(9,11) by (auto simp: a(4-8) meta_wf_def split: if_splits)
    show "\<forall>n. dict_has (fields_db_projection m') n \<longleftrightarrow>
          (\<exists>f. map_of (fields_map m') n = Some f \<and> has_db_field (fclass f))"
      using wf new(2) by (auto simp: a(2,3) meta_wf_def dict_has_update map_of_update)
    show "\<forall>n f. map_of (fields_map m') n = Some f \<longrightarrow> model_field_name f = n"
      using wf by (auto simp: a(2) meta_wf_def map_of_update)
    show "kind_sets_ok m'"
      using wf not_rel unfolding kind_sets_ok_def
      by (auto simp: a(2,4-6) meta_wf_def kind_sets_ok_def map_of_update)
  qed
qed

text \<open>
  C23. Adding a field keeps the metadata of a model well-formed: the derived name sets, the
  column projection and the sets of relations stay in agreement with \<^verbatim>\<open>fields_map\<close>. (Forward
  relations enter the metadata when the class is created, not through \<^verbatim>\<open>add_field\<close>.)
\<close>

theorem add_field_wf:
  assumes "meta_wf m" and "add_field metas self m name v = Inr m'"
  shows "meta_wf m'"
  using assms by (rule add_field_keeps_wf)

theorem add_field_wf_witness:
  "\<exists>m'. add_field (\<lambda>_. empty_meta) (''app'', ''User'') empty_meta ''name'' (plain_field (CharField 20)) = Inr m'
     \<and> meta_wf m' \<and> fields_db_projection m' = [(''name'', ''name'')]"
proof -
  let ?add = "add_field (\<lambda>_. empty_meta) (''app'', ''User'') empty_meta ''name'' (plain_field (CharField 20))"
  have wf: "meta_wf empty_meta"
    by (simp add: meta_wf_def kind_sets_ok_def empty_meta_def dict_has_def)
  obtain m' where m': "?add = Inr m'"
    by (auto simp: add_field_def Let_def empty_meta_def dict_has_def plain_field_def
        get_filters_for_field_def is_backward_fk_def)
  have "fields_db_projection m' = [(''name'', ''name'')]"
    using add_field_Inr(3) [OF m']
    by (simp add: plain_field_def has_db_field_def source_or_def empty_meta_def)
  with m' add_field_wf [OF wf m'] show ?thesis by blast
qed

end
