(* ===== verification/QueryUtils.thy ===== *)
theory QueryUtils
  imports Meta
begin

text \<open>
  \<^verbatim>\<open>query_utils.py\<close>: the joins a relation needs, the criterion that is not there
  (\<^verbatim>\<open>EmptyCriterion\<close>), and \<^verbatim>\<open>QueryModifier\<close>, the pair of a WHERE and a HAVING criterion with
  a list of joins that filters are resolved to. The meaning of a modifier (\<open>mod_sem\<close>) is the
  conjunction of the criteria that are there; the lemmas show that \<^verbatim>\<open>&\<close>, \<^verbatim>\<open>|\<close> and \<^verbatim>\<open>~\<close> of
  modifiers are the three-valued connectives on it, whatever the split between WHERE and HAVING.
\<close>

section \<open>Joins\<close>

type_synonym join = "table \<times> crit"

definition basetable :: "meta \<Rightarrow> table" where
  "basetable m = Table (db_table m) (schema m)"

definition eq_cols :: "table \<Rightarrow> string \<Rightarrow> table \<Rightarrow> string \<Rightarrow> crit" where
  "eq_cols t c u d = CCmp CmpEq (TField t c) (VTerm (TField u d))"

text \<open>\<^verbatim>\<open>field.model\<close>, \<^verbatim>\<open>field.related_model\<close> and the field object \<^verbatim>\<open>to_field_instance\<close>.\<close>

definition opt_attr :: "'a option \<Rightarrow> 'a res" where
  "opt_attr x = (case x of None \<Rightarrow> Inl PyAttributeError | Some a \<Rightarrow> Inr a)"

lemma opt_attr_simps [simp]:
  "opt_attr None = Inl PyAttributeError" "opt_attr (Some a) = Inr a"
  "opt_attr x = Inr a \<longleftrightarrow> x = Some a"
  by (auto simp: opt_attr_def split: option.splits)

definition to_field_obj :: "(mid \<Rightarrow> meta) \<Rightarrow> field \<Rightarrow> field res" where
  "to_field_obj metas f =
     rbind (opt_attr (to_field_instance (rel f))) (\<lambda>(m, n). dict_at (fields_map (metas m)) n)"

definition column_of :: "field \<Rightarrow> string" where
  "column_of f = source_or f (model_field_name f)"

definition get_joins_for_related_field ::
    "(mid \<Rightarrow> meta) \<Rightarrow> pypika \<Rightarrow> table \<Rightarrow> field \<Rightarrow> string \<Rightarrow> join list res" where
  "get_joins_for_related_field metas pp t f fname =
     rbind (opt_attr (related_model (rel f))) (\<lambda>rm.
     let rt = basetable (metas rm) in
     if fclass f = ManyToManyFieldInstance then
       rbind (opt_attr (fmodel f)) (\<lambda>own.
       let thr = Table (case through (rel f) of None \<Rightarrow> [] | Some s \<Rightarrow> s) None in
       Inr [(thr, eq_cols t (db_pk_column (metas own)) thr (backward_key (rel f))),
            (rt, eq_cols thr (forward_key (rel f)) rt (db_pk_column (metas rm)))])
     else if is_backward_fk (fclass f) then
       rbind (to_field_obj metas f) (\<lambda>tf.
       let rt' = (if tbl_eq pp t rt then TableAs rt (tbl_name pp t @ ''__'' @ fname) else rt) in
       Inr [(rt', eq_cols t (column_of tf) rt' (relation_source_field (rel f)))])
     else
       rbind (to_field_obj metas f) (\<lambda>tf.
       rbind (opt_attr (fmodel f)) (\<lambda>own.
       rbind (opt_attr (source_field f)) (\<lambda>sf.
       rbind (dict_at (fields_map (metas own)) sf) (\<lambda>from.
       let rt' = TableAs rt (tbl_name pp t @ ''__'' @ fname) in
       Inr [(rt', eq_cols rt' (column_of tf) t (column_of from))])))))"

lemma get_joins_not_Nil: "get_joins_for_related_field metas pp t f n = Inr js \<Longrightarrow> js \<noteq> []"
  by (auto simp: get_joins_for_related_field_def rbind_eq_Inr Let_def split: if_splits)

section \<open>Criteria\<close>

text \<open>\<^verbatim>\<open>left & right\<close> and \<^verbatim>\<open>left | right\<close>: the method is the left operand's.\<close>

fun crit_and :: "crit \<Rightarrow> crit \<Rightarrow> crit" where
  "crit_and EmptyCriterion b = b"
| "crit_and a b = CAnd a b"

fun crit_or :: "crit \<Rightarrow> crit \<Rightarrow> crit" where
  "crit_or EmptyCriterion b = b"
| "crit_or a b = COr a b"

definition crit_bool :: "crit \<Rightarrow> bool" where
  "crit_bool c = (c \<noteq> EmptyCriterion)"

definition and_crit :: "crit \<Rightarrow> crit \<Rightarrow> crit" where
  "and_crit left right = (if crit_bool left \<and> \<not> crit_bool right then left else crit_and left right)"

definition or_crit :: "crit \<Rightarrow> crit \<Rightarrow> crit" where
  "or_crit left right = (if crit_bool left \<and> \<not> crit_bool right then left else crit_or left right)"

section \<open>Query modifiers\<close>

record modifier =
  where_criterion :: crit
  joins :: "join list"
  having_criterion :: crit

text \<open>The constructor: \<^verbatim>\<open>None\<close> for an argument left out.\<close>

definition mk_modifier :: "crit option \<Rightarrow> join list \<Rightarrow> crit option \<Rightarrow> modifier" where
  "mk_modifier w js h =
     \<lparr> where_criterion = (case w of None \<Rightarrow> EmptyCriterion | Some c \<Rightarrow> c), joins = js,
       having_criterion = (case h of None \<Rightarrow> EmptyCriterion | Some c \<Rightarrow> c) \<rparr>"

abbreviation empty_modifier :: modifier where
  "empty_modifier \<equiv> mk_modifier None [] None"

definition mod_and :: "modifier \<Rightarrow> modifier \<Rightarrow> modifier" where
  "mod_and a b =
     mk_modifier (Some (and_crit (where_criterion a) (where_criterion b))) (joins a @ joins b)
       (Some (and_crit (having_criterion a) (having_criterion b)))"

definition and_criterion :: "modifier \<Rightarrow> crit" where
  "and_criterion a = and_crit (where_criterion a) (having_criterion a)"

definition mod_or :: "modifier \<Rightarrow> modifier \<Rightarrow> modifier" where
  "mod_or a b =
     (if crit_bool (having_criterion a) \<or> crit_bool (having_criterion b)
      then mk_modifier None (joins a @ joins b) (Some (or_crit (and_criterion a) (and_criterion b)))
      else mk_modifier
        (Some (if crit_bool (where_criterion a) \<and> crit_bool (where_criterion b)
               then crit_or (where_criterion a) (where_criterion b)
               else if crit_bool (where_criterion a) then where_criterion a else where_criterion b))
        (joins a @ joins b) None)"

definition mod_not :: "modifier \<Rightarrow> modifier" where
  "mod_not a =
     (if crit_bool (having_criterion a)
      then mk_modifier None (joins a) (Some (CNegate (crit_and (where_criterion a) (having_criterion a))))
      else if crit_bool (where_criterion a)
      then mk_modifier (Some (CNegate (where_criterion a))) (joins a) None
      else mk_modifier None (joins a) None)"

definition get_query_modifiers :: "modifier \<Rightarrow> crit \<times> join list \<times> crit" where
  "get_query_modifiers a = (where_criterion a, joins a, having_criterion a)"

lemma joins_mod [simp]:
  "joins (mk_modifier w js h) = js" "joins (mod_and a b) = joins a @ joins b"
  "joins (mod_or a b) = joins a @ joins b" "joins (mod_not a) = joins a"
  by (simp_all add: mk_modifier_def mod_and_def mod_or_def mod_not_def)

section \<open>The meaning of a modifier\<close>

text \<open>
  The abstract value of a criterion or modifier is \<open>None\<close> when there is no condition and
  \<open>Some\<close> of its three-valued truth otherwise. The absent condition is neutral.
\<close>

fun opt2 :: "(tv \<Rightarrow> tv \<Rightarrow> tv) \<Rightarrow> tv option \<Rightarrow> tv option \<Rightarrow> tv option" where
  "opt2 f None b = b"
| "opt2 f a None = a"
| "opt2 f (Some a) (Some b) = Some (f a b)"

lemma opt2_None [simp]: "opt2 f a None = a"
  by (cases a) auto

lemma opt2_and_ac:
  "opt2 and3 a b = opt2 and3 b a" "opt2 and3 (opt2 and3 a b) c = opt2 and3 a (opt2 and3 b c)"
  "opt2 and3 a (opt2 and3 b c) = opt2 and3 b (opt2 and3 a c)"
  by (cases a; cases b; cases c; simp add: and3_ac)+

definition crit_sem :: "(crit \<Rightarrow> tv) \<Rightarrow> crit \<Rightarrow> tv option" where
  "crit_sem ev c = (if crit_bool c then Some (ev c) else None)"

definition mod_sem :: "(crit \<Rightarrow> tv) \<Rightarrow> modifier \<Rightarrow> tv option" where
  "mod_sem ev a = opt2 and3 (crit_sem ev (where_criterion a)) (crit_sem ev (having_criterion a))"

lemma crit_sem_Empty [simp]: "crit_sem ev EmptyCriterion = None"
  by (simp add: crit_sem_def crit_bool_def)

lemma sql_laws_simps:
  assumes "sql_laws ev"
  shows "ev (CAnd a b) = and3 (ev a) (ev b)" "ev (COr a b) = or3 (ev a) (ev b)"
    "ev (CNegate a) = not3 (ev a)"
  using assms by (simp_all add: sql_laws_def)

lemma crit_and_or_nonempty:
  "crit_bool a \<Longrightarrow> crit_and a b = CAnd a b" "crit_bool a \<Longrightarrow> crit_or a b = COr a b"
  by (cases a; simp add: crit_bool_def)+

lemma crit_sem_and_crit:
  assumes "sql_laws ev"
  shows "crit_sem ev (and_crit a b) = opt2 and3 (crit_sem ev a) (crit_sem ev b)"
    and "crit_sem ev (or_crit a b) = opt2 or3 (crit_sem ev a) (crit_sem ev b)"
  by (cases "crit_bool a"; cases "crit_bool b";
      simp add: and_crit_def or_crit_def crit_and_or_nonempty crit_sem_def sql_laws_simps [OF assms];
      simp add: crit_bool_def)+

lemma crit_sem_negate:
  assumes "sql_laws ev"
  shows "crit_sem ev (CNegate a) = Some (not3 (ev a))"
  by (simp add: crit_sem_def crit_bool_def sql_laws_simps [OF assms])

lemma mod_sem_mk [simp]:
  "mod_sem ev (mk_modifier (Some w) js None) = crit_sem ev w"
  "mod_sem ev (mk_modifier None js (Some h)) = crit_sem ev h"
  "mod_sem ev (mk_modifier None js None) = None"
  by (simp_all add: mod_sem_def mk_modifier_def)

lemma mod_sem_and:
  assumes "sql_laws ev"
  shows "mod_sem ev (mod_and a b) = opt2 and3 (mod_sem ev a) (mod_sem ev b)"
  by (simp add: mod_sem_def mod_and_def mk_modifier_def crit_sem_and_crit [OF assms] opt2_and_ac)

lemma mod_sem_or:
  assumes "sql_laws ev"
  shows "mod_sem ev (mod_or a b) = opt2 or3 (mod_sem ev a) (mod_sem ev b)"
proof (cases "crit_bool (having_criterion a) \<or> crit_bool (having_criterion b)")
  case True
  then show ?thesis
    by (simp add: mod_or_def crit_sem_and_crit [OF assms] and_criterion_def mod_sem_def mk_modifier_def)
next
  case False
  then have "mod_sem ev a = crit_sem ev (where_criterion a)" "mod_sem ev b = crit_sem ev (where_criterion b)"
    by (simp_all add: mod_sem_def crit_sem_def)
  with False show ?thesis
    by (auto simp: mod_or_def crit_sem_def crit_and_or_nonempty sql_laws_simps [OF assms])
      (simp_all add: crit_bool_def)
qed

lemma mod_sem_not:
  assumes "sql_laws ev"
  shows "mod_sem ev (mod_not a) = map_option not3 (mod_sem ev a)"
proof (cases "crit_bool (having_criterion a)")
  case True
  then have "crit_sem ev (and_crit (where_criterion a) (having_criterion a))
    = Some (ev (crit_and (where_criterion a) (having_criterion a)))"
    by (cases "where_criterion a") (simp_all add: and_crit_def crit_sem_def crit_bool_def)
  then have "mod_sem ev a = Some (ev (crit_and (where_criterion a) (having_criterion a)))"
    by (simp add: mod_sem_def crit_sem_and_crit [OF assms])
  with True show ?thesis
    by (simp add: mod_not_def crit_sem_negate [OF assms])
next
  case False
  then show ?thesis
    by (auto simp: mod_not_def mod_sem_def crit_sem_def mk_modifier_def sql_laws_simps [OF assms])
      (simp_all add: crit_bool_def)
qed

text \<open>
  C28. The operators of \<^verbatim>\<open>QueryModifier\<close> are the SQL connectives: for every reading of criteria
  that follows SQL's three-valued AND, OR and NOT, the conjunction of the WHERE and HAVING
  parts of \<^verbatim>\<open>a & b\<close>, \<^verbatim>\<open>a | b\<close> and \<^verbatim>\<open>~a\<close> is the connective applied to those of \<^verbatim>\<open>a\<close> and
  \<^verbatim>\<open>b\<close>, an absent condition being neutral; and no join is lost, added or reordered.
\<close>

theorem modifier_algebra:
  assumes "sql_laws ev"
  shows "mod_sem ev (mod_and a b) = opt2 and3 (mod_sem ev a) (mod_sem ev b)
       \<and> mod_sem ev (mod_or a b) = opt2 or3 (mod_sem ev a) (mod_sem ev b)
       \<and> mod_sem ev (mod_not a) = map_option not3 (mod_sem ev a)
       \<and> joins (mod_and a b) = joins a @ joins b \<and> joins (mod_or a b) = joins a @ joins b
       \<and> joins (mod_not a) = joins a"
  by (simp add: mod_sem_and [OF assms] mod_sem_or [OF assms] mod_sem_not [OF assms])

text \<open>A reading of criteria on a row: which comparisons hold, are unknown, or fail.\<close>

fun eval_crit :: "(crit \<Rightarrow> tv) \<Rightarrow> crit \<Rightarrow> tv" where
  "eval_crit atom (CAnd a b) = and3 (eval_crit atom a) (eval_crit atom b)"
| "eval_crit atom (COr a b) = or3 (eval_crit atom a) (eval_crit atom b)"
| "eval_crit atom (CNegate a) = not3 (eval_crit atom a)"
| "eval_crit atom c = atom c"

lemma eval_crit_laws: "sql_laws (eval_crit atom)"
  by (simp add: sql_laws_def)

theorem modifier_algebra_witness:
  "mod_sem (eval_crit (\<lambda>c. if c = CIsNull (TBare ''a'') then Some True else None))
     (mod_not (mod_or (mk_modifier (Some (CIsNull (TBare ''a''))) [] None)
                      (mk_modifier None [] (Some (CNotNull (TBare ''b''))))))
   = Some (Some False)"
  unfolding modifier_algebra [OF eval_crit_laws, THEN conjunct2, THEN conjunct2, THEN conjunct1]
    modifier_algebra [OF eval_crit_laws, THEN conjunct2, THEN conjunct1]
  by (simp add: crit_sem_def crit_bool_def or3_def)

end
