(* ===== verification/Samples.thy ===== *)
theory Samples
  imports QueryUtils
begin

text \<open>
  Concrete instances of the parameters of the model, on which the witnesses evaluate: a pypika
  whose tables are equal when they are the same call, a Python library of constant answers, a
  clock, and the metadata of a small model that \<open>add_field\<close> builds.
\<close>

fun sample_tbl_name :: "table \<Rightarrow> string" where
  "sample_tbl_name (Table n s) = n"
| "sample_tbl_name (TableAs t a) = a"

definition sample_pp :: pypika where
  "sample_pp = \<lparr> tbl_eq = (=), tbl_name = sample_tbl_name, is_aggregate = (\<lambda>t. case t of TFunc n xs \<Rightarrow> True | _ \<Rightarrow> False) \<rparr>"

lemma sample_pp_ok: "pypika_ok sample_pp"
  by (auto simp: pypika_ok_def sample_pp_def)

lemma sample_pp_simps [simp]:
  "tbl_eq sample_pp = (=)" "tbl_name sample_pp = sample_tbl_name"
  by (simp_all add: sample_pp_def)

definition sample_lib :: pylib where
  "sample_lib = \<lparr> call = (\<lambda>t v. Inl PyTypeError), lt = (\<lambda>a b. False), str_obj = (\<lambda>v. ''obj''),
     json_loads_ok = (\<lambda>v. True), json_dumps = (\<lambda>v. ''null''), json_loads = (\<lambda>v. VNone),
     bytes_decode = (\<lambda>v. Inr []), regex_match = (\<lambda>p f s. True), ipv4_ok = (\<lambda>v. True),
     ipv6_ok = (\<lambda>v. True), custom_validator = (\<lambda>n v. True) \<rparr>"

text \<open>In UTC; the objects 0, 1 and 2 are an aware datetime, a naive one and an aware time.\<close>

definition sample_ce :: clock_env where
  "sample_ce = \<lparr> environ = (\<lambda>n. None), pytz_timezone = (\<lambda>n. if n = ''UTC'' then Inr 0 else Inl PyKeyError),
     pytz_utc = 0, has_localize = (\<lambda>z. True),
     tz_localize = (\<lambda>z v d. Inr (VObj PyDatetime 0 True)), now_in = (\<lambda>z. VObj PyDatetime 0 True),
     utcoffset = (\<lambda>v. if v = VObj PyDatetime 0 True \<or> v = VObj PyTime 2 True then Inr (VDelta 0 0 0)
        else if v = VObj PyDatetime 1 True then Inr VNone else Inl PyAttributeError),
     astimezone = (\<lambda>z v. Inr (VObj PyDatetime 0 True)),
     replace_tzinfo = (\<lambda>z v. case z of Some t \<Rightarrow> if isinst v PyDatetime then Inr (VObj PyDatetime 0 True) else Inl PyTypeError
        | None \<Rightarrow> Inl PyTypeError),
     dt_time = (\<lambda>v. Inr (VObj PyTime 2 True)), dt_date = (\<lambda>v. Inr (VObj PyDate 0 True)),
     parse_dt = (\<lambda>v. Inr (VObj PyDatetime 1 True)), fromtimestamp = (\<lambda>i. Inr (VObj PyDatetime 1 True)),
     time_iso = (\<lambda>s. Inr (VObj PyTime 2 True)), quantize = (\<lambda>p v. Inr (VObj PyDecimal 0 True)) \<rparr>"

text \<open>A model with a key and a name, and a second one that refers to it.\<close>

definition sample_user :: mid where
  "sample_user = (''app'', ''User'')"

definition pk_field :: field where
  "pk_field = (plain_field IntField)\<lparr>pk := True, unique := True, index := True, generated := True\<rparr>"

definition id_field :: field where
  "id_field = pk_field\<lparr>model_field_name := ''id'', fmodel := Some sample_user\<rparr>"

definition name_field :: field where
  "name_field = (plain_field (CharField 20))\<lparr>model_field_name := ''name'', fmodel := Some sample_user\<rparr>"

definition sample_meta :: meta where
  "sample_meta = empty_meta\<lparr>mname := ''User'', mapp := Some ''app'', db_table := ''user'', pk_attr := ''id'',
     pk_name := Some ''id'', db_pk_column := ''id'', field_names := [''id'', ''name''],
     db_fields := [''id'', ''name''], fields_map := [(''id'', id_field), (''name'', name_field)],
     fields_db_projection := [(''id'', ''id''), (''name'', ''name'')],
     fields_db_projection_reverse := [(''id'', ''id''), (''name'', ''name'')],
     generated_db_fields := [''id''],
     filters := [(''id__gt'', plain_filter ''id'' ''id'' OpGt None),
                 (''name'', plain_filter ''name'' ''name'' OpEq None)]\<rparr>"

text \<open>A post has a key and an author, as \<^verbatim>\<open>_init_relations\<close> leaves them.\<close>

definition sample_post :: mid where
  "sample_post = (''app'', ''Post'')"

definition author_field :: field where
  "author_field = (plain_field ForeignKeyFieldInstance)\<lparr>source_field := Some ''author_id'',
     model_field_name := ''author'', fmodel := Some sample_post,
     rel := no_relattrs\<lparr>related_model := Some sample_user, to_field_instance := Some (sample_user, ''id'')\<rparr>\<rparr>"

definition author_id_field :: field where
  "author_id_field = (plain_field IntField)\<lparr>reference := Some ''author'', model_field_name := ''author_id'',
     fmodel := Some sample_post\<rparr>"

definition sample_post_meta :: meta where
  "sample_post_meta = empty_meta\<lparr>mname := ''Post'', mapp := Some ''app'', db_table := ''post'', pk_attr := ''id'',
     pk_name := Some ''id'', db_pk_column := ''id'', field_names := [''id'', ''author'', ''author_id''],
     db_fields := [''id'', ''author_id''],
     fields_map := [(''id'', id_field\<lparr>fmodel := Some sample_post\<rparr>), (''author'', author_field), (''author_id'', author_id_field)],
     fields_db_projection := [(''id'', ''id''), (''author_id'', ''author_id'')],
     fields_db_projection_reverse := [(''id'', ''id''), (''author_id'', ''author_id'')],
     generated_db_fields := [''id''], fk_fields := [''author''], fetch_fields := [''author''],
     filters := [(''id__gt'', plain_filter ''id'' ''id'' OpGt None),
                 (''author_id'', plain_filter ''author_id'' ''author_id'' OpEq None)]\<rparr>"

definition sample_metas :: "mid \<Rightarrow> meta" where
  "sample_metas = (\<lambda>k. if k = sample_post then sample_post_meta else sample_meta)"

end
