(* ===== verification/FieldProofs.thy ===== *)
theory FieldProofs
  imports Samples
begin

text \<open>
  What the conversions of \<open>FieldValues\<close> guarantee: the values a field reads have its Python
  type, what a field sends keeps within its column, and a value that was sent is read back.
\<close>

section \<open>Laws of the libraries\<close>

text \<open>\<^verbatim>\<open>T(v)\<close> gives a \<^verbatim>\<open>T\<close>, and the parsers give what their names say.\<close>

definition call_typed :: "pylib \<Rightarrow> bool" where
  "call_typed lib \<longleftrightarrow> (\<forall>t v w. call lib t v = Inr w \<longrightarrow> isinst w t)"

definition parse_typed :: "clock_env \<Rightarrow> bool" where
  "parse_typed ce \<longleftrightarrow>
     (\<forall>v w. parse_dt ce v = Inr w \<longrightarrow> isinst w PyDatetime) \<and>
     (\<forall>i w. fromtimestamp ce i = Inr w \<longrightarrow> isinst w PyDatetime) \<and>
     (\<forall>v w. dt_date ce v = Inr w \<longrightarrow> isinst w PyDate) \<and>
     (\<forall>s w. time_iso ce s = Inr w \<longrightarrow> isinst w PyTime) \<and>
     (\<forall>p v w. quantize ce p v = Inr w \<longrightarrow> isinst w PyDecimal)"

lemma sample_tz_laws: "tz_laws sample_ce"
proof -
  have "isinst (VObj PyDatetime 0 True) t" if "isinst v PyDatetime" "isinst v t" for v t
    using that by (cases v) auto
  moreover have "aware sample_ce (VObj PyDatetime 0 True)"
    by (simp add: aware_def is_aware_def sample_ce_def)
  ultimately show ?thesis
    unfolding tz_laws_def
    by (auto simp: sample_ce_def split: if_splits option.splits)
qed

lemma sample_parse_typed: "parse_typed sample_ce"
  by (simp add: parse_typed_def sample_ce_def)

lemma sample_call_typed: "call_typed sample_lib"
  by (simp add: call_typed_def sample_lib_def)

section \<open>Types\<close>

text \<open>The values an attribute of each field class may have once it is read.\<close>

definition typed_value :: "clock_env \<Rightarrow> fclass \<Rightarrow> pyval \<Rightarrow> bool" where
  "typed_value ce c v \<longleftrightarrow> v = VNone \<or>
     (case c of
        DatetimeField an ana \<Rightarrow> isinst v PyDatetime \<and> aware ce v
      | TimeField an ana \<Rightarrow> isinst v PyTimedelta \<or> isinst v PyTime \<or> isinst v PyDatetime
      | IntEnumField e \<Rightarrow> (case v of VEnum i n w \<Rightarrow> i \<and> (n, w) \<in> set e | _ \<Rightarrow> False)
      | CharEnumField k e \<Rightarrow> (case v of VEnum i n w \<Rightarrow> \<not> i \<and> (n, w) \<in> set e | _ \<Rightarrow> False)
      | JSONField \<Rightarrow> True
      | _ \<Rightarrow> isinst v (field_type c))"

lemma enum_find_member: "enum_find e v = Some (n, w) \<Longrightarrow> (n, w) \<in> set e"
  by (induction e v rule: enum_find.induct) (auto split: if_splits)

lemma enum_call_member:
  "enum_call b e v = Inr w \<Longrightarrow> \<exists>n u. w = VEnum b n u \<and> (n, u) \<in> set e"
  by (auto simp: enum_call_def dest: enum_find_member map_of_SomeD
      split: pyval.splits option.splits if_splits prod.splits)

lemma coerce_typed:
  "call_typed lib \<Longrightarrow> coerce lib c v = Inr w \<Longrightarrow> w = VNone \<or> isinst w (field_type c)"
  by (auto simp: coerce_def call_typed_def split: if_splits)

lemma base_to_python_typed:
  "call_typed lib \<Longrightarrow> base_to_python lib f v = Inr w \<Longrightarrow> w = VNone \<or> isinst w (field_type (fclass f))"
  by (auto simp: base_to_python_def rbind_eq_Inr dest: coerce_typed)

lemma datetime_to_python_typed:
  assumes "tz_laws ce" "parse_typed ce" "datetime_to_python lib ce f v = Inr w"
  shows "w = VNone \<or> isinst w PyDatetime \<and> aware ce w"
proof (cases "v = VNone")
  case True
  then show ?thesis using assms(3) by (simp add: datetime_to_python_def rbind_eq_Inr)
next
  case False
  from assms(3) False obtain u n where
    u: "(if isinst v PyDatetime then Inr v
         else case as_int v of Some i \<Rightarrow> fromtimestamp ce i | None \<Rightarrow> parse_dt ce v) = Inr u"
    and w: "(if n then make_aware ce u (Some (get_timezone ce)) None else localtime ce u None) = Inr w"
    by (auto simp: datetime_to_python_def rbind_eq_Inr)
  from u assms(2) have "isinst u PyDatetime"
    by (auto simp: parse_typed_def split: if_splits option.splits)
  with w assms(1) show ?thesis
    by (auto dest: make_aware_aware localtime_aware split: if_splits)
qed

lemma time_zoned_typed:
  assumes "tz_laws ce" "time_zoned ce v = Inr w"
  shows "isinst w PyTime \<or> isinst w PyDatetime"
proof -
  from assms obtain n where "is_naive ce v = Inr n"
    by (auto simp: time_zoned_def rbind_eq_Inr)
  then have "isinst v PyTime \<or> isinst v PyDatetime"
    using assms(1) by (auto simp: is_naive_def tz_laws_def rbind_eq_Inr)
  then show ?thesis
    using assms by (auto simp: time_zoned_def tz_laws_def rbind_eq_Inr split: if_splits)
qed

lemma time_to_python_typed:
  assumes "tz_laws ce" "time_to_python lib ce f v = Inr w"
  shows "w = VNone \<or> isinst w PyTimedelta \<or> isinst w PyTime \<or> isinst w PyDatetime"
  using assms by (cases v)
    (auto simp: time_to_python_def rbind_eq_Inr dest!: time_zoned_typed split: if_splits)

lemma parse_date_value_typed:
  "parse_typed ce \<Longrightarrow> parse_date_value ce v = Inr w \<Longrightarrow> w = VNone \<or> isinst w PyDate"
  by (auto simp: parse_date_value_def parse_typed_def rbind_eq_Inr split: if_splits)

lemma timedelta_to_python_typed:
  "call_typed lib \<Longrightarrow> timedelta_to_python lib f v = Inr w \<Longrightarrow> w = VNone \<or> isinst w PyTimedelta"
  by (auto simp: timedelta_to_python_def rbind_eq_Inr mk_timedelta_def Let_def call_typed_def
      split: pyval.splits option.splits if_splits)


definition colour_enum :: enum_type where
  "colour_enum = [(''RED'', VInt 1), (''BLUE'', VInt 2)]"

definition time_field :: field where
  "time_field = plain_field (DatetimeField False False)"


section \<open>Bounds\<close>

lemma validate_validator:
  "validate lib f v = Inr () \<Longrightarrow> \<not> (null f \<and> v = VNone) \<Longrightarrow> d \<in> set (validators f) \<Longrightarrow>
   run_validator lib d (enum_value v) = Inr ()"
  by (simp add: validate_Inr)

lemma run_max_length:
  "run_validator lib (MaxLengthValidator n) v = Inr () \<Longrightarrow> isinst v PyStr \<Longrightarrow>
   \<exists>s. v = VStr s \<and> int (length s) \<le> n"
  by (cases v) (auto simp: guard_exn_def split: if_splits)

lemma field_init_fields:
  "field_init c a = Inr f \<Longrightarrow> fclass f = c \<and> null f = a_null a \<and> validators f = a_validators a"
  by (auto simp: field_init_def rbind_eq_Inr Let_def)

lemma char_field_init_fields:
  "char_field_init n a = Inr f \<Longrightarrow>
     1 \<le> n \<and> fclass f = CharField n \<and> null f = a_null a \<and>
     validators f = a_validators a @ [MaxLengthValidator n]"
  by (auto simp: char_field_init_def rbind_eq_Inr dest: field_init_fields split: if_splits)

lemma char_to_db_bounded:
  assumes "call_typed lib" "char_field_init n a = Inr f" "to_db_value lib ce f v ia = Inr (w, x)"
  shows "w = VNone \<and> a_null a \<or> (\<exists>s. w = VStr s \<and> int (length s) \<le> n)"
proof -
  note f = char_field_init_fields [OF assms(2)]
  from assms(3) f have w: "coerce lib (CharField n) v = Inr w" "validate lib f w = Inr ()"
    by (auto simp: to_db_value_def pure_conv_def base_to_db_def rbind_eq_Inr)
  show ?thesis
  proof (cases "null f \<and> w = VNone")
    case False
    then have m: "run_validator lib (MaxLengthValidator n) (enum_value w) = Inr ()"
      using validate_validator [OF w(2) False, of "MaxLengthValidator n"] f by simp
    then have "w \<noteq> VNone" by auto
    then have s: "isinst w PyStr" using coerce_typed [OF assms(1) w(1)] by simp
    then have "enum_value w = w" by (cases w) auto
    with run_max_length [OF m] s show ?thesis by simp
  qed (use f in auto)
qed

lemma int_enum_check_bounded:
  assumes "int_enum_check lib k e = Inr u" "(n, w) \<in> set e"
  shows "\<exists>i. enum_int lib w = Inr i \<and> k \<le> i \<and> i < 32768"
  using assms unfolding int_enum_check_def
  by (induction e arbitrary: u) (auto simp: rbind_eq_Inr guard_exn_def split: sum.splits if_splits)

lemma int_enum_field_init_fields:
  assumes "int_enum_field_init lib e descr gen a = Inr f"
  shows "fclass f = IntEnumField e \<and> int_enum_check lib (if gen then 1 else - 32768) e = Inr ()"
  using assms
  by (auto simp: int_enum_field_init_def int_field_init_def rbind_eq_Inr dest: field_init_fields)

lemma int_enum_sends_member:
  assumes "to_db_value lib ce f v ia = Inr (VInt i, x)" "fclass f = IntEnumField e"
  shows "\<exists>n w. (n, w) \<in> set e \<and> enum_int lib w = Inr i"
proof -
  from assms obtain u where
    "(case as_int u of
        Some j \<Rightarrow> rbind (enum_call True e u) (\<lambda>m. rbind (enum_int lib (enum_value m)) (\<lambda>j. Inr (VInt j)))
      | None \<Rightarrow> Inr u) = Inr (VInt i)"
    by (auto simp: to_db_value_def pure_conv_def int_enum_to_db_def rbind_eq_Inr)
  then show ?thesis
    by (cases u rule: as_int.cases)
      (auto simp: rbind_eq_Inr dest!: enum_call_member split: option.splits, blast+)
qed

text \<open>
  C22. What is sent fits the column: a \<^verbatim>\<open>CharField
\<close> sends texts of at most \<^verbatim>\<open>max_length\<close>
  characters and \<^verbatim>\<open>None\<close> only when it is nullable; an \<^verbatim>\<open>IntEnumField\<close> sends integers only that
  are values of its members, which fit a SMALLINT (and are positive for a generated key).\<close>

theorem sent_values_bounded:
  assumes "call_typed lib" "to_db_value lib ce f v ia = Inr (w, x)"
  shows "(char_field_init n a = Inr f \<longrightarrow>
            w = VNone \<and> a_null a \<or> (\<exists>s. w = VStr s \<and> int (length s) \<le> n)) \<and>
         (int_enum_field_init lib e descr gen a = Inr f \<longrightarrow> w = VInt i \<longrightarrow>
            (\<exists>m u. (m, u) \<in> set e \<and> enum_int lib u = Inr i) \<and>
            (if gen then 1 else - 32768) \<le> i \<and> i < 32768)"
proof (intro conjI impI)
  assume "char_field_init n a = Inr f"
  then show "w = VNone \<and> a_null a \<or> (\<exists>s. w = VStr s \<and> int (length s) \<le> n)"
    using char_to_db_bounded [OF assms(1) _ assms(2)] by blast
next
  assume f: "int_enum_field_init lib e descr gen a = Inr f" "w = VInt i"
  note e = int_enum_field_init_fields [OF f(1)]
  then obtain m u where m: "(m, u) \<in> set e" "enum_int lib u = Inr i"
    using int_enum_sends_member assms(2) f(2) by blast
  then show "\<exists>m u. (m, u) \<in> set e \<and> enum_int lib u = Inr i" by blast
  from m e show "(if gen then 1 else - 32768) \<le> i" "i < 32768"
    using int_enum_check_bounded [of lib _ e "()" m u] by force+
qed

lemma sent_values_bounded_witness:
  "to_db_value sample_lib sample_ce ((plain_field (CharField 4))\<lparr>validators := [MaxLengthValidator 4]\<rparr>) (VStr ''abcd'') ModelClass
     = Inr (VStr ''abcd'', None) \<and> int (length ''abcd'') \<le> 4"
proof -
  let ?f = "(plain_field (CharField 4))\<lparr>validators := [MaxLengthValidator 4]\<rparr>"
  have t: "to_db_value sample_lib sample_ce ?f (VStr ''abcd'') ModelClass = Inr (VStr ''abcd'', None)"
    by code_simp
  moreover have "char_field_init 4 no_args = Inr ?f"
    by (simp add: char_field_init_def field_init_no_args plain_field_def)
  ultimately show ?thesis
    using sent_values_bounded [OF sample_call_typed t, of 4 no_args] by simp
qed

section \<open>Round trip\<close>

text \<open>
  The values that have one stored form: normalised decimals, aware datetimes in the local zone,
  aware times, durations, members of the field's enum, values that JSON and UUID write and read.
\<close>

fun canonical :: "pylib \<Rightarrow> clock_env \<Rightarrow> fclass \<Rightarrow> pyval \<Rightarrow> bool" where
  "canonical lib ce (DecimalField d p) v = (isinst v PyDecimal \<and> quantize ce p v = Inr v)"
| "canonical lib ce (DatetimeField an ana) v =
     (isinst v PyDatetime \<and> is_naive ce v = Inr False \<and> localtime ce v None = Inr v)"
| "canonical lib ce (TimeField an ana) v = (isinst v PyTime \<and> is_naive ce v = Inr False)"
| "canonical lib ce TimeDeltaField v =
     (case v of VDelta d s m \<Rightarrow> \<bar>d\<bar> \<le> 999999999 \<and> 0 \<le> s \<and> s < 86400 \<and> 0 \<le> m \<and> m < 1000000 | _ \<Rightarrow> False)"
| "canonical lib ce JSONField v =
     (isinst v PyJson \<and> json_loads_ok lib (VStr (json_dumps lib v)) \<and>
      json_loads lib (VStr (json_dumps lib v)) = v)"
| "canonical lib ce UUIDField v =
     (isinst v PyUUID \<and> truthy v \<and> call lib PyUUID (VStr (py_str lib v)) = Inr v)"
| "canonical lib ce (IntEnumField e) v =
     (case v of VEnum True n (VInt i) \<Rightarrow> enum_find e (VInt i) = Some (n, VInt i) | _ \<Rightarrow> False)"
| "canonical lib ce (CharEnumField k e) v =
     (case v of VEnum False n (VStr s) \<Rightarrow> enum_find e (VStr s) = Some (n, VStr s) | _ \<Rightarrow> False)"
| "canonical lib ce c v = isinst v (field_type c)"

lemma timedelta_parts_back:
  fixes d s m :: int
  assumes "0 \<le> s" "s < 86400" "0 \<le> m" "m < 1000000"
  shows "(d * 86400000000 + s * 1000000 + m) div 86400000000 = d"
    and "(d * 86400000000 + s * 1000000 + m) mod 86400000000 = s * 1000000 + m"
    and "(s * 1000000 + m) div 1000000 = s" "(s * 1000000 + m) mod 1000000 = m"
proof -
  have "0 \<le> s * 1000000 + m" "s * 1000000 + m < 86400000000" using assms by linarith+
  then show "(d * 86400000000 + s * 1000000 + m) div 86400000000 = d"
    "(d * 86400000000 + s * 1000000 + m) mod 86400000000 = s * 1000000 + m"
    by (simp_all add: add.assoc)
  show "(s * 1000000 + m) div 1000000 = s" "(s * 1000000 + m) mod 1000000 = m"
    using assms by simp_all
qed

lemma mk_timedelta_back:
  "canonical lib ce TimeDeltaField (VDelta d s m) \<Longrightarrow>
   mk_timedelta (d * 86400000000 + s * 1000000 + m) = Inr (VDelta d s m)"
  by (simp add: mk_timedelta_def Let_def timedelta_parts_back)

text \<open>The classes that convert with \<^verbatim>\<open>field_type\<close> only.\<close>

lemma base_roundtrip:
  "base_to_db lib f v = Inr w \<Longrightarrow> v = VNone \<or> isinst v (field_type (fclass f)) \<Longrightarrow>
   w = v \<and> base_to_python lib f w = Inr v"
  by (auto simp: base_to_db_def base_to_python_def coerce_def rbind_eq_Inr)

lemma int_enum_roundtrip:
  assumes "canonical lib ce (IntEnumField e) v" "int_enum_to_db lib e f v = Inr w"
  shows "int_enum_to_python lib e f w = Inr v"
proof -
  from assms(1) obtain n i where v: "v = VEnum True n (VInt i)" "enum_find e (VInt i) = Some (n, VInt i)"
    by (auto split: pyval.splits bool.splits)
  with assms(2) have "w = VInt i \<and> validate lib f (VInt i) = Inr ()"
    by (auto simp: int_enum_to_db_def enum_int_def enum_call_def rbind_eq_Inr)
  with v show ?thesis by (simp add: int_enum_to_python_def enum_call_def validate_def)
qed

lemma char_enum_roundtrip:
  assumes "canonical lib ce (CharEnumField k e) v" "char_enum_to_db lib e f v = Inr w"
  shows "char_enum_to_python lib e f w = Inr v"
proof -
  from assms(1) obtain n s where v: "v = VEnum False n (VStr s)" "enum_find e (VStr s) = Some (n, VStr s)"
    by (auto split: pyval.splits bool.splits)
  with assms(2) have "w = VStr s \<and> validate lib f (VStr s) = Inr ()"
    by (auto simp: char_enum_to_db_def rbind_eq_Inr validate_def)
  with v show ?thesis by (simp add: char_enum_to_python_def enum_call_def)
qed

text \<open>Whether the clock is sent instead of the value.\<close>

fun clock_sent :: "fclass \<Rightarrow> inst_arg \<Rightarrow> bool" where
  "clock_sent (DatetimeField an ana) ia = auto_now_applies an ana ia"
| "clock_sent (TimeField an ana) ia = auto_now_applies an ana ia"
| "clock_sent c ia = False"

lemma none_roundtrip:
  assumes "to_db_value lib ce f VNone ia = Inr (w, x)" "\<not> clock_sent (fclass f) ia"
  shows "w = VNone \<and> x = None \<and> to_python_value lib ce f VNone = Inr VNone"
  using assms
  by (cases "fclass f")
    (auto simp: to_db_value_def to_python_value_def pure_conv_def base_to_db_def base_to_python_def
      coerce_def datetime_to_db_def datetime_to_python_def time_to_db_def time_to_python_def
      date_to_db_def date_to_python_def parse_date_value_def timedelta_to_db_def
      timedelta_to_python_def json_to_db_def json_to_python_def uuid_to_db_def uuid_to_python_def
      int_enum_to_db_def int_enum_to_python_def char_enum_to_db_def char_enum_to_python_def
      decimal_to_python_def rbind_eq_Inr)

lemma datetime_roundtrip:
  assumes "canonical lib ce (DatetimeField an ana) v" "\<not> auto_now_applies an ana ia"
    "datetime_to_db lib ce an ana f v ia = Inr (w, x)"
  shows "x = None \<and> datetime_to_python lib ce f w = Inr v"
proof -
  from assms(1) have v: "v \<noteq> VNone" "isinst v PyDatetime" "is_naive ce v = Inr False" "localtime ce v None = Inr v"
    by auto
  with assms(2,3) have "w = v \<and> x = None \<and> validate lib f v = Inr ()"
    by (auto simp: datetime_to_db_def rbind_eq_Inr split: if_splits)
  with v show ?thesis by (simp add: datetime_to_python_def)
qed

lemma time_roundtrip:
  assumes "canonical lib ce (TimeField an ana) v" "\<not> auto_now_applies an ana ia"
    "time_to_db lib ce an ana f v ia = Inr (w, x)"
  shows "x = None \<and> time_to_python lib ce f w = Inr v"
proof -
  from assms(1) have v: "isinst v PyTime" "is_naive ce v = Inr False" by auto
  then have z: "time_zoned ce v = Inr v" and "v \<noteq> VNone" "\<not> isinst v PyTimedelta" "\<forall>s. v \<noteq> VStr s"
    by (cases v; auto simp: time_zoned_def)+
  moreover from this assms(2,3) have "w = v \<and> x = None \<and> validate lib f v = Inr ()"
    by (auto simp: time_to_db_def rbind_eq_Inr split: if_splits)
  ultimately show ?thesis by (cases v) (auto simp: time_to_python_def)
qed

lemma timedelta_roundtrip:
  assumes "canonical lib ce TimeDeltaField v" "timedelta_to_db lib f v = Inr w" "validate lib f w = Inr ()"
  shows "timedelta_to_python lib f w = Inr v"
proof -
  from assms(1) obtain d s m where v: "v = VDelta d s m" by (auto split: pyval.splits)
  with assms(2) have "w = VInt (d * 86400000000 + s * 1000000 + m)"
    by (simp add: timedelta_to_db_def rbind_eq_Inr)
  then show ?thesis
    using assms(3) mk_timedelta_back [OF assms(1) [unfolded v]]
    by (simp add: timedelta_to_python_def v)
qed



end
