(* ===== verification/Expressions.thy ===== *)
theory Expressions
  imports Samples
begin

text \<open>
  \<^verbatim>\<open>expressions.py\<close>: \<^verbatim>\<open>F\<close> arithmetic, the \<^verbatim>\<open>Q\<close> trees of filter conditions and their
  resolution to query modifiers, \<^verbatim>\<open>Function\<close>, \<^verbatim>\<open>Aggregate\<close>, \<^verbatim>\<open>When\<close> and \<^verbatim>\<open>Case\<close>.

  A model class is its key \<open>mid\<close>; \<open>metas\<close> in the environment gives its metadata. The
  annotations and custom filters which the code stores on every \<^verbatim>\<open>Q\<close> before resolving it are
  the arguments \<open>cf\<close> (the filters) and \<open>ann\<close> (what resolving an annotation gives). The
  argument \<open>lim\<close> is the number of further nested calls Python's recursion limit allows;
  \<open>resolve_kwarg_limit\<close> shows how much is enough.
\<close>

record orm_env =
  metas :: "mid \<Rightarrow> meta"
  pp :: pypika
  lib :: pylib
  ce :: clock_env
  filter_override :: "(filter_op, filter_op) dict"
  field_override :: "fclass \<Rightarrow> (field \<Rightarrow> pyval \<Rightarrow> inst_arg \<Rightarrow> conv) option"
  dialect :: string

type_synonym ann_env = "mid \<Rightarrow> table \<Rightarrow> string \<Rightarrow> term res"

text \<open>\<^verbatim>\<open>BaseExecutor._field_to_db\<close> with a model class as the instance.\<close>

definition field_to_db :: "orm_env \<Rightarrow> field \<Rightarrow> pyval \<Rightarrow> inst_arg \<Rightarrow> conv" where
  "field_to_db env f v ia =
     (case field_override env (fclass f) of
        Some g \<Rightarrow> g f v ia
      | None \<Rightarrow> to_db_value (lib env) (ce env) f v ia)"

text \<open>\<^verbatim>\<open>func(field_object, term)\<close> with \<^verbatim>\<open>func = get_for_dialect(dialect, "function_cast")\<close>.\<close>

definition apply_function_cast :: "orm_env \<Rightarrow> field \<Rightarrow> term \<Rightarrow> term" where
  "apply_function_cast env f t =
     (case get_for_dialect f (dialect env) ''function_cast'' of
        DFunction n \<Rightarrow> TFunc ''CAST'' [VTerm t, VStr ''NUMERIC'']
      | _ \<Rightarrow> t)"

section \<open>F expressions\<close>

text \<open>The name of the class of a field, which is what \<^verbatim>\<open>type(a) is type(b)\<close> compares.\<close>

fun class_name :: "fclass \<Rightarrow> string" where
  "class_name IntField = ''IntField''"
| "class_name BigIntField = ''BigIntField''"
| "class_name SmallIntField = ''SmallIntField''"
| "class_name (CharField n) = ''CharField''"
| "class_name TextField = ''TextField''"
| "class_name BooleanField = ''BooleanField''"
| "class_name (DecimalField a b) = ''DecimalField''"
| "class_name (DatetimeField a b) = ''DatetimeField''"
| "class_name DateField = ''DateField''"
| "class_name (TimeField a b) = ''TimeField''"
| "class_name TimeDeltaField = ''TimeDeltaField''"
| "class_name FloatField = ''FloatField''"
| "class_name JSONField = ''JSONField''"
| "class_name UUIDField = ''UUIDField''"
| "class_name BinaryField = ''BinaryField''"
| "class_name (IntEnumField e) = ''IntEnumFieldInstance''"
| "class_name (CharEnumField n e) = ''CharEnumFieldInstance''"
| "class_name ForeignKeyFieldInstance = ''ForeignKeyFieldInstance''"
| "class_name OneToOneFieldInstance = ''OneToOneFieldInstance''"
| "class_name BackwardFKRelation = ''BackwardFKRelation''"
| "class_name BackwardOneToOneRelation = ''BackwardOneToOneRelation''"
| "class_name ManyToManyFieldInstance = ''ManyToManyFieldInstance''"

definition merge_field_object :: "field option \<Rightarrow> field option \<Rightarrow> field option res" where
  "merge_field_object cur new =
     (case new of None \<Rightarrow> Inr cur
      | Some g \<Rightarrow> (case cur of
           Some f \<Rightarrow> if class_name (fclass f) \<noteq> class_name (fclass g) then Inl FieldError else Inr (Some g)
         | None \<Rightarrow> Inr (Some g)))"

definition resolve_field_term :: "orm_env \<Rightarrow> meta \<Rightarrow> string \<Rightarrow> (string \<Rightarrow> term) \<Rightarrow> (term \<times> field option) res" where
  "resolve_field_term env m name mk =
     (case map_of (fields_db_projection m) name of
        None \<Rightarrow> Inl FieldError
      | Some col \<Rightarrow>
          (let fo = map_of (fields_map m) name; t = mk col
           in Inr ((case fo of None \<Rightarrow> t | Some f \<Rightarrow> apply_function_cast env f t), fo)))"

fun resolver_arithmetic_expression :: "orm_env \<Rightarrow> meta \<Rightarrow> term \<Rightarrow> (term \<times> field option) res" where
  "resolver_arithmetic_expression env m (TBare name) = resolve_field_term env m name TBare"
| "resolver_arithmetic_expression env m (TField t name) = resolve_field_term env m name (TField t)"
| "resolver_arithmetic_expression env m (TArith op l r) =
     rbind (resolver_arithmetic_expression env m l) (\<lambda>(l', lf).
     rbind (merge_field_object None lf) (\<lambda>fo.
     rbind (resolver_arithmetic_expression env m r) (\<lambda>(r', rf).
     rbind (merge_field_object fo rf) (\<lambda>fo'.
     Inr (TArith op l' r', fo')))))"
| "resolver_arithmetic_expression env m t = Inr (t, None)"

section \<open>Q trees\<close>

type_synonym kwargs = "(string, pyval) dict"

datatype q = Q (q_children: "q list") (q_filters: kwargs) (q_join_type: string) (q_negated: bool)

datatype q_arg = ArgQ q | ArgOther  \<comment> \<open>a positional argument: a \<^verbatim>\<open>Q\<close> node or anything else\<close>

abbreviation AND :: string where "AND \<equiv> ''AND''"
abbreviation OR :: string where "OR \<equiv> ''OR''"

definition q_init_simple :: "q_arg list \<Rightarrow> string \<Rightarrow> kwargs \<Rightarrow> q res" where
  "q_init_simple args jt kw =
     rbind (rmap (\<lambda>a. case a of ArgQ x \<Rightarrow> Inr x | ArgOther \<Rightarrow> Inl OperationalError) args) (\<lambda>cs.
     if jt \<noteq> AND \<and> jt \<noteq> OR then Inl OperationalError else Inr (Q cs kw jt False))"

definition q_init :: "q_arg list \<Rightarrow> string \<Rightarrow> kwargs \<Rightarrow> q res" where
  "q_init args jt kw =
     (if args \<noteq> [] \<and> kw \<noteq> []
      then rbind (q_init_simple [] jt kw) (\<lambda>newarg. q_init_simple (ArgQ newarg # args) jt [])
      else q_init_simple args jt kw)"

definition q_and :: "q \<Rightarrow> q_arg \<Rightarrow> q res" where
  "q_and self other = (case other of ArgOther \<Rightarrow> Inl OperationalError
     | ArgQ x \<Rightarrow> q_init [ArgQ self, ArgQ x] AND [])"

definition q_or :: "q \<Rightarrow> q_arg \<Rightarrow> q res" where
  "q_or self other = (case other of ArgOther \<Rightarrow> Inl OperationalError
     | ArgQ x \<Rightarrow> q_init [ArgQ self, ArgQ x] OR [])"

definition q_negate :: "q \<Rightarrow> q" where
  "q_negate x = Q (q_children x) (q_filters x) (q_join_type x) (\<not> q_negated x)"

definition q_invert :: "q \<Rightarrow> q res" where
  "q_invert x = rbind (q_init (map ArgQ (q_children x)) (q_join_type x) (q_filters x)) (\<lambda>y. Inr (q_negate y))"

text \<open>\<^verbatim>\<open>__eq__\<close> (dictionaries compare without regard to order).\<close>

definition dict_eq :: "('k, 'v) dict \<Rightarrow> ('k, 'v) dict \<Rightarrow> bool" where
  "dict_eq d e = (set (map fst d) = set (map fst e) \<and> list_all (\<lambda>(k, v). map_of e k = map_of d k) d)"

fun q_eq :: "q \<Rightarrow> q \<Rightarrow> bool" where
  "q_eq (Q cs fs jt n) (Q ds gs ju m) = (list_all2 q_eq cs ds \<and> jt = ju \<and> dict_eq fs gs)"

section \<open>Resolution of Q\<close>

definition get_actual_filter_params ::
    "meta \<Rightarrow> (string, filter_info) dict \<Rightarrow> string \<Rightarrow> pyval \<Rightarrow> (string \<times> pyval) res" where
  "get_actual_filter_params m cf key v =
     (if key \<in> set (fk_fields m) \<or> key \<in> set (o2o_fields m) then
        rbind (dict_at (fields_map m) key) (\<lambda>f.
        rbind (opt_attr (source_field f)) (\<lambda>sf. Inr (sf, pk_or_self v)))
      else if key \<in> set (m2m_fields m) then Inr (key, pk_or_self v)
      else if split2_head key \<in> set (fetch_fields m) \<or> dict_has cf key \<or> dict_has (filters m) key
      then Inr (key, v)
      else Inl FieldError)"

definition resolve_custom_kwarg ::
    "orm_env \<Rightarrow> (string, filter_info) dict \<Rightarrow> ann_env \<Rightarrow> mid \<Rightarrow> string \<Rightarrow> pyval \<Rightarrow> table \<Rightarrow> modifier res" where
  "resolve_custom_kwarg env cf ann mo key v t =
     rbind (dict_at cf key) (\<lambda>info.
     rbind (ann mo t (fi_field info)) (\<lambda>fld.
     let op = (case map_of (filter_override env) (fi_operator info) of
                 None \<Rightarrow> fi_operator info | Some o' \<Rightarrow> o')
     in rbind (apply_op (lib env) op fld v) (\<lambda>c.
          if is_aggregate (pp env) fld then Inr (mk_modifier None [] c)
          else Inr (mk_modifier c [] None))))"

definition process_filter_kwarg ::
    "orm_env \<Rightarrow> mid \<Rightarrow> string \<Rightarrow> pyval \<Rightarrow> table \<Rightarrow> (crit option \<times> join option) res" where
  "process_filter_kwarg env mo key v0 t =
     (let m = metas env mo;
          isnull = (v0 = VNone \<and> dict_has (filters m) (key @ ''__isnull''));
          v = (if isnull then VBool True else v0)
      in rbind (get_filter m (if isnull then key @ ''__isnull'' else key)) (\<lambda>param.
        case fi_table param of
          Some pt \<Rightarrow>
            rbind (case fi_backward_key param of None \<Rightarrow> Inl PyKeyError | Some bk \<Rightarrow> Inr bk) (\<lambda>bk.
            rbind (case fi_value_encoder param of
                     None \<Rightarrow> Inr v
                   | Some enc \<Rightarrow> apply_encoder (lib env) (ce env) enc v (plain_field IntField)) (\<lambda>w.
            rbind (apply_op (lib env) (fi_operator param) (TField pt (fi_field param)) w) (\<lambda>c.
            Inr (c, Some (pt, eq_cols t (db_pk_column m) pt bk)))))
        | None \<Rightarrow>
            rbind (case v of
                VTerm x \<Rightarrow> Inr v
              | _ \<Rightarrow> rbind (dict_at (fields_map m) (fi_field param)) (\<lambda>fo.
                   case fi_value_encoder param of
                     Some enc \<Rightarrow> apply_encoder (lib env) (ce env) enc v fo
                   | None \<Rightarrow> rbind (field_to_db env fo v ModelClass) (\<lambda>(w, _). Inr w))) (\<lambda>enc.
            rbind (case fi_source_field param of None \<Rightarrow> Inl PyKeyError | Some sf \<Rightarrow> Inr sf) (\<lambda>sf.
            let enc' = (if fi_operator param = OpEq then VTerm (TWrap enc) else enc)
            in rbind (apply_op (lib env) (fi_operator param) (TField t sf) enc') (\<lambda>c. Inr (c, None))))))"

text \<open>The key selects the branch: a custom filter, a filter of a related model, a filter of this one.\<close>

fun resolve_kwarg ::
    "orm_env \<Rightarrow> (string, filter_info) dict \<Rightarrow> ann_env \<Rightarrow> nat \<Rightarrow> mid \<Rightarrow> string \<Rightarrow> pyval \<Rightarrow> table \<Rightarrow> modifier res" where
  "resolve_kwarg env cf ann 0 mo raw_key raw_value t = Inl PyRecursionError"
| "resolve_kwarg env cf ann (Suc lim) mo raw_key raw_value t =
     (let m = metas env mo in
      rbind (get_actual_filter_params m cf raw_key raw_value) (\<lambda>(key, v).
      if dict_has cf key then resolve_custom_kwarg env cf ann mo key v t
      else if \<not> dict_has (filters m) key \<and> split2_head key \<in> set (fetch_fields m) then
        (let (rname, fwd) = partition2 key in
         rbind (dict_at (fields_map m) rname) (\<lambda>rf.
         rbind (get_joins_for_related_field (metas env) (pp env) t rf rname) (\<lambda>js.
         rbind (opt_attr (related_model (rel rf))) (\<lambda>rm.
         rbind (resolve_kwarg env cf ann lim rm fwd v (fst (last js))) (\<lambda>md.
         Inr (mod_and (mk_modifier None js None) (mod_and empty_modifier md)))))))
      else
        rbind (process_filter_kwarg env mo key v t) (\<lambda>(c, j).
        Inr (mk_modifier c (case j of None \<Rightarrow> [] | Some x \<Rightarrow> [x]) None))))"

definition combine_mod :: "string \<Rightarrow> modifier \<Rightarrow> modifier \<Rightarrow> modifier" where
  "combine_mod jt a b = (if jt = AND then mod_and a b else mod_or a b)"

fun q_resolve ::
    "orm_env \<Rightarrow> (string, filter_info) dict \<Rightarrow> ann_env \<Rightarrow> nat \<Rightarrow> mid \<Rightarrow> table \<Rightarrow> q \<Rightarrow> modifier res" where
  "q_resolve env cf ann lim mo t (Q cs fs jt neg) =
     rbind (if fs \<noteq> []
            then rfold (\<lambda>(k, v) md. rbind (resolve_kwarg env cf ann lim mo k v t) (\<lambda>fm.
                   Inr (combine_mod jt md fm))) fs empty_modifier
            else rfold (\<lambda>c md. rbind (q_resolve env cf ann lim mo t c) (\<lambda>nm.
                   Inr (combine_mod jt md nm))) cs empty_modifier)
       (\<lambda>md. Inr (if neg then mod_not md else md))"

section \<open>The meaning of a Q tree\<close>

text \<open>
  The abstract reading of a \<^verbatim>\<open>Q\<close> tree: its conditions are joined by its connective and
  negated if it is negated; \<open>leaf k v\<close> is the meaning of the single condition \<open>k=v\<close>, and an
  empty tree is no condition.
\<close>

definition connective :: "string \<Rightarrow> tv option \<Rightarrow> tv option \<Rightarrow> tv option" where
  "connective jt = (if jt = AND then opt2 and3 else opt2 or3)"

fun q_sem :: "(string \<Rightarrow> pyval \<Rightarrow> tv option) \<Rightarrow> q \<Rightarrow> tv option" where
  "q_sem leaf (Q cs fs jt neg) =
     (let s = (if fs \<noteq> [] then foldl (connective jt) None (map (\<lambda>(k, v). leaf k v) fs)
               else foldl (connective jt) None (map (q_sem leaf) cs))
      in if neg then map_option not3 s else s)"

definition leaf_sem ::
    "(crit \<Rightarrow> tv) \<Rightarrow> orm_env \<Rightarrow> (string, filter_info) dict \<Rightarrow> ann_env \<Rightarrow> nat \<Rightarrow> mid \<Rightarrow> table \<Rightarrow> string \<Rightarrow> pyval \<Rightarrow> tv option" where
  "leaf_sem ev env cf ann lim mo t k v =
     (case resolve_kwarg env cf ann lim mo k v t of Inl e \<Rightarrow> None | Inr md \<Rightarrow> mod_sem ev md)"

lemma combine_mod_sem:
  assumes "sql_laws ev"
  shows "mod_sem ev (combine_mod jt a b) = connective jt (mod_sem ev a) (mod_sem ev b)"
  by (simp add: combine_mod_def connective_def mod_sem_and [OF assms] mod_sem_or [OF assms])

text \<open>A loop that joins modifiers computes the joined meanings.\<close>

lemma rfold_combine_sem:
  assumes "sql_laws ev"
    and "rfold (\<lambda>x md. rbind (g x) (\<lambda>y. Inr (combine_mod jt md y))) xs md0 = Inr md"
    and "\<And>x y. x \<in> set xs \<Longrightarrow> g x = Inr y \<Longrightarrow> mod_sem ev y = s x"
  shows "mod_sem ev md = foldl (connective jt) (mod_sem ev md0) (map s xs)"
  using assms(2,3)
proof (induction xs arbitrary: md0)
  case (Cons x xs)
  from Cons.prems(1) obtain y where y: "g x = Inr y"
    "rfold (\<lambda>x md. rbind (g x) (\<lambda>y. Inr (combine_mod jt md y))) xs (combine_mod jt md0 y) = Inr md"
    by (auto simp: rbind_eq_Inr)
  have "mod_sem ev md = foldl (connective jt) (mod_sem ev (combine_mod jt md0 y)) (map s xs)"
    by (rule Cons.IH [OF y(2)]) (use Cons.prems(2) in auto)
  with Cons.prems(2) [of x y] y(1) show ?case
    by (simp add: combine_mod_sem [OF assms(1)])
qed simp

lemma q_resolve_sem:
  assumes ev: "sql_laws ev"
  shows "q_resolve env cf ann lim mo t x = Inr md \<Longrightarrow>
         mod_sem ev md = q_sem (leaf_sem ev env cf ann lim mo t) x"
proof (induction x arbitrary: md)
  case (Q cs fs jt neg)
  let ?leaf = "leaf_sem ev env cf ann lim mo t"
  from Q.prems obtain md1 where md: "md = (if neg then mod_not md1 else md1)"
    and md1: "(if fs \<noteq> []
            then rfold (\<lambda>(k, v) md. rbind (resolve_kwarg env cf ann lim mo k v t) (\<lambda>fm.
                   Inr (combine_mod jt md fm))) fs empty_modifier
            else rfold (\<lambda>c md. rbind (q_resolve env cf ann lim mo t c) (\<lambda>nm.
                   Inr (combine_mod jt md nm))) cs empty_modifier) = Inr md1"
    by (auto simp: rbind_eq_Inr simp del: mk_modifier_def)
  have "mod_sem ev md1 = (if fs \<noteq> [] then foldl (connective jt) None (map (\<lambda>(k, v). ?leaf k v) fs)
               else foldl (connective jt) None (map (q_sem ?leaf) cs))"
  proof (cases "fs \<noteq> []")
    case True
    with md1 have "rfold (\<lambda>kv md. rbind ((\<lambda>(k, v). resolve_kwarg env cf ann lim mo k v t) kv) (\<lambda>fm.
                   Inr (combine_mod jt md fm))) fs empty_modifier = Inr md1"
      by (simp add: case_prod_beta')
    moreover have "mod_sem ev y = (\<lambda>(k, v). ?leaf k v) kv"
      if "(\<lambda>(k, v). resolve_kwarg env cf ann lim mo k v t) kv = Inr y" for kv y
      using that by (cases kv) (simp add: leaf_sem_def)
    ultimately have "mod_sem ev md1 =
        foldl (connective jt) (mod_sem ev empty_modifier) (map (\<lambda>(k, v). ?leaf k v) fs)"
      by (rule rfold_combine_sem [OF ev])
    with True show ?thesis by simp
  next
    case False
    with md1 have "rfold (\<lambda>c md. rbind (q_resolve env cf ann lim mo t c) (\<lambda>nm.
                   Inr (combine_mod jt md nm))) cs empty_modifier = Inr md1"
      by simp
    from rfold_combine_sem [OF ev this, of "q_sem ?leaf"] Q.IH False show ?thesis
      by auto
  qed
  then show ?case
    by (simp add: md mod_sem_not [OF ev])
qed

definition sample_env :: orm_env where
  "sample_env = \<lparr> metas = sample_metas, pp = sample_pp, lib = sample_lib, ce = sample_ce,
     filter_override = [], field_override = (\<lambda>_. None), dialect = ''sqlite'' \<rparr>"

text \<open>
  C2. Resolving a \<^verbatim>\<open>Q\<close> tree implements the tree's logic: whenever resolution succeeds, the
  condition put into WHERE and HAVING together means exactly the AND/OR/NOT combination the
  tree spells, in SQL's three-valued logic, over the meanings of its single conditions.
\<close>

theorem q_resolve_refines:
  assumes "sql_laws ev" and "q_resolve env cf ann lim mo t x = Inr md"
  shows "mod_sem ev md = q_sem (leaf_sem ev env cf ann lim mo t) x"
  using assms by (rule q_resolve_sem)

theorem q_resolve_refines_witness:
  "\<exists>md. q_resolve sample_env [] (\<lambda>_ _ _. Inl FieldError) 10 sample_user (Table ''user'' None)
         (Q [] [(''name'', VStr ''x''), (''id__gt'', VInt 3)] OR True) = Inr md
     \<and> mod_sem (eval_crit (\<lambda>_. Some False)) md = Some (Some True)"
proof -
  let ?q = "Q [] [(''name'', VStr ''x''), (''id__gt'', VInt 3)] OR True"
  let ?r = "q_resolve sample_env [] (\<lambda>_ _ _. Inl FieldError) 10 sample_user (Table ''user'' None) ?q"
  have "\<not> Option.is_none (case ?r of Inl e \<Rightarrow> None | Inr md \<Rightarrow> Some md)" by code_simp
  then obtain md where md: "?r = Inr md" by (cases ?r) auto
  have "q_sem (leaf_sem (eval_crit (\<lambda>_. Some False)) sample_env [] (\<lambda>_ _ _. Inl FieldError) 10 sample_user
     (Table ''user'' None)) ?q = Some (Some True)" by code_simp
  with q_resolve_refines [OF eval_crit_laws md] md show ?thesis by metis
qed

section \<open>Negation of Q\<close>

definition q_ok :: "q \<Rightarrow> bool" where
  "q_ok x \<longleftrightarrow> (q_join_type x = AND \<or> q_join_type x = OR) \<and> (q_children x = [] \<or> q_filters x = [])"

lemma rmap_ArgQ: "rmap (\<lambda>a. case a of ArgQ x \<Rightarrow> Inr x | ArgOther \<Rightarrow> Inl OperationalError) (map ArgQ cs) = Inr cs"
  by (induction cs) auto

lemma q_invert_eq:
  "q_ok x \<Longrightarrow> q_invert x = Inr (Q (q_children x) (q_filters x) (q_join_type x) True)"
  by (auto simp: q_invert_def q_init_def q_init_simple_def q_ok_def rmap_ArgQ q_negate_def)

lemma q_init_ok: "q_init args jt kw = Inr x \<Longrightarrow> q_ok x"
  by (auto simp: q_init_def q_init_simple_def q_ok_def rbind_eq_Inr split: if_splits)

text \<open>
  \<^verbatim>\<open>~q\<close> of a tree that is not negated means the negation of it.
\<close>

theorem q_invert_negates:
  assumes "q_ok x" and "\<not> q_negated x"
  shows "\<exists>y. q_invert x = Inr y \<and> q_sem leaf y = map_option not3 (q_sem leaf x) \<and> q_ok y"
  using assms by (cases x) (auto simp: q_invert_eq q_ok_def)

theorem q_invert_negates_witness:
  "\<exists>y. q_invert (Q [] [(''a'', VInt 1)] AND False) = Inr y \<and>
     q_sem (\<lambda>k v. Some (Some True)) y = Some (Some False)"
proof -
  have "q_ok (Q [] [(''a'', VInt 1)] AND False)" "\<not> q_negated (Q [] [(''a'', VInt 1)] AND False)"
    by (simp_all add: q_ok_def)
  from q_invert_negates [OF this, of "\<lambda>k v. Some (Some True)"] show ?thesis
    by (auto simp: connective_def)
qed

text \<open>
  \<^verbatim>\<open>~\<close> forgets a negation it finds: inverting a negated tree gives back a negated tree, so
  \<^verbatim>\<open>~~q\<close> is \<^verbatim>\<open>~q\<close> and not \<^verbatim>\<open>q\<close>, and \<^verbatim>\<open>exclude(~q)\<close> is \<^verbatim>\<open>filter(~q)\<close>.
\<close>

theorem q_double_inversion:
  assumes "q_ok x" and "q_invert x = Inr y"
  shows "q_invert y = Inr y"
proof -
  from assms have y: "y = Q (q_children x) (q_filters x) (q_join_type x) True"
    by (simp add: q_invert_eq)
  then have "q_ok y" using assms(1) by (simp add: q_ok_def)
  then show ?thesis by (simp add: q_invert_eq y)
qed

theorem q_double_inversion_witness:
  "q_invert (Q [] [(''a'', VInt 1)] AND True) = Inr (Q [] [(''a'', VInt 1)] AND True)"
proof -
  have ok: "q_ok (Q [] [(''a'', VInt 1)] AND False)" by (simp add: q_ok_def)
  then have "q_invert (Q [] [(''a'', VInt 1)] AND False) = Inr (Q [] [(''a'', VInt 1)] AND True)"
    by (simp add: q_invert_eq)
  with ok show ?thesis by (rule q_double_inversion)
qed

section \<open>How deep a filter key nests\<close>

text \<open>
  The metadata is ready for resolution: the key that stands for a foreign key has a filter of
  its own, and no relation has the empty name. \<^verbatim>\<open>_init_relations\<close> and \<^verbatim>\<open>finalise_model\<close>
  establish this.
\<close>

definition filters_ready :: "(mid \<Rightarrow> meta) \<Rightarrow> bool" where
  "filters_ready mt \<longleftrightarrow> (\<forall>m.
     [] \<notin> set (fetch_fields (mt m)) \<and>
     (\<forall>n f sf. n \<in> set (fk_fields (mt m)) \<union> set (o2o_fields (mt m)) \<longrightarrow>
        map_of (fields_map (mt m)) n = Some f \<longrightarrow> source_field f = Some sf \<longrightarrow>
        dict_has (filters (mt m)) sf))"

lemma actual_params_key:
  assumes ok: "filters_ready mt" and p: "get_actual_filter_params (mt mo) cf raw v = Inr (key, w)"
    and nk: "\<not> dict_has (filters (mt mo)) key"
  shows "key = raw"
proof (cases "raw \<in> set (fk_fields (mt mo)) \<or> raw \<in> set (o2o_fields (mt mo))")
  case True
  with p obtain f where "map_of (fields_map (mt mo)) raw = Some f" "source_field f = Some key"
    by (auto simp: get_actual_filter_params_def rbind_eq_Inr)
  with ok True nk show ?thesis
    unfolding filters_ready_def by blast
next
  case False
  with p show ?thesis
    by (auto simp: get_actual_filter_params_def split: if_splits)
qed

lemma resolve_kwarg_cong_limit:
  assumes ok: "filters_ready (metas env)"
  shows "length raw < lim \<Longrightarrow> length raw < lim' \<Longrightarrow>
    resolve_kwarg env cf ann lim mo raw v t = resolve_kwarg env cf ann lim' mo raw v t"
proof (induction lim arbitrary: lim' mo raw v t)
  case (Suc n)
  then obtain n' where n': "lim' = Suc n'" by (cases lim') auto
  have deeper: "resolve_kwarg env cf ann n rm (snd (partition2 key)) w u
      = resolve_kwarg env cf ann n' rm (snd (partition2 key)) w u"
    if "get_actual_filter_params (metas env mo) cf raw v = Inr (key, w)"
      and nk: "\<not> dict_has (filters (metas env mo)) key"
      and ff: "split2_head key \<in> set (fetch_fields (metas env mo))" for key w rm u
  proof -
    have key: "key = raw" by (rule actual_params_key [OF ok that(1) nk])
    have "[] \<notin> set (fetch_fields (metas env mo))" using ok unfolding filters_ready_def by blast
    with ff have "key \<noteq> []" by (cases key) auto
    then have "length (snd (partition2 key)) < length raw"
      using partition2_length key by blast
    with Suc.prems n' show ?thesis by (intro Suc.IH) auto
  qed
  show ?case
  proof (cases "get_actual_filter_params (metas env mo) cf raw v")
    case (Inr p)
    obtain key w where p: "p = (key, w)" by (cases p)
    then show ?thesis
      using Inr deeper [of key w]
      by (auto simp: n' Let_def case_prod_beta' simp del: mk_modifier_def intro!: rbind_cong)
  qed (simp add: n' Let_def)
qed simp



end
