(* ===== verification/SqlFunctions.thy ===== *)
theory SqlFunctions
  imports Expressions
begin

text \<open>
  \<^verbatim>\<open>Function\<close>, \<^verbatim>\<open>Aggregate\<close>, \<^verbatim>\<open>When\<close> and \<^verbatim>\<open>Case\<close> of \<^verbatim>\<open>expressions.py\<close>. A call is its
  pypika function's name, its argument (a path of field names, another call, or an \<^verbatim>\<open>F\<close> term),
  its default values, \<^verbatim>\<open>populate_field_object\<close>, and for an aggregate its \<^verbatim>\<open>distinct\<close> flag and
  filter. Resolution gives the joins it needs, the SQL term, and the field object it found.
\<close>

section \<open>Calls\<close>

datatype fn = Fn string farg "fdefault list" bool "(bool \<times> q option) option"
and farg = FPath string | FCall fn | FTerm "term"
and fdefault = DCall fn | DVal pyval

text \<open>The classes of \<^verbatim>\<open>functions.py\<close>.\<close>

definition scalar_fn :: "string \<Rightarrow> farg \<Rightarrow> fdefault list \<Rightarrow> fn" where
  "scalar_fn n a ds = Fn n a ds False None"

definition Lower :: "farg \<Rightarrow> fn" where "Lower a = scalar_fn ''LOWER'' a []"
definition Coalesce :: "farg \<Rightarrow> fdefault list \<Rightarrow> fn" where "Coalesce a ds = scalar_fn ''COALESCE'' a ds"

definition aggregate_init :: "string \<Rightarrow> bool \<Rightarrow> farg \<Rightarrow> fdefault list \<Rightarrow> bool \<Rightarrow> q option \<Rightarrow> fn" where
  "aggregate_init n populate a ds distinct_flag filter_q = Fn n a ds populate (Some (distinct_flag, filter_q))"

definition Count :: "farg \<Rightarrow> bool \<Rightarrow> q option \<Rightarrow> fn" where "Count a = aggregate_init ''COUNT'' False a []"
definition Sum_fn :: "farg \<Rightarrow> bool \<Rightarrow> q option \<Rightarrow> fn" where "Sum_fn a = aggregate_init ''SUM'' True a []"
definition Max_fn :: "farg \<Rightarrow> bool \<Rightarrow> q option \<Rightarrow> fn" where "Max_fn a = aggregate_init ''MAX'' True a []"
definition Min_fn :: "farg \<Rightarrow> bool \<Rightarrow> q option \<Rightarrow> fn" where "Min_fn a = aggregate_init ''MIN'' True a []"
definition Avg_fn :: "farg \<Rightarrow> bool \<Rightarrow> q option \<Rightarrow> fn" where "Avg_fn a = aggregate_init ''AVG'' True a []"

section \<open>Paths\<close>

type_synonym join_step = "table \<times> string \<times> field"
  \<comment> \<open>the arguments of \<^verbatim>\<open>get_joins_for_related_field\<close>\<close>

type_synonym resolved = "join_step list \<times> term \<times> field option"

text \<open>The loop over \<^verbatim>\<open>fields[:-1]\<close>: the joins, the model and the table it ends at.\<close>

fun resolve_path ::
    "orm_env \<Rightarrow> string list \<Rightarrow> mid \<Rightarrow> table \<Rightarrow> join_step list \<Rightarrow> (join_step list \<times> mid \<times> table) res" where
  "resolve_path env [] mo t js = Inr (js, mo, t)"
| "resolve_path env (n # ns) mo t js =
     (if n \<notin> set (fetch_fields (metas env mo)) then Inl ConfigurationError
      else rbind (dict_at (fields_map (metas env mo)) n) (\<lambda>f.
        rbind (opt_attr (related_model (rel f))) (\<lambda>rm.
        let rt = basetable (metas env rm);
            rt' = (if is_fk (fclass f) then TableAs rt (tbl_name (pp env) t @ ''__'' @ n) else rt)
        in resolve_path env ns rm rt' (js @ [(t, n, f)]))))"

definition resolve_last_field :: "orm_env \<Rightarrow> bool \<Rightarrow> mid \<Rightarrow> table \<Rightarrow> join_step list \<Rightarrow> string \<Rightarrow> resolved res" where
  "resolve_last_field env populate mo t js lastf =
     (if lastf \<in> set (fetch_fields (metas env mo)) then
        rbind (dict_at (fields_map (metas env mo)) lastf) (\<lambda>f.
        rbind (opt_attr (related_model (rel f))) (\<lambda>rm.
        let rmeta = metas env rm; rt = basetable rmeta;
            rt' = (if is_backward_fk (fclass f) \<and> tbl_eq (pp env) t rt
                   then TableAs rt (tbl_name (pp env) t @ ''__'' @ lastf) else rt)
        in Inr (js @ [(t, lastf, f)], TField rt' (db_pk_column rmeta), None)))
      else
        rbind (dict_at (fields_map (metas env mo)) lastf) (\<lambda>f.
        let col = TField t (source_or f lastf) in
        Inr (if populate then (js, apply_function_cast env f col, Some f) else (js, col, None))))"

definition resolve_field_for_model :: "orm_env \<Rightarrow> bool \<Rightarrow> mid \<Rightarrow> table \<Rightarrow> string \<Rightarrow> resolved res" where
  "resolve_field_for_model env populate mo t path =
     (let ns = split2 path in
      rbind (resolve_path env (butlast ns) mo t []) (\<lambda>(js, m, u).
      resolve_last_field env populate m u js (last ns)))"

text \<open>
  \<^verbatim>\<open>Aggregate._resolve_field_for_model\<close>: the filter is resolved against the model's own table,
  only its WHERE part is used, its joins and its HAVING part are not. A \<^verbatim>\<open>Q\<close> that has not been
  part of a query has no annotations and no custom filters.
\<close>

definition no_ann :: ann_env where
  "no_ann = (\<lambda>_ _ _. Inl PyKeyError)"

definition aggregate_filter :: "orm_env \<Rightarrow> nat \<Rightarrow> mid \<Rightarrow> (bool \<times> q option) option \<Rightarrow> resolved \<Rightarrow> resolved res" where
  "aggregate_filter env lim mo agg ret =
     (case agg of
        Some (dist, Some flt) \<Rightarrow>
          rbind (q_resolve env [] no_ann lim mo (basetable (metas env mo)) flt) (\<lambda>md0.
          let md = mod_and empty_modifier md0 in
          case ret of (js, fld, fo) \<Rightarrow>
            Inr (js, TCase [(where_criterion md, fld)] (Some (TConst VNone)), fo))
      | _ \<Rightarrow> Inr ret)"

text \<open>\<^verbatim>\<open>_get_function_field\<close>\<close>

definition get_function_field :: "string \<Rightarrow> (bool \<times> q option) option \<Rightarrow> term \<Rightarrow> pyval list \<Rightarrow> term" where
  "get_function_field name agg fld ds =
     (let f = TFunc name (VTerm fld # ds) in
      case agg of Some (True, _) \<Rightarrow> TDistinct f | _ \<Rightarrow> f)"

text \<open>\<^verbatim>\<open>Function.resolve\<close>\<close>

fun fn_resolve :: "orm_env \<Rightarrow> nat \<Rightarrow> mid \<Rightarrow> table \<Rightarrow> fn \<Rightarrow> resolved res"
and resolve_default_value :: "orm_env \<Rightarrow> nat \<Rightarrow> mid \<Rightarrow> table \<Rightarrow> fdefault \<Rightarrow> pyval res" where
  "fn_resolve env lim mo t (Fn name arg ds populate agg) =
     rbind (case arg of
              FPath p \<Rightarrow> rbind (resolve_field_for_model env populate mo t p) (aggregate_filter env lim mo agg)
            | FCall g \<Rightarrow> rbind (fn_resolve env lim mo t g) (\<lambda>(js, fld, fo). Inr (js, fld, None))
            | FTerm x \<Rightarrow> rbind (resolver_arithmetic_expression env (metas env mo) x) (\<lambda>(fld, fo).
                Inr ([], fld, if populate then fo else None))) (\<lambda>(js, fld, fo).
     rbind (rmap (resolve_default_value env lim mo t) ds) (\<lambda>dvs.
     Inr (js, get_function_field name agg fld dvs, fo)))"
| "resolve_default_value env lim mo t (DCall g) =
     rbind (fn_resolve env lim mo t g) (\<lambda>(js, fld, fo). Inr (VTerm fld))"
| "resolve_default_value env lim mo t (DVal v) = Inr v"

section \<open>When and Case\<close>

datatype then_arg = ThenFn fn | ThenTerm "term" | ThenVal pyval

record case_when =
  cw_args :: "q_arg list"
  cw_then :: then_arg
  cw_negate :: bool
  cw_kwargs :: kwargs

definition resolve_q_objects :: "case_when \<Rightarrow> q list res" where
  "resolve_q_objects w =
     rbind (rmap (\<lambda>a. case a of ArgOther \<Rightarrow> Inl PyTypeError
                    | ArgQ x \<Rightarrow> if cw_negate w then q_invert x else Inr x) (cw_args w)) (\<lambda>qs.
     rbind (rmap (\<lambda>(k, v). rbind (q_init [] AND [(k, v)]) (\<lambda>x.
                    if cw_negate w then q_invert x else Inr x)) (cw_kwargs w)) (\<lambda>qs'.
     Inr (qs @ qs')))"

definition resolve_then :: "orm_env \<Rightarrow> nat \<Rightarrow> mid \<Rightarrow> table \<Rightarrow> then_arg \<Rightarrow> term res" where
  "resolve_then env lim mo t th =
     (case th of
        ThenFn g \<Rightarrow> rbind (fn_resolve env lim mo t g) (\<lambda>(js, fld, fo). Inr fld)
      | ThenTerm x \<Rightarrow> rbind (resolver_arithmetic_expression env (metas env mo) x) (\<lambda>(fld, fo). Inr fld)
      | ThenVal v \<Rightarrow> Inr (TConst v))"

definition when_resolve :: "orm_env \<Rightarrow> nat \<Rightarrow> mid \<Rightarrow> table \<Rightarrow> case_when \<Rightarrow> (crit \<times> term) res" where
  "when_resolve env lim mo t w =
     rbind (resolve_q_objects w) (\<lambda>qs.
     rbind (rfold (\<lambda>x md. rbind (q_resolve env [] no_ann lim mo (basetable (metas env mo)) x) (\<lambda>nm.
              Inr (mod_and md nm))) qs empty_modifier) (\<lambda>md.
     rbind (resolve_then env lim mo t (cw_then w)) (\<lambda>th.
     Inr (where_criterion md, th))))"

datatype case_arg = CaseWhen case_when | CaseOther

definition case_resolve :: "orm_env \<Rightarrow> nat \<Rightarrow> mid \<Rightarrow> table \<Rightarrow> case_arg list \<Rightarrow> then_arg \<Rightarrow> (join_step list \<times> term) res" where
  "case_resolve env lim mo t args dflt =
     rbind (rmap (\<lambda>a. case a of CaseOther \<Rightarrow> Inl PyTypeError
                    | CaseWhen w \<Rightarrow> when_resolve env lim mo t w) args) (\<lambda>branches.
     rbind (resolve_then env lim mo t dflt) (\<lambda>d.
     Inr ([], TCase branches (Some d))))"

section \<open>Where a path leads\<close>

text \<open>
  The joins form a chain: the first starts at the query's table, each one is a relation of the
  model the previous one leads to, and starts at the table that model has in the query.
\<close>

fun chain_ok :: "orm_env \<Rightarrow> mid \<Rightarrow> table \<Rightarrow> join_step list \<Rightarrow> mid \<Rightarrow> table \<Rightarrow> bool" where
  "chain_ok env mo t [] mo' t' = (mo = mo' \<and> t = t')"
| "chain_ok env mo t ((u, n, f) # js) mo' t' =
     (u = t \<and> n \<in> set (fetch_fields (metas env mo)) \<and> map_of (fields_map (metas env mo)) n = Some f \<and>
      (case related_model (rel f) of None \<Rightarrow> False
       | Some rm \<Rightarrow> chain_ok env rm
           (if is_fk (fclass f) then TableAs (basetable (metas env rm)) (tbl_name (pp env) t @ ''__'' @ n)
            else basetable (metas env rm)) js mo' t'))"

lemma resolve_path_chain:
  "resolve_path env ns mo t js = Inr (js', mo', t') \<Longrightarrow>
     \<exists>ks. js' = js @ ks \<and> map (fst \<circ> snd) ks = ns \<and> chain_ok env mo t ks mo' t'"
proof (induction ns arbitrary: mo t js)
  case (Cons n ns)
  from Cons.prems obtain f rm where f: "n \<in> set (fetch_fields (metas env mo))"
    "map_of (fields_map (metas env mo)) n = Some f" "related_model (rel f) = Some rm"
    and r: "resolve_path env ns rm
       (if is_fk (fclass f) then TableAs (basetable (metas env rm)) (tbl_name (pp env) t @ ''__'' @ n)
        else basetable (metas env rm)) (js @ [(t, n, f)]) = Inr (js', mo', t')"
    by (auto simp: rbind_eq_Inr Let_def split: if_splits)
  from Cons.IH [OF r] f show ?case by fastforce
qed simp

text \<open>A filter of an aggregate changes its term only: its joins are not added.\<close>

lemma aggregate_filter_joins:
  assumes "aggregate_filter env lim mo agg ret = Inr (js, x, fo)"
  shows "\<exists>x'. ret = (js, x', fo)"
proof -
  obtain js' x' fo' where ret: "ret = (js', x', fo')" by (cases ret)
  show ?thesis
  proof (cases agg)
    case (Some a)
    obtain d fl where "a = (d, fl)" by (cases a)
    with Some ret assms show ?thesis
      by (cases fl) (auto simp: aggregate_filter_def rbind_eq_Inr Let_def)
  qed (use assms ret in \<open>simp add: aggregate_filter_def\<close>)
qed

text \<open>
  A call on a path \<^verbatim>\<open>a__b__c\<close> joins along the path: the joins it asks for are the
  relations the path names, in order and none more, each starting at the table of the model the
  previous one leads to; a path that ends at a relation joins that relation too.
\<close>

theorem function_path_chain:
  assumes "fn_resolve env lim mo t (Fn name (FPath p) ds populate agg) = Inr (js, fld, fo)"
  shows "\<exists>ks mo' t'. chain_ok env mo t ks mo' t' \<and> map (fst \<circ> snd) ks = butlast (split2 p) \<and>
     (if last (split2 p) \<in> set (fetch_fields (metas env mo'))
      then \<exists>f. map_of (fields_map (metas env mo')) (last (split2 p)) = Some f \<and> js = ks @ [(t', last (split2 p), f)]
      else js = ks)"
proof -
  from assms obtain fld' fo' where "resolve_field_for_model env populate mo t p = Inr (js, fld', fo')"
    by (fastforce simp: rbind_eq_Inr dest: aggregate_filter_joins)
  then obtain ks mo' t' where r: "resolve_path env (butlast (split2 p)) mo t [] = Inr (ks, mo', t')"
    and l: "resolve_last_field env populate mo' t' ks (last (split2 p)) = Inr (js, fld', fo')"
    by (auto simp: resolve_field_for_model_def rbind_eq_Inr Let_def)
  from resolve_path_chain [OF r] have c: "chain_ok env mo t ks mo' t'" "map (fst \<circ> snd) ks = butlast (split2 p)"
    by auto
  from l have "(if last (split2 p) \<in> set (fetch_fields (metas env mo'))
      then \<exists>f. map_of (fields_map (metas env mo')) (last (split2 p)) = Some f \<and> js = ks @ [(t', last (split2 p), f)]
      else js = ks)"
    by (auto simp: resolve_last_field_def rbind_eq_Inr Let_def split: if_splits)
  with c show ?thesis by blast
qed

theorem function_path_chain_witness:
  "\<exists>js fld fo. fn_resolve sample_env 9 sample_post (Table ''post'' None) (Max_fn (FPath ''author__name'') False None)
       = Inr (js, fld, fo) \<and> (\<exists>ks mo' t'. chain_ok sample_env sample_post (Table ''post'' None) ks mo' t'
          \<and> map (fst \<circ> snd) ks = [''author''])"
proof -
  let ?r = "fn_resolve sample_env 9 sample_post (Table ''post'' None) (Max_fn (FPath ''author__name'') False None)"
  have "case ?r of Inl e \<Rightarrow> False | Inr x \<Rightarrow> True" by code_simp
  then obtain js fld fo where r: "?r = Inr (js, fld, fo)" by (cases ?r) auto
  have "butlast (split2 ''author__name'') = [''author'']" by simp
  with function_path_chain [OF r [unfolded Max_fn_def aggregate_init_def]] r show ?thesis by metis
qed

text \<open>
  An aggregate over a foreign key (\<^verbatim>\<open>Count("author")\<close>) refers to the key column of the
  related model's own table, but the only table joined for it is that table under an alias: the
  column's table is not in the query.
\<close>

theorem count_forward_key_table:
  assumes "split2 n = [n]" and "n \<in> set (fetch_fields (metas env mo))"
    and "map_of (fields_map (metas env mo)) n = Some f" and "is_fk (fclass f)"
    and "related_model (rel f) = Some rm"
    and "get_joins_for_related_field (metas env) (pp env) t f n = Inr js"
  shows "fn_resolve env lim mo t (Count (FPath n) False None)
           = Inr ([(t, n, f)], TFunc ''COUNT'' [VTerm (TField (basetable (metas env rm)) (db_pk_column (metas env rm)))], None)
       \<and> map fst js = [TableAs (basetable (metas env rm)) (tbl_name (pp env) t @ ''__'' @ n)]"
proof
  have cls: "\<not> is_backward_fk (fclass f)" "fclass f \<noteq> ManyToManyFieldInstance"
    using assms(4) by (auto simp: is_fk_def is_backward_fk_def)
  with assms show "fn_resolve env lim mo t (Count (FPath n) False None)
      = Inr ([(t, n, f)], TFunc ''COUNT'' [VTerm (TField (basetable (metas env rm)) (db_pk_column (metas env rm)))], None)"
    by (simp add: Count_def aggregate_init_def resolve_field_for_model_def resolve_last_field_def Let_def
        dict_at_def aggregate_filter_def get_function_field_def)
  from cls assms show "map fst js = [TableAs (basetable (metas env rm)) (tbl_name (pp env) t @ ''__'' @ n)]"
    by (auto simp: get_joins_for_related_field_def rbind_eq_Inr Let_def)
qed

theorem count_forward_key_table_witness:
  "fn_resolve sample_env 9 sample_post (Table ''post'' None) (Count (FPath ''author'') False None)
     = Inr ([(Table ''post'' None, ''author'', author_field)],
            TFunc ''COUNT'' [VTerm (TField (Table ''user'' None) ''id'')], None)"
proof -
  let ?f = "author_field"
  have js: "get_joins_for_related_field (metas sample_env) (pp sample_env) (Table ''post'' None) ?f ''author''
    = Inr [(TableAs (Table ''user'' None) ''post__author'',
        eq_cols (TableAs (Table ''user'' None) ''post__author'') ''id'' (Table ''post'' None) ''author_id'')]"
    by code_simp
  have f: "map_of (fields_map (metas sample_env sample_post)) ''author'' = Some ?f"
    "''author'' \<in> set (fetch_fields (metas sample_env sample_post))"
    "basetable (metas sample_env sample_user) = Table ''user'' None" "db_pk_column (metas sample_env sample_user) = ''id''"
    by code_simp+
  have "split2 ''author'' = [''author'']" "is_fk (fclass ?f)" "related_model (rel ?f) = Some sample_user"
    by (simp_all add: is_fk_def author_field_def plain_field_def)
  with count_forward_key_table [OF _ f(2) f(1) _ _ js, of sample_user 9] show ?thesis
    by (simp add: f(3,4))
qed

end
