(* ===== verification/ModelClass.thy ===== *)
theory ModelClass
  imports Meta
begin

text \<open>
  The relational fields' constructors (\<^verbatim>\<open>fields/relational.py\<close>) and the creation of a model
  class: \<^verbatim>\<open>MetaInfo.__init__\<close> and \<^verbatim>\<open>ModelMeta.__new__\<close> of \<^verbatim>\<open>models.py\<close>. A class attribute is
  a field object or something else; each class has field objects of its own (the code shares
  the objects an abstract base declares between the classes that inherit them).
\<close>

section \<open>Constructors of relational fields\<close>

definition validate_model_name :: "string \<Rightarrow> unit res" where
  "validate_model_name s = guard_exn (length (split_chr (CHR ''.'') s) \<noteq> 2) ConfigurationError"

definition relational_init ::
    "fclass \<Rightarrow> mid option \<Rightarrow> string option \<Rightarrow> bool \<Rightarrow> field_args \<Rightarrow> field res" where
  "relational_init c rm tf dbc a =
     rbind (field_init c a) (\<lambda>f.
     Inr (f\<lparr>rel := no_relattrs\<lparr>related_model := rm, to_field := tf, to_field_instance := None,
                               db_constraint := dbc\<rparr>\<rparr>))"

definition foreign_key_init ::
    "fclass \<Rightarrow> string \<Rightarrow> related_name \<Rightarrow> on_delete \<Rightarrow> string option \<Rightarrow> bool \<Rightarrow> field_args \<Rightarrow> field res" where
  "foreign_key_init c mn rn od tf dbc a =
     rbind (relational_init c None tf dbc a) (\<lambda>f.
     rbind (validate_model_name mn) (\<lambda>_.
     rbind (guard_exn (od = SET_NULL \<and> \<not> a_null a) ConfigurationError) (\<lambda>_.
     Inr (f\<lparr>rel := (rel f)\<lparr>model_name := mn, related_name := rn, on_delete := od\<rparr>\<rparr>))))"

definition one_to_one_init ::
    "string \<Rightarrow> related_name \<Rightarrow> on_delete \<Rightarrow> string option \<Rightarrow> bool \<Rightarrow> field_args \<Rightarrow> field res" where
  "one_to_one_init mn rn od tf dbc a =
     rbind (validate_model_name mn) (\<lambda>_.
     foreign_key_init OneToOneFieldInstance mn rn od tf dbc (a\<lparr>a_unique := True\<rparr>))"

definition backward_relation_init ::
    "fclass \<Rightarrow> mid \<Rightarrow> string \<Rightarrow> string \<Rightarrow> bool \<Rightarrow> string option \<Rightarrow> field res" where
  "backward_relation_init c m rf rsf nul descr =
     rbind (relational_init c (Some m) None True (no_args\<lparr>a_null := nul\<rparr>)) (\<lambda>f.
     Inr (f\<lparr>rel := (rel f)\<lparr>relation_field := rf, relation_source_field := rsf\<rparr>, description := descr\<rparr>))"

text \<open>\<^verbatim>\<open>forward_key or f"{model_name.split('.')[1].lower()}_id"\<close>\<close>

definition m2m_init ::
    "string \<Rightarrow> string option \<Rightarrow> string option \<Rightarrow> string \<Rightarrow> related_name \<Rightarrow> on_delete \<Rightarrow> mid option \<Rightarrow> bool
       \<Rightarrow> field_args \<Rightarrow> field res" where
  "m2m_init mn thr fk bk rn od ft cui a =
     rbind (relational_init ManyToManyFieldInstance ft None True a) (\<lambda>f.
     rbind (validate_model_name mn) (\<lambda>_.
     Inr (f\<lparr>rel := (rel f)\<lparr>model_name := mn, related_name := rn,
            forward_key := str_or fk (lower (split_chr (CHR ''.'') mn ! 1) @ ''_id''),
            backward_key := bk, through := thr, m2m_generated := False, on_delete := od,
            create_unique_index := cui\<rparr>\<rparr>)))"

section \<open>The options of a class\<close>

datatype together = Flat "string list" | Nested "string list list"
  \<comment> \<open>a tuple of names, or of tuples of names\<close>

datatype indexes_option = FlatIndexes "string list" | NestedIndexes "index_decl list"

definition get_together :: "together \<Rightarrow> string list list" where
  "get_together t = (case t of Flat ns \<Rightarrow> if ns = [] then [] else [ns] | Nested xs \<Rightarrow> xs)"

definition get_indexes :: "indexes_option \<Rightarrow> index_decl list" where
  "get_indexes t = (case t of FlatIndexes ns \<Rightarrow> if ns = [] then [] else [IdxFields ns] | NestedIndexes xs \<Rightarrow> xs)"

text \<open>\<^verbatim>\<open>QuerySet._resolve_ordering_string\<close>\<close>

definition resolve_ordering_string :: "string \<Rightarrow> (string \<times> order) res" where
  "resolve_ordering_string s =
     (case s of [] \<Rightarrow> Inl PyIndexError
      | c # cs \<Rightarrow> Inr (if c = CHR ''-'' then (cs, Desc) else (s, Asc)))"

record class_options =
  o_abstract :: bool
  o_table :: string
  o_schema :: "string option"
  o_app :: "string option"
  o_unique_together :: together
  o_indexes :: indexes_option
  o_ordering :: "string list"
  o_table_description :: string

definition no_options :: class_options where
  "no_options = \<lparr> o_abstract = False, o_table = [], o_schema = None, o_app = None,
     o_unique_together = Nested [], o_indexes = NestedIndexes [], o_ordering = [],
     o_table_description = [] \<rparr>"

definition meta_info_init :: "class_options \<Rightarrow> meta res" where
  "meta_info_init opt =
     rbind (rmap resolve_ordering_string (o_ordering opt)) (\<lambda>ord.
     Inr (empty_meta\<lparr>abstract := o_abstract opt, db_table := o_table opt, schema := o_schema opt,
       mapp := o_app opt, unique_together := get_together (o_unique_together opt),
       indexes := get_indexes (o_indexes opt), default_ordering := ord,
       table_description := o_table_description opt\<rparr>))"

section \<open>Collecting the attributes\<close>

datatype attr = AField field | AOther

text \<open>
  A base class: the classes behind it in its method resolution order, the \<^verbatim>\<open>fields_map\<close> of
  its \<^verbatim>\<open>_meta\<close> when it has one, and its own dictionary.
\<close>

datatype pyclass = PyClass "pyclass list" "(string, field) dict option" "(string \<times> attr) list"

fun add_mixin_attrs :: "(string \<times> attr) list \<Rightarrow> (string, attr) dict \<Rightarrow> (string, attr) dict" where
  "add_mixin_attrs [] acc = acc"
| "add_mixin_attrs ((k, AField f) # d) acc =
     add_mixin_attrs d (if dict_has acc k then acc else AList.update k (AField f) acc)"
| "add_mixin_attrs ((k, AOther) # d) acc = add_mixin_attrs d acc"

fun search_for_field_attributes :: "pyclass \<Rightarrow> (string, attr) dict \<Rightarrow> (string, attr) dict" where
  "search_for_field_attributes (PyClass mro_tail fm d) acc =
     (let acc' = fold search_for_field_attributes mro_tail acc
      in case fm of
           Some fs \<Rightarrow> dict_update acc' (map (\<lambda>(k, f). (k, AField f)) fs)
         | None \<Rightarrow> add_mixin_attrs d acc')"

definition inherit_attrs :: "pyclass list \<Rightarrow> (string, attr) dict \<Rightarrow> (string, attr) dict" where
  "inherit_attrs bases attrs =
     (let inherited = fold search_for_field_attributes bases []
      in if inherited \<noteq> [] then dict_update inherited attrs else attrs)"

section \<open>The primary key\<close>

text \<open>The loop over the attributes: whether a key was found, and the key's name.\<close>

definition pk_step :: "string \<times> attr \<Rightarrow> bool \<times> string \<Rightarrow> (bool \<times> string) res" where
  "pk_step kv st =
     (case snd kv of
        AOther \<Rightarrow> Inr st
      | AField f \<Rightarrow>
          if pk f then
            if fst st then Inl ConfigurationError
            else if generated f \<and> \<not> allows_generated (fclass f) then Inl ConfigurationError
            else Inr (True, fst kv)
          else Inr st)"

definition default_pk :: field where
  "default_pk = (plain_field IntField)\<lparr>pk := True, unique := True, index := True, generated := True\<rparr>"

lemma default_pk_init: "int_field_init IntField (no_args\<lparr>a_primary_key := Some True\<rparr>) = Inr default_pk"
  by (simp add: int_field_init_def field_init_def merge_alias_def no_args_def default_pk_def plain_field_def)

definition ensure_pk :: "string \<Rightarrow> bool \<Rightarrow> (string, attr) dict \<Rightarrow> ((string, attr) dict \<times> string) res" where
  "ensure_pk name is_abstract attrs =
     (if name = ''Model'' then Inr (attrs, ''id'')
      else rbind (rfold pk_step attrs (False, ''id'')) (\<lambda>(present, pka).
        if \<not> present \<and> \<not> is_abstract then
          (let attrs' = (if dict_has attrs ''id'' then attrs
                         else dict_update [(''id'', AField default_pk)] attrs)
           in case map_of attrs' ''id'' of
                Some (AField f) \<Rightarrow> if pk f then Inr (attrs', pka) else Inl ConfigurationError
              | _ \<Rightarrow> Inl ConfigurationError)
        else Inr (attrs, pka)))"

section \<open>The loop over the fields\<close>

record collect =
  c_fields :: "(string, field) dict"
  c_projection :: "(string, string) dict"
  c_filters :: "(string, filter_info) dict"
  c_fk :: "string list"
  c_o2o :: "string list"
  c_m2m :: "string list"

definition empty_collect :: collect where
  "empty_collect = \<lparr> c_fields = [], c_projection = [], c_filters = [], c_fk = [], c_o2o = [], c_m2m = [] \<rparr>"

definition collect_step :: "(mid \<Rightarrow> meta) \<Rightarrow> mid \<Rightarrow> string \<times> attr \<Rightarrow> collect \<Rightarrow> collect res" where
  "collect_step metas self kv c =
     (case kv of (key, AOther) \<Rightarrow> Inr c
      | (key, AField v) \<Rightarrow>
          let f = v\<lparr>model_field_name := key, fmodel := Some self\<rparr>;
              c1 = c\<lparr>c_fields := AList.update key f (c_fields c)\<rparr>
          in if fclass f = OneToOneFieldInstance then Inr (c1\<lparr>c_o2o := set_add key (c_o2o c1)\<rparr>)
             else if is_fk (fclass f) then Inr (c1\<lparr>c_fk := set_add key (c_fk c1)\<rparr>)
             else if fclass f = ManyToManyFieldInstance then Inr (c1\<lparr>c_m2m := set_add key (c_m2m c1)\<rparr>)
             else
               (let src = source_or f key
                in rbind (get_filters_for_field metas key (Some f) src) (\<lambda>fl.
                   rbind (if pk f then get_filters_for_field metas ''pk'' (Some f) src else Inr []) (\<lambda>pfl.
                   Inr (c1\<lparr>c_projection := AList.update key src (c_projection c1),
                          c_filters := dict_update (dict_update (c_filters c1) fl) pfl\<rparr>)))))"

text \<open>
  \<^verbatim>\<open>ModelMeta.__new__\<close>. \<open>self\<close> is the key the class will have; \<open>comments\<close> are the
  descriptions found before the attributes in the source text, \<open>doc\<close> is the first line of the
  class's docstring, both of which \<^verbatim>\<open>inspect\<close> reads.
\<close>

definition describe_field :: "(string, string) dict \<Rightarrow> string \<times> field \<Rightarrow> string \<times> field" where
  "describe_field comments kf =
     (case kf of (k, f) \<Rightarrow> (case map_of comments k of
          Some c \<Rightarrow> (k, if description f = None then f\<lparr>description := Some (hd (split_chr (char_of (10::nat)) c))\<rparr> else f)
        | None \<Rightarrow> (k, f)))"

definition model_new ::
    "(mid \<Rightarrow> meta) \<Rightarrow> mid \<Rightarrow> string \<Rightarrow> pyclass list \<Rightarrow> class_options \<Rightarrow> (string, attr) dict
       \<Rightarrow> (string, string) dict \<Rightarrow> string \<Rightarrow> meta res" where
  "model_new metas self name bases opt attrs0 comments doc =
     (let attrs1 = inherit_attrs bases attrs0 in
      rbind (ensure_pk name (o_abstract opt) attrs1) (\<lambda>(attrs, pka).
      rbind (rfold (collect_step metas self) attrs empty_collect) (\<lambda>c.
      rbind (meta_info_init opt) (\<lambda>mi.
      let fm = c_fields c; pko = map_of fm pka in
      Inr (finalise_fields (mi\<lparr>mname := name, fields_map := map (describe_field comments) fm,
        fields_db_projection := c_projection c, own_filters := c_filters c, fk_fields := c_fk c,
        o2o_fields := c_o2o c, m2m_fields := c_m2m c, backward_fk_fields := [], backward_o2o_fields := [],
        default_connection := None, pk_attr := pka,
        pk_name := (case pko of None \<Rightarrow> None | Some f \<Rightarrow> Some pka),
        db_pk_column := (case pko of None \<Rightarrow> [] | Some f \<Rightarrow> source_or f pka),
        inited := False,
        abstract := (fm = [] \<or> abstract mi),
        table_description := (if doc \<noteq> [] \<and> table_description mi = [] then doc else table_description mi)\<rparr>))))))"

section \<open>What a new class's metadata satisfies\<close>

definition own_field :: "mid \<Rightarrow> string \<Rightarrow> field \<Rightarrow> field" where
  "own_field self k v = v\<lparr>model_field_name := k, fmodel := Some self\<rparr>"

lemma own_field_simps [simp]:
  "fclass (own_field self k v) = fclass v" "pk (own_field self k v) = pk v"
  "source_field (own_field self k v) = source_field v" "model_field_name (own_field self k v) = k"
  "source_or (own_field self k v) = source_or v"
  by (simp_all add: own_field_def source_or_def fun_eq_iff)

lemma collect_step_fields:
  assumes "collect_step metas self (k, a) c = Inr c'"
  shows "c_fields c' = (case a of AField v \<Rightarrow> AList.update k (own_field self k v) (c_fields c) | AOther \<Rightarrow> c_fields c)"
  using assms
  by (cases a) (auto simp: collect_step_def own_field_def [symmetric] Let_def rbind_eq_Inr split: if_splits)

lemma collect_fields:
  assumes "rfold (collect_step metas self) attrs c = Inr c'" and "distinct (map fst attrs)"
  shows "map_of (c_fields c') k = (case map_of attrs k of Some (AField v) \<Rightarrow> Some (own_field self k v)
           | _ \<Rightarrow> map_of (c_fields c) k)"
  using assms
proof (induction attrs arbitrary: c)
  case (Cons ka attrs)
  obtain j a where ka: "ka = (j, a)" by (cases ka)
  from Cons.prems(1) obtain c1 where c1: "collect_step metas self (j, a) c = Inr c1"
    and r: "rfold (collect_step metas self) attrs c1 = Inr c'"
    by (auto simp: rbind_eq_Inr ka)
  have fresh: "map_of attrs j = None"
    using Cons.prems(2) by (simp add: ka map_of_eq_None_iff)
  show ?case
    using Cons.IH [OF r] Cons.prems(2) collect_step_fields [OF c1] fresh
    by (auto simp: ka map_of_update split: attr.splits option.splits)
qed simp

text \<open>The invariant of the loop over the fields.\<close>

definition collect_ok :: "collect \<Rightarrow> bool" where
  "collect_ok c \<longleftrightarrow>
     distinct (map fst (c_fields c)) \<and> distinct (map fst (c_projection c)) \<and>
     (\<forall>n. dict_has (c_projection c) n \<longleftrightarrow> (\<exists>f. map_of (c_fields c) n = Some f \<and> has_db_field (fclass f))) \<and>
     (\<forall>n. n \<in> set (c_fk c) \<longleftrightarrow> (\<exists>f. map_of (c_fields c) n = Some f \<and> fclass f = ForeignKeyFieldInstance)) \<and>
     (\<forall>n. n \<in> set (c_o2o c) \<longleftrightarrow> (\<exists>f. map_of (c_fields c) n = Some f \<and> fclass f = OneToOneFieldInstance)) \<and>
     (\<forall>n. n \<in> set (c_m2m c) \<longleftrightarrow> (\<exists>f. map_of (c_fields c) n = Some f \<and> fclass f = ManyToManyFieldInstance)) \<and>
     (\<forall>n f. map_of (c_fields c) n = Some f \<longrightarrow> model_field_name f = n \<and> \<not> is_backward_fk (fclass f))"

definition declarable :: "(string, attr) dict \<Rightarrow> bool" where
  "declarable attrs \<longleftrightarrow> distinct (map fst attrs) \<and>
     (\<forall>k f. (k, AField f) \<in> set attrs \<longrightarrow> \<not> is_backward_fk (fclass f))"

lemma has_db_field_iff:
  "has_db_field c \<longleftrightarrow> c \<noteq> ForeignKeyFieldInstance \<and> c \<noteq> OneToOneFieldInstance \<and>
     c \<noteq> ManyToManyFieldInstance \<and> \<not> is_backward_fk c"
  by (cases c) (simp_all add: has_db_field_def is_backward_fk_def)

lemma collect_step_effect:
  assumes "collect_step metas self (k, AField v) c = Inr c'"
  shows "c_fields c' = AList.update k (own_field self k v) (c_fields c)"
    and "set (c_o2o c') = (if fclass v = OneToOneFieldInstance then insert k (set (c_o2o c)) else set (c_o2o c))"
    and "set (c_fk c') = (if fclass v = ForeignKeyFieldInstance then insert k (set (c_fk c)) else set (c_fk c))"
    and "set (c_m2m c') = (if fclass v = ManyToManyFieldInstance then insert k (set (c_m2m c)) else set (c_m2m c))"
    and "c_projection c' = (if is_fk (fclass v) \<or> fclass v = ManyToManyFieldInstance then c_projection c
           else AList.update k (source_or v k) (c_projection c))"
  using assms
  by (auto simp: collect_step_def own_field_def [symmetric] Let_def rbind_eq_Inr is_fk_def split: if_splits)

lemma collect_step_ok:
  assumes "collect_step metas self (k, AField v) c = Inr c'" and "collect_ok c"
    and "map_of (c_fields c) k = None" and "\<not> is_backward_fk (fclass v)"
  shows "collect_ok c'"
proof -
  note e = collect_step_effect [OF assms(1)]
  have sets: "k \<notin> set (c_fk c)" "k \<notin> set (c_o2o c)" "k \<notin> set (c_m2m c)" "\<not> dict_has (c_projection c) k"
    using assms(2,3) by (simp_all add: collect_ok_def)
  show ?thesis
    unfolding collect_ok_def
  proof (intro conjI)
    show "distinct (map fst (c_fields c'))" "distinct (map fst (c_projection c'))"
      using assms(2) by (simp_all add: e collect_ok_def distinct_update)
    show "\<forall>n. dict_has (c_projection c') n \<longleftrightarrow>
        (\<exists>f. map_of (c_fields c') n = Some f \<and> has_db_field (fclass f))"
      using assms sets by (auto simp: e collect_ok_def dict_has_update map_of_update has_db_field_iff is_fk_def)
    show "\<forall>n. n \<in> set (c_fk c') \<longleftrightarrow> (\<exists>f. map_of (c_fields c') n = Some f \<and> fclass f = ForeignKeyFieldInstance)"
      using assms sets by (auto simp: e collect_ok_def map_of_update)
    show "\<forall>n. n \<in> set (c_o2o c') \<longleftrightarrow> (\<exists>f. map_of (c_fields c') n = Some f \<and> fclass f = OneToOneFieldInstance)"
      using assms sets by (auto simp: e collect_ok_def map_of_update)
    show "\<forall>n. n \<in> set (c_m2m c') \<longleftrightarrow> (\<exists>f. map_of (c_fields c') n = Some f \<and> fclass f = ManyToManyFieldInstance)"
      using assms sets by (auto simp: e collect_ok_def map_of_update)
    show "\<forall>n f. map_of (c_fields c') n = Some f \<longrightarrow> model_field_name f = n \<and> \<not> is_backward_fk (fclass f)"
      using assms by (auto simp: e collect_ok_def map_of_update)
  qed
qed

lemma collect_ok_loop:
  assumes "rfold (collect_step metas self) attrs c = Inr c'" and "collect_ok c" and "declarable attrs"
    and "\<forall>k\<in>fst ` set attrs. map_of (c_fields c) k = None"
  shows "collect_ok c'"
  using assms
proof (induction attrs arbitrary: c)
  case (Cons ka attrs)
  obtain j a where ka: "ka = (j, a)" by (cases ka)
  from Cons.prems(1) obtain c1 where c1: "collect_step metas self (j, a) c = Inr c1"
    and r: "rfold (collect_step metas self) attrs c1 = Inr c'"
    by (auto simp: rbind_eq_Inr ka)
  have d: "declarable attrs" using Cons.prems(3) by (auto simp: declarable_def)
  show ?case
  proof (cases a)
    case (AField v)
    have "collect_ok c1"
      using collect_step_ok [of metas self j v c c1] c1 AField Cons.prems(2-4)
      by (auto simp: ka declarable_def)
    moreover have "\<forall>k\<in>fst ` set attrs. map_of (c_fields c1) k = None"
      using Cons.prems(3,4) collect_step_fields [OF c1] AField
      by (auto simp: ka declarable_def map_of_update)
    ultimately show ?thesis by (rule Cons.IH [OF r _ d])
  next
    case AOther
    with c1 have "c1 = c" by (simp add: collect_step_def)
    with Cons.IH [OF r] Cons.prems(2,4) d show ?thesis by (auto simp: ka)
  qed
qed simp

lemma collect_ok_empty: "collect_ok empty_collect"
  by (simp add: collect_ok_def empty_collect_def dict_has_def)

lemma describe_field_simps:
  "fst (describe_field cm (k, f)) = k"
  "fclass (snd (describe_field cm (k, f))) = fclass f" "pk (snd (describe_field cm (k, f))) = pk f"
  "model_field_name (snd (describe_field cm (k, f))) = model_field_name f"
  by (auto simp: describe_field_def split: option.splits)

lemma map_of_describe:
  "map_of (map (describe_field cm) fm) k = map_option (\<lambda>f. snd (describe_field cm (k, f))) (map_of fm k)"
proof (induction fm)
  case (Cons kf fm)
  obtain j f where kf: "kf = (j, f)" by (cases kf)
  obtain j' f' where d: "describe_field cm (j, f) = (j', f')" by (cases "describe_field cm (j, f)")
  then have "j' = j" using describe_field_simps(1) [of cm j f] by simp
  with Cons d show ?case by (auto simp: kf)
qed simp

lemma fst_describe: "map fst (map (describe_field cm) fm) = map fst fm"
  by (induction fm) (auto simp: describe_field_simps(1))

text \<open>What \<^verbatim>\<open>__new__\<close> returns, in the pieces the proofs use.\<close>

lemma model_new_Inr:
  assumes "model_new metas self name bases opt attrs0 comments doc = Inr m"
  obtains attrs pka c where
    "ensure_pk name (o_abstract opt) (inherit_attrs bases attrs0) = Inr (attrs, pka)"
    "rfold (collect_step metas self) attrs empty_collect = Inr c"
    "fields_map m = map (describe_field comments) (c_fields c)"
    "fields_db_projection m = c_projection c" "fk_fields m = c_fk c" "o2o_fields m = c_o2o c"
    "m2m_fields m = c_m2m c" "backward_fk_fields m = []" "backward_o2o_fields m = []"
    "pk_attr m = pka" "pk_name m = (case map_of (c_fields c) pka of None \<Rightarrow> None | Some f \<Rightarrow> Some pka)"
    "db_pk_column m = (case map_of (c_fields c) pka of None \<Rightarrow> [] | Some f \<Rightarrow> source_or f pka)"
    "field_names m = map fst (fields_map m)" "set (db_fields m) = snd ` set (fields_db_projection m)"
    "set (fetch_fields m) = set (m2m_fields m) \<union> set (backward_fk_fields m) \<union> set (fk_fields m)
          \<union> set (backward_o2o_fields m) \<union> set (o2o_fields m)"
proof -
  from assms obtain attrs pka c mi where
    e: "ensure_pk name (o_abstract opt) (inherit_attrs bases attrs0) = Inr (attrs, pka)"
    and r: "rfold (collect_step metas self) attrs empty_collect = Inr c"
    and m: "m = finalise_fields (mi\<lparr>mname := name, fields_map := map (describe_field comments) (c_fields c),
        fields_db_projection := c_projection c, own_filters := c_filters c, fk_fields := c_fk c,
        o2o_fields := c_o2o c, m2m_fields := c_m2m c, backward_fk_fields := [], backward_o2o_fields := [],
        default_connection := None, pk_attr := pka,
        pk_name := (case map_of (c_fields c) pka of None \<Rightarrow> None | Some f \<Rightarrow> Some pka),
        db_pk_column := (case map_of (c_fields c) pka of None \<Rightarrow> [] | Some f \<Rightarrow> source_or f pka),
        inited := False,
        abstract := (c_fields c = [] \<or> abstract mi),
        table_description := (if doc \<noteq> [] \<and> table_description mi = [] then doc else table_description mi)\<rparr>)"
    by (auto simp: model_new_def rbind_eq_Inr Let_def)
  from e r show thesis
    by (rule that) (simp_all add: m)
qed

lemma declarable_ensure_pk:
  assumes "declarable attrs" and "ensure_pk name isabs attrs = Inr (attrs', pka)"
  shows "declarable attrs'"
proof -
  have "declarable (dict_update [(''id'', AField default_pk)] attrs)" if "\<not> dict_has attrs ''id''"
  proof -
    let ?new = "dict_update [(''id'', AField default_pk)] attrs"
    have mo: "map_of ?new = map_of [(''id'', AField default_pk)] ++ map_of attrs"
      using assms(1) by (simp add: map_of_dict_update declarable_def)
    have d: "distinct (map fst ?new)"
      by (rule distinct_dict_update) simp
    have "\<not> is_backward_fk (fclass f)" if "(k, AField f) \<in> set ?new" for k f
    proof -
      from that d have "map_of ?new k = Some (AField f)" by simp
      then consider "map_of attrs k = Some (AField f)" | "f = default_pk"
        unfolding mo by (cases "map_of attrs k") (simp_all add: map_add_def split: if_splits)
      then show ?thesis
      proof cases
        case 1
        then have "(k, AField f) \<in> set attrs" by (rule map_of_SomeD)
        with assms(1) show ?thesis unfolding declarable_def by blast
      qed (simp add: default_pk_def plain_field_def is_backward_fk_def)
    qed
    with d show ?thesis unfolding declarable_def by blast
  qed
  with assms show ?thesis
    by (auto simp: ensure_pk_def rbind_eq_Inr Let_def split: if_splits option.splits attr.splits)
qed

text \<open>A class with one text field, from a mixin, and a foreign key.\<close>

definition sample_mixin :: pyclass where
  "sample_mixin = PyClass [] None [(''name'', AField (plain_field TextField)), (''method'', AOther)]"

definition sample_fk :: field where
  "sample_fk = (plain_field ForeignKeyFieldInstance)\<lparr>rel := no_relattrs\<lparr>model_name := ''app.User''\<rparr>\<rparr>"

definition sample_new :: "meta res" where
  "sample_new = model_new (\<lambda>_. empty_meta) (''app'', ''Post'') ''Post'' [sample_mixin] no_options
     [(''author'', AField sample_fk)] [] []"

lemma sample_inherit:
  "inherit_attrs [sample_mixin] [(''author'', AField sample_fk)]
     = [(''name'', AField (plain_field TextField)), (''author'', AField sample_fk)]"
  by (simp add: inherit_attrs_def sample_mixin_def dict_has_def)

lemma sample_declarable: "declarable (inherit_attrs [sample_mixin] [(''author'', AField sample_fk)])"
  unfolding sample_inherit by (auto simp: declarable_def is_backward_fk_def sample_fk_def plain_field_def)

lemma sample_new_Inr: "\<exists>m. sample_new = Inr m"
proof -
  have "case sample_new of Inl e \<Rightarrow> False | Inr m \<Rightarrow> True" by code_simp
  then show ?thesis by (auto split: sum.splits)
qed

text \<open>
  C18. A new model class starts with well-formed metadata: the name sets, the column projection
  and the sets of forward relations agree with the field objects, whatever mixins, abstract
  bases and options the class has.
\<close>

theorem model_new_wf:
  assumes "declarable (inherit_attrs bases attrs0)"
    and "model_new metas self name bases opt attrs0 comments doc = Inr m"
  shows "meta_wf m"
  using assms(2)
proof (rule model_new_Inr)
  fix attrs pka c
  assume e: "ensure_pk name (o_abstract opt) (inherit_attrs bases attrs0) = Inr (attrs, pka)"
    and r: "rfold (collect_step metas self) attrs empty_collect = Inr c"
    and m: "fields_map m = map (describe_field comments) (c_fields c)"
    "fields_db_projection m = c_projection c" "fk_fields m = c_fk c" "o2o_fields m = c_o2o c"
    "m2m_fields m = c_m2m c" "backward_fk_fields m = []" "backward_o2o_fields m = []"
    "field_names m = map fst (fields_map m)" "set (db_fields m) = snd ` set (fields_db_projection m)"
    "set (fetch_fields m) = set (m2m_fields m) \<union> set (backward_fk_fields m) \<union> set (fk_fields m)
          \<union> set (backward_o2o_fields m) \<union> set (o2o_fields m)"
  have "collect_ok c"
    by (rule collect_ok_loop [OF r collect_ok_empty declarable_ensure_pk [OF assms(1) e]])
      (simp add: empty_collect_def)
  note ok = this [unfolded collect_ok_def]
  note mo = map_of_describe [of comments "c_fields c", folded m(1)]
  have keys: "map fst (fields_map m) = map fst (c_fields c)"
    unfolding m(1) by (rule fst_describe)
  then have names: "fst ` set (fields_map m) = fst ` set (c_fields c)"
    by (metis set_map)
  have fetch: "n \<in> fst ` set (c_fields c)" if "n \<in> set (fetch_fields m)" for n
    using that ok by (auto simp: m(3-7,10) simp flip: dict_has_iff simp: dict_has_def)
  show "meta_wf m"
    unfolding meta_wf_def
  proof (intro conjI)
    show "distinct (map fst (fields_map m))" "distinct (map fst (fields_db_projection m))"
      using ok unfolding keys m(2) by blast+
    show "set (fetch_fields m) \<subseteq> set (field_names m)"
      using fetch names by (auto simp: m(8))
    show "\<forall>n. dict_has (fields_db_projection m) n \<longleftrightarrow>
          (\<exists>f. map_of (fields_map m) n = Some f \<and> has_db_field (fclass f))"
      using ok by (auto simp: mo m(2) describe_field_simps)
    show "\<forall>n f. map_of (fields_map m) n = Some f \<longrightarrow> model_field_name f = n"
      using ok by (auto simp: mo describe_field_simps)
    show "kind_sets_ok m"
      using ok by (auto simp: kind_sets_ok_def mo m(5-7) describe_field_simps is_backward_fk_def simp del: map_of_eq_Some_iff)
  qed (use m(8-10) in simp_all)
qed

theorem model_new_wf_witness:
  "\<exists>m. sample_new = Inr m \<and> meta_wf m"
proof -
  from sample_new_Inr obtain m where m: "sample_new = Inr m" by blast
  from model_new_wf [OF sample_declarable m [unfolded sample_new_def]] m show ?thesis by blast
qed

section \<open>The primary key of a class\<close>

definition is_pk_attr :: "string \<times> attr \<Rightarrow> bool" where
  "is_pk_attr kv = (case snd kv of AField f \<Rightarrow> pk f | AOther \<Rightarrow> False)"

lemma pk_scan:
  assumes "rfold pk_step attrs st = Inr st'"
  shows "(fst st \<longrightarrow> filter is_pk_attr attrs = [] \<and> st' = st) \<and>
         (\<not> fst st \<longrightarrow> (filter is_pk_attr attrs = [] \<and> st' = st) \<or>
            (\<exists>f. filter is_pk_attr attrs = [(snd st', AField f)] \<and> fst st'))"
  using assms
proof (induction attrs arbitrary: st)
  case (Cons ka attrs)
  obtain j a where ka: "ka = (j, a)" by (cases ka)
  from Cons.prems obtain s1 where s1: "pk_step (j, a) st = Inr s1" and r: "rfold pk_step attrs s1 = Inr st'"
    by (auto simp: rbind_eq_Inr ka)
  from Cons.IH [OF r] s1 show ?case
    by (cases a) (auto simp: ka pk_step_def is_pk_attr_def split: if_splits)
qed simp

lemma filter_singleton_map_of:
  assumes "filter is_pk_attr attrs = [(k, AField f)]" and "distinct (map fst attrs)"
  shows "map_of attrs j = Some (AField g) \<and> pk g \<longleftrightarrow> j = k \<and> g = f"
proof -
  have "map_of attrs j = Some (AField g) \<and> pk g \<longleftrightarrow> (j, AField g) \<in> set (filter is_pk_attr attrs)"
    using assms(2) by (simp add: is_pk_attr_def)
  then show ?thesis by (simp add: assms(1))
qed

lemma ensure_pk_unique:
  assumes "distinct (map fst attrs)" and "name \<noteq> ''Model''" and "\<not> isabs"
    and "ensure_pk name isabs attrs = Inr (attrs', pka)"
  shows "\<exists>f. \<forall>j g. map_of attrs' j = Some (AField g) \<and> pk g \<longleftrightarrow> j = pka \<and> g = f"
proof -
  from assms(2-4) obtain present p where scan: "rfold pk_step attrs (False, ''id'') = Inr (present, p)"
    by (auto simp: ensure_pk_def rbind_eq_Inr)
  note ps = pk_scan [OF scan, simplified]
  show ?thesis
  proof (cases present)
    case True
    with assms scan have "attrs' = attrs" "pka = p" by (auto simp: ensure_pk_def)
    with ps True filter_singleton_map_of [OF _ assms(1)] show ?thesis by metis
  next
    case False
    with ps have none: "filter is_pk_attr attrs = []" and p: "p = ''id''" by auto
    have np: "map_of attrs j = Some (AField g) \<Longrightarrow> \<not> pk g" for j g
      using none by (auto simp: filter_empty_conv is_pk_attr_def dest!: map_of_SomeD)
    show ?thesis
    proof (cases "dict_has attrs ''id''")
      case True
      with assms scan False p obtain f where "map_of attrs ''id'' = Some (AField f)" "pk f"
        by (auto simp: ensure_pk_def Let_def split: option.splits attr.splits if_splits)
      with np show ?thesis by blast
    next
      case nid: False
      with assms scan False p have a: "attrs' = dict_update [(''id'', AField default_pk)] attrs" "pka = ''id''"
        by (auto simp: ensure_pk_def Let_def split: option.splits attr.splits if_splits)
      have "map_of attrs' = map_of [(''id'', AField default_pk)] ++ map_of attrs"
        using assms(1) by (simp add: a map_of_dict_update)
      moreover have "map_of attrs ''id'' = None" using nid by (simp add: dict_has_def)
      moreover have "pk default_pk" by (simp add: default_pk_def)
      ultimately have "map_of attrs' j = Some (AField g) \<and> pk g \<longleftrightarrow> j = pka \<and> g = default_pk" for j g
        using np a(2) by (auto simp: map_add_def split: option.splits)
      then show ?thesis by blast
    qed
  qed
qed

text \<open>
  C19. A concrete model class has exactly one primary key: creating a class either raises, or
  leaves one field that is a primary key, which \<^verbatim>\<open>pk_attr\<close> and \<^verbatim>\<open>pk\<close> name and whose
  column is \<^verbatim>\<open>db_pk_column\<close>.
\<close>

theorem model_new_one_pk:
  assumes "declarable (inherit_attrs bases attrs0)" and "name \<noteq> ''Model''" and "\<not> o_abstract opt"
    and "model_new metas self name bases opt attrs0 comments doc = Inr m"
  shows "\<exists>f. map_of (fields_map m) (pk_attr m) = Some f \<and> pk f \<and>
     (\<forall>n g. map_of (fields_map m) n = Some g \<longrightarrow> pk g \<longrightarrow> n = pk_attr m) \<and>
     pk_name m = Some (pk_attr m) \<and> db_pk_column m = source_or f (pk_attr m)"
  using assms(4)
proof (rule model_new_Inr)
  fix attrs pka c
  assume e: "ensure_pk name (o_abstract opt) (inherit_attrs bases attrs0) = Inr (attrs, pka)"
    and r: "rfold (collect_step metas self) attrs empty_collect = Inr c"
    and m: "fields_map m = map (describe_field comments) (c_fields c)" "pk_attr m = pka"
    "pk_name m = (case map_of (c_fields c) pka of None \<Rightarrow> None | Some f \<Rightarrow> Some pka)"
    "db_pk_column m = (case map_of (c_fields c) pka of None \<Rightarrow> [] | Some f \<Rightarrow> source_or f pka)"
  have d: "distinct (map fst attrs)"
    using declarable_ensure_pk [OF assms(1) e] by (simp add: declarable_def)
  have "distinct (map fst (inherit_attrs bases attrs0))"
    using assms(1) by (simp add: declarable_def)
  from ensure_pk_unique [OF this assms(2,3) e] obtain f
    where one: "\<And>j g. map_of attrs j = Some (AField g) \<and> pk g \<longleftrightarrow> j = pka \<and> g = f" by blast
  then have f: "map_of attrs pka = Some (AField f)" "pk f" by blast+
  have cf: "map_of (c_fields c) k = (case map_of attrs k of Some (AField v) \<Rightarrow> Some (own_field self k v) | _ \<Rightarrow> None)" for k
    using collect_fields [OF r d, of k] by (auto simp: empty_collect_def split: option.splits attr.splits)
  have mo: "map_of (fields_map m) k = map_option (\<lambda>f. snd (describe_field comments (k, f))) (map_of (c_fields c) k)" for k
    unfolding m(1) by (rule map_of_describe)
  have src: "source_or (snd (describe_field comments (k, g))) = source_or g" for k g
    by (auto simp: describe_field_def source_or_def fun_eq_iff split: option.splits)
  have uniq: "n = pka" if "map_of (fields_map m) n = Some g" "pk g" for n g
  proof -
    from that(1) obtain v where v: "map_of attrs n = Some (AField v)"
      "g = snd (describe_field comments (n, own_field self n v))"
      by (auto simp: mo cf split: option.splits attr.splits)
    with that(2) have "pk v" by (simp add: describe_field_simps)
    with one v(1) show ?thesis by blast
  qed
  show ?thesis
    using f uniq by (auto simp: m(2-4) mo cf describe_field_simps src)
qed

theorem model_new_one_pk_witness:
  "\<exists>m f. sample_new = Inr m \<and> map_of (fields_map m) (pk_attr m) = Some f \<and> pk f"
proof -
  from sample_new_Inr obtain m where m: "sample_new = Inr m" by blast
  have "''Post'' \<noteq> ''Model''" "\<not> o_abstract no_options" by (simp_all add: no_options_def)
  from model_new_one_pk [OF sample_declarable this m [unfolded sample_new_def]] m show ?thesis by blast
qed

end
