(* ===== verification/Relations.thy ===== *)
theory Relations
  imports ModelClass
begin

text \<open>
  \<^verbatim>\<open>Tortoise._init_relations\<close> (\<^verbatim>\<open>tortoise/__init__.py\<close>): every foreign key gets its key field,
  every relation its backward relation on the other model. The world is the registry
  \<^verbatim>\<open>Tortoise.apps\<close> and the metadata of every class. Each operation that changes a field object
  of a model writes it back to the model's \<^verbatim>\<open>fields_map\<close>.
\<close>

record world =
  w_apps :: "(string, (string, mid) dict) dict"
  w_metas :: "mid \<Rightarrow> meta"

definition upd_meta :: "mid \<Rightarrow> (meta \<Rightarrow> meta) \<Rightarrow> world \<Rightarrow> world" where
  "upd_meta m g w = w\<lparr>w_metas := (w_metas w)(m := g (w_metas w m))\<rparr>"

definition set_field :: "mid \<Rightarrow> string \<Rightarrow> field \<Rightarrow> world \<Rightarrow> world" where
  "set_field m n f = upd_meta m (\<lambda>mt. mt\<lparr>fields_map := AList.update n f (fields_map mt)\<rparr>)"

definition world_add_field :: "mid \<Rightarrow> string \<Rightarrow> field \<Rightarrow> world \<Rightarrow> world res" where
  "world_add_field m n f w =
     rbind (add_field (w_metas w) m (w_metas w m) n f) (\<lambda>mt. Inr (upd_meta m (\<lambda>_. mt) w))"

section \<open>References to models\<close>

definition split_reference :: "string \<Rightarrow> (string \<times> string) res" where
  "split_reference s =
     (case split_chr (CHR ''.'') s of [a, b] \<Rightarrow> Inr (a, b) | _ \<Rightarrow> Inl ConfigurationError)"

definition get_related_model :: "world \<Rightarrow> string \<Rightarrow> string \<Rightarrow> mid res" where
  "get_related_model w app_name name =
     (case map_of (w_apps w) app_name of
        None \<Rightarrow> Inl ConfigurationError
      | Some models \<Rightarrow> (case map_of models name of None \<Rightarrow> Inl ConfigurationError | Some m \<Rightarrow> Inr m))"

section \<open>Foreign keys\<close>

text \<open>The field a foreign key refers to: its name in the related model, and the field.\<close>

definition fk_target :: "meta \<Rightarrow> field \<Rightarrow> (string \<times> field) res" where
  "fk_target rmeta fk =
     (case to_field (rel fk) of
        Some tf \<Rightarrow> if tf \<noteq> [] then
            (case map_of (fields_map rmeta) tf of
               None \<Rightarrow> Inl ConfigurationError
             | Some f \<Rightarrow> if \<not> unique f then Inl ConfigurationError else Inr (tf, f))
          else rbind (get_pk rmeta) (\<lambda>f. Inr (model_field_name f, f))
      | None \<Rightarrow> rbind (get_pk rmeta) (\<lambda>f. Inr (model_field_name f, f)))"

definition resolved_to_field :: "meta \<Rightarrow> field \<Rightarrow> string" where
  "resolved_to_field rmeta fk = str_or (to_field (rel fk)) (pk_attr rmeta)"

definition key_fk_object :: "bool \<Rightarrow> string \<Rightarrow> string \<Rightarrow> field \<Rightarrow> field \<Rightarrow> field" where
  "key_fk_object is_o2o fname key_field fk related =
     related\<lparr>reference := Some fname, source_field := Some (source_or fk key_field),
       index := index fk, default := default fk, null := null fk, generated := generated fk,
       description := description fk,
       pk := (if is_o2o then pk fk else False), unique := (if is_o2o then unique fk else False)\<rparr>"

definition backward_name :: "meta \<Rightarrow> related_name \<Rightarrow> string option" where
  "backward_name m rn =
     (case rn of NoRelation \<Rightarrow> None
      | NoName \<Rightarrow> Some (db_table m @ ''s'')
      | RelName n \<Rightarrow> Some (if n = [] then db_table m @ ''s'' else n))"

definition add_backward_relation ::
    "mid \<Rightarrow> mid \<Rightarrow> bool \<Rightarrow> string \<Rightarrow> string \<Rightarrow> field \<Rightarrow> world \<Rightarrow> world res" where
  "add_backward_relation m rm is_o2o key_field key_source fk w =
     (case backward_name (w_metas w m) (related_name (rel fk)) of
        None \<Rightarrow> Inr w
      | Some bn \<Rightarrow>
          rbind (guard_exn (bn \<in> set (field_names (w_metas w rm))) ConfigurationError) (\<lambda>_.
          rbind (backward_relation_init (if is_o2o then BackwardOneToOneRelation else BackwardFKRelation)
                   m key_field key_source (if is_o2o then True else null fk) (description fk)) (\<lambda>b.
          world_add_field rm bn (b\<lparr>rel := (rel b)\<lparr>to_field_instance := to_field_instance (rel fk)\<rparr>\<rparr>) w)))"

definition init_fk_o2o_field :: "mid \<Rightarrow> bool \<Rightarrow> string \<Rightarrow> world \<Rightarrow> world res" where
  "init_fk_o2o_field m is_o2o fname w =
     rbind (dict_at (fields_map (w_metas w m)) fname) (\<lambda>fk.
     rbind (split_reference (model_name (rel fk))) (\<lambda>(ra, rn).
     rbind (get_related_model w ra rn) (\<lambda>rm.
     rbind (fk_target (w_metas w rm) fk) (\<lambda>(tname, related).
     let fk1 = fk\<lparr>rel := (rel fk)\<lparr>to_field := Some (resolved_to_field (w_metas w rm) fk),
                                to_field_instance := Some (rm, tname)\<rparr>\<rparr>;
         key_field = fname @ ''_id'';
         key = key_fk_object is_o2o fname key_field fk1 related
     in rbind (world_add_field m key_field key (set_field m fname fk1 w)) (\<lambda>w1.
        let fk2 = fk1\<lparr>source_field := Some key_field, rel := (rel fk1)\<lparr>related_model := Some rm\<rparr>\<rparr>;
            w2 = set_field m fname fk2 w1
        in rbind (add_backward_relation m rm is_o2o key_field (source_or fk1 key_field) fk2 w2) (\<lambda>w3.
           Inr (if is_o2o \<and> pk fk2 then upd_meta m (\<lambda>mt. mt\<lparr>pk_attr := key_field\<rparr>) w3 else w3)))))))"

section \<open>Many-to-many relations\<close>

definition m2m_backward_key :: "meta \<Rightarrow> field \<Rightarrow> string" where
  "m2m_backward_key m f =
     (if backward_key (rel f) \<noteq> [] then backward_key (rel f)
      else if db_table m @ ''_id'' = forward_key (rel f) then db_table m @ ''_rel_id''
      else db_table m @ ''_id'')"

definition m2m_related_name :: "meta \<Rightarrow> field \<Rightarrow> string" where
  "m2m_related_name m f =
     (case related_name (rel f) of RelName n \<Rightarrow> if n = [] then db_table m @ ''s'' else n
      | _ \<Rightarrow> db_table m @ ''s'')"

definition m2m_through :: "meta \<Rightarrow> meta \<Rightarrow> field \<Rightarrow> string" where
  "m2m_through m rmeta f =
     str_or (through (rel f))
       (db_table m @ ''_'' @ (if db_table rmeta \<noteq> [] then db_table rmeta else lower (mname rmeta)))"

definition m2m_object :: "meta \<Rightarrow> meta \<Rightarrow> mid \<Rightarrow> field \<Rightarrow> field" where
  "m2m_object m rmeta rm f =
     f\<lparr>rel := (rel f)\<lparr>backward_key := m2m_backward_key m f, related_model := Some rm,
                     related_name := RelName (m2m_related_name m f), through := Some (m2m_through m rmeta f)\<rparr>\<rparr>"

definition link_m2m :: "string \<Rightarrow> mid \<Rightarrow> string \<Rightarrow> field \<Rightarrow> mid \<Rightarrow> world \<Rightarrow> world res" where
  "link_m2m full_name m fname f rm w =
     (let bn = m2m_related_name (w_metas w m) f;
          f1 = m2m_object (w_metas w m) (w_metas w rm) rm f
      in rbind (guard_exn (bn \<in> set (field_names (w_metas w rm))) ConfigurationError) (\<lambda>_.
         rbind (m2m_init full_name (through (rel f1)) (Some (backward_key (rel f1))) (forward_key (rel f))
                  (RelName fname) CASCADE (Some m) True (no_args\<lparr>a_description := description f\<rparr>)) (\<lambda>g.
         rbind (get_pk (w_metas w rm)) (\<lambda>target.
         world_add_field rm bn (g\<lparr>rel := (rel g)\<lparr>m2m_generated := True\<rparr>\<rparr>)
           (upd_meta m (\<lambda>mt. mt\<lparr>filters := dict_update (filters mt) (get_m2m_filters fname f1 target)\<rparr>)
              (set_field m fname f1 w))))))"

definition init_m2m_field :: "string \<Rightarrow> string \<Rightarrow> mid \<Rightarrow> string \<Rightarrow> world \<Rightarrow> world res" where
  "init_m2m_field app_name name m fname w =
     rbind (dict_at (fields_map (w_metas w m)) fname) (\<lambda>f.
     if m2m_generated (rel f) then Inr w
     else rbind (split_reference (model_name (rel f))) (\<lambda>(ra, rn).
          rbind (get_related_model w ra rn) (\<lambda>rm.
          link_m2m (app_name @ ''.'' @ name) m fname f rm w)))"

section \<open>All relations\<close>

definition start_model :: "mid \<Rightarrow> world \<Rightarrow> world" where
  "start_model m =
     upd_meta m (\<lambda>mt. mt\<lparr>inited := True, db_table := (if db_table mt = [] then lower (mname mt) else db_table mt)\<rparr>)"

definition init_model_relations :: "string \<Rightarrow> string \<Rightarrow> mid \<Rightarrow> world \<Rightarrow> world res" where
  "init_model_relations app_name name m w =
     (if inited (w_metas w m) then Inr w
      else
        rbind (rfold (init_fk_o2o_field m False) (sort (fk_fields (w_metas w m))) (start_model m w)) (\<lambda>w1.
        rbind (rfold (init_fk_o2o_field m True) (o2o_fields (w_metas w1 m)) w1) (\<lambda>w2.
        rfold (init_m2m_field app_name name m) (m2m_fields (w_metas w2 m)) w2)))"

definition init_relations :: "world \<Rightarrow> world res" where
  "init_relations w =
     rfold (\<lambda>(app_name, models). rfold (\<lambda>(name, m). init_model_relations app_name name m) models) (w_apps w) w"

section \<open>Reading a field of the world\<close>

definition fld :: "world \<Rightarrow> mid \<Rightarrow> string \<Rightarrow> field option" where
  "fld w m n = map_of (fields_map (w_metas w m)) n"

lemma w_metas_upd [simp]: "w_metas (upd_meta m g w) k = (if k = m then g (w_metas w m) else w_metas w k)"
  by (simp add: upd_meta_def)

lemma w_apps_upd [simp]: "w_apps (upd_meta m g w) = w_apps w" "w_apps (set_field m n f w) = w_apps w"
  by (simp_all add: upd_meta_def set_field_def)

lemma fld_set_field [simp]: "fld (set_field m n f w) k j = (if k = m \<and> j = n then Some f else fld w k j)"
  by (simp add: fld_def set_field_def map_of_update)

lemma fld_upd_same [simp]:
  "(\<And>mt. fields_map (g mt) = fields_map mt) \<Longrightarrow> fld (upd_meta m g w) k j = fld w k j"
  by (simp add: fld_def)

lemma world_add_field_fld:
  assumes "world_add_field m n f w = Inr w'"
  shows "fld w' k j = (if k = m \<and> j = n then Some (own_field m n f) else fld w k j)"
    and "fld w m n = None" and "w_apps w' = w_apps w"
proof -
  from assms obtain mt where a: "add_field (w_metas w) m (w_metas w m) n f = Inr mt"
    and w': "w' = upd_meta m (\<lambda>_. mt) w"
    by (auto simp: world_add_field_def rbind_eq_Inr)
  show "fld w' k j = (if k = m \<and> j = n then Some (own_field m n f) else fld w k j)"
    using add_field_Inr(2) [OF a] by (simp add: w' fld_def map_of_update own_field_def)
  show "fld w m n = None" using add_field_Inr(1) [OF a] by (simp add: fld_def dict_has_def)
  show "w_apps w' = w_apps w" by (simp add: w')
qed

section \<open>Well-formedness is kept\<close>

definition world_wf :: "world \<Rightarrow> bool" where
  "world_wf w \<longleftrightarrow> (\<forall>m. meta_wf (w_metas w m))"

lemma world_wfD: "world_wf w \<Longrightarrow> meta_wf (w_metas w m)"
  unfolding world_wf_def by blast

lemma meta_wf_cong:
  assumes "meta_wf m" "map fst (fields_map m') = map fst (fields_map m)"
    "\<And>n. map_option fclass (map_of (fields_map m') n) = map_option fclass (map_of (fields_map m) n)"
    "\<And>n f. map_of (fields_map m') n = Some f \<Longrightarrow> model_field_name f = n"
    "fields_db_projection m' = fields_db_projection m" "field_names m' = field_names m"
    "db_fields m' = db_fields m" "fetch_fields m' = fetch_fields m"
    "m2m_fields m' = m2m_fields m" "backward_fk_fields m' = backward_fk_fields m"
    "fk_fields m' = fk_fields m" "backward_o2o_fields m' = backward_o2o_fields m" "o2o_fields m' = o2o_fields m"
  shows "meta_wf m'"
proof -
  have cls: "(\<exists>f. map_of (fields_map m') n = Some f \<and> P (fclass f)) \<longleftrightarrow>
      (\<exists>f. map_of (fields_map m) n = Some f \<and> P (fclass f))" for n P
    using assms(3) [of n] by (cases "map_of (fields_map m) n"; cases "map_of (fields_map m') n") auto
  have "kind_sets_ok m'"
    unfolding kind_sets_ok_def
  proof (intro allI impI)
    fix n f assume "map_of (fields_map m') n = Some f"
    with assms(3) [of n] obtain g where "map_of (fields_map m) n = Some g" "fclass g = fclass f"
      by (cases "map_of (fields_map m) n") auto
    moreover have "kind_sets_ok m" using assms(1) by (simp add: meta_wf_def)
    ultimately show "(n \<in> set (m2m_fields m') \<longleftrightarrow> fclass f = ManyToManyFieldInstance) \<and>
      (n \<in> set (backward_o2o_fields m') \<longleftrightarrow> fclass f = BackwardOneToOneRelation) \<and>
      (n \<in> set (backward_fk_fields m') \<longleftrightarrow> fclass f = BackwardFKRelation)"
      unfolding kind_sets_ok_def assms(9,10,12) by metis
  qed
  with assms(1) show ?thesis
    unfolding meta_wf_def assms(2,5-13) cls using assms(4) by blast
qed

lemma world_wf_upd:
  assumes "world_wf w" "meta_wf (g (w_metas w m))"
  shows "world_wf (upd_meta m g w)"
  using assms by (simp add: world_wf_def)

lemma world_wf_set_field:
  assumes "world_wf w" and "fld w m n = Some f0" and "fclass f = fclass f0" and "model_field_name f = n"
  shows "world_wf (set_field m n f w)"
  unfolding set_field_def
proof (rule world_wf_upd [OF assms(1)])
  let ?m = "w_metas w m"
  have f0: "map_of (fields_map ?m) n = Some f0" using assms(2) by (simp add: fld_def)
  then have n: "n \<in> set (map fst (fields_map ?m))" by (force dest: map_of_SomeD)
  have wf: "meta_wf ?m" using assms(1) by (rule world_wfD)
  show "meta_wf (?m\<lparr>fields_map := AList.update n f (fields_map ?m)\<rparr>)"
  proof (rule meta_wf_cong [OF wf])
    fix j g assume "map_of (fields_map (?m\<lparr>fields_map := AList.update n f (fields_map ?m)\<rparr>)) j = Some g"
    with wf assms(4) show "model_field_name g = j"
      by (auto simp: map_of_update meta_wf_def split: if_splits)
  qed (use n f0 assms(3) in \<open>simp_all add: update_keys map_of_update\<close>)
qed

lemma world_wf_add_field:
  assumes "world_wf w" and "world_add_field m n f w = Inr w'"
  shows "world_wf w'"
proof -
  from assms(2) obtain mt where a: "add_field (w_metas w) m (w_metas w m) n f = Inr mt"
    and w': "w' = upd_meta m (\<lambda>_. mt) w"
    by (auto simp: world_add_field_def rbind_eq_Inr)
  have "meta_wf mt" using add_field_keeps_wf [OF world_wfD [OF assms(1)] a] .
  then show ?thesis unfolding w' by (rule world_wf_upd [OF assms(1)])
qed

lemma world_wf_neutral:
  assumes "world_wf w"
    and "\<And>mt. fields_map (g mt) = fields_map mt \<and> fields_db_projection (g mt) = fields_db_projection mt \<and>
      field_names (g mt) = field_names mt \<and> db_fields (g mt) = db_fields mt \<and> fetch_fields (g mt) = fetch_fields mt \<and>
      m2m_fields (g mt) = m2m_fields mt \<and> backward_fk_fields (g mt) = backward_fk_fields mt \<and>
      fk_fields (g mt) = fk_fields mt \<and> backward_o2o_fields (g mt) = backward_o2o_fields mt \<and> o2o_fields (g mt) = o2o_fields mt"
  shows "world_wf (upd_meta m g w)"
proof (rule world_wf_upd [OF assms(1)])
  have wf: "meta_wf (w_metas w m)" using assms(1) by (rule world_wfD)
  show "meta_wf (g (w_metas w m))"
  proof (rule meta_wf_cong [OF wf])
    fix n f assume "map_of (fields_map (g (w_metas w m))) n = Some f"
    with wf assms(2) show "model_field_name f = n" by (auto simp: meta_wf_def)
  qed (simp_all add: assms(2))
qed

lemma fld_model_field_name: "world_wf w \<Longrightarrow> fld w m n = Some f \<Longrightarrow> model_field_name f = n"
  using world_wfD [of w m] unfolding meta_wf_def fld_def by blast

text \<open>One foreign key, step by step.\<close>

lemma init_fk_Inr:
  assumes "init_fk_o2o_field m is_o2o n w = Inr w'"
  obtains fk rm tname related fk1 fk2 key w1 w3 ra rn where
    "fld w m n = Some fk" "split_reference (model_name (rel fk)) = Inr (ra, rn)"
    "get_related_model w ra rn = Inr rm" "fk_target (w_metas w rm) fk = Inr (tname, related)"
    "fk1 = fk\<lparr>rel := (rel fk)\<lparr>to_field := Some (resolved_to_field (w_metas w rm) fk),
                              to_field_instance := Some (rm, tname)\<rparr>\<rparr>"
    "key = key_fk_object is_o2o n (n @ ''_id'') fk1 related"
    "world_add_field m (n @ ''_id'') key (set_field m n fk1 w) = Inr w1"
    "fk2 = fk1\<lparr>source_field := Some (n @ ''_id''), rel := (rel fk1)\<lparr>related_model := Some rm\<rparr>\<rparr>"
    "add_backward_relation m rm is_o2o (n @ ''_id'') (source_or fk1 (n @ ''_id'')) fk2 (set_field m n fk2 w1) = Inr w3"
    "w' = (if is_o2o \<and> pk fk2 then upd_meta m (\<lambda>mt. mt\<lparr>pk_attr := n @ ''_id''\<rparr>) w3 else w3)"
  using assms unfolding init_fk_o2o_field_def fld_def
  by (auto simp: rbind_eq_Inr Let_def simp del: field.update_convs)

lemma backward_relation_init_simps:
  assumes "backward_relation_init c m rf rsf nul descr = Inr b"
  shows "fclass b = c" "related_model (rel b) = Some m" "relation_field (rel b) = rf"
    "relation_source_field (rel b) = rsf" "null b = nul"
  using assms
  by (auto simp: backward_relation_init_def relational_init_def field_init_def rbind_eq_Inr no_args_def Let_def)

lemma add_backward_Inr:
  assumes "add_backward_relation m rm o2o kf ks fk w = Inr w'"
  shows "(backward_name (w_metas w m) (related_name (rel fk)) = None \<and> w' = w) \<or>
    (\<exists>bn b. backward_name (w_metas w m) (related_name (rel fk)) = Some bn \<and>
       fclass b = (if o2o then BackwardOneToOneRelation else BackwardFKRelation) \<and>
       related_model (rel b) = Some m \<and> relation_field (rel b) = kf \<and> relation_source_field (rel b) = ks \<and>
       to_field_instance (rel b) = to_field_instance (rel fk) \<and> world_add_field rm bn b w = Inr w')"
proof (cases "backward_name (w_metas w m) (related_name (rel fk))")
  case None
  with assms show ?thesis by (simp add: add_backward_relation_def)
next
  case (Some bn)
  with assms obtain b where b: "backward_relation_init (if o2o then BackwardOneToOneRelation else BackwardFKRelation)
       m kf ks (if o2o then True else null fk) (description fk) = Inr b"
    and a: "world_add_field rm bn (b\<lparr>rel := (rel b)\<lparr>to_field_instance := to_field_instance (rel fk)\<rparr>\<rparr>) w = Inr w'"
    by (auto simp: add_backward_relation_def rbind_eq_Inr)
  from backward_relation_init_simps [OF b] a Some show ?thesis
    by (intro disjI2 exI [of _ bn] exI [of _ "b\<lparr>rel := (rel b)\<lparr>to_field_instance := to_field_instance (rel fk)\<rparr>\<rparr>"]) simp
qed

lemma init_fk_wf:
  assumes wf: "world_wf w" and i: "init_fk_o2o_field m is_o2o n w = Inr w'"
  shows "world_wf w'"
  using i
proof (rule init_fk_Inr)
  fix fk rm tname related fk1 fk2 key w1 w3
  assume fk: "fld w m n = Some fk"
    and fk1: "fk1 = fk\<lparr>rel := (rel fk)\<lparr>to_field := Some (resolved_to_field (w_metas w rm) fk),
                              to_field_instance := Some (rm, tname)\<rparr>\<rparr>"
    and a: "world_add_field m (n @ ''_id'') key (set_field m n fk1 w) = Inr w1"
    and fk2: "fk2 = fk1\<lparr>source_field := Some (n @ ''_id''), rel := (rel fk1)\<lparr>related_model := Some rm\<rparr>\<rparr>"
    and b: "add_backward_relation m rm is_o2o (n @ ''_id'') (source_or fk1 (n @ ''_id'')) fk2 (set_field m n fk2 w1) = Inr w3"
    and w': "w' = (if is_o2o \<and> pk fk2 then upd_meta m (\<lambda>mt. mt\<lparr>pk_attr := n @ ''_id''\<rparr>) w3 else w3)"
  have mfn: "model_field_name fk = n" by (rule fld_model_field_name [OF wf fk])
  have "world_wf (set_field m n fk1 w)"
    by (rule world_wf_set_field [OF wf fk]) (simp_all add: fk1 mfn)
  then have w1: "world_wf w1" by (rule world_wf_add_field [OF _ a])
  have "fld w1 m n = Some fk1"
    by (simp add: world_add_field_fld(1) [OF a])
  then have w2: "world_wf (set_field m n fk2 w1)"
    by (rule world_wf_set_field [OF w1]) (simp_all add: fk2 fk1 mfn)
  from add_backward_Inr [OF b] w2 have "world_wf w3"
    by (auto intro: world_wf_add_field)
  then show "world_wf w'"
    unfolding w' by (auto intro!: world_wf_neutral)
qed

lemma link_m2m_Inr:
  assumes "link_m2m full m n f rm w = Inr w'"
  obtains bn g target where
    "m2m_init full (Some (m2m_through (w_metas w m) (w_metas w rm) f)) (Some (m2m_backward_key (w_metas w m) f))
        (forward_key (rel f)) (RelName n) CASCADE (Some m) True (no_args\<lparr>a_description := description f\<rparr>) = Inr g"
    "world_add_field rm (m2m_related_name (w_metas w m) f) (g\<lparr>rel := (rel g)\<lparr>m2m_generated := True\<rparr>\<rparr>)
       (upd_meta m (\<lambda>mt. mt\<lparr>filters := dict_update (filters mt) (get_m2m_filters n (m2m_object (w_metas w m) (w_metas w rm) rm f) target)\<rparr>)
          (set_field m n (m2m_object (w_metas w m) (w_metas w rm) rm f) w)) = Inr w'"
  using assms unfolding link_m2m_def Let_def rbind_eq_Inr by (auto simp: m2m_object_def)

lemma m2m_object_simps [simp]:
  "fclass (m2m_object m rmeta rm f) = fclass f" "model_field_name (m2m_object m rmeta rm f) = model_field_name f"
  by (simp_all add: m2m_object_def)

lemma link_m2m_wf:
  assumes wf: "world_wf w" and f: "fld w m n = Some f" and l: "link_m2m full m n f rm w = Inr w'"
  shows "world_wf w'"
  using l
proof (rule link_m2m_Inr)
  fix g target
  let ?w1 = "set_field m n (m2m_object (w_metas w m) (w_metas w rm) rm f) w"
  let ?flt = "\<lambda>mt. mt\<lparr>filters := dict_update (filters mt) (get_m2m_filters n (m2m_object (w_metas w m) (w_metas w rm) rm f) target)\<rparr>"
  assume add: "world_add_field rm (m2m_related_name (w_metas w m) f) (g\<lparr>rel := (rel g)\<lparr>m2m_generated := True\<rparr>\<rparr>)
       (upd_meta m ?flt ?w1) = Inr w'"
  have "world_wf ?w1"
    by (rule world_wf_set_field [OF wf f]) (simp_all add: fld_model_field_name [OF wf f])
  then have "world_wf (upd_meta m ?flt ?w1)"
    by (rule world_wf_neutral) simp
  then show ?thesis by (rule world_wf_add_field [OF _ add])
qed

lemma init_m2m_wf:
  assumes wf: "world_wf w" and i: "init_m2m_field a nm m n w = Inr w'"
  shows "world_wf w'"
proof -
  from i obtain f where f: "fld w m n = Some f"
    and "w' = w \<or> (\<exists>rm. link_m2m (a @ ''.'' @ nm) m n f rm w = Inr w')"
    unfolding init_m2m_field_def rbind_eq_Inr fld_def
    by (auto split: if_splits simp: rbind_eq_Inr)
  with wf link_m2m_wf [OF wf f] show ?thesis by blast
qed

lemma init_model_relations_wf:
  assumes "world_wf w" "init_model_relations a nm m w = Inr w'"
  shows "world_wf w'"
proof (cases "inited (w_metas w m)")
  case True
  with assms show ?thesis by (simp add: init_model_relations_def)
next
  case False
  with assms(2) obtain w1 w2 where
    r1: "rfold (init_fk_o2o_field m False) (sort (fk_fields (w_metas w m))) (start_model m w) = Inr w1" and
    r2: "rfold (init_fk_o2o_field m True) (o2o_fields (w_metas w1 m)) w1 = Inr w2" and
    r3: "rfold (init_m2m_field a nm m) (m2m_fields (w_metas w2 m)) w2 = Inr w'"
    by (auto simp: init_model_relations_def rbind_eq_Inr)
  have w0: "world_wf (start_model m w)"
    unfolding start_model_def by (rule world_wf_neutral [OF assms(1)]) simp
  have w1: "world_wf w1"
    by (rule rfold_invariant [where P = world_wf, OF r1 w0]) (erule init_fk_wf)
  have w2: "world_wf w2"
    by (rule rfold_invariant [where P = world_wf, OF r2 w1]) (erule init_fk_wf)
  show ?thesis
    by (rule rfold_invariant [where P = world_wf, OF r3 w2]) (erule init_m2m_wf)
qed

lemma init_relations_invariant:
  assumes "init_relations w = Inr w'" and "P w"
    and step: "\<And>a nm m u v. P u \<Longrightarrow> init_model_relations a nm m u = Inr v \<Longrightarrow> P v"
  shows "P w'"
  using assms(1) unfolding init_relations_def
proof (rule rfold_invariant [where P = P, OF _ assms(2)])
  fix am u v
  assume Pu: "P u" and s: "(case am of (app_name, models) \<Rightarrow>
      rfold (\<lambda>(name, m). init_model_relations app_name name m) models) u = Inr v"
  obtain a ms where "am = (a, ms)" by (cases am)
  with s have "rfold (\<lambda>(name, m). init_model_relations a name m) ms u = Inr v" by simp
  then show "P v"
  proof (rule rfold_invariant [where P = P, OF _ Pu])
    fix nm u v assume "P u" and s: "(case nm of (name, m) \<Rightarrow> init_model_relations a name m) u = Inr v"
    obtain n m where "nm = (n, m)" by (rule prod.exhaust)
    with s show "P v" using step [OF \<open>P u\<close>] by simp
  qed
qed

lemma init_relations_keeps_wf:
  assumes "world_wf w" "init_relations w = Inr w'"
  shows "world_wf w'"
  by (rule init_relations_invariant [where P = world_wf, OF assms(2,1)]) (erule init_model_relations_wf)

text \<open>A world to evaluate: a user, and a post that refers to it.\<close>

definition raw_meta :: "string \<Rightarrow> (string, field) dict \<Rightarrow> string list \<Rightarrow> meta" where
  "raw_meta name fs fks =
     finalise_fields (empty_meta\<lparr>mname := name, fields_map := fs, fk_fields := fks,
       fields_db_projection := map (\<lambda>(k, f). (k, k)) (filter (\<lambda>(k, f). has_db_field (fclass f)) fs),
       pk_attr := ''id'', pk_name := Some ''id'', db_pk_column := ''id''\<rparr>)"

definition pk_of :: "mid \<Rightarrow> field" where
  "pk_of m = default_pk\<lparr>model_field_name := ''id'', fmodel := Some m\<rparr>"

definition sample_world :: world where
  "sample_world =
     \<lparr> w_apps = [(''app'', [(''User'', (''app'', ''User'')), (''Post'', (''app'', ''Post''))])],
       w_metas = (\<lambda>k. if k = (''app'', ''User'') then raw_meta ''User'' [(''id'', pk_of (''app'', ''User''))] []
                      else if k = (''app'', ''Post'') then
                        raw_meta ''Post'' [(''id'', pk_of (''app'', ''Post'')),
                          (''author'', own_field (''app'', ''Post'') ''author'' sample_fk)] [''author'']
                      else empty_meta) \<rparr>"

lemma sample_world_runs: "\<exists>w. init_relations sample_world = Inr w"
proof -
  have "case init_relations sample_world of Inl e \<Rightarrow> False | Inr m \<Rightarrow> True" by code_simp
  then show ?thesis by (auto split: sum.splits)
qed

lemma empty_meta_wf: "meta_wf empty_meta"
  by (simp add: meta_wf_def kind_sets_ok_def empty_meta_def dict_has_def)

lemma sample_world_metas:
  "w_metas sample_world (''app'', ''User'') = raw_meta ''User'' [(''id'', pk_of (''app'', ''User''))] []"
  "w_metas sample_world (''app'', ''Post'') = raw_meta ''Post'' [(''id'', pk_of (''app'', ''Post'')),
      (''author'', own_field (''app'', ''Post'') ''author'' sample_fk)] [''author'']"
  by (simp_all add: sample_world_def)

lemma raw_meta_wf:
  assumes "distinct (map fst fs)" "\<forall>(k, f) \<in> set fs. model_field_name f = k \<and> (has_db_field (fclass f) \<or> is_fk (fclass f))"
    and "set fks \<subseteq> fst ` set fs"
  shows "meta_wf (raw_meta name fs fks)"
proof -
  let ?p = "map (\<lambda>(k, f). (k, k)) (filter (\<lambda>(k, f). has_db_field (fclass f)) fs)"
  have p: "map fst ?p = map fst (filter (\<lambda>(k, f). has_db_field (fclass f)) fs)" by auto
  have "distinct (map fst ?p)"
    unfolding p using assms(1) by (simp add: distinct_map_filter)
  moreover have "dict_has ?p n \<longleftrightarrow> (\<exists>f. map_of fs n = Some f \<and> has_db_field (fclass f))" for n
    using assms(1) by (force simp: dict_has_iff)
  moreover have "fclass f \<noteq> ManyToManyFieldInstance \<and> \<not> is_backward_fk (fclass f)" if "map_of fs n = Some f" for n f
    using map_of_SomeD [OF that] assms(2) by (cases "fclass f") (auto simp: has_db_field_def is_fk_def is_backward_fk_def)
  moreover have "model_field_name f = n" if "map_of fs n = Some f" for n f
    using map_of_SomeD [OF that] assms(2) by auto
  ultimately show ?thesis
    using assms(1,3) unfolding raw_meta_def meta_wf_def kind_sets_ok_def
    by (simp add: empty_meta_def is_backward_fk_def)
qed

lemma sample_world_wf: "world_wf sample_world"
  unfolding world_wf_def
proof
  fix m
  show "meta_wf (w_metas sample_world m)"
  proof (cases "m = (''app'', ''User'') \<or> m = (''app'', ''Post'')")
    case True
    have c: "has_db_field IntField" "is_fk ForeignKeyFieldInstance" by (simp_all add: has_db_field_def is_fk_def)
    from True show ?thesis
      by (elim disjE; simp only: sample_world_metas)
        (rule raw_meta_wf; simp add: pk_of_def default_pk_def plain_field_def sample_fk_def own_field_def c)+
  next
    case False
    then show ?thesis by (simp add: sample_world_def empty_meta_wf)
  qed
qed

text \<open>
  C3. Initialising the relations keeps the metadata of every model well-formed, whichever
  relations the models declare to each other or themselves.
\<close>

theorem init_relations_wf:
  assumes "world_wf w" and "init_relations w = Inr w'"
  shows "world_wf w'"
  using assms by (rule init_relations_keeps_wf)

theorem init_relations_wf_witness: "\<exists>w. init_relations sample_world = Inr w \<and> world_wf w"
  using sample_world_runs init_relations_wf [OF sample_world_wf] by blast

section \<open>What the initialisation of a foreign key does\<close>

lemma world_add_field_db_table:
  assumes "world_add_field m n f w = Inr w'"
  shows "db_table (w_metas w' k) = db_table (w_metas w k)"
proof -
  from assms obtain mt where a: "add_field (w_metas w) m (w_metas w m) n f = Inr mt"
    and w': "w' = upd_meta m (\<lambda>_. mt) w"
    by (auto simp: world_add_field_def rbind_eq_Inr)
  show ?thesis using add_field_Inr(15) [OF a] by (simp add: w')
qed

lemma set_field_db_table [simp]: "db_table (w_metas (set_field m n f w) k) = db_table (w_metas w k)"
  by (simp add: set_field_def)

lemma backward_name_db_table: "db_table m = db_table m' \<Longrightarrow> backward_name m rn = backward_name m' rn"
  by (simp add: backward_name_def split: related_name.splits)

definition fk_linked :: "world \<Rightarrow> mid \<Rightarrow> bool \<Rightarrow> string \<Rightarrow> field \<Rightarrow> mid \<Rightarrow> string \<Rightarrow> field \<Rightarrow> bool" where
  "fk_linked w m is_o2o n fk rm tname related \<longleftrightarrow>
     (\<exists>fk'. fld w m n = Some fk' \<and> source_field fk' = Some (n @ ''_id'') \<and>
        related_model (rel fk') = Some rm \<and> to_field_instance (rel fk') = Some (rm, tname)) \<and>
     (\<exists>key. fld w m (n @ ''_id'') = Some key \<and> fclass key = fclass related \<and> reference key = Some n \<and>
        source_field key = Some (source_or fk (n @ ''_id'')) \<and> null key = null fk \<and>
        pk key = (is_o2o \<and> pk fk))"

definition backward_linked :: "world \<Rightarrow> mid \<Rightarrow> bool \<Rightarrow> string \<Rightarrow> field \<Rightarrow> mid \<Rightarrow> string \<Rightarrow> bool" where
  "backward_linked w m is_o2o n fk rm bn \<longleftrightarrow>
     (\<exists>b. fld w rm bn = Some b \<and>
        fclass b = (if is_o2o then BackwardOneToOneRelation else BackwardFKRelation) \<and>
        related_model (rel b) = Some m \<and> relation_field (rel b) = n @ ''_id'' \<and>
        relation_source_field (rel b) = source_or fk (n @ ''_id''))"

lemma fk_linked_step:
  assumes "fk_linked w m o2o n fk rm tname related" and "world_add_field k j b w = Inr w'"
  shows "fk_linked w' m o2o n fk rm tname related"
proof -
  note a = world_add_field_fld [OF assms(2)]
  from assms(1) a(2) have "\<not> (k = m \<and> j = n)" "\<not> (k = m \<and> j = n @ ''_id'')"
    by (auto simp: fk_linked_def)
  then have "fld w' m n = fld w m n" "fld w' m (n @ ''_id'') = fld w m (n @ ''_id'')"
    unfolding a(1) by auto
  with assms(1) show ?thesis by (simp add: fk_linked_def)
qed


definition post :: mid where "post = (''app'', ''Post'')"

lemma sample_fk_runs:
  "\<exists>w fk. init_fk_o2o_field post False ''author'' (start_model post sample_world) = Inr w
      \<and> fld (start_model post sample_world) post ''author'' = Some fk"
proof -
  have "case init_fk_o2o_field post False ''author'' (start_model post sample_world) of Inl e \<Rightarrow> False | Inr m \<Rightarrow> True"
    "fld (start_model post sample_world) post ''author'' \<noteq> None" by code_simp+
  then show ?thesis by (auto split: sum.splits)
qed


section \<open>Every model is initialised once, and its keys can be filtered\<close>

text \<open>
  A relation is ready when its key field is known and has a filter. \<open>grows u v\<close>: going from
  \<open>u\<close> to \<open>v\<close> the registry, the initialised models and the forward relations of every model stay
  the same, and ready relations stay ready.
\<close>

definition ready :: "world \<Rightarrow> mid \<Rightarrow> string \<Rightarrow> bool" where
  "ready w m n \<longleftrightarrow> (\<exists>f sf. fld w m n = Some f \<and> source_field f = Some sf \<and> dict_has (own_filters (w_metas w m)) sf)"

definition grows :: "world \<Rightarrow> world \<Rightarrow> bool" where
  "grows u v \<longleftrightarrow> w_apps v = w_apps u \<and>
     (\<forall>k. inited (w_metas v k) = inited (w_metas u k) \<and>
          fk_fields (w_metas v k) = fk_fields (w_metas u k) \<and> o2o_fields (w_metas v k) = o2o_fields (w_metas u k) \<and>
          (\<forall>n. ready u k n \<longrightarrow> ready v k n))"

lemma grows_refl [simp]: "grows w w"
  by (simp add: grows_def)

lemma grows_trans: "grows u v \<Longrightarrow> grows v w \<Longrightarrow> grows u w"
  unfolding grows_def by metis

lemma grows_D:
  assumes "grows u v"
  shows "w_apps v = w_apps u" "inited (w_metas v k) = inited (w_metas u k)"
    "fk_fields (w_metas v k) = fk_fields (w_metas u k)" "o2o_fields (w_metas v k) = o2o_fields (w_metas u k)"
    "ready u k n \<Longrightarrow> ready v k n"
  using assms unfolding grows_def by blast+

lemma grows_set_field:
  assumes "fld w m n = Some f0" and "source_field f = source_field f0"
  shows "grows w (set_field m n f w)"
proof -
  have m: "inited (w_metas (set_field m n f w) k) = inited (w_metas w k)"
    "fk_fields (w_metas (set_field m n f w) k) = fk_fields (w_metas w k)"
    "o2o_fields (w_metas (set_field m n f w) k) = o2o_fields (w_metas w k)"
    "own_filters (w_metas (set_field m n f w) k) = own_filters (w_metas w k)" for k
    by (simp_all add: set_field_def)
  then have "ready w k j \<Longrightarrow> ready (set_field m n f w) k j" for k j
    using assms by (auto simp: ready_def)
  with m show ?thesis by (simp add: grows_def)
qed

lemma grows_upd:
  assumes "\<And>mt. fields_map (g mt) = fields_map mt \<and> own_filters (g mt) = own_filters mt \<and>
      fk_fields (g mt) = fk_fields mt \<and> o2o_fields (g mt) = o2o_fields mt \<and> inited (g mt) = inited mt"
  shows "grows w (upd_meta m g w)"
  using assms by (simp add: grows_def ready_def)

lemma own_field_alt: "v\<lparr>fmodel := Some self, model_field_name := k\<rparr> = own_field self k v"
  by (simp add: own_field_def)

lemma dict_has_dict_update: "dict_has (dict_update d e) k \<longleftrightarrow> dict_has d k \<or> dict_has e k"
  by (auto simp: dict_has_iff keys_dict_update)

lemma add_field_own_filters:
  assumes "add_field metas self m name v = Inr m'"
  shows "dict_has (own_filters m) k \<Longrightarrow> dict_has (own_filters m') k" and "dict_has (own_filters m') name"
proof -
  define m3 where "m3 = (let f = own_field self name v;
        m1 = m\<lparr>fields_map := AList.update name f (fields_map m)\<rparr>;
        m2 = (if has_db_field (fclass f)
              then m1\<lparr>fields_db_projection := AList.update name (source_or f name) (fields_db_projection m1)\<rparr>
              else m1)
     in (if fclass f = ManyToManyFieldInstance then m2\<lparr>m2m_fields := set_add name (m2m_fields m2)\<rparr>
         else if fclass f = BackwardOneToOneRelation
           then m2\<lparr>backward_o2o_fields := set_add name (backward_o2o_fields m2)\<rparr>
         else if is_backward_fk (fclass f)
           then m2\<lparr>backward_fk_fields := set_add name (backward_fk_fields m2)\<rparr>
         else m2))"
  from assms have "rbind (get_filters_for_field (metas(self := m3)) name (Some (own_field self name v))
       (source_or (own_field self name v) name))
     (\<lambda>fl. Inr (finalise_fields (m3\<lparr>own_filters := dict_update (own_filters m3) fl\<rparr>))) = Inr m'"
    unfolding m3_def add_field_def Let_def own_field_alt by (simp split: if_splits)
  then obtain fl where "get_filters_for_field (metas(self := m3)) name (Some (own_field self name v))
       (source_or (own_field self name v) name) = Inr fl"
    and "own_filters m' = dict_update (own_filters m3) fl"
    by (auto simp: rbind_eq_Inr)
  moreover have "own_filters m3 = own_filters m"
    unfolding m3_def Let_def by simp
  ultimately show "dict_has (own_filters m) k \<Longrightarrow> dict_has (own_filters m') k" "dict_has (own_filters m') name"
    by (simp_all add: dict_has_dict_update get_filters_for_field_name)
qed

lemma grows_add_field:
  assumes "world_add_field m n f w = Inr w'"
  shows "grows w w'" and "dict_has (own_filters (w_metas w' m)) n"
proof -
  from assms obtain mt where a: "add_field (w_metas w) m (w_metas w m) n f = Inr mt"
    and w': "w' = upd_meta m (\<lambda>_. mt) w"
    by (auto simp: world_add_field_def rbind_eq_Inr)
  note ai = add_field_Inr [OF a]
  have "ready w' k j" if "ready w k j" for k j
  proof -
    from that obtain g sf where g: "fld w k j = Some g" "source_field g = Some sf"
      "dict_has (own_filters (w_metas w k)) sf"
      by (auto simp: ready_def)
    with world_add_field_fld(2) [OF assms] have "fld w' k j = Some g"
      by (auto simp: world_add_field_fld(1) [OF assms])
    with g add_field_own_filters(1) [OF a, of sf] show ?thesis
      by (auto simp: ready_def w')
  qed
  then show "grows w w'" unfolding grows_def w' by (simp add: ai(7,8,16))
  show "dict_has (own_filters (w_metas w' m)) n"
    using add_field_own_filters(2) [OF a] by (simp add: w')
qed

lemma grows_init_fk:
  assumes i: "init_fk_o2o_field m is_o2o n w = Inr w'"
  shows "grows w w' \<and> ready w' m n"
  using i
proof (rule init_fk_Inr)
  fix fk rm tname fk1 fk2 key w1 w3
  assume fk: "fld w m n = Some fk"
    and fk1: "fk1 = fk\<lparr>rel := (rel fk)\<lparr>to_field := Some (resolved_to_field (w_metas w rm) fk),
                              to_field_instance := Some (rm, tname)\<rparr>\<rparr>"
    and a: "world_add_field m (n @ ''_id'') key (set_field m n fk1 w) = Inr w1"
    and fk2: "fk2 = fk1\<lparr>source_field := Some (n @ ''_id''), rel := (rel fk1)\<lparr>related_model := Some rm\<rparr>\<rparr>"
    and b: "add_backward_relation m rm is_o2o (n @ ''_id'') (source_or fk1 (n @ ''_id'')) fk2 (set_field m n fk2 w1) = Inr w3"
    and w': "w' = (if is_o2o \<and> pk fk2 then upd_meta m (\<lambda>mt. mt\<lparr>pk_attr := n @ ''_id''\<rparr>) w3 else w3)"
  let ?w2 = "set_field m n fk2 w1"
  have r2: "ready ?w2 m n"
    using grows_add_field(2) [OF a] by (auto simp: ready_def fk2 set_field_def fld_def map_of_update)
  have g1: "grows w w1"
    by (rule grows_trans [OF grows_set_field [OF fk] grows_add_field(1) [OF a]]) (simp add: fk1)
  have "ready ?w2 k j" if "ready w1 k j" for k j
  proof (cases "k = m \<and> j = n")
    case False
    with that show ?thesis by (auto simp: ready_def set_field_def fld_def map_of_update)
  qed (use r2 in simp)
  then have g2: "grows w1 ?w2"
    by (simp add: grows_def) (simp add: set_field_def)
  have g3: "grows ?w2 w3"
    using add_backward_Inr [OF b] grows_add_field(1) by fastforce
  have g4: "grows w3 w'"
    unfolding w' by (auto intro!: grows_upd)
  have "grows ?w2 w'" by (rule grows_trans [OF g3 g4])
  with r2 have "ready w' m n" by (blast dest: grows_D(5))
  with grows_trans [OF grows_trans [OF g1 g2] grows_trans [OF g3 g4]] show ?thesis by simp
qed

lemma grows_init_m2m:
  assumes i: "init_m2m_field a nm m n w = Inr w'"
  shows "grows w w'"
proof -
  from i obtain f where f: "fld w m n = Some f"
    and "w' = w \<or> (\<exists>rm. link_m2m (a @ ''.'' @ nm) m n f rm w = Inr w')"
    unfolding init_m2m_field_def rbind_eq_Inr fld_def
    by (auto split: if_splits simp: rbind_eq_Inr)
  then consider "w' = w" | rm where "link_m2m (a @ ''.'' @ nm) m n f rm w = Inr w'" by blast
  then show ?thesis
  proof cases
    case 2
    then show ?thesis
    proof (rule link_m2m_Inr)
      fix g target
      let ?w1 = "set_field m n (m2m_object (w_metas w m) (w_metas w rm) rm f) w"
      let ?flt = "\<lambda>mt. mt\<lparr>filters := dict_update (filters mt) (get_m2m_filters n (m2m_object (w_metas w m) (w_metas w rm) rm f) target)\<rparr>"
      assume add: "world_add_field rm (m2m_related_name (w_metas w m) f) (g\<lparr>rel := (rel g)\<lparr>m2m_generated := True\<rparr>\<rparr>)
           (upd_meta m ?flt ?w1) = Inr w'"
      have "grows w ?w1" by (rule grows_set_field [OF f]) (simp add: m2m_object_def)
      moreover have "grows ?w1 (upd_meta m ?flt ?w1)" by (rule grows_upd) simp
      ultimately show ?thesis using grows_add_field(1) [OF add] grows_trans by blast
    qed
  qed simp
qed

lemma grows_rfold:
  assumes "rfold g xs w = Inr w'" and "\<And>x u v. g x u = Inr v \<Longrightarrow> grows u v"
  shows "grows w w'"
  by (rule rfold_invariant [where P = "grows w", OF assms(1) grows_refl])
    (rule grows_trans, assumption, erule assms(2))

text \<open>A loop whose step establishes a fact that later steps keep.\<close>

lemma rfold_establishes:
  assumes "rfold g xs w = Inr w'" and "x \<in> set xs"
    and "\<And>u v. g x u = Inr v \<Longrightarrow> Q v" and "\<And>y u v. g y u = Inr v \<Longrightarrow> Q u \<Longrightarrow> Q v"
  shows "Q w'"
  using assms(1,2)
proof (induction xs arbitrary: w)
  case (Cons y ys)
  then obtain u where u: "g y w = Inr u" "rfold g ys u = Inr w'"
    by (auto simp: rbind_eq_Inr)
  show ?case
  proof (cases "x = y")
    case True
    with u(1) assms(3) have "Q u" by simp
    then show ?thesis
      by (rule rfold_invariant [where P = Q, OF u(2)]) (erule assms(4))
  next
    case False
    with Cons.prems(2) have "x \<in> set ys" by simp
    then show ?thesis by (rule Cons.IH [OF u(2)])
  qed
qed simp

text \<open>An initialised model has all its forward relations ready.\<close>

definition relations_ready :: "world \<Rightarrow> bool" where
  "relations_ready w \<longleftrightarrow> (\<forall>m. inited (w_metas w m) \<longrightarrow>
     (\<forall>n\<in>set (fk_fields (w_metas w m)) \<union> set (o2o_fields (w_metas w m)). ready w m n))"

lemma init_model_effect:
  assumes "init_model_relations a nm m w = Inr w'"
  shows "w_apps w' = w_apps w \<and> (\<forall>k. inited (w_metas w' k) \<longleftrightarrow> k = m \<or> inited (w_metas w k)) \<and>
     (\<forall>k. fk_fields (w_metas w' k) = fk_fields (w_metas w k) \<and> o2o_fields (w_metas w' k) = o2o_fields (w_metas w k)) \<and>
     (\<forall>k n. ready w k n \<longrightarrow> ready w' k n) \<and>
     (\<not> inited (w_metas w m) \<longrightarrow>
        (\<forall>n\<in>set (fk_fields (w_metas w m)) \<union> set (o2o_fields (w_metas w m)). ready w' m n))"
proof (cases "inited (w_metas w m)")
  case True
  with assms show ?thesis by (auto simp: init_model_relations_def)
next
  case False
  let ?w0 = "start_model m w"
  from False assms obtain w1 w2 where
    r1: "rfold (init_fk_o2o_field m False) (sort (fk_fields (w_metas w m))) ?w0 = Inr w1" and
    r2: "rfold (init_fk_o2o_field m True) (o2o_fields (w_metas w1 m)) w1 = Inr w2" and
    r3: "rfold (init_m2m_field a nm m) (m2m_fields (w_metas w2 m)) w2 = Inr w'"
    by (auto simp: init_model_relations_def rbind_eq_Inr)
  have s0: "w_apps ?w0 = w_apps w" "\<And>k. inited (w_metas ?w0 k) \<longleftrightarrow> k = m \<or> inited (w_metas w k)"
    "\<And>k. fk_fields (w_metas ?w0 k) = fk_fields (w_metas w k)" "\<And>k. o2o_fields (w_metas ?w0 k) = o2o_fields (w_metas w k)"
    "\<And>k n. ready ?w0 k n = ready w k n"
    by (simp_all add: start_model_def ready_def)
  have g1: "grows ?w0 w1" by (rule grows_rfold [OF r1]) (simp add: grows_init_fk)
  have g2: "grows w1 w2" by (rule grows_rfold [OF r2]) (simp add: grows_init_fk)
  have g3: "grows w2 w'" by (rule grows_rfold [OF r3]) (rule grows_init_m2m)
  note g23 = grows_trans [OF g2 g3]
  note g = grows_D [OF grows_trans [OF g1 g23]]
  have fks: "ready w' m n" if "n \<in> set (fk_fields (w_metas w m))" for n
  proof -
    have "n \<in> set (sort (fk_fields (w_metas w m)))" using that by simp
    then have "ready w1 m n"
      by (rule rfold_establishes [OF r1, where Q = "\<lambda>u. ready u m n"]) (blast dest: grows_init_fk grows_D(5))+
    then show ?thesis by (rule grows_D(5) [OF g23])
  qed
  have o2os: "ready w' m n" if "n \<in> set (o2o_fields (w_metas w m))" for n
  proof -
    have "n \<in> set (o2o_fields (w_metas w1 m))" using that by (simp add: grows_D(4) [OF g1] s0)
    then have "ready w2 m n"
      by (rule rfold_establishes [OF r2, where Q = "\<lambda>u. ready u m n"]) (blast dest: grows_init_fk grows_D(5))+
    then show ?thesis by (rule grows_D(5) [OF g3])
  qed
  show ?thesis
    unfolding g(1-4) s0(1-4) using fks o2os g(5) s0(5) by blast
qed

lemma init_model_D:
  assumes "init_model_relations a nm m w = Inr w'"
  shows "w_apps w' = w_apps w" "inited (w_metas w' k) \<longleftrightarrow> k = m \<or> inited (w_metas w k)"
    "ready w k n \<Longrightarrow> ready w' k n" "fk_fields (w_metas w' k) = fk_fields (w_metas w k)"
    "o2o_fields (w_metas w' k) = o2o_fields (w_metas w k)"
    "\<not> inited (w_metas w m) \<Longrightarrow> n \<in> set (fk_fields (w_metas w m)) \<union> set (o2o_fields (w_metas w m)) \<Longrightarrow> ready w' m n"
  using init_model_effect [OF assms] by blast+

definition registered :: "world \<Rightarrow> mid \<Rightarrow> bool" where
  "registered w m \<longleftrightarrow> (\<exists>a models n. (a, models) \<in> set (w_apps w) \<and> (n, m) \<in> set models)"

lemma init_relations_apps:
  assumes "init_relations w = Inr w'"
  shows "w_apps w' = w_apps w"
  by (rule init_relations_invariant [where P = "\<lambda>u. w_apps u = w_apps w", OF assms])
    (simp, simp add: init_model_D(1))

lemma init_relations_inited:
  assumes "init_relations w = Inr w'" and "registered w m"
  shows "inited (w_metas w' m)"
proof -
  let ?Q = "\<lambda>u. inited (w_metas u m)"
  let ?app = "\<lambda>(app_name, models). rfold (\<lambda>(name, m). init_model_relations app_name name m) models"
  have keep1: "?Q v" if "(\<lambda>(name, m). init_model_relations a name m) x u = Inr v" "?Q u" for a x u v
  proof -
    obtain n k where "x = (n, k)" by (rule prod.exhaust)
    with that(1) have "init_model_relations a n k u = Inr v" by simp
    from init_model_D(2) [OF this] that(2) show ?thesis by blast
  qed
  have keep: "?Q v" if "?app x u = Inr v" "?Q u" for x u v
  proof -
    obtain a ms where "x = (a, ms)" by (rule prod.exhaust)
    with that have "rfold (\<lambda>(name, m). init_model_relations a name m) ms u = Inr v" by simp
    then show ?thesis
      by (rule rfold_invariant [where P = ?Q, OF _ that(2)]) (rule keep1)
  qed
  from assms(2) obtain a models n where am: "(a, models) \<in> set (w_apps w)" "(n, m) \<in> set models"
    by (auto simp: registered_def)
  have start: "?Q v" if "?app (a, models) u = Inr v" for u v
  proof -
    from that have "rfold (\<lambda>(name, m). init_model_relations a name m) models u = Inr v" by simp
    then show ?thesis
      by (rule rfold_establishes [OF _ am(2)]) (simp add: init_model_D(2), erule keep1)
  qed
  show ?thesis
    using assms(1) unfolding init_relations_def
    by (rule rfold_establishes [OF _ am(1)]) (erule start, erule keep)
qed

text \<open>
  C29. Relations are initialised once: after a successful run every registered model is
  initialised, and running \<^verbatim>\<open>_init_relations\<close> again (which every call of \<^verbatim>\<open>init_models\<close> does)
  changes nothing and does not raise for fields that are already there.
\<close>

theorem init_relations_once:
  assumes "init_relations w = Inr w'"
  shows "(\<forall>m. registered w m \<longrightarrow> inited (w_metas w' m)) \<and> init_relations w' = Inr w'"
proof
  show "\<forall>m. registered w m \<longrightarrow> inited (w_metas w' m)"
    using init_relations_inited [OF assms] by blast
  have models: "rfold (\<lambda>(name, m). init_model_relations a name m) models w' = Inr w'"
    if "\<forall>n m. (n, m) \<in> set models \<longrightarrow> inited (w_metas w' m)" for a models
    using that
  proof (induction models)
    case (Cons nm models)
    obtain n m where "nm = (n, m)" by (rule prod.exhaust)
    with Cons.prems have "inited (w_metas w' m)" by (meson list.set_intros(1))
    then have "init_model_relations a n m w' = Inr w'" by (simp add: init_model_relations_def)
    moreover have "rfold (\<lambda>(name, m). init_model_relations a name m) models w' = Inr w'"
      by (rule Cons.IH) (meson Cons.prems list.set_intros(2))
    ultimately show ?case using \<open>nm = (n, m)\<close> by simp
  qed simp
  have "rfold (\<lambda>(app_name, models). rfold (\<lambda>(name, m). init_model_relations app_name name m) models) apps w' = Inr w'"
    if "set apps \<subseteq> set (w_apps w)" for apps
    using that
  proof (induction apps)
    case (Cons am apps)
    obtain a ms where am: "am = (a, ms)" by (rule prod.exhaust)
    have "\<forall>n m. (n, m) \<in> set ms \<longrightarrow> inited (w_metas w' m)"
    proof (intro allI impI)
      fix n m assume "(n, m) \<in> set ms"
      with Cons.prems have "registered w m" unfolding am registered_def by auto
      then show "inited (w_metas w' m)" by (rule init_relations_inited [OF assms])
    qed
    from models [OF this] Cons show ?case by (simp add: am)
  qed simp
  then show "init_relations w' = Inr w'"
    by (simp add: init_relations_def init_relations_apps [OF assms])
qed

theorem init_relations_once_witness: "\<exists>w. init_relations sample_world = Inr w \<and> init_relations w = Inr w"
  using sample_world_runs init_relations_once by blast

lemma generate_filters_loop_has:
  "dict_has acc k \<or> dict_has fs k \<Longrightarrow> dict_has (generate_filters_loop ov fs acc) k"
proof (induction ov fs acc rule: generate_filters_loop.induct)
  case (2 ov key fi rest acc)
  have "dict_has ((key, fi) # rest) k \<longleftrightarrow> k = key \<or> dict_has rest k" by (simp add: dict_has_def)
  with 2 show ?case by (simp add: dict_has_update) blast
qed (simp add: dict_has_def)

lemma relations_ready_step:
  assumes "relations_ready u" and "init_model_relations a nm m u = Inr v"
  shows "relations_ready v"
  unfolding relations_ready_def
proof (intro allI impI ballI)
  fix k n
  assume k: "inited (w_metas v k)" and n: "n \<in> set (fk_fields (w_metas v k)) \<union> set (o2o_fields (w_metas v k))"
  note d = init_model_D [OF assms(2)]
  from n have n': "n \<in> set (fk_fields (w_metas u k)) \<union> set (o2o_fields (w_metas u k))"
    by (simp add: d(4,5))
  show "ready v k n"
  proof (cases "inited (w_metas u k)")
    case True
    with assms(1) n' have "ready u k n" unfolding relations_ready_def by blast
    then show ?thesis by (rule d(3))
  next
    case False
    with k d(2) have "k = m" by blast
    with False n' d(6) show ?thesis by blast
  qed
qed

text \<open>
  After initialisation every forward relation can be filtered by: of each initialised
  model, each foreign key and one-to-one field has a key field, and once the model's filters
  are generated (under any backend's overrides) there is a filter for that key.
\<close>

theorem relations_filterable:
  assumes "relations_ready w" and "init_relations w = Inr w'" and "inited (w_metas w' m)"
    and "n \<in> set (fk_fields (w_metas w' m)) \<union> set (o2o_fields (w_metas w' m))"
  shows "\<exists>f sf. map_of (fields_map (w_metas w' m)) n = Some f \<and> source_field f = Some sf \<and>
     dict_has (filters (generate_filters ov (w_metas w' m))) sf"
proof -
  have "relations_ready w'"
    by (rule init_relations_invariant [where P = relations_ready, OF assms(2,1)]) (erule relations_ready_step)
  with assms(3,4) have "ready w' m n" unfolding relations_ready_def by blast
  then show ?thesis
    by (auto simp: ready_def fld_def generate_filters_def intro: generate_filters_loop_has)
qed

theorem relations_filterable_witness:
  "\<exists>w f sf. init_relations sample_world = Inr w \<and> map_of (fields_map (w_metas w post)) ''author'' = Some f \<and>
     source_field f = Some sf \<and> dict_has (filters (generate_filters [] (w_metas w post))) sf"
proof -
  from sample_world_runs obtain w where w: "init_relations sample_world = Inr w" by blast
  have r: "relations_ready sample_world"
    unfolding relations_ready_def
    by (simp add: sample_world_def raw_meta_def finalise_fields_def empty_meta_def Let_def)
  have i: "inited (w_metas w post)"
    by (rule init_relations_inited [OF w]) (auto simp: registered_def sample_world_def post_def)
  have "case init_relations sample_world of Inl e \<Rightarrow> False | Inr w \<Rightarrow> fk_fields (w_metas w post) = [''author'']"
    by code_simp
  with w have "''author'' \<in> set (fk_fields (w_metas w post)) \<union> set (o2o_fields (w_metas w post))" by simp
  from relations_filterable [OF r w i this, of "[]"] w show ?thesis by blast
qed

section \<open>When a foreign key initialises\<close>

lemma get_pk_keeps:
  assumes "get_pk (w_metas w m) = Inr p" and "pk_name (w_metas w' m) = pk_name (w_metas w m)"
    and "\<And>j. fld w m j \<noteq> None \<Longrightarrow> fld w' m j \<noteq> None"
  shows "\<exists>p. get_pk (w_metas w' m) = Inr p"
proof -
  from assms(1) obtain j where "pk_name (w_metas w m) = Some j" "fld w m j = Some p"
    by (auto simp: get_pk_def meta_pk_def fld_def split: option.splits)
  with assms(2) assms(3) [of j] show ?thesis
    by (auto simp: get_pk_def meta_pk_def fld_def split: option.splits)
qed

lemma rbind_total: "\<exists>a. x = Inr a \<Longrightarrow> \<exists>b. rbind x (\<lambda>a. Inr (g a)) = Inr b"
  by auto

lemma add_field_total:
  assumes "\<not> dict_has (fields_map m) name"
    and "\<And>mt src. \<exists>fl. get_filters_for_field (metas(self := mt)) name (Some (own_field self name v)) src = Inr fl"
  shows "\<exists>m'. add_field metas self m name v = Inr m'"
  unfolding add_field_def Let_def own_field_alt if_not_P [OF assms(1)]
  by (rule rbind_total) (rule assms(2))

lemma world_add_field_total:
  assumes "fld w m n = None"
    and "\<And>mt src. \<exists>fl. get_filters_for_field ((w_metas w)(m := mt)) n (Some (own_field m n f)) src = Inr fl"
  shows "\<exists>w'. world_add_field m n f w = Inr w'"
proof -
  have "\<not> dict_has (fields_map (w_metas w m)) n" using assms(1) by (simp add: fld_def dict_has_def)
  from add_field_total [OF this assms(2)] show ?thesis
    unfolding world_add_field_def by (rule rbind_total)
qed

lemma world_add_plain_total:
  assumes "fld w m n = None" and "\<not> is_relational (fclass f)"
  shows "\<exists>w'. world_add_field m n f w = Inr w'"
proof (rule world_add_field_total [OF assms(1)])
  have "fclass f \<noteq> ManyToManyFieldInstance" "\<not> is_backward_fk (fclass f)"
    using assms(2) by (auto simp: is_backward_fk_def)
  then show "\<exists>fl. get_filters_for_field mt n (Some (own_field m n f)) src = Inr fl" for mt src
    by (simp add: get_filters_for_field_def Let_def)
qed

lemma world_add_backward_total:
  assumes "fld w rm n = None" and "is_backward_fk (fclass f)" and "related_model (rel f) = Some m"
    and "m \<noteq> rm" and "get_pk (w_metas w m) = Inr p"
  shows "\<exists>w'. world_add_field rm n f w = Inr w'"
proof (rule world_add_field_total [OF assms(1)])
  have "fclass f \<noteq> ManyToManyFieldInstance" using assms(2) by (auto simp: is_backward_fk_def)
  moreover have "rel (own_field rm n f) = rel f" by (simp add: own_field_def)
  ultimately show "\<exists>fl. get_filters_for_field ((w_metas w)(rm := mt)) n (Some (own_field rm n f)) src = Inr fl" for mt src
    using assms(2-5) by (simp add: get_filters_for_field_def)
qed

lemma world_add_field_pk_name:
  assumes "world_add_field m n f w = Inr w'"
  shows "pk_name (w_metas w' k) = pk_name (w_metas w k)"
    and "k \<noteq> m \<Longrightarrow> w_metas w' k = w_metas w k"
proof -
  from assms obtain mt where a: "add_field (w_metas w) m (w_metas w m) n f = Inr mt"
    and w': "w' = upd_meta m (\<lambda>_. mt) w"
    by (auto simp: world_add_field_def rbind_eq_Inr)
  show "pk_name (w_metas w' k) = pk_name (w_metas w k)" using add_field_Inr(13) [OF a] by (simp add: w')
  show "k \<noteq> m \<Longrightarrow> w_metas w' k = w_metas w k" by (simp add: w')
qed

lemma init_fk_total:
  assumes "fld w m n = Some fk" and "split_reference (model_name (rel fk)) = Inr (ra, rn)"
    and "get_related_model w ra rn = Inr rm" and "rm \<noteq> m"
    and "fk_target (w_metas w rm) fk = Inr (tname, related)" and "\<not> is_relational (fclass related)"
    and "fld w m (n @ ''_id'') = None" and "get_pk (w_metas w m) = Inr p"
    and "\<And>bn. backward_name (w_metas w m) (related_name (rel fk)) = Some bn \<Longrightarrow>
           fld w rm bn = None \<and> bn \<notin> set (field_names (w_metas w rm))"
  shows "\<exists>w'. init_fk_o2o_field m is_o2o n w = Inr w'"
proof -
  define fk1 where "fk1 = fk\<lparr>rel := (rel fk)\<lparr>to_field := Some (resolved_to_field (w_metas w rm) fk),
                              to_field_instance := Some (rm, tname)\<rparr>\<rparr>"
  define key where "key = key_fk_object is_o2o n (n @ ''_id'') fk1 related"
  define fk2 where "fk2 = fk1\<lparr>source_field := Some (n @ ''_id''), rel := (rel fk1)\<lparr>related_model := Some rm\<rparr>\<rparr>"
  have "\<exists>w1. world_add_field m (n @ ''_id'') key (set_field m n fk1 w) = Inr w1"
    by (rule world_add_plain_total) (use assms(6,7) in \<open>simp_all add: key_def key_fk_object_def\<close>)
  then obtain w1 where w1: "world_add_field m (n @ ''_id'') key (set_field m n fk1 w) = Inr w1" by blast
  let ?w2 = "set_field m n fk2 w1"
  have "\<exists>w3. add_backward_relation m rm is_o2o (n @ ''_id'') (source_or fk1 (n @ ''_id'')) fk2 ?w2 = Inr w3"
  proof (cases "backward_name (w_metas ?w2 m) (related_name (rel fk2))")
    case None
    then show ?thesis by (simp add: add_backward_relation_def)
  next
    case (Some bn)
    have "backward_name (w_metas ?w2 m) (related_name (rel fk2)) = backward_name (w_metas w m) (related_name (rel fk))"
      by (subst backward_name_db_table [of _ "w_metas w m"])
        (simp_all add: world_add_field_db_table [OF w1] fk2_def fk1_def)
    with Some assms(9) have free: "fld w rm bn = None" "bn \<notin> set (field_names (w_metas w rm))"
      by simp_all
    have other: "w_metas ?w2 rm = w_metas w rm"
      using world_add_field_pk_name(2) [OF w1 assms(4)] assms(4) by (simp add: set_field_def)
    have pkm: "\<exists>p. get_pk (w_metas ?w2 m) = Inr p"
    proof (rule get_pk_keeps [OF assms(8)])
      show "pk_name (w_metas ?w2 m) = pk_name (w_metas w m)"
        using world_add_field_pk_name(1) [OF w1, of m] by (simp add: set_field_def)
      show "fld ?w2 m j \<noteq> None" if "fld w m j \<noteq> None" for j
        using that by (simp add: world_add_field_fld(1) [OF w1])
    qed
    let ?b = "backward_relation_init (if is_o2o then BackwardOneToOneRelation else BackwardFKRelation)
                   m (n @ ''_id'') (source_or fk1 (n @ ''_id'')) (if is_o2o then True else null fk2) (description fk2)"
    have "\<exists>b. ?b = Inr b"
      by (simp add: backward_relation_init_def relational_init_def field_init_def no_args_def merge_alias_def)
    then obtain b where b: "?b = Inr b" by blast
    let ?bf = "b\<lparr>rel := (rel b)\<lparr>to_field_instance := to_field_instance (rel fk2)\<rparr>\<rparr>"
    from pkm obtain p' where p': "get_pk (w_metas ?w2 m) = Inr p'" by blast
    have "\<exists>w'. world_add_field rm bn ?bf ?w2 = Inr w'"
    proof (rule world_add_backward_total [OF _ _ _ _ p'])
      show "fld ?w2 rm bn = None" using free(1) by (simp add: fld_def other)
      show "is_backward_fk (fclass ?bf)" "related_model (rel ?bf) = Some m"
        using backward_relation_init_simps [OF b] by (auto simp: is_backward_fk_def)
    qed (use assms(4) in simp)
    then show ?thesis
      using Some free(2) b by (simp add: add_backward_relation_def other)
  qed
  then obtain w3 where w3: "add_backward_relation m rm is_o2o (n @ ''_id'') (source_or fk1 (n @ ''_id'')) fk2 ?w2 = Inr w3"
    by blast
  show ?thesis
    unfolding init_fk_o2o_field_def Let_def
    using assms(1-3,5) w1 w3
    by (simp add: fld_def key_def fk1_def fk2_def dict_at_def)
qed



end
