(* ===== verification/Config.thy ===== *)
theory Config
  imports FieldValues
begin

text \<open>
  \<^verbatim>\<open>backends/base/config_generator.py\<close>: the table of database schemes, \<^verbatim>\<open>expand_db_url\<close> and
  \<^verbatim>\<open>generate_config\<close>; and \<^verbatim>\<open>chunk\<close> of \<^verbatim>\<open>utils.py\<close>. A URL is what \<^verbatim>\<open>urlparse\<close> and
  \<^verbatim>\<open>parse_qs\<close> give for it; \<open>unquote\<close> is \<^verbatim>\<open>urllib.parse.unquote_plus\<close>.
\<close>

section \<open>The lookup table\<close>

datatype cast = CInt | CFloat | CBool | CStr

record db_entry =
  engine :: string
  skip_first_char :: bool
  vmap :: "(string, string) dict"
  defaults :: "(string, pyval) dict"
  casts :: "(string, cast) dict"

definition server_vmap :: "(string, string) dict" where
  "server_vmap = [(''path'', ''database''), (''hostname'', ''host''), (''port'', ''port''),
                  (''username'', ''user''), (''password'', ''password'')]"

definition postgres_casts :: "(string, cast) dict" where
  "postgres_casts =
     [(''min_size'', CInt), (''max_size'', CInt), (''max_queries'', CInt),
      (''max_inactive_connection_lifetime'', CFloat), (''timeout'', CInt), (''statement_cache_size'', CInt),
      (''max_cached_statement_lifetime'', CInt), (''max_cacheable_statement_size'', CInt), (''ssl'', CBool)]"

definition odbc_casts :: "(string, cast) dict" where
  "odbc_casts = [(''minsize'', CInt), (''maxsize'', CInt), (''echo'', CBool), (''pool_recycle'', CInt)]"

definition server_entry :: "string \<Rightarrow> (string, pyval) dict \<Rightarrow> (string, cast) dict \<Rightarrow> db_entry" where
  "server_entry eng dflts cs =
     \<lparr> engine = eng, skip_first_char = True, vmap = server_vmap, defaults = dflts, casts = cs \<rparr>"

definition db_lookup :: "(string, db_entry) dict" where
  "db_lookup =
     [(''psycopg'', server_entry ''tortoise.backends.psycopg'' [(''port'', VInt 5432)] postgres_casts),
      (''asyncpg'', server_entry ''tortoise.backends.asyncpg'' [(''port'', VInt 5432)] postgres_casts),
      (''sqlite'', \<lparr> engine = ''tortoise.backends.sqlite'', skip_first_char = False,
          vmap = [(''path'', ''file_path'')],
          defaults = [(''journal_mode'', VStr ''WAL''), (''journal_size_limit'', VInt 16384)],
          casts = [(''journal_size_limit'', CInt)] \<rparr>),
      (''mysql'', server_entry ''tortoise.backends.mysql''
          [(''port'', VInt 3306), (''charset'', VStr ''utf8mb4''), (''sql_mode'', VStr ''STRICT_TRANS_TABLES'')]
          [(''minsize'', CInt), (''maxsize'', CInt), (''connect_timeout'', CFloat), (''echo'', CBool),
           (''use_unicode'', CBool), (''pool_recycle'', CInt), (''ssl'', CBool)]),
      (''mssql'', server_entry ''tortoise.backends.mssql'' [(''port'', VInt 1433)] odbc_casts),
      (''oracle'', server_entry ''tortoise.backends.oracle'' [(''port'', VInt 1521)] odbc_casts),
      (''postgres'', server_entry ''tortoise.backends.asyncpg'' [(''port'', VInt 5432)] postgres_casts)]"

section \<open>Expanding a URL\<close>

text \<open>
  The parts of a parsed URL; \<open>u_port\<close> is \<open>None\<close> when reading \<^verbatim>\<open>url.port\<close> raises
  \<^verbatim>\<open>ValueError\<close>, and \<open>Some None\<close> when there is no port.
\<close>

record url =
  u_scheme :: string
  u_netloc :: string
  u_path :: string
  u_query :: "(string \<times> string list) list"
  u_hostname :: "string option"
  u_port :: "nat option option"
  u_username :: "string option"
  u_password :: "string option"

text \<open>\<^verbatim>\<open>int(s)\<close> on a decimal numeral.\<close>

fun parse_digits :: "string \<Rightarrow> int \<Rightarrow> int option" where
  "parse_digits [] acc = Some acc"
| "parse_digits (c # s) acc =
     (let d = (of_char c :: nat) in
      if 48 \<le> d \<and> d \<le> 57 then parse_digits s (acc * 10 + int d - 48) else None)"

definition parse_int :: "string \<Rightarrow> int res" where
  "parse_int s =
     (let (neg, ds) = (case s of [] \<Rightarrow> (False, []) | c # cs \<Rightarrow>
                         if c = CHR ''-'' then (True, cs) else if c = CHR ''+'' then (False, cs) else (False, s))
      in case (if ds = [] then None else parse_digits ds 0) of
           None \<Rightarrow> Inl PyValueError | Some i \<Rightarrow> Inr (if neg then - i else i))"

definition apply_cast :: "pylib \<Rightarrow> cast \<Rightarrow> string \<Rightarrow> pyval res" where
  "apply_cast lib c s =
     (case c of
        CInt \<Rightarrow> rbind (parse_int s) (\<lambda>i. Inr (VInt i))
      | CFloat \<Rightarrow> call lib PyFloat (VStr s)
      | CBool \<Rightarrow> Inr (VBool (s \<noteq> []))
      | CStr \<Rightarrow> Inr (VStr s))"

definition opt_or_none :: "string option \<Rightarrow> pyval" where
  "opt_or_none x = (case x of None \<Rightarrow> VNone | Some s \<Rightarrow> if s = [] then VNone else VStr s)"

definition query_params ::
    "pylib \<Rightarrow> db_entry \<Rightarrow> (string \<times> string list) list \<Rightarrow> (string, pyval) dict \<Rightarrow> (string, pyval) dict res" where
  "query_params lib db qs =
     rfold (\<lambda>(key, vals) params.
       rbind (apply_cast lib (case map_of (casts db) key of None \<Rightarrow> CStr | Some c \<Rightarrow> c) (last vals)) (\<lambda>v.
       Inr (AList.update key v params))) qs"

definition set_hostname :: "db_entry \<Rightarrow> url \<Rightarrow> (string, pyval) dict \<Rightarrow> (string, pyval) dict" where
  "set_hostname db u params =
     (case map_of (vmap db) ''hostname'' of
        None \<Rightarrow> params | Some k \<Rightarrow> AList.update k (opt_or_none (u_hostname u)) params)"

definition set_port :: "db_entry \<Rightarrow> url \<Rightarrow> (string, pyval) dict \<Rightarrow> (string, pyval) dict res" where
  "set_port db u params =
     (case map_of (vmap db) ''port'' of
        None \<Rightarrow> Inr params
      | Some k \<Rightarrow> (case u_port u of
             None \<Rightarrow> Inl ConfigurationError
           | Some None \<Rightarrow> Inr params
           | Some (Some p) \<Rightarrow> Inr (if p = 0 then params else AList.update k (VInt (int p)) params)))"

definition set_username :: "db_entry \<Rightarrow> url \<Rightarrow> (string, pyval) dict \<Rightarrow> (string, pyval) dict" where
  "set_username db u params =
     (case map_of (vmap db) ''username'' of
        None \<Rightarrow> params | Some k \<Rightarrow> AList.update k (opt_or_none (u_username u)) params)"

definition set_password ::
    "(string \<Rightarrow> string) \<Rightarrow> db_entry \<Rightarrow> url \<Rightarrow> (string, pyval) dict \<Rightarrow> (string, pyval) dict" where
  "set_password unquote db u params =
     (case map_of (vmap db) ''password'' of
        None \<Rightarrow> params
      | Some k \<Rightarrow>
          (let pw = (case u_password u of None \<Rightarrow> [] | Some s \<Rightarrow> s) in
           AList.update k
             (if pw = [] \<and> u_scheme u \<in> {''postgres'', ''asyncpg'', ''psycopg''} then VNone
              else VStr (unquote pw)) params))"

definition url_path :: "db_entry \<Rightarrow> url \<Rightarrow> string" where
  "url_path db u = (if skip_first_char db then drop 1 (u_path u) else u_netloc u @ u_path u)"

text \<open>
  \<open>format_path\<close> is what testing mode does to the path: \<^verbatim>\<open>str.format\<close> with a fresh identifier.
\<close>

definition expand_db_url ::
    "pylib \<Rightarrow> (string \<Rightarrow> string) \<Rightarrow> (string \<Rightarrow> string res) \<Rightarrow> url \<Rightarrow> bool \<Rightarrow> (string \<times> (string, pyval) dict) res" where
  "expand_db_url lib unquote format_path u testing =
     (case map_of db_lookup (u_scheme u) of
        None \<Rightarrow> Inl ConfigurationError
      | Some db \<Rightarrow>
          (let path = url_path db u in
           rbind (guard_exn (path = [] \<and> u_scheme u = ''sqlite'') ConfigurationError) (\<lambda>_.
           rbind (query_params lib db (u_query u) (dict_update [] (defaults db))) (\<lambda>params.
           rbind (if testing \<and> path \<noteq> [] then rbind (format_path path) (\<lambda>p. Inr (VStr p))
                  else Inr (if path = [] then VNone else VStr path)) (\<lambda>pathv.
           rbind (dict_at (vmap db) ''path'') (\<lambda>pk.
           rbind (set_port db u (set_hostname db u (AList.update pk pathv params))) (\<lambda>params'.
           Inr (engine db, set_password unquote db u (set_username db u params')))))))))"

type_synonym app_config = "string list \<times> string"  \<comment> \<open>\<^verbatim>\<open>models\<close>, \<^verbatim>\<open>default_connection\<close>\<close>

definition generate_config ::
    "pylib \<Rightarrow> (string \<Rightarrow> string) \<Rightarrow> (string \<Rightarrow> string res) \<Rightarrow> url \<Rightarrow> (string, string list) dict \<Rightarrow> string option \<Rightarrow> bool
       \<Rightarrow> ((string, string \<times> (string, pyval) dict) dict \<times> (string, app_config) dict) res" where
  "generate_config lib unquote format_path u app_modules label testing =
     (let l = str_or label ''default'' in
      rbind (expand_db_url lib unquote format_path u testing) (\<lambda>info.
      Inr ([(l, info)], dict_update [] (map (\<lambda>(a, ms). (a, (ms, l))) app_modules))))"

section \<open>What a URL expands to\<close>

text \<open>Which scheme a server has: all but sqlite take host, port, user and password from the URL.\<close>

lemma db_lookup_cases:
  assumes "map_of db_lookup s = Some db"
  obtains "s = ''sqlite''" "vmap db = [(''path'', ''file_path'')]" "\<not> skip_first_char db"
      "engine db = ''tortoise.backends.sqlite''"
    | "s \<noteq> ''sqlite''" "vmap db = server_vmap" "skip_first_char db"
  using assms by (auto simp: db_lookup_def server_entry_def split: if_splits)

lemma server_vmap_simps [simp]:
  "map_of server_vmap ''path'' = Some ''database''" "map_of server_vmap ''hostname'' = Some ''host''"
  "map_of server_vmap ''port'' = Some ''port''" "map_of server_vmap ''username'' = Some ''user''"
  "map_of server_vmap ''password'' = Some ''password''"
  by (simp_all add: server_vmap_def)

text \<open>
  The parts of a server URL decide the credentials, whatever its query string says: the
  database is the path without its slash (none for an empty path), the host and user are the
  URL's (none when empty), and a port in the URL wins over the default and over a \<^verbatim>\<open>port\<close> in
  the query.
\<close>

theorem expand_server_url:
  assumes "map_of db_lookup (u_scheme u) = Some db" and "u_scheme u \<noteq> ''sqlite''"
    and "expand_db_url lib unq fp u False = Inr (eng, params)"
  shows "eng = engine db \<and>
     map_of params ''database'' = Some (if drop 1 (u_path u) = [] then VNone else VStr (drop 1 (u_path u))) \<and>
     map_of params ''host'' = Some (opt_or_none (u_hostname u)) \<and>
     map_of params ''user'' = Some (opt_or_none (u_username u)) \<and>
     (\<forall>p. u_port u = Some (Some p) \<longrightarrow> p \<noteq> 0 \<longrightarrow> map_of params ''port'' = Some (VInt (int p))) \<and>
     dict_has params ''password''"
proof -
  from assms(1,2) have db: "vmap db = server_vmap" "skip_first_char db"
    by (auto elim: db_lookup_cases)
  from assms db obtain ps pp where
    sp: "set_port db u (set_hostname db u (AList.update ''database''
        (if drop 1 (u_path u) = [] then VNone else VStr (drop 1 (u_path u))) ps)) = Inr pp"
    and params: "params = set_password unq db u (set_username db u pp)" and eng: "eng = engine db"
    by (auto simp: expand_db_url_def rbind_eq_Inr url_path_def dict_at_def split: if_splits)
  show ?thesis
    using sp db(1) unfolding params eng
    by (auto simp: set_port_def set_hostname_def set_username_def set_password_def map_of_update Let_def
        dict_has_def split: option.splits if_splits)
qed

definition sample_url :: url where
  "sample_url = \<lparr> u_scheme = ''postgres'', u_netloc = ''joe:pw@db:5433'', u_path = ''/shop'',
     u_query = [(''port'', [''1'']), (''ssl'', [''False''])], u_hostname = Some ''db'', u_port = Some (Some 5433),
     u_username = Some ''joe'', u_password = Some ''pw'' \<rparr>"

definition const_lib :: pylib where
  "const_lib = \<lparr> call = (\<lambda>t v. Inl PyTypeError), lt = (\<lambda>a b. False), str_obj = (\<lambda>v. ''obj''),
     json_loads_ok = (\<lambda>v. True), json_dumps = (\<lambda>v. ''null''), json_loads = (\<lambda>v. VNone),
     bytes_decode = (\<lambda>v. Inr []), regex_match = (\<lambda>p f s. True), ipv4_ok = (\<lambda>v. True),
     ipv6_ok = (\<lambda>v. True), custom_validator = (\<lambda>n v. True) \<rparr>"

theorem expand_server_url_witness:
  "\<exists>eng params. expand_db_url const_lib id Inr sample_url False = Inr (eng, params) \<and>
     map_of params ''port'' = Some (VInt 5433) \<and> map_of params ''host'' = Some (VStr ''db'')"
proof -
  have "case expand_db_url const_lib id Inr sample_url False of Inl e \<Rightarrow> False | Inr x \<Rightarrow> True" by code_simp
  then obtain eng params where r: "expand_db_url const_lib id Inr sample_url False = Inr (eng, params)"
    by (auto split: sum.splits)
  have l: "map_of db_lookup (u_scheme sample_url)
      = Some (server_entry ''tortoise.backends.asyncpg'' [(''port'', VInt 5432)] postgres_casts)"
    by (simp add: db_lookup_def sample_url_def)
  have s: "u_scheme sample_url \<noteq> ''sqlite''" by (simp add: sample_url_def)
  from expand_server_url [OF l s r] r show ?thesis
    by (simp add: sample_url_def opt_or_none_def)
qed

text \<open>
  A boolean option in a URL is true whatever it says: \<^verbatim>\<open>bool\<close> is applied to the text, so
  \<^verbatim>\<open>?ssl=False\<close> and \<^verbatim>\<open>?echo=0\<close> switch the option on (a blank value never reaches the
  conversion, because \<^verbatim>\<open>parse_qs\<close> drops it).
\<close>

theorem url_bool_always_true:
  assumes "map_of db_lookup s = Some db" and "map_of (casts db) key = Some CBool" and "value \<noteq> []"
    and "query_params lib db [(key, [value])] params = Inr params'"
  shows "map_of params' key = Some (VBool True)"
  using assms by (auto simp: query_params_def apply_cast_def rbind_eq_Inr map_of_update)

theorem url_bool_always_true_witness:
  "\<exists>db params'. map_of db_lookup ''postgres'' = Some db \<and>
     query_params const_lib db [(''ssl'', [''False''])] [] = Inr params' \<and> map_of params' ''ssl'' = Some (VBool True)"
proof -
  let ?db = "server_entry ''tortoise.backends.asyncpg'' [(''port'', VInt 5432)] postgres_casts"
  have d: "map_of db_lookup ''postgres'' = Some ?db" by (simp add: db_lookup_def)
  have c: "map_of (casts ?db) ''ssl'' = Some CBool" by (simp add: server_entry_def postgres_casts_def)
  have r: "query_params const_lib ?db [(''ssl'', [''False''])] [] = Inr [(''ssl'', VBool True)]"
    by (simp add: query_params_def c apply_cast_def)
  have "''False'' \<noteq> []" by simp
  from url_bool_always_true [OF d c this r] d r show ?thesis by blast
qed

section \<open>Chunks\<close>

text \<open>
  \<^verbatim>\<open>batched(xs, n)\<close> for a positive size, and \<^verbatim>\<open>chunk\<close>: no size, or zero, means one chunk; a
  negative size raises \<^verbatim>\<open>ValueError\<close>.
\<close>

function batched :: "'a list \<Rightarrow> nat \<Rightarrow> 'a list list" where
  "batched xs n = (if xs = [] \<or> n = 0 then [] else take n xs # batched (drop n xs) n)"
  by pat_completeness auto
termination by (relation "measure (\<lambda>(xs, n). length xs)") auto

declare batched.simps [simp del]

definition chunk :: "'a list \<Rightarrow> int option \<Rightarrow> 'a list list res" where
  "chunk xs size_opt =
     (case size_opt of
        None \<Rightarrow> Inr [xs]
      | Some n \<Rightarrow> if n = 0 then Inr [xs] else if n < 0 then Inl PyValueError else Inr (batched xs (nat n)))"

lemma concat_batched: "0 < n \<Longrightarrow> concat (batched xs n) = xs"
proof (induction xs n rule: batched.induct)
  case (1 xs n)
  then show ?case by (subst batched.simps) auto
qed

lemma batched_sizes: "c \<in> set (batched xs n) \<Longrightarrow> 0 < length c \<and> length c \<le> n"
proof (induction xs n rule: batched.induct)
  case (1 xs n)
  then show ?case by (subst (asm) batched.simps) (auto split: if_splits)
qed

text \<open>
  Chunking loses nothing and reorders nothing: the chunks put together are the instances,
  and with a positive size every chunk has between one and that many of them.
\<close>

theorem chunk_partition:
  assumes "chunk xs size_opt = Inr cs"
  shows "concat cs = xs \<and>
     (\<forall>n. size_opt = Some n \<longrightarrow> 0 < n \<longrightarrow> (\<forall>c\<in>set cs. 0 < length c \<and> int (length c) \<le> n))"
proof -
  have "0 < length c \<and> int (length c) \<le> n" if "0 < n" "c \<in> set (batched xs (nat n))" for c n
    using batched_sizes [OF that(2)] that(1) by auto
  note sizes = this
  show ?thesis
  proof (cases size_opt)
    case (Some n)
    with assms sizes [of n] show ?thesis
      by (cases "n = 0"; cases "n < 0") (auto simp: chunk_def concat_batched)
  qed (use assms in \<open>auto simp: chunk_def\<close>)
qed

theorem chunk_partition_witness:
  "chunk [1, 2, 3, 4, 5 :: int] (Some 2) = Inr [[1, 2], [3, 4], [5]] \<and> concat [[1, 2], [3, 4], [5 :: int]] = [1, 2, 3, 4, 5]"
proof -
  have "chunk [1, 2, 3, 4, 5 :: int] (Some 2) = Inr [[1, 2], [3, 4], [5]]" by code_simp
  with chunk_partition [OF this] show ?thesis by simp
qed

end
