(* ===== verification/Effects.thy ===== *)
theory Effects
  imports Prelude
begin

text \<open>
  Code with effects: a computation takes the state of the process and gives an outcome and the
  state it leaves. An exception keeps the effects that preceded it. \<open>Wait\<close> is the outcome of a
  computation that has to wait for another task (a lock that is held): the task is where it
  was and can try again.
\<close>

datatype 'a outcome = Ret 'a | Raise exn | Wait

type_synonym ('s, 'a) io = "'s \<Rightarrow> 'a outcome \<times> 's"

definition iret :: "'a \<Rightarrow> ('s, 'a) io" where
  "iret a s = (Ret a, s)"

definition iraise :: "exn \<Rightarrow> ('s, 'a) io" where
  "iraise e s = (Raise e, s)"

definition ibind :: "('s, 'a) io \<Rightarrow> ('a \<Rightarrow> ('s, 'b) io) \<Rightarrow> ('s, 'b) io" where
  "ibind c k s = (case c s of (Ret a, t) \<Rightarrow> k a t | (Raise e, t) \<Rightarrow> (Raise e, t) | (Wait, t) \<Rightarrow> (Wait, t))"

definition iseq :: "('s, 'a) io \<Rightarrow> ('s, 'b) io \<Rightarrow> ('s, 'b) io" where
  "iseq c d = ibind c (\<lambda>_. d)"

definition imodify :: "('s \<Rightarrow> 's) \<Rightarrow> ('s, unit) io" where
  "imodify g s = (Ret (), g s)"

definition iget :: "('s \<Rightarrow> 'a) \<Rightarrow> ('s, 'a) io" where
  "iget g s = (Ret (g s), s)"

definition ilift :: "'a res \<Rightarrow> ('s, 'a) io" where
  "ilift r s = (case r of Inl e \<Rightarrow> (Raise e, s) | Inr a \<Rightarrow> (Ret a, s))"

definition iwhen :: "bool \<Rightarrow> ('s, unit) io \<Rightarrow> ('s, unit) io" where
  "iwhen b c = (if b then c else iret ())"

text \<open>\<^verbatim>\<open>try: c except ...: h\<close>\<close>

definition icatch :: "('s, 'a) io \<Rightarrow> (exn \<Rightarrow> ('s, 'a) io) \<Rightarrow> ('s, 'a) io" where
  "icatch c h s = (case c s of (Raise e, t) \<Rightarrow> h e t | r \<Rightarrow> r)"

text \<open>\<^verbatim>\<open>try: c finally: d\<close>\<close>

definition ifinally :: "('s, 'a) io \<Rightarrow> ('s, unit) io \<Rightarrow> ('s, 'a) io" where
  "ifinally c d s =
     (case c s of
        (Wait, t) \<Rightarrow> (Wait, t)
      | (r, t) \<Rightarrow> (case d t of (Ret _, u) \<Rightarrow> (r, u) | (Raise e, u) \<Rightarrow> (Raise e, u) | (Wait, u) \<Rightarrow> (Wait, u)))"

text \<open>
  \<^verbatim>\<open>async with\<close>: the body runs when \<^verbatim>\<open>__aenter__\<close> returned, \<^verbatim>\<open>__aexit__\<close> is told the body's
  exception, and an exception of its own replaces it.
\<close>

definition with_block ::
    "('s, 'c) io \<Rightarrow> ('c \<Rightarrow> exn option \<Rightarrow> ('s, unit) io) \<Rightarrow> ('c \<Rightarrow> ('s, 'a) io) \<Rightarrow> ('s, 'a) io" where
  "with_block enter exit body =
     ibind enter (\<lambda>c s.
       case body c s of
         (Wait, t) \<Rightarrow> (Wait, t)
       | (Ret a, t) \<Rightarrow> ibind (exit c None) (\<lambda>_. iret a) t
       | (Raise e, t) \<Rightarrow> ibind (exit c (Some e)) (\<lambda>_. iraise e) t)"

fun imap :: "('a \<Rightarrow> ('s, 'b) io) \<Rightarrow> 'a list \<Rightarrow> ('s, 'b list) io" where
  "imap f [] = iret []"
| "imap f (x # xs) = ibind (f x) (\<lambda>y. ibind (imap f xs) (\<lambda>ys. iret (y # ys)))"

fun ifold :: "('a \<Rightarrow> 'b \<Rightarrow> ('s, 'b) io) \<Rightarrow> 'a list \<Rightarrow> 'b \<Rightarrow> ('s, 'b) io" where
  "ifold f [] b = iret b"
| "ifold f (x # xs) b = ibind (f x b) (ifold f xs)"

named_theorems io_simps \<open>computing with effects\<close>

lemma ibind_simps [simp, io_simps]:
  "c s = (Ret a, t) \<Longrightarrow> ibind c k s = k a t"
  "c s = (Raise e, t) \<Longrightarrow> ibind c k s = (Raise e, t)"
  "c s = (Wait, t) \<Longrightarrow> ibind c k s = (Wait, t)"
  by (simp_all add: ibind_def)

lemma io_unfold [simp, io_simps]:
  "iret a s = (Ret a, s)" "iraise e s = (Raise e, s)" "imodify g s = (Ret (), g s)" "iget h s = (Ret (h s), s)"
  "ilift (Inr a) s = (Ret a, s)" "ilift (Inl e) s = (Raise e, s)"
  "iwhen True d s = d s" "iwhen False d s = (Ret (), s)"
  by (simp_all add: iret_def iraise_def imodify_def iget_def ilift_def iwhen_def)

lemma ibind_Ret: "ibind c k s = (Ret b, u) \<longleftrightarrow> (\<exists>a t. c s = (Ret a, t) \<and> k a t = (Ret b, u))"
  by (auto simp: ibind_def split: outcome.splits prod.splits)

lemma ilift_Ret [simp]: "ilift r s = (Ret a, t) \<longleftrightarrow> r = Inr a \<and> t = s"
  by (auto simp: ilift_def split: sum.splits)

lemma ibind_cases:
  obtains a t where "c s = (Ret a, t)" "ibind c k s = k a t"
  | e t where "c s = (Raise e, t)" "ibind c k s = (Raise e, t)"
  | t where "c s = (Wait, t)" "ibind c k s = (Wait, t)"
  by (cases "c s"; cases "fst (c s)") auto

lemma icatch_simps [simp, io_simps]:
  "c s = (Ret a, t) \<Longrightarrow> icatch c h s = (Ret a, t)"
  "c s = (Raise e, t) \<Longrightarrow> icatch c h s = h e t"
  "c s = (Wait, t) \<Longrightarrow> icatch c h s = (Wait, t)"
  by (simp_all add: icatch_def)

text \<open>
  What holds after a computation, whatever its outcome: the rule of consequence and of
  sequencing for predicates on states.
\<close>

definition keeps :: "('s \<Rightarrow> bool) \<Rightarrow> ('s, 'a) io \<Rightarrow> bool" where
  "keeps P c \<longleftrightarrow> (\<forall>s. P s \<longrightarrow> P (snd (c s)))"

lemma keeps_ibind: "keeps P c \<Longrightarrow> (\<And>a. keeps P (k a)) \<Longrightarrow> keeps P (ibind c k)"
  by (auto simp: keeps_def ibind_def split: outcome.splits prod.splits)

lemma keeps_simple [simp]:
  "keeps P (iret a)" "keeps P (iraise e)" "keeps P (iget h)" "keeps P (ilift r)"
  by (auto simp: keeps_def iret_def iraise_def iget_def ilift_def split: sum.splits)

lemma keeps_imodify: "(\<And>s. P s \<Longrightarrow> P (g s)) \<Longrightarrow> keeps P (imodify g)"
  by (simp add: keeps_def imodify_def)

lemma keeps_iwhen: "keeps P c \<Longrightarrow> keeps P (iwhen b c)"
  by (simp add: iwhen_def)

lemma keeps_ifold: "(\<And>x b. keeps P (f x b)) \<Longrightarrow> keeps P (ifold f xs b)"
  by (induction xs arbitrary: b) (auto intro!: keeps_ibind)

lemma keeps_imap: "(\<And>x. keeps P (f x)) \<Longrightarrow> keeps P (imap f xs)"
  by (induction xs) (auto intro!: keeps_ibind)

text \<open>A loop that returns: what every round keeps, and what the round of one element achieves.\<close>

lemma ifold_invariant:
  assumes "ifold f xs b s = (Ret r, t)" and "P s"
    and "\<And>x b u c v. x \<in> set xs \<Longrightarrow> f x b u = (Ret c, v) \<Longrightarrow> P u \<Longrightarrow> P v"
  shows "P t"
  using assms
proof (induction xs arbitrary: b s)
  case (Cons x xs)
  from Cons.prems(1) obtain c u where x: "f x b s = (Ret c, u)" "ifold f xs c u = (Ret r, t)" by (auto simp: ibind_Ret)
  from Cons.prems(3) [OF _ x(1) Cons.prems(2)] have "P u" by simp
  show ?case by (rule Cons.IH [OF x(2) \<open>P u\<close>], rule Cons.prems(3)) simp_all
qed (simp add: iret_def)

lemma ifold_each:
  assumes "ifold f xs b s = (Ret r, t)" and "x \<in> set xs"
    and "\<And>b u c v. f x b u = (Ret c, v) \<Longrightarrow> P v"
    and "\<And>y b u c v. f y b u = (Ret c, v) \<Longrightarrow> P u \<Longrightarrow> P v"
  shows "P t"
  using assms(1,2)
proof (induction xs arbitrary: b s)
  case (Cons y ys)
  from Cons.prems(1) obtain c u where y: "f y b s = (Ret c, u)" "ifold f ys c u = (Ret r, t)" by (auto simp: ibind_Ret)
  show ?case
  proof (cases "x = y")
    case True
    with y(1) assms(3) have "P u" by blast
    with ifold_invariant [OF y(2), of P] assms(4) show ?thesis by blast
  next
    case False
    with Cons.IH [OF y(2)] Cons.prems(2) show ?thesis by simp
  qed
qed simp

end
