(* ===== verification/Connections.thy ===== *)
theory Connections
  imports Config Effects
begin

text \<open>
  \<^verbatim>\<open>connection.py\<close>: the handler of connections, its storage in a \<^verbatim>\<open>ContextVar\<close> and the tokens
  that restore it; \<^verbatim>\<open>router.py\<close>. The storage dictionaries are mutable objects shared between
  tasks, so they live in a store indexed by identity, and each task has its own current
  dictionary. Client objects live in a store too.

  Engine modules and client classes are imported by name; what importing and constructing them
  does is the record \<open>engines\<close>.
\<close>

section \<open>The state of a process\<close>

datatype client_kind = BaseClient | Transaction nat  \<comment> \<open>with its \<^verbatim>\<open>_parent\<close>\<close>

record client =
  connection_name :: string
  kind :: client_kind
  driver :: "nat option"       \<comment> \<open>\<^verbatim>\<open>_connection\<close>: the driver's connection, when there is one\<close>
  finalized :: bool
  own_lock :: nat              \<comment> \<open>\<^verbatim>\<open>_lock\<close>\<close>
  trxlock :: "nat option"      \<comment> \<open>\<^verbatim>\<open>_trxlock\<close>\<close>

datatype db_info = InfoUrl url | InfoDict "string option" "(string, pyval) dict option"
  \<comment> \<open>a URL, or a dictionary with \<^verbatim>\<open>engine\<close> and \<^verbatim>\<open>credentials\<close>\<close>

type_synonym task = nat
type_synonym storage = "(string, nat) dict"

record 'd proc =
  config :: "(string, db_info) dict option"    \<comment> \<open>\<^verbatim>\<open>_db_config\<close>\<close>
  stores :: "nat \<Rightarrow> storage"
  next_store :: nat
  current :: "task \<Rightarrow> nat"
  clients :: "nat \<Rightarrow> client"
  next_client :: nat
  locked :: "nat \<Rightarrow> bool"
  next_lock :: nat
  drivers :: "nat \<Rightarrow> 'd"
  next_driver :: nat

record engines =
  import_engine :: "string \<Rightarrow> bool res"      \<comment> \<open>whether the module has a \<^verbatim>\<open>client_class\<close>\<close>
  construct_ok :: "string \<Rightarrow> (string, pyval) dict \<Rightarrow> unit res"
  e_lib :: pylib
  e_unquote :: "string \<Rightarrow> string"

section \<open>The storage\<close>

definition get_storage :: "task \<Rightarrow> 'd proc \<Rightarrow> storage" where
  "get_storage t p = stores p (current p t)"

definition write_storage :: "task \<Rightarrow> storage \<Rightarrow> 'd proc \<Rightarrow> 'd proc" where
  "write_storage t d p = p\<lparr>stores := (stores p)(current p t := d)\<rparr>"

text \<open>\<^verbatim>\<open>ContextVar.set\<close>: a new dictionary object; the token is the old one.\<close>

definition set_storage :: "task \<Rightarrow> storage \<Rightarrow> ('d proc, nat) io" where
  "set_storage t d p =
     (Ret (current p t),
      p\<lparr>stores := (stores p)(next_store p := d), next_store := Suc (next_store p),
        current := (current p)(t := next_store p)\<rparr>)"

section \<open>Configuration\<close>

definition db_config :: "'d proc \<Rightarrow> (string, db_info) dict res" where
  "db_config p = (case config p of None \<Rightarrow> Inl ConfigurationError | Some c \<Rightarrow> Inr c)"

definition get_db_info :: "string \<Rightarrow> 'd proc \<Rightarrow> db_info res" where
  "get_db_info alias p =
     rbind (db_config p) (\<lambda>c. case map_of c alias of None \<Rightarrow> Inl ConfigurationError | Some i \<Rightarrow> Inr i)"

definition discover_client_class :: "engines \<Rightarrow> string \<Rightarrow> unit res" where
  "discover_client_class env eng =
     rbind (import_engine env eng) (\<lambda>has. guard_exn (\<not> has) ConfigurationError)"

definition db_params :: "engines \<Rightarrow> string \<Rightarrow> db_info \<Rightarrow> (string \<times> (string, pyval) dict) res" where
  "db_params env alias info =
     rbind (case info of
              InfoUrl u \<Rightarrow> rbind (expand_db_url (e_lib env) (e_unquote env) Inr u False) (\<lambda>(e, c). Inr (e, Some c))
            | InfoDict e c \<Rightarrow> Inr ((case e of None \<Rightarrow> [] | Some s \<Rightarrow> s), c)) (\<lambda>(eng, creds).
     rbind (discover_client_class env eng) (\<lambda>_.
     rbind (case creds of None \<Rightarrow> Inl PyKeyError | Some c \<Rightarrow> Inr c) (\<lambda>c.
     Inr (eng, AList.update ''connection_name'' (VStr alias) c))))"

text \<open>\<^verbatim>\<open>client_class(**db_params)\<close>: a new client, not connected, with a lock of its own.\<close>

definition new_client :: "client_kind \<Rightarrow> string \<Rightarrow> nat option \<Rightarrow> nat option \<Rightarrow> ('d proc, nat) io" where
  "new_client k alias drv tlock p =
     (Ret (next_client p),
      p\<lparr>clients := (clients p)(next_client p := \<lparr> connection_name = alias, kind = k, driver = drv,
           finalized = False, own_lock = next_lock p, trxlock = tlock \<rparr>),
        next_client := Suc (next_client p),
        locked := (locked p)(next_lock p := False), next_lock := Suc (next_lock p)\<rparr>)"

definition create_connection :: "engines \<Rightarrow> string \<Rightarrow> ('d proc, nat) io" where
  "create_connection env alias =
     ibind (iget (get_db_info alias)) (\<lambda>info.
     ibind (ilift (rbind info (db_params env alias))) (\<lambda>(eng, params).
     ibind (ilift (construct_ok env eng params)) (\<lambda>_.
     new_client BaseClient alias None None)))"

section \<open>The handler's operations\<close>

definition conn_get :: "engines \<Rightarrow> task \<Rightarrow> string \<Rightarrow> ('d proc, nat) io" where
  "conn_get env t alias =
     ibind (iget (\<lambda>p. map_of (get_storage t p) alias)) (\<lambda>found.
       case found of
         Some c \<Rightarrow> iret c
       | None \<Rightarrow> ibind (create_connection env alias) (\<lambda>c.
           ibind (imodify (\<lambda>p. write_storage t (AList.update alias c (get_storage t p)) p)) (\<lambda>_. iret c)))"

definition conn_set :: "task \<Rightarrow> string \<Rightarrow> nat \<Rightarrow> ('d proc, nat) io" where
  "conn_set t alias c =
     ibind (iget (get_storage t)) (\<lambda>d. set_storage t (AList.update alias c d))"

definition conn_discard :: "task \<Rightarrow> string \<Rightarrow> ('d proc, nat option) io" where
  "conn_discard t alias p =
     (Ret (map_of (get_storage t p) alias), write_storage t (AList.delete alias (get_storage t p)) p)"

fun copy_missing :: "storage \<Rightarrow> storage \<Rightarrow> storage" where
  "copy_missing [] prev = prev"
| "copy_missing ((alias, c) # d) prev =
     copy_missing d (if dict_has prev alias then prev else AList.update alias c prev)"

text \<open>\<^verbatim>\<open>reset\<close>; a token is used once, by the task that got it.\<close>

definition conn_reset :: "task \<Rightarrow> nat \<Rightarrow> ('d proc, unit) io" where
  "conn_reset t token =
     ibind (iget (get_storage t)) (\<lambda>cur.
     imodify (\<lambda>p. let p' = p\<lparr>current := (current p)(t := token)\<rparr>
                  in write_storage t (copy_missing cur (get_storage t p')) p'))"

definition conn_all :: "engines \<Rightarrow> task \<Rightarrow> ('d proc, nat list) io" where
  "conn_all env t =
     ibind (iget db_config) (\<lambda>cfg.
     ibind (ilift cfg) (\<lambda>c. imap (conn_get env t) (map fst c)))"

definition set_client :: "nat \<Rightarrow> (client \<Rightarrow> client) \<Rightarrow> 'd proc \<Rightarrow> 'd proc" where
  "set_client c g p = p\<lparr>clients := (clients p)(c := g (clients p c))\<rparr>"

text \<open>\<^verbatim>\<open>SqliteClient.close\<close>\<close>

definition client_close :: "nat \<Rightarrow> ('d proc, unit) io" where
  "client_close c = imodify (set_client c (\<lambda>x. x\<lparr>driver := None\<rparr>))"

definition close_all :: "engines \<Rightarrow> task \<Rightarrow> bool \<Rightarrow> ('d proc, unit) io" where
  "close_all env t discard =
     ibind (conn_all env t) (\<lambda>cs.
     ibind (imap client_close cs) (\<lambda>_.
     iwhen discard
       (ibind (iget db_config) (\<lambda>cfg.
        ibind (ilift cfg) (\<lambda>c.
        ibind (imap (conn_discard t) (map fst c)) (\<lambda>_. iret ()))))))"

text \<open>\<^verbatim>\<open>_init\<close> with its connections; \<open>db_create\<close> is the client's.\<close>

definition conn_init ::
    "engines \<Rightarrow> (nat \<Rightarrow> ('d proc, unit) io) \<Rightarrow> task \<Rightarrow> (string, db_info) dict \<Rightarrow> bool \<Rightarrow> ('d proc, unit) io" where
  "conn_init env db_create t cfg create_db =
     ibind (imodify (\<lambda>p. p\<lparr>config := Some (case config p of None \<Rightarrow> cfg | Some c \<Rightarrow> dict_update c cfg)\<rparr>)) (\<lambda>_.
     ibind (iget db_config) (\<lambda>c.
     ibind (ilift c) (\<lambda>c.
     ibind (imap (\<lambda>alias. ibind (conn_get env t alias) (\<lambda>k. iwhen create_db (db_create k))) (map fst c)) (\<lambda>_.
     iret ()))))"

section \<open>The router\<close>

text \<open>A router is its methods: \<open>None\<close> for a method it lacks, else what it answers for a model.\<close>

type_synonym router_method = "(mid \<Rightarrow> string option) option"

fun router_func :: "router_method list \<Rightarrow> mid \<Rightarrow> string option" where
  "router_func [] m = None"
| "router_func (r # rs) m =
     (case r of None \<Rightarrow> router_func rs m
      | Some method \<Rightarrow> (case method m of None \<Rightarrow> router_func rs m
           | Some db \<Rightarrow> if db = [] then router_func rs m else Some db))"

text \<open>
  \<^verbatim>\<open>_db_route\<close>: a router that names no database makes \<^verbatim>\<open>connections.get(None)\<close> raise
  \<^verbatim>\<open>ConfigurationError\<close>, which means no route, as does a name without configuration.
\<close>

definition db_route :: "engines \<Rightarrow> task \<Rightarrow> router_method list \<Rightarrow> mid \<Rightarrow> ('d proc, nat option) io" where
  "db_route env t rs m =
     icatch
       (case router_func rs m of
          None \<Rightarrow> iraise ConfigurationError
        | Some db \<Rightarrow> ibind (conn_get env t db) (\<lambda>c. iret (Some c)))
       (\<lambda>e. if exn_isa e ConfigurationError then iret None else iraise e)"

section \<open>Scopes\<close>

text \<open>
  The contract of a scoped registry, which the transaction contexts rely on: \<open>bind_alias\<close>
  opens a scope in which an alias stands for a client, \<open>unbind\<close> closes it. \<open>peek k\<close> reads the
  registry that the token \<open>k\<close> will bring back, and \<open>sees u k\<close> says that task \<open>u\<close> is using it.
\<close>

locale scoped_registry =
  fixes ok :: "'s \<Rightarrow> bool"
    and lookup :: "'t \<Rightarrow> string \<Rightarrow> 's \<Rightarrow> 'c option"
    and bind_alias :: "'t \<Rightarrow> string \<Rightarrow> 'c \<Rightarrow> 's \<Rightarrow> 'k \<times> 's"
    and unbind :: "'t \<Rightarrow> 'k \<Rightarrow> 's \<Rightarrow> 's"
    and peek :: "'k \<Rightarrow> string \<Rightarrow> 's \<Rightarrow> 'c option"
    and sees :: "'t \<Rightarrow> 'k \<Rightarrow> 's \<Rightarrow> bool"
  assumes bind_ok: "ok s \<Longrightarrow> ok (snd (bind_alias t a c s))"
    and bind_lookup: "ok s \<Longrightarrow> lookup u b (snd (bind_alias t a c s))
          = (if u = t \<and> b = a then Some c else lookup u b s)"
    and bind_peek: "ok s \<Longrightarrow> peek (fst (bind_alias t a c s)) b (snd (bind_alias t a c s)) = lookup t b s"
    and unbind_lookup: "lookup u b (unbind t k s)
          = (if u = t \<or> sees u k s then (case peek k b s of Some c \<Rightarrow> Some c | None \<Rightarrow> lookup t b s)
             else lookup u b s)"
begin

text \<open>Inside the scope the alias is the bound client, for the task that opened it only.\<close>

lemma scope_inside:
  assumes "ok s"
  shows "lookup t a (snd (bind_alias t a c s)) = Some c"
    and "u \<noteq> t \<Longrightarrow> lookup u b (snd (bind_alias t a c s)) = lookup u b s"
  using bind_lookup [OF assms] by simp_all

text \<open>
  Closing a scope brings back every client the task had, provided that nobody removed it from
  the registry in the meantime, and keeps the clients the task opened in the scope.
\<close>

lemma scope_restores:
  assumes "ok s" and "bind_alias t a c s = (k, s1)" and "peek k b s2 = peek k b s1"
  shows "lookup t b (unbind t k s2) = (case lookup t b s of Some d \<Rightarrow> Some d | None \<Rightarrow> lookup t b s2)"
proof -
  have "peek k b s1 = lookup t b s" using bind_peek [OF assms(1), of t a c b] by (simp add: assms(2))
  with assms(3) show ?thesis by (simp add: unbind_lookup)
qed

lemma scope_others:
  assumes "u \<noteq> t" and "\<not> sees u k s"
  shows "lookup u b (unbind t k s) = lookup u b s"
  using assms by (simp add: unbind_lookup)

end

definition proc_ok :: "'d proc \<Rightarrow> bool" where
  "proc_ok p \<longleftrightarrow> (\<forall>t. current p t < next_store p)"

definition alias_of :: "task \<Rightarrow> string \<Rightarrow> 'd proc \<Rightarrow> nat option" where
  "alias_of t a p = map_of (get_storage t p) a"

definition bind_client :: "task \<Rightarrow> string \<Rightarrow> nat \<Rightarrow> 'd proc \<Rightarrow> nat \<times> 'd proc" where
  "bind_client t a c p = (current p t, snd (conn_set t a c p))"

definition unbind_client :: "task \<Rightarrow> nat \<Rightarrow> 'd proc \<Rightarrow> 'd proc" where
  "unbind_client t k p = snd (conn_reset t k p)"

definition token_view :: "nat \<Rightarrow> string \<Rightarrow> 'd proc \<Rightarrow> nat option" where
  "token_view k a p = map_of (stores p k) a"

definition uses_store :: "task \<Rightarrow> nat \<Rightarrow> 'd proc \<Rightarrow> bool" where
  "uses_store t k p \<longleftrightarrow> current p t = k"

lemma conn_set_run:
  "conn_set t a c p = (Ret (current p t),
     p\<lparr>stores := (stores p)(next_store p := AList.update a c (get_storage t p)),
       next_store := Suc (next_store p), current := (current p)(t := next_store p)\<rparr>)"
  by (simp add: conn_set_def set_storage_def)

lemma conn_reset_run:
  "conn_reset t k p = (Ret (),
     p\<lparr>current := (current p)(t := k), stores := (stores p)(k := copy_missing (get_storage t p) (stores p k))\<rparr>)"
  by (simp add: conn_reset_def write_storage_def get_storage_def Let_def)

lemma map_of_copy_missing:
  "map_of (copy_missing d prev) a = (case map_of prev a of Some c \<Rightarrow> Some c | None \<Rightarrow> map_of d a)"
  by (induction d prev rule: copy_missing.induct) (auto simp: dict_has_def map_of_update split: option.splits)

interpretation conn_scope:
  scoped_registry proc_ok alias_of bind_client unbind_client token_view uses_store
proof
  fix p :: "'d proc" and t u a b c k
  show "proc_ok (snd (bind_client t a c p))" if "proc_ok p"
    using that by (auto simp: proc_ok_def bind_client_def conn_set_run less_Suc_eq)
  have old: "current p v \<noteq> next_store p" if "proc_ok p" for v
    using that by (metis proc_ok_def less_irrefl)
  show "alias_of u b (snd (bind_client t a c p)) = (if u = t \<and> b = a then Some c else alias_of u b p)" if "proc_ok p"
    using old [OF that] by (simp add: bind_client_def conn_set_run alias_of_def get_storage_def map_of_update)
  show "token_view (fst (bind_client t a c p)) b (snd (bind_client t a c p)) = alias_of t b p" if "proc_ok p"
    using old [OF that] by (simp add: bind_client_def conn_set_run alias_of_def get_storage_def token_view_def)
  show "alias_of u b (unbind_client t k p) =
      (if u = t \<or> uses_store u k p then (case token_view k b p of Some c \<Rightarrow> Some c | None \<Rightarrow> alias_of t b p)
       else alias_of u b p)"
    by (auto simp: unbind_client_def conn_reset_run alias_of_def get_storage_def token_view_def uses_store_def
        map_of_copy_missing split: option.splits)
qed

section \<open>Properties of the handler\<close>

lemma new_client_run:
  "new_client k a drv tlock p = (Ret (next_client p),
      p\<lparr>clients := (clients p)(next_client p := \<lparr> connection_name = a, kind = k, driver = drv,
           finalized = False, own_lock = next_lock p, trxlock = tlock \<rparr>),
        next_client := Suc (next_client p),
        locked := (locked p)(next_lock p := False), next_lock := Suc (next_lock p)\<rparr>)"
  by (simp add: new_client_def)

lemma create_connection_Ret:
  assumes "create_connection env a p = (Ret c, p')"
  shows "c = next_client p" and "p' = snd (new_client BaseClient a None None p)"
  using assms
  by (auto simp: create_connection_def ibind_Ret new_client_run iget_def)

text \<open>What \<^verbatim>\<open>get\<close> does to the aliases, and the client it makes.\<close>

lemma conn_get_known: "alias_of t a p = Some d \<Longrightarrow> conn_get env t a p = (Ret d, p)"
  by (simp add: conn_get_def alias_of_def iget_def ibind_def iret_def)

lemma conn_get_new:
  assumes "conn_get env t a p = (Ret c, p')" and "alias_of t a p = None"
  shows "c = next_client p" and "alias_of t b p' = (if b = a then Some c else alias_of t b p)"
    and "clients p' c = \<lparr> connection_name = a, kind = BaseClient, driver = None,
       finalized = False, own_lock = next_lock p, trxlock = None \<rparr>"
proof -
  from assms obtain q where q: "create_connection env a p = (Ret c, q)"
    and p': "p' = write_storage t (AList.update a c (get_storage t q)) q"
    by (auto simp: conn_get_def alias_of_def ibind_Ret iget_def imodify_def split: option.splits)
  have same: "get_storage t q = get_storage t p"
    by (simp add: create_connection_Ret(2) [OF q] new_client_run get_storage_def)
  show "c = next_client p" using create_connection_Ret(1) [OF q] .
  show "alias_of t b p' = (if b = a then Some c else alias_of t b p)"
    by (simp add: p' alias_of_def get_storage_def write_storage_def map_of_update same [unfolded get_storage_def])
  show "clients p' c = \<lparr> connection_name = a, kind = BaseClient, driver = None,
       finalized = False, own_lock = next_lock p, trxlock = None \<rparr>"
    using create_connection_Ret [OF q] by (simp add: p' write_storage_def new_client_run)
qed

lemma conn_get_alias:
  assumes "conn_get env t a p = (Ret c, p')"
  shows "alias_of t b p' = (if b = a then Some c else alias_of t b p)"
  using assms conn_get_new(2) [OF assms] conn_get_known [of t a p _ env] by (cases "alias_of t a p") auto

text \<open>
  \<^verbatim>\<open>connections.get\<close> makes a client once: the client it returns is what the alias stands
  for from then on, another call returns the same object and changes nothing, no other alias
  is touched, and a client it had to make is a fresh, unconnected one with the alias's name.
\<close>

theorem conn_get_stable:
  assumes "conn_get env t a p = (Ret c, p')"
  shows "alias_of t a p' = Some c \<and> conn_get env t a p' = (Ret c, p') \<and>
     (\<forall>b. b \<noteq> a \<longrightarrow> alias_of t b p' = alias_of t b p) \<and>
     (alias_of t a p = None \<longrightarrow> c = next_client p \<and> connection_name (clients p' c) = a \<and>
        kind (clients p' c) = BaseClient \<and> driver (clients p' c) = None)"
  using conn_get_alias [OF assms] conn_get_known [of t a p' c env] conn_get_new(1,3) [OF assms] by simp

text \<open>
  Resetting with the token of a \<^verbatim>\<open>set\<close> brings back every connection the task had before it,
  as long as none of them was removed from the old storage in between, and keeps connections
  that were created meanwhile under aliases that had none.
\<close>

theorem reset_restores:
  fixes p p1 p2 p3 :: "'d proc"
  assumes "proc_ok p" and "conn_set t a c p = (Ret k, p1)"
    and "\<forall>b. token_view k b p2 = token_view k b p1" and "conn_reset t k p2 = (Ret (), p3)"
  shows "alias_of t b p3 = (case alias_of t b p of Some d \<Rightarrow> Some d | None \<Rightarrow> alias_of t b p2)"
proof -
  have "bind_client t a c p = (k, p1)" "p3 = unbind_client t k p2"
    using assms(2,4) by (simp_all add: bind_client_def unbind_client_def conn_set_run)
  with conn_scope.scope_restores [OF assms(1), of t a c k p1 b p2] assms(3) show ?thesis by simp
qed

definition sample_proc :: "nat proc" where
  "sample_proc = \<lparr> config = Some [(''default'', InfoDict (Some ''sqlite'') (Some []))], stores = (\<lambda>_. []), next_store = 1,
     current = (\<lambda>_. 0), clients = (\<lambda>_. \<lparr> connection_name = [], kind = BaseClient, driver = None, finalized = False,
        own_lock = 0, trxlock = None \<rparr>), next_client = 0, locked = (\<lambda>_. False), next_lock = 0,
     drivers = (\<lambda>_. 0), next_driver = 0 \<rparr>"

definition sample_engines :: engines where
  "sample_engines = \<lparr> import_engine = (\<lambda>_. Inr True), construct_ok = (\<lambda>_ _. Inr ()), e_lib = const_lib, e_unquote = id \<rparr>"

theorem conn_get_stable_witness:
  "\<exists>p'. conn_get sample_engines 0 ''default'' sample_proc = (Ret 0, p') \<and> alias_of 0 ''default'' p' = Some 0"
proof -
  have "fst (conn_get sample_engines 0 ''default'' sample_proc) = Ret 0" by code_simp
  then obtain p' where r: "conn_get sample_engines 0 ''default'' sample_proc = (Ret 0, p')"
    by (cases "conn_get sample_engines 0 ''default'' sample_proc") auto
  from conn_get_stable [OF r] r show ?thesis by blast
qed

theorem reset_restores_witness:
  "alias_of 0 ''x'' (snd (conn_reset 0 0 (snd (conn_set 0 ''x'' 7 sample_proc)))) = Some 7"
proof -
  have ok: "proc_ok sample_proc" by (simp add: proc_ok_def sample_proc_def)
  have s: "conn_set 0 ''x'' 7 sample_proc = (Ret 0, snd (conn_set 0 ''x'' 7 sample_proc))"
    by (simp add: conn_set_run sample_proc_def)
  have n: "alias_of 0 ''x'' sample_proc = None" "alias_of 0 ''x'' (snd (conn_set 0 ''x'' 7 sample_proc)) = Some 7"
    by code_simp+
  from reset_restores [OF ok s, of "snd (conn_set 0 ''x'' 7 sample_proc)" _ "''x''"] n
  show ?thesis by (simp add: conn_reset_run)
qed

text \<open>
  The router takes the first router that has the method and names a database, and never
  lets a missing configuration escape: \<^verbatim>\<open>db_for_read\<close> and \<^verbatim>\<open>db_for_write\<close> answer a connection or
  none.
\<close>

theorem router_first_choice:
  "router_func rs m =
      (case filter (\<lambda>db. db \<noteq> []) (List.map_filter (\<lambda>r. case r of None \<Rightarrow> None | Some g \<Rightarrow> g m) rs) of
         [] \<Rightarrow> None | db # _ \<Rightarrow> Some db) \<and>
   fst (db_route env t rs m p) \<noteq> Raise ConfigurationError"
proof
  show "router_func rs m =
      (case filter (\<lambda>db. db \<noteq> []) (List.map_filter (\<lambda>r. case r of None \<Rightarrow> None | Some g \<Rightarrow> g m) rs) of
         [] \<Rightarrow> None | db # _ \<Rightarrow> Some db)"
    by (induction rs) (auto simp: map_filter_simps split: option.splits)
  show "fst (db_route env t rs m p) \<noteq> Raise ConfigurationError"
    by (auto simp: db_route_def icatch_def iret_def iraise_def split: prod.splits outcome.splits if_splits)
qed

end
