(* ===== verification/Transactions.thy ===== *)
theory Transactions
  imports Connections
begin

text \<open>
  \<^verbatim>\<open>transactions.py\<close>, the transaction contexts of \<^verbatim>\<open>backends/base/client.py\<close> and the SQLite
  client's transaction wrapper. The driver (aiosqlite and the database behind it) is the record
  \<open>driver_ops\<close>: each call gives the error it raises, if any, and the new state of the
  connection. What is asked of it is \<open>driver_laws\<close>, the documented meaning of BEGIN, COMMIT and
  ROLLBACK on what is durable and what the connection sees.
\<close>

section \<open>The driver\<close>

datatype drv_err = SqliteOperational | SqliteIntegrity | DrvExn exn

record 'd driver_ops =
  d_open :: "drv_err option \<times> 'd"
  d_commit :: "'d \<Rightarrow> drv_err option \<times> 'd"
  d_begin :: "'d \<Rightarrow> drv_err option \<times> 'd"
  d_rollback :: "'d \<Rightarrow> drv_err option \<times> 'd"

text \<open>The class of an error nobody translated.\<close>

fun raw_exn :: "drv_err \<Rightarrow> exn" where
  "raw_exn (DrvExn e) = e"
| "raw_exn SqliteOperational = PyException"
| "raw_exn SqliteIntegrity = PyException"

text \<open>\<^verbatim>\<open>translate_exceptions\<close>\<close>

fun translate_exceptions :: "drv_err \<Rightarrow> exn" where
  "translate_exceptions SqliteOperational = OperationalError"
| "translate_exceptions SqliteIntegrity = IntegrityError"
| "translate_exceptions (DrvExn e) = e"

definition drv_call :: "('e \<Rightarrow> exn) \<Rightarrow> ('d \<Rightarrow> 'e option \<times> 'd) \<Rightarrow> nat option \<Rightarrow> ('d proc, unit) io" where
  "drv_call tr op dopt p =
     (case dopt of
        None \<Rightarrow> (Raise PyAttributeError, p)
      | Some d \<Rightarrow> (case op (drivers p d) of (err, x) \<Rightarrow>
           ((case err of None \<Rightarrow> Ret () | Some e \<Rightarrow> Raise (tr e)), p\<lparr>drivers := (drivers p)(d := x)\<rparr>)))"

text \<open>\<^verbatim>\<open>SqliteClient.create_connection\<close>\<close>

definition create_driver :: "'d driver_ops \<Rightarrow> nat \<Rightarrow> ('d proc, unit) io" where
  "create_driver ops c p =
     (if driver (clients p c) \<noteq> None then (Ret (), p)
      else case d_open ops of
        (Some e, _) \<Rightarrow> (Raise (raw_exn e), p)
      | (None, x) \<Rightarrow> (Ret (), set_client c (\<lambda>k. k\<lparr>driver := Some (next_driver p)\<rparr>)
           (p\<lparr>drivers := (drivers p)(next_driver p := x), next_driver := Suc (next_driver p)\<rparr>)))"

section \<open>Locks\<close>

definition lock_acquire :: "nat \<Rightarrow> ('d proc, unit) io" where
  "lock_acquire l p = (if locked p l then (Wait, p) else (Ret (), p\<lparr>locked := (locked p)(l := True)\<rparr>))"

definition lock_release :: "nat \<Rightarrow> ('d proc, unit) io" where
  "lock_release l p =
     (if locked p l then (Ret (), p\<lparr>locked := (locked p)(l := False)\<rparr>) else (Raise PyRuntimeError, p))"

text \<open>\<^verbatim>\<open>ConnectionWrapper\<close>: a statement runs under the client's own lock.\<close>

definition with_connection :: "'d driver_ops \<Rightarrow> nat \<Rightarrow> ('d proc, 'a) io \<Rightarrow> ('d proc, 'a) io" where
  "with_connection ops c body =
     ibind (iget (\<lambda>p. own_lock (clients p c))) (\<lambda>l.
     with_block (iseq (lock_acquire l) (create_driver ops c)) (\<lambda>_ _. lock_release l) (\<lambda>_. body))"

definition execute_query :: "'d driver_ops \<Rightarrow> nat \<Rightarrow> ('d \<Rightarrow> drv_err option \<times> 'd) \<Rightarrow> ('d proc, unit) io" where
  "execute_query ops c stmt =
     with_connection ops c
       (ibind (iget (\<lambda>p. driver (clients p c))) (drv_call translate_exceptions stmt))"

section \<open>The transaction wrapper\<close>

definition trx_wrapper :: "nat \<Rightarrow> ('d proc, nat) io" where
  "trx_wrapper c =
     ibind (iget (\<lambda>p. clients p c)) (\<lambda>k.
     new_client (Transaction c) (connection_name k) (driver k) (Some (own_lock k)))"

definition trx_start :: "'d driver_ops \<Rightarrow> nat \<Rightarrow> ('d proc, unit) io" where
  "trx_start ops w =
     ibind (iget (\<lambda>p. driver (clients p w))) (\<lambda>d.
     let tr = (\<lambda>e. if e = SqliteOperational then TransactionManagementError else raw_exn e)
     in iseq (drv_call tr (d_commit ops) d) (drv_call tr (d_begin ops) d))"

definition trx_finish :: "('d \<Rightarrow> drv_err option \<times> 'd) \<Rightarrow> nat \<Rightarrow> ('d proc, unit) io" where
  "trx_finish op w =
     ibind (iget (\<lambda>p. clients p w)) (\<lambda>k.
     if finalized k then iraise TransactionManagementError
     else iseq (drv_call raw_exn op (driver k)) (imodify (set_client w (\<lambda>k. k\<lparr>finalized := True\<rparr>))))"

definition trx_rollback :: "'d driver_ops \<Rightarrow> nat \<Rightarrow> ('d proc, unit) io" where
  "trx_rollback ops = trx_finish (d_rollback ops)"

definition trx_commit :: "'d driver_ops \<Rightarrow> nat \<Rightarrow> ('d proc, unit) io" where
  "trx_commit ops = trx_finish (d_commit ops)"

section \<open>The contexts\<close>

definition trx_ensure_connection :: "'d driver_ops \<Rightarrow> nat \<Rightarrow> ('d proc, unit) io" where
  "trx_ensure_connection ops w =
     ibind (iget (\<lambda>p. clients p w)) (\<lambda>k.
     if driver k \<noteq> None then iret ()
     else case kind k of
       BaseClient \<Rightarrow> iraise PyAttributeError
     | Transaction c \<Rightarrow>
         iseq (create_driver ops c)
           (imodify (\<lambda>p. set_client w (\<lambda>k. k\<lparr>driver := driver (clients p c)\<rparr>) p)))"

definition trx_lock :: "nat \<Rightarrow> 'd proc \<Rightarrow> nat res" where
  "trx_lock w p = (case trxlock (clients p w) of None \<Rightarrow> Inl PyAttributeError | Some l \<Rightarrow> Inr l)"

text \<open>\<^verbatim>\<open>TransactionContext.__aenter__\<close> gives the token it keeps.\<close>

definition trx_aenter :: "'d driver_ops \<Rightarrow> task \<Rightarrow> nat \<Rightarrow> ('d proc, nat) io" where
  "trx_aenter ops t w =
     iseq (trx_ensure_connection ops w)
     (ibind (iget (trx_lock w)) (\<lambda>l.
      ibind (ilift l) (\<lambda>l.
      iseq (lock_acquire l)
      (ibind (iget (\<lambda>p. connection_name (clients p w))) (\<lambda>name.
       ibind (conn_set t name w) (\<lambda>token.
       iseq (trx_start ops w) (iret token)))))))"

definition trx_end :: "'d driver_ops \<Rightarrow> nat \<Rightarrow> exn option \<Rightarrow> ('d proc, unit) io" where
  "trx_end ops w exc =
     ibind (iget (\<lambda>p. finalized (clients p w))) (\<lambda>done_already.
     if done_already then iret ()
     else case exc of
       Some e \<Rightarrow> iwhen (e \<noteq> TransactionManagementError) (trx_rollback ops w)
     | None \<Rightarrow> trx_commit ops w)"

definition trx_aexit :: "'d driver_ops \<Rightarrow> task \<Rightarrow> nat \<Rightarrow> nat \<Rightarrow> exn option \<Rightarrow> ('d proc, unit) io" where
  "trx_aexit ops t w token exc =
     iseq (trx_end ops w exc)
     (iseq (conn_reset t token)
     (ibind (iget (trx_lock w)) (\<lambda>l. ibind (ilift l) lock_release)))"

text \<open>\<^verbatim>\<open>NestedTransactionContext.__aexit__\<close>\<close>

definition nested_aexit :: "'d driver_ops \<Rightarrow> nat \<Rightarrow> exn option \<Rightarrow> ('d proc, unit) io" where
  "nested_aexit ops w exc =
     ibind (iget (\<lambda>p. finalized (clients p w))) (\<lambda>done_already.
     iwhen (\<not> done_already \<and> exc \<noteq> None \<and> exc \<noteq> Some TransactionManagementError) (trx_rollback ops w))"

section \<open>in_transaction\<close>

definition get_connection :: "engines \<Rightarrow> task \<Rightarrow> string option \<Rightarrow> ('d proc, nat) io" where
  "get_connection env t name =
     (case name of
        Some n \<Rightarrow> if n \<noteq> [] then conn_get env t n
                  else ibind (iget db_config) (\<lambda>c. ibind (ilift c) (\<lambda>c.
                       case c of [(a, _)] \<Rightarrow> conn_get env t a | _ \<Rightarrow> iraise ParamsError))
      | None \<Rightarrow> ibind (iget db_config) (\<lambda>c. ibind (ilift c) (\<lambda>c.
                  case c of [(a, _)] \<Rightarrow> conn_get env t a | _ \<Rightarrow> iraise ParamsError)))"

definition run_transaction ::
    "'d driver_ops \<Rightarrow> task \<Rightarrow> nat \<Rightarrow> (nat \<Rightarrow> ('d proc, 'a) io) \<Rightarrow> ('d proc, 'a) io" where
  "run_transaction ops t c body =
     ibind (iget (\<lambda>p. kind (clients p c))) (\<lambda>k.
     case k of
       BaseClient \<Rightarrow>
         ibind (trx_wrapper c) (\<lambda>w.
         with_block (trx_aenter ops t w) (trx_aexit ops t w) (\<lambda>_. body w))
     | Transaction parent \<Rightarrow>
         with_block (iret c) (nested_aexit ops) body)"

definition in_transaction ::
    "engines \<Rightarrow> 'd driver_ops \<Rightarrow> task \<Rightarrow> string option \<Rightarrow> (nat \<Rightarrow> ('d proc, 'a) io) \<Rightarrow> ('d proc, 'a) io" where
  "in_transaction env ops t name body =
     ibind (get_connection env t name) (\<lambda>c. run_transaction ops t c body)"

text \<open>The decorator \<^verbatim>\<open>atomic\<close>: the function ignores the connection.\<close>

definition atomic :: "engines \<Rightarrow> 'd driver_ops \<Rightarrow> task \<Rightarrow> string option \<Rightarrow> ('d proc, 'a) io \<Rightarrow> ('d proc, 'a) io" where
  "atomic env ops t name f = in_transaction env ops t name (\<lambda>_. f)"

section \<open>Laws of the driver\<close>

definition driver_laws ::
    "'d driver_ops \<Rightarrow> ('d \<Rightarrow> 'db) \<Rightarrow> ('d \<Rightarrow> 'db) \<Rightarrow> ('d \<Rightarrow> bool) \<Rightarrow> bool" where
  "driver_laws ops durable visible in_trx \<longleftrightarrow>
     (\<forall>d d'. d_commit ops d = (None, d') \<longrightarrow>
        durable d' = visible d \<and> visible d' = visible d \<and> \<not> in_trx d') \<and>
     (\<forall>d d'. d_begin ops d = (None, d') \<longrightarrow>
        durable d' = durable d \<and> visible d' = visible d \<and> in_trx d') \<and>
     (\<forall>d d'. d_rollback ops d = (None, d') \<longrightarrow>
        durable d' = durable d \<and> (in_trx d \<longrightarrow> visible d' = durable d) \<and> \<not> in_trx d') \<and>
     (\<forall>d. \<not> in_trx d \<longrightarrow> visible d = durable d)"

definition reliable :: "'d driver_ops \<Rightarrow> bool" where
  "reliable ops \<longleftrightarrow> (\<forall>d. fst (d_commit ops d) = None \<and> fst (d_begin ops d) = None \<and> fst (d_rollback ops d) = None)"

lemma driver_lawsD:
  assumes "driver_laws ops durable visible in_trx"
  shows "d_commit ops d = (None, d') \<Longrightarrow> durable d' = visible d \<and> visible d' = visible d \<and> \<not> in_trx d'"
    and "d_begin ops d = (None, d') \<Longrightarrow> durable d' = durable d \<and> visible d' = visible d \<and> in_trx d'"
    and "d_rollback ops d = (None, d') \<Longrightarrow> durable d' = durable d \<and> (in_trx d \<longrightarrow> visible d' = durable d) \<and> \<not> in_trx d'"
    and "\<not> in_trx d \<Longrightarrow> visible d = durable d"
  using assms unfolding driver_laws_def by blast+

section \<open>Entering and leaving\<close>

lemma drv_call_ok:
  "op (drivers p d) = (None, x) \<Longrightarrow> drv_call tr op (Some d) p = (Ret (), p\<lparr>drivers := (drivers p)(d := x)\<rparr>)"
  by (simp add: drv_call_def)

text \<open>The state inside a transaction on a connected base client.\<close>

definition entered :: "'d driver_ops \<Rightarrow> task \<Rightarrow> nat \<Rightarrow> 'd proc \<Rightarrow> 'd proc" where
  "entered ops t c p =
     (let w = next_client p; k = clients p c; p1 = snd (trx_wrapper c p);
          p2 = snd (conn_set t (connection_name k) w (p1\<lparr>locked := (locked p1)(own_lock k := True)\<rparr>));
          d = the (driver k)
      in p2\<lparr>drivers := (drivers p2)(d := snd (d_begin ops (snd (d_commit ops (drivers p d)))))\<rparr>)"

text \<open>Identities are handed out once: what exists is older than what is new.\<close>

definition fresh_ok :: "'d proc \<Rightarrow> nat \<Rightarrow> bool" where
  "fresh_ok p c \<longleftrightarrow> proc_ok p \<and> c < next_client p \<and> own_lock (clients p c) < next_lock p"

lemma trx_wrapper_run:
  "trx_wrapper c p = (Ret (next_client p),
      p\<lparr>clients := (clients p)(next_client p := \<lparr> connection_name = connection_name (clients p c),
           kind = Transaction c, driver = driver (clients p c),
           finalized = False, own_lock = next_lock p, trxlock = Some (own_lock (clients p c)) \<rparr>),
        next_client := Suc (next_client p),
        locked := (locked p)(next_lock p := False), next_lock := Suc (next_lock p)\<rparr>)"
  by (simp add: trx_wrapper_def new_client_run)

lemma aenter_run:
  assumes "reliable ops" and "driver (clients p c) = Some d" and "\<not> locked p (own_lock (clients p c))"
    and "fresh_ok p c"
  shows "trx_aenter ops t (next_client p) (snd (trx_wrapper c p)) = (Ret (current p t), entered ops t c p)"
proof -
  obtain x where x: "d_commit ops (drivers p d) = (None, x)"
    using assms(1) by (metis prod.collapse reliable_def)
  obtain y where y: "d_begin ops x = (None, y)"
    using assms(1) by (metis prod.collapse reliable_def)
  have "own_lock (clients p c) \<noteq> next_lock p" using assms(4) by (simp add: fresh_ok_def)
  then show ?thesis
    using assms(2,3) x y
    by (simp add: trx_aenter_def trx_wrapper_run iseq_def trx_ensure_connection_def trx_lock_def
        lock_acquire_def conn_set_run trx_start_def Let_def drv_call_ok entered_def get_storage_def)
qed

text \<open>What holds inside.\<close>

definition inside :: "task \<Rightarrow> nat \<Rightarrow> nat \<Rightarrow> nat \<Rightarrow> nat \<Rightarrow> 'd proc \<Rightarrow> bool" where
  "inside t w d l token p \<longleftrightarrow>
     driver (clients p w) = Some d \<and> \<not> finalized (clients p w) \<and> trxlock (clients p w) = Some l \<and> locked p l"

lemma entered_inside:
  assumes "reliable ops" and "driver (clients p c) = Some d" and "fresh_ok p c"
  shows "inside t (next_client p) d (own_lock (clients p c)) (current p t) (entered ops t c p)"
    and "alias_of t (connection_name (clients p c)) (entered ops t c p) = Some (next_client p)"
    and "drivers (entered ops t c p) d = snd (d_begin ops (snd (d_commit ops (drivers p d))))"
    and "token_view (current p t) b (entered ops t c p) = alias_of t b p"
  using assms
  by (auto simp: inside_def entered_def trx_wrapper_run conn_set_run Let_def alias_of_def get_storage_def
      map_of_update token_view_def fresh_ok_def proc_ok_def)
    (metis less_irrefl)+

lemma set_client_simps [simp]:
  "locked (set_client c g p) = locked p" "drivers (set_client c g p) = drivers p" "current (set_client c g p) = current p"
  "stores (set_client c g p) = stores p" "clients (set_client c g p) k = (if k = c then g (clients p c) else clients p k)"
  by (simp_all add: set_client_def)

lemma aexit_run:
  assumes "reliable ops" and "inside t w d l token p"
  shows "\<exists>p'. trx_aexit ops t w token exc p = (Ret (), p') \<and> \<not> locked p' l \<and>
     (\<forall>b. alias_of t b p' = (case token_view token b p of Some c \<Rightarrow> Some c | None \<Rightarrow> alias_of t b p)) \<and>
     drivers p' d = (case exc of None \<Rightarrow> snd (d_commit ops (drivers p d))
        | Some e \<Rightarrow> if e = TransactionManagementError then drivers p d else snd (d_rollback ops (drivers p d)))"
proof -
  from assms(2) have i: "driver (clients p w) = Some d" "\<not> finalized (clients p w)" "trxlock (clients p w) = Some l"
    "locked p l" by (simp_all add: inside_def)
  obtain x where x: "d_commit ops (drivers p d) = (None, x)"
    using assms(1) by (metis prod.collapse reliable_def)
  obtain y where y: "d_rollback ops (drivers p d) = (None, y)"
    using assms(1) by (metis prod.collapse reliable_def)
  define q where "q = (case exc of
      None \<Rightarrow> set_client w (\<lambda>k. k\<lparr>finalized := True\<rparr>) (p\<lparr>drivers := (drivers p)(d := x)\<rparr>)
    | Some e \<Rightarrow> if e = TransactionManagementError then p
        else set_client w (\<lambda>k. k\<lparr>finalized := True\<rparr>) (p\<lparr>drivers := (drivers p)(d := y)\<rparr>))"
  have "trx_end ops w exc p = (Ret (), q)"
    using i(1,2) x y
    by (cases exc) (simp_all add: trx_end_def q_def trx_commit_def trx_rollback_def trx_finish_def iseq_def drv_call_ok)
  moreover have "trxlock (clients q w) = Some l" "locked q l" "stores q = stores p" "current q = current p"
    using i(3,4) by (simp_all add: q_def split: option.splits)
  moreover have "drivers q d = (case exc of None \<Rightarrow> x | Some e \<Rightarrow> if e = TransactionManagementError then drivers p d else y)"
    by (simp add: q_def split: option.splits)
  ultimately show ?thesis
    using x y
    by (simp add: trx_aexit_def iseq_def conn_reset_run trx_lock_def lock_release_def
        alias_of_def get_storage_def token_view_def map_of_copy_missing split: option.splits)
qed

section \<open>Atomicity\<close>

text \<open>
  One run of a transaction block on a connected base client whose lock is free: it goes through
  the state \<open>entered\<close>, the body, and the exit.
\<close>

lemma run_transaction_run:
  assumes "reliable ops" and "kind (clients p c) = BaseClient" and "driver (clients p c) = Some d"
    and "\<not> locked p (own_lock (clients p c))" and "fresh_ok p c"
    and "body (next_client p) (entered ops t c p) = (r, pb)" and "r \<noteq> Wait"
    and "inside t (next_client p) d (own_lock (clients p c)) (current p t) pb"
  shows "\<exists>p'. run_transaction ops t c body p = (r, p') \<and> \<not> locked p' (own_lock (clients p c)) \<and>
     (\<forall>b. alias_of t b p' = (case token_view (current p t) b pb of Some x \<Rightarrow> Some x | None \<Rightarrow> alias_of t b pb)) \<and>
     drivers p' d = (case r of Ret a \<Rightarrow> snd (d_commit ops (drivers pb d))
        | Raise e \<Rightarrow> if e = TransactionManagementError then drivers pb d else snd (d_rollback ops (drivers pb d))
        | Wait \<Rightarrow> drivers pb d)"
proof -
  note enter = aenter_run [OF assms(1,3-5), of t]
  have w: "trx_wrapper c p = (Ret (next_client p), snd (trx_wrapper c p))" by (simp add: trx_wrapper_run)
  have run: "run_transaction ops t c body p =
      with_block (trx_aenter ops t (next_client p)) (trx_aexit ops t (next_client p)) (\<lambda>_. body (next_client p)) (snd (trx_wrapper c p))"
    using assms(2) w by (simp add: run_transaction_def)
  let ?exc = "case r of Raise e \<Rightarrow> Some e | _ \<Rightarrow> None"
  from aexit_run [OF assms(1,8), of ?exc] obtain p' where
    p': "trx_aexit ops t (next_client p) (current p t) ?exc pb = (Ret (), p')" "\<not> locked p' (own_lock (clients p c))"
    "\<forall>b. alias_of t b p' = (case token_view (current p t) b pb of Some c \<Rightarrow> Some c | None \<Rightarrow> alias_of t b pb)"
    "drivers p' d = (case ?exc of None \<Rightarrow> snd (d_commit ops (drivers pb d))
        | Some e \<Rightarrow> if e = TransactionManagementError then drivers pb d else snd (d_rollback ops (drivers pb d)))"
    by blast
  have "run_transaction ops t c body p = (r, p')"
    unfolding run using enter assms(6,7) p'(1)
    by (cases r) (simp_all add: with_block_def)
  moreover have "drivers p' d = (case r of Ret a \<Rightarrow> snd (d_commit ops (drivers pb d))
        | Raise e \<Rightarrow> if e = TransactionManagementError then drivers pb d else snd (d_rollback ops (drivers pb d))
        | Wait \<Rightarrow> drivers pb d)"
    using p'(4) assms(7) by (cases r) simp_all
  ultimately show ?thesis using p'(2,3) by blast
qed

text \<open>What the end of a block makes durable, by the laws of the driver.\<close>

lemma block_durable:
  assumes laws: "driver_laws ops durable visible in_trx" and "reliable ops"
    and "driver (clients p c) = Some d" and "fresh_ok p c" and "\<not> in_trx (drivers p d)"
    and "durable x = durable (drivers (entered ops t c p) d)"
  shows "durable (snd (d_commit ops x)) = visible x" and "durable (snd (d_rollback ops x)) = durable (drivers p d)"
proof -
  have op: "\<And>x. d_commit ops x = (None, snd (d_commit ops x))" "\<And>x. d_begin ops x = (None, snd (d_begin ops x))"
    "\<And>x. d_rollback ops x = (None, snd (d_rollback ops x))"
    using assms(2) by (metis prod.collapse reliable_def)+
  note law = driver_lawsD [OF laws]
  have "durable (drivers (entered ops t c p) d) = durable (drivers p d)"
    unfolding entered_inside(3) [OF assms(2,3,4)]
    using law(2) [OF op(2)] law(1) [OF op(1)] law(4) [OF assms(5)] by simp
  then show "durable (snd (d_rollback ops x)) = durable (drivers p d)" using law(3) [OF op(3)] assms(6) by simp
  show "durable (snd (d_commit ops x)) = visible x" using law(1) [OF op(1)] by simp
qed


text \<open>A driver that stores one number: the durable one, and the pending one in a transaction.\<close>

type_synonym toy_db = "int \<times> int option"

definition toy_visible :: "toy_db \<Rightarrow> int" where
  "toy_visible x = (case snd x of None \<Rightarrow> fst x | Some v \<Rightarrow> v)"

definition toy_ops :: "toy_db driver_ops" where
  "toy_ops = \<lparr> d_open = (None, (0, None)), d_commit = (\<lambda>x. (None, (toy_visible x, None))),
     d_begin = (\<lambda>x. (None, (fst x, Some (toy_visible x)))), d_rollback = (\<lambda>x. (None, (fst x, None))) \<rparr>"

lemma toy_laws: "driver_laws toy_ops fst toy_visible (\<lambda>x. snd x \<noteq> None)"
  by (auto simp: driver_laws_def toy_ops_def toy_visible_def split: option.splits)

lemma toy_reliable: "reliable toy_ops"
  by (simp add: reliable_def toy_ops_def)

definition toy_proc :: "toy_db proc" where
  "toy_proc = \<lparr> config = Some [(''default'', InfoDict (Some ''sqlite'') (Some []))], stores = (\<lambda>_. [(''default'', 0)]),
     next_store = 1, current = (\<lambda>_. 0),
     clients = (\<lambda>_. \<lparr> connection_name = ''default'', kind = BaseClient, driver = Some 0, finalized = False,
        own_lock = 0, trxlock = None \<rparr>), next_client = 1, locked = (\<lambda>_. False), next_lock = 1,
     drivers = (\<lambda>_. (3, None)), next_driver = 1 \<rparr>"

definition toy_body :: "nat \<Rightarrow> (toy_db proc, unit) io" where
  "toy_body w = drv_call raw_exn (\<lambda>x. (None, (fst x, Some 5))) (Some 0)"


section \<open>Nested blocks\<close>

text \<open>
  C39. A nested block that fails ends the whole transaction: its rollback takes back everything
  the outer block did too, and the outer block, if it then goes on and ends normally, neither
  commits nor raises. On the way the wrapper is finalised, so that a second rollback or a
  commit by hand raises \<^verbatim>\<open>TransactionManagementError\<close>.
\<close>

theorem nested_failure_ends_transaction:
  assumes "driver_laws ops durable visible in_trx" and "reliable ops" and "inside t w d l token p"
    and "kind (clients p w) = Transaction c" and "in_trx (drivers p d)"
    and "body w p = (Raise e, p)" and "e \<noteq> TransactionManagementError"
  shows "\<exists>p'. run_transaction ops t w body p = (Raise e, p') \<and>
     durable (drivers p' d) = durable (drivers p d) \<and> visible (drivers p' d) = durable (drivers p d) \<and>
     \<not> in_trx (drivers p' d) \<and> finalized (clients p' w) \<and>
     trx_end ops w None p' = (Ret (), p') \<and>
     trx_commit ops w p' = (Raise TransactionManagementError, p') \<and>
     trx_rollback ops w p' = (Raise TransactionManagementError, p')"
proof -
  obtain y where y: "d_rollback ops (drivers p d) = (None, y)"
    using assms(2) by (metis prod.collapse reliable_def)
  let ?p' = "set_client w (\<lambda>k. k\<lparr>finalized := True\<rparr>) (p\<lparr>drivers := (drivers p)(d := y)\<rparr>)"
  have "run_transaction ops t w body p = (Raise e, ?p')"
    using assms(3,4,6,7) y
    by (simp add: run_transaction_def with_block_def nested_aexit_def inside_def trx_rollback_def trx_finish_def
        iseq_def drv_call_ok)
  moreover have "durable y = durable (drivers p d) \<and> visible y = durable (drivers p d) \<and> \<not> in_trx y"
    using driver_lawsD(3) [OF assms(1) y] assms(5) by simp
  moreover have "finalized (clients ?p' w)" by simp
  ultimately show ?thesis
    by (intro exI [of _ ?p']) (simp add: trx_end_def trx_commit_def trx_rollback_def trx_finish_def)
qed

theorem nested_failure_ends_transaction_witness:
  "\<exists>p'. run_transaction toy_ops 0 1 (\<lambda>_. iraise OperationalError) (snd (toy_body 1 (entered toy_ops 0 0 toy_proc)))
     = (Raise OperationalError, p') \<and> fst (drivers p' 0) = 3 \<and> trx_end toy_ops 1 None p' = (Ret (), p')"
proof -
  let ?p = "snd (toy_body 1 (entered toy_ops 0 0 toy_proc))"
  have h: "driver (clients toy_proc 0) = Some 0" "fresh_ok toy_proc 0"
    by (simp_all add: toy_proc_def fresh_ok_def proc_ok_def)
  have i: "inside 0 1 0 0 0 ?p"
    using entered_inside(1) [OF toy_reliable h, of 0]
    by (simp add: toy_body_def drv_call_def inside_def) (simp add: toy_proc_def)
  have k: "kind (clients ?p 1) = Transaction 0" "snd (drivers ?p 0) \<noteq> None" "fst (drivers ?p 0) = 3"
    by code_simp+
  have "(\<lambda>_. iraise OperationalError) 1 ?p = (Raise OperationalError, ?p)" by simp
  from nested_failure_ends_transaction [where body = "\<lambda>_. iraise OperationalError", OF toy_laws toy_reliable i k(1,2) this] k(3)
  show ?thesis by auto
qed

section \<open>A transaction that does not begin\<close>

text \<open>
  When BEGIN fails (\<^verbatim>\<open>start\<close> raises in \<^verbatim>\<open>__aenter__\<close>, so \<^verbatim>\<open>__aexit__\<close> never runs), the block
  raises \<^verbatim>\<open>TransactionManagementError\<close>, but the connection's lock stays taken and the alias
  still stands for the dead wrapper: until somebody else releases the lock, every transaction
  on that client waits, whichever task starts it.
\<close>

theorem failed_begin_leaks:
  fixes p :: "'d proc" and body :: "nat \<Rightarrow> ('d proc, 'a) io"
  assumes "kind (clients p c) = BaseClient" and "driver (clients p c) = Some d"
    and "\<not> locked p (own_lock (clients p c))" and "fresh_ok p c"
    and "fst (d_commit ops (drivers p d)) = None"
    and "fst (d_begin ops (snd (d_commit ops (drivers p d)))) = Some SqliteOperational"
  shows "\<exists>p'. run_transaction ops t c body p = (Raise TransactionManagementError, p') \<and>
     locked p' (own_lock (clients p' c)) \<and> alias_of t (connection_name (clients p c)) p' = Some (next_client p) \<and>
     (\<forall>u (body' :: nat \<Rightarrow> ('d proc, 'a) io). fst (run_transaction ops u c body' p') = Wait)"
proof -
  obtain x y where x: "d_commit ops (drivers p d) = (None, x)" and y: "d_begin ops x = (Some SqliteOperational, y)"
    using assms(5,6) by (cases "d_commit ops (drivers p d)"; cases "d_begin ops (snd (d_commit ops (drivers p d)))") auto
  have l: "own_lock (clients p c) \<noteq> next_lock p" "own_lock (clients p c) < next_lock p" "c \<noteq> next_client p" "c < next_client p"
    using assms(4) by (auto simp: fresh_ok_def)
  define p' where "p' = (entered ops t c p)\<lparr>drivers := (drivers p)(d := y)\<rparr>"
  have "run_transaction ops t c body p = (Raise TransactionManagementError, p')"
    using assms(1-3) x y l(1)
    by (simp add: run_transaction_def with_block_def trx_wrapper_run trx_aenter_def iseq_def trx_ensure_connection_def
        trx_lock_def lock_acquire_def conn_set_run trx_start_def Let_def drv_call_def p'_def entered_def get_storage_def)
  moreover have c': "clients p' c = clients p c" and lk: "locked p' (own_lock (clients p c))"
    and al: "alias_of t (connection_name (clients p c)) p' = Some (next_client p)"
    using l by (simp_all add: p'_def entered_def trx_wrapper_run conn_set_run Let_def alias_of_def get_storage_def map_of_update)
  moreover have "fst (run_transaction ops u c body' p') = Wait" for u and body' :: "nat \<Rightarrow> ('d proc, 'a) io"
  proof -
    have "own_lock (clients p c) \<noteq> next_lock p'" "c \<noteq> next_client p'"
      using l by (simp_all add: p'_def entered_def trx_wrapper_run conn_set_run Let_def)
    with c' lk assms(1,2) show ?thesis
      by (simp add: run_transaction_def with_block_def trx_wrapper_run trx_aenter_def iseq_def trx_ensure_connection_def
        trx_lock_def lock_acquire_def)
  qed
  ultimately show ?thesis by (intro exI [of _ p']) simp
qed

theorem failed_begin_leaks_witness:
  "\<exists>p'. run_transaction (toy_ops\<lparr>d_begin := \<lambda>x. (Some SqliteOperational, x)\<rparr>) 0 0 toy_body toy_proc
     = (Raise TransactionManagementError, p') \<and> locked p' 0"
proof -
  let ?ops = "toy_ops\<lparr>d_begin := \<lambda>x. (Some SqliteOperational, x)\<rparr>"
  have h: "kind (clients toy_proc 0) = BaseClient" "driver (clients toy_proc 0) = Some 0"
    "\<not> locked toy_proc (own_lock (clients toy_proc 0))" "fresh_ok toy_proc 0"
    "fst (d_commit ?ops (drivers toy_proc 0)) = None"
    "fst (d_begin ?ops (snd (d_commit ?ops (drivers toy_proc 0)))) = Some SqliteOperational"
    by (simp_all add: toy_proc_def fresh_ok_def proc_ok_def toy_ops_def)
  have c: "own_lock (clients (snd (run_transaction ?ops 0 0 toy_body toy_proc)) 0) = 0" by code_simp
  from failed_begin_leaks [where body = toy_body and t = 0, OF h] c show ?thesis by auto
qed

section \<open>Interleaving of tasks\<close>

text \<open>
  Tasks switch at every \<^verbatim>\<open>await\<close>; what a transaction shares with other tasks is the lock of
  its client, so it is enough to interleave the entries, the exits and the statements. A task
  that has to wait takes no step.
\<close>

datatype phase = Outside | Inside nat nat  \<comment> \<open>in a block with this wrapper and token\<close>

type_synonym 'd system = "(task \<Rightarrow> phase) \<times> 'd proc"

inductive trx_step :: "'d driver_ops \<Rightarrow> 'd system \<Rightarrow> 'd system \<Rightarrow> bool" for ops where
  enter: "ph t = Outside \<Longrightarrow> c < next_client p \<Longrightarrow> kind (clients p c) = BaseClient \<Longrightarrow>
     trx_aenter ops t (next_client p) (snd (trx_wrapper c p)) = (Ret token, p') \<Longrightarrow>
     trx_step ops (ph, p) (ph(t := Inside (next_client p) token), p')"
| enter_fails: "ph t = Outside \<Longrightarrow> c < next_client p \<Longrightarrow> kind (clients p c) = BaseClient \<Longrightarrow>
     trx_aenter ops t (next_client p) (snd (trx_wrapper c p)) = (Raise e, p') \<Longrightarrow>
     trx_step ops (ph, p) (ph, p')"
| leave: "ph t = Inside w token \<Longrightarrow> trx_aexit ops t w token exc p = (r, p') \<Longrightarrow> r \<noteq> Wait \<Longrightarrow>
     trx_step ops (ph, p) (ph(t := Outside), p')"
| statement: "c < next_client p \<Longrightarrow> execute_query ops c stmt p = (r, p') \<Longrightarrow> r \<noteq> Wait \<Longrightarrow>
     trx_step ops (ph, p) (ph, p')"

inductive_cases trx_stepE: "trx_step ops (ph, p) s"

text \<open>What the parts of an operation that do not touch locks keep.\<close>

definition frame :: "'d proc \<Rightarrow> 'd proc \<Rightarrow> bool" where
  "frame p q \<longleftrightarrow> next_client q = next_client p \<and> next_lock q = next_lock p \<and>
     (\<forall>k. own_lock (clients q k) = own_lock (clients p k) \<and> trxlock (clients q k) = trxlock (clients p k) \<and>
          kind (clients q k) = kind (clients p k))"

definition quiet :: "'d proc \<Rightarrow> 'd proc \<Rightarrow> bool" where
  "quiet p q \<longleftrightarrow> frame p q \<and> locked q = locked p"

lemma frame_refl [simp]: "frame p p" "quiet p p"
  by (simp_all add: frame_def quiet_def)

lemma frame_trans: "frame p q \<Longrightarrow> frame q r \<Longrightarrow> frame p r" "quiet p q \<Longrightarrow> quiet q r \<Longrightarrow> quiet p r"
  by (simp_all add: frame_def quiet_def)

lemma quiet_drv_call: "keeps (quiet p) (drv_call tr op d)"
  by (auto simp: keeps_def drv_call_def quiet_def frame_def split: option.splits prod.splits)

lemma quiet_set_client:
  "(\<And>k. own_lock (g k) = own_lock k \<and> trxlock (g k) = trxlock k \<and> kind (g k) = kind k) \<Longrightarrow>
   quiet p q \<Longrightarrow> quiet p (set_client c g q)"
  by (simp add: quiet_def frame_def set_client_def)

lemma quiet_create_driver: "keeps (quiet p) (create_driver ops c)"
  unfolding keeps_def create_driver_def
  by (auto split: prod.splits option.splits intro!: quiet_set_client) (auto simp: quiet_def frame_def)

lemma quiet_ensure: "keeps (quiet p) (trx_ensure_connection ops w)"
  unfolding trx_ensure_connection_def iseq_def
  by (intro keeps_ibind keeps_simple)
    (auto split: client_kind.splits intro!: keeps_ibind quiet_create_driver keeps_imodify quiet_set_client)

lemma quiet_start: "keeps (quiet p) (trx_start ops w)"
  unfolding trx_start_def iseq_def Let_def by (intro keeps_ibind keeps_simple quiet_drv_call)

lemma quiet_end: "keeps (quiet p) (trx_end ops w exc)"
  unfolding trx_end_def trx_commit_def trx_rollback_def trx_finish_def iseq_def
  by (intro keeps_ibind keeps_simple)
    (auto split: option.splits intro!: keeps_ibind quiet_drv_call keeps_imodify quiet_set_client keeps_iwhen)

lemma quiet_conn: "quiet p q \<Longrightarrow> quiet p (snd (conn_set t a c q))" "quiet p q \<Longrightarrow> quiet p (snd (conn_reset t k q))"
  by (simp_all add: conn_set_run conn_reset_run quiet_def frame_def)

lemma quiet_keepsD: "keeps (quiet p) c \<Longrightarrow> c p = (r, q) \<Longrightarrow> quiet p q"
  unfolding keeps_def by (metis frame_refl(2) snd_conv)

lemma aenter_frame:
  assumes "trx_aenter ops t w p = (r, p')"
  shows "frame p p' \<and> (\<forall>l. locked p l \<longrightarrow> locked p' l) \<and>
     (\<forall>token. r = Ret token \<longrightarrow> (\<exists>l. trxlock (clients p w) = Some l \<and> \<not> locked p l \<and> locked p' l))"
proof -
  obtain r1 p1 where e: "trx_ensure_connection ops w p = (r1, p1)" by (cases "trx_ensure_connection ops w p")
  then have q1: "quiet p p1" by (rule quiet_keepsD [OF quiet_ensure])
  show ?thesis
  proof (cases "r1 = Ret () \<and> (\<exists>l. trxlock (clients p1 w) = Some l \<and> \<not> locked p1 l)")
    case False
    have "trx_aenter ops t w p = (case r1 of Ret _ \<Rightarrow>
        (case trxlock (clients p1 w) of None \<Rightarrow> (Raise PyAttributeError, p1) | Some l \<Rightarrow> (Wait, p1))
      | Raise x \<Rightarrow> (Raise x, p1) | Wait \<Rightarrow> (Wait, p1))"
      using e False
      by (cases r1; cases "trxlock (clients p1 w)") (simp_all add: trx_aenter_def iseq_def trx_lock_def lock_acquire_def)
    then have "p' = p1 \<and> (\<forall>token. r \<noteq> Ret token)"
      using assms by (cases r1; cases "trxlock (clients p1 w)") auto
    with q1 show ?thesis by (simp add: quiet_def)
  next
    case True
    then obtain l where l: "trxlock (clients p1 w) = Some l" "\<not> locked p1 l" and r1: "r1 = Ret ()" by blast
    define p2 where "p2 = p1\<lparr>locked := (locked p1)(l := True)\<rparr>"
    define p3 where "p3 = snd (conn_set t (connection_name (clients p2 w)) w p2)"
    have run: "trx_aenter ops t w p = ibind (trx_start ops w) (\<lambda>_. iret (current p2 t)) p3"
      using e r1 l by (simp add: trx_aenter_def iseq_def trx_lock_def lock_acquire_def conn_set_run p2_def p3_def)
    obtain r4 p4 where s: "trx_start ops w p3 = (r4, p4)" by (cases "trx_start ops w p3")
    then have "p' = p4" using run assms by (cases r4) auto
    moreover have "quiet p2 p3" unfolding p3_def by (rule quiet_conn) simp
    moreover have "quiet p3 p4" by (rule quiet_keepsD [OF quiet_start s])
    ultimately have "quiet p2 p'" using frame_trans(2) by blast
    then have f: "frame p2 p'" "locked p' = locked p2" by (simp_all add: quiet_def)
    have "frame p p1" "locked p1 = locked p" using q1 by (simp_all add: quiet_def)
    moreover have "frame p1 p2" by (simp add: p2_def frame_def)
    ultimately show ?thesis
      using f l frame_trans(1) by (auto simp: p2_def frame_def)
  qed
qed

lemma aexit_frame:
  assumes "trx_aexit ops t w token exc p = (r, p')"
  shows "frame p p' \<and> (\<forall>l. trxlock (clients p w) \<noteq> Some l \<longrightarrow> locked p' l = locked p l)"
proof -
  obtain r1 p1 where e: "trx_end ops w exc p = (r1, p1)" by (cases "trx_end ops w exc p")
  then have q1: "quiet p p1" by (rule quiet_keepsD [OF quiet_end])
  define p2 where "p2 = snd (conn_reset t token p1)"
  have q2: "quiet p p2" unfolding p2_def by (rule quiet_conn) (rule q1)
  have "trx_aexit ops t w token exc p = (case r1 of Ret _ \<Rightarrow> ibind (iget (trx_lock w)) (\<lambda>l. ibind (ilift l) lock_release) p2
      | Raise x \<Rightarrow> (Raise x, p1) | Wait \<Rightarrow> (Wait, p1))"
    using e by (cases r1) (simp_all add: trx_aexit_def iseq_def conn_reset_run p2_def)
  then have "p' = p1 \<or> p' = p2 \<or> (\<exists>l. trxlock (clients p2 w) = Some l \<and> p' = p2\<lparr>locked := (locked p2)(l := False)\<rparr>)"
    using assms by (cases r1) (auto simp: trx_lock_def lock_release_def split: option.splits if_splits)
  with q1 q2 show ?thesis
    by (auto simp: quiet_def frame_def)
qed

lemma execute_query_frame:
  assumes "execute_query ops c stmt p = (r, p')" and "r \<noteq> Wait"
  shows "frame p p' \<and> \<not> locked p (own_lock (clients p c)) \<and>
     (\<forall>l. l \<noteq> own_lock (clients p c) \<longrightarrow> locked p' l = locked p l)"
proof -
  let ?l = "own_lock (clients p c)"
  have free: "\<not> locked p ?l"
    using assms by (auto simp: execute_query_def with_connection_def with_block_def iseq_def lock_acquire_def)
  define p1 where "p1 = p\<lparr>locked := (locked p)(?l := True)\<rparr>"
  obtain r2 p2 where c: "create_driver ops c p1 = (r2, p2)" by (cases "create_driver ops c p1")
  then have q2: "quiet p1 p2" by (rule quiet_keepsD [OF quiet_create_driver])
  obtain r3 p3 where d: "drv_call translate_exceptions stmt (driver (clients p2 c)) p2 = (r3, p3)"
    by (cases "drv_call translate_exceptions stmt (driver (clients p2 c)) p2")
  then have q3: "quiet p2 p3" by (rule quiet_keepsD [OF quiet_drv_call])
  have q13: "quiet p1 p3" by (rule frame_trans(2) [OF q2 q3])
  have lk: "locked p3 ?l" using q13 by (simp add: quiet_def p1_def)
  have en: "iseq (lock_acquire ?l) (create_driver ops c) p = (r2, p2)"
    by (simp add: iseq_def lock_acquire_def free c flip: p1_def)
  have rel: "lock_release ?l p3 = (Ret (), p3\<lparr>locked := (locked p3)(?l := False)\<rparr>)"
    using lk by (simp add: lock_release_def)
  have "snd (execute_query ops c stmt p) = (case r2 of Ret _ \<Rightarrow> (case r3 of Wait \<Rightarrow> p3 | _ \<Rightarrow> p3\<lparr>locked := (locked p3)(?l := False)\<rparr>)
      | _ \<Rightarrow> p2)"
    unfolding execute_query_def with_connection_def with_block_def
    by (cases r2; cases r3) (simp_all add: en d rel)
  then have "p' = p2 \<or> p' = p3 \<or> p' = p3\<lparr>locked := (locked p3)(?l := False)\<rparr>"
    unfolding assms(1) by (cases r2; cases r3) simp_all
  with q2 q13 free show ?thesis
    by (auto simp: quiet_def frame_def p1_def)
qed

text \<open>
  Locks belong to one client each, a wrapper's transaction lock is its base client's own lock,
  every task in a block holds that lock, and no two tasks hold the same one.
\<close>

definition locks_ok :: "'d proc \<Rightarrow> bool" where
  "locks_ok p \<longleftrightarrow>
     (\<forall>k<next_client p. own_lock (clients p k) < next_lock p) \<and>
     (\<forall>j<next_client p. \<forall>k<next_client p. own_lock (clients p j) = own_lock (clients p k) \<longrightarrow> j = k) \<and>
     (\<forall>k<next_client p. \<forall>c. kind (clients p k) = Transaction c \<longrightarrow> c < next_client p \<and>
        kind (clients p c) = BaseClient \<and> trxlock (clients p k) = Some (own_lock (clients p c)))"

text \<open>\<open>holds ph p t c\<close>: task \<open>t\<close> is in a transaction block of the base client \<open>c\<close>.\<close>

definition holds :: "(task \<Rightarrow> phase) \<Rightarrow> 'd proc \<Rightarrow> task \<Rightarrow> nat \<Rightarrow> bool" where
  "holds ph p t c \<longleftrightarrow> (\<exists>w token. ph t = Inside w token \<and> kind (clients p w) = Transaction c)"

definition holders_ok :: "(task \<Rightarrow> phase) \<Rightarrow> 'd proc \<Rightarrow> bool" where
  "holders_ok ph p \<longleftrightarrow>
     (\<forall>t w token. ph t = Inside w token \<longrightarrow> w < next_client p \<and> (\<exists>c. kind (clients p w) = Transaction c)) \<and>
     (\<forall>t c. holds ph p t c \<longrightarrow> locked p (own_lock (clients p c))) \<and>
     (\<forall>t u c. holds ph p t c \<longrightarrow> holds ph p u c \<longrightarrow> t = u)"

definition system_ok :: "(task \<Rightarrow> phase) \<Rightarrow> 'd proc \<Rightarrow> bool" where
  "system_ok ph p \<longleftrightarrow> locks_ok p \<and> holders_ok ph p"

lemma locksD:
  assumes "locks_ok p" "k < next_client p"
  shows "own_lock (clients p k) < next_lock p"
    and "j < next_client p \<Longrightarrow> own_lock (clients p j) = own_lock (clients p k) \<Longrightarrow> j = k"
    and "kind (clients p k) = Transaction c \<Longrightarrow> c < next_client p"
    and "kind (clients p k) = Transaction c \<Longrightarrow> trxlock (clients p k) = Some (own_lock (clients p c))"
  using assms unfolding locks_ok_def by blast+

lemma holdersD:
  assumes "holders_ok ph p"
  shows "ph t = Inside w token \<Longrightarrow> w < next_client p"
    and "ph t = Inside w token \<Longrightarrow> \<exists>c. kind (clients p w) = Transaction c"
    and "holds ph p t c \<Longrightarrow> locked p (own_lock (clients p c))"
    and "holds ph p t c \<Longrightarrow> holds ph p u c \<Longrightarrow> t = u"
  using assms unfolding holders_ok_def by blast+

lemma holds_bound:
  assumes "holders_ok ph p" "locks_ok p" "holds ph p t c"
  shows "c < next_client p"
proof -
  from assms(3) obtain w token where "ph t = Inside w token" "kind (clients p w) = Transaction c"
    unfolding holds_def by blast
  with holdersD(1) [OF assms(1)] locksD(3) [OF assms(2)] show ?thesis by blast
qed

lemma frame_locks_ok:
  assumes "frame p q" "locks_ok p"
  shows "locks_ok q"
proof -
  have eqs: "next_client q = next_client p" "next_lock q = next_lock p"
    "own_lock (clients q k) = own_lock (clients p k)" "trxlock (clients q k) = trxlock (clients p k)"
    "kind (clients q k) = kind (clients p k)" for k
    using assms(1) unfolding frame_def by blast+
  from assms(2) show ?thesis unfolding locks_ok_def eqs .
qed

lemma wrapper_simps:
  "next_client (snd (trx_wrapper c p)) = Suc (next_client p)"
  "next_lock (snd (trx_wrapper c p)) = Suc (next_lock p)"
  "k \<noteq> next_client p \<Longrightarrow> clients (snd (trx_wrapper c p)) k = clients p k"
  "kind (clients (snd (trx_wrapper c p)) (next_client p)) = Transaction c"
  "own_lock (clients (snd (trx_wrapper c p)) (next_client p)) = next_lock p"
  "trxlock (clients (snd (trx_wrapper c p)) (next_client p)) = Some (own_lock (clients p c))"
  "l \<noteq> next_lock p \<Longrightarrow> locked (snd (trx_wrapper c p)) l = locked p l"
  by (simp_all add: trx_wrapper_run)

lemma wrapper_locks_ok:
  assumes ok: "locks_ok p" and c: "c < next_client p" "kind (clients p c) = BaseClient"
  shows "locks_ok (snd (trx_wrapper c p))"
  unfolding locks_ok_def wrapper_simps(1,2)
proof (intro conjI allI impI)
  let ?q = "snd (trx_wrapper c p)"
  have eq: "clients ?q k = clients p k" if "k < next_client p" for k
    using that by (simp add: wrapper_simps)
  fix k assume k: "k < Suc (next_client p)"
  then consider "k = next_client p" | "k < next_client p" by linarith
  note k_cases = this
  show "own_lock (clients ?q k) < Suc (next_lock p)"
    using k_cases by cases (use locksD(1) [OF ok, of k] in \<open>simp_all add: wrapper_simps(5) eq\<close>)
  {
    fix b assume b: "kind (clients ?q k) = Transaction b"
    have "b < Suc (next_client p) \<and> kind (clients ?q b) = BaseClient \<and>
        trxlock (clients ?q k) = Some (own_lock (clients ?q b))"
      using k_cases
    proof cases
      case 1
      with b have "b = c" by (simp add: wrapper_simps(4))
      with 1 c show ?thesis by (simp add: wrapper_simps(6) eq)
    next
      case 2
      with b have b': "kind (clients p k) = Transaction b" by (simp add: eq)
      from ok 2 b' have "b < next_client p" "kind (clients p b) = BaseClient"
        "trxlock (clients p k) = Some (own_lock (clients p b))"
        unfolding locks_ok_def by blast+
      with 2 show ?thesis by (simp add: eq)
    qed
    then show "b < Suc (next_client p)" "kind (clients ?q b) = BaseClient"
      "trxlock (clients ?q k) = Some (own_lock (clients ?q b))" by blast+
  }
next
  let ?q = "snd (trx_wrapper c p)"
  have eq: "clients ?q k = clients p k" if "k < next_client p" for k
    using that by (simp add: wrapper_simps)
  fix j k assume jk: "j < Suc (next_client p)" "k < Suc (next_client p)"
    "own_lock (clients ?q j) = own_lock (clients ?q k)"
  have old: "own_lock (clients ?q i) \<noteq> next_lock p" if "i < next_client p" for i
    using locksD(1) [OF ok that] that by (simp add: eq)
  show "j = k"
  proof (cases "j < next_client p \<and> k < next_client p")
    case True
    with jk(3) locksD(2) [OF ok, of k j] show ?thesis by (simp add: eq)
  next
    case False
    with jk(1,2) have "j = next_client p \<or> k = next_client p" by linarith
    with jk old [of j] old [of k] show ?thesis by (auto simp: wrapper_simps(5) less_Suc_eq)
  qed
qed

text \<open>Entering, with or without success.\<close>

lemma system_ok_enter:
  assumes ok: "system_ok ph p" and c: "c < next_client p" "kind (clients p c) = BaseClient"
    and e: "trx_aenter ops t (next_client p) (snd (trx_wrapper c p)) = (r, p')"
  shows "system_ok ph p'" and "r = Ret token \<Longrightarrow> system_ok (ph(t := Inside (next_client p) token)) p'"
proof -
  let ?p1 = "snd (trx_wrapper c p)" and ?w = "next_client p"
  have lok: "locks_ok p" and hok: "holders_ok ph p" using ok by (simp_all add: system_ok_def)
  note f = aenter_frame [OF e]
  have fr: "frame ?p1 p'" using f by simp
  have lok': "locks_ok p'" by (rule frame_locks_ok [OF fr wrapper_locks_ok [OF lok c]])
  have kindw: "kind (clients p' ?w) = Transaction c" and nc: "next_client p' = Suc ?w"
    using fr by (simp_all add: frame_def wrapper_simps)
  have kindo: "kind (clients p' k) = kind (clients p k)" and owno: "own_lock (clients p' k) = own_lock (clients p k)"
    if "k < ?w" for k
    using fr that by (simp_all add: frame_def wrapper_simps)
  have hiff: "holds ph p' u b \<longleftrightarrow> holds ph p u b" for u b
    unfolding holds_def using holdersD(1) [OF hok] kindo by metis
  have inside: "w < next_client p' \<and> (\<exists>b. kind (clients p' w) = Transaction b)" if "ph u = Inside w tk" for u w tk
    using holdersD(1,2) [OF hok that] kindo nc by (metis less_SucI)
  have still: "locked p' (own_lock (clients p' b))" if "holds ph p u b" for u b
  proof -
    have b: "b < ?w" by (rule holds_bound [OF hok lok that])
    then have "own_lock (clients p b) \<noteq> next_lock p" using locksD(1) [OF lok b] by simp
    moreover have "locked p (own_lock (clients p b))" by (rule holdersD(3) [OF hok that])
    ultimately have "locked ?p1 (own_lock (clients p b))" by (simp add: wrapper_simps)
    with f owno [OF b] show ?thesis by metis
  qed
  show "system_ok ph p'"
    unfolding system_ok_def holders_ok_def hiff
    using lok' inside still holdersD(4) [OF hok] by blast
  show "system_ok (ph(t := Inside ?w token)) p'" if r: "r = Ret token"
  proof -
    let ?ph = "ph(t := Inside ?w token)"
    obtain l where "trxlock (clients ?p1 ?w) = Some l" and l: "\<not> locked ?p1 l" "locked p' l"
      using f r by blast
    then have lc: "l = own_lock (clients p c)" by (simp add: wrapper_simps)
    have "own_lock (clients p c) \<noteq> next_lock p" using locksD(1) [OF lok c(1)] by simp
    then have "\<not> locked p (own_lock (clients p c))" using l(1) lc by (simp add: wrapper_simps)
    then have nobody: "\<not> holds ph p u c" for u using holdersD(3) [OF hok] by blast
    have h: "holds ?ph p' u b \<longleftrightarrow> (if u = t then b = c else holds ph p u b)" for u b
    proof (cases "u = t")
      case True
      then show ?thesis by (simp add: holds_def kindw) blast
    next
      case False
      then have "holds ?ph p' u b \<longleftrightarrow> holds ph p' u b" by (simp add: holds_def)
      with False hiff show ?thesis by simp
    qed
    have "w < next_client p' \<and> (\<exists>b. kind (clients p' w) = Transaction b)" if "?ph u = Inside w tk" for u w tk
      using that inside [of u w tk] kindw nc by (cases "u = t") auto
    moreover have "locked p' (own_lock (clients p' b))" if "holds ?ph p' u b" for u b
      using that l(2) lc owno [OF c(1)] still unfolding h by (cases "u = t") auto
    moreover have "u = v" if "holds ?ph p' u b" "holds ?ph p' v b" for u v b
      using that nobody holdersD(4) [OF hok] unfolding h by (auto split: if_splits)
    ultimately show ?thesis
      unfolding system_ok_def holders_ok_def using lok' by blast
  qed
qed

lemma system_ok_leave:
  assumes ok: "system_ok ph p" and t: "ph t = Inside w token" and e: "trx_aexit ops t w token exc p = (r, p')"
  shows "system_ok (ph(t := Outside)) p'"
proof -
  have lok: "locks_ok p" and hok: "holders_ok ph p" using ok by (simp_all add: system_ok_def)
  note f = aexit_frame [OF e]
  then have lok': "locks_ok p'" using frame_locks_ok lok by blast
  have same: "next_client p' = next_client p" "kind (clients p' k) = kind (clients p k)"
    "own_lock (clients p' k) = own_lock (clients p k)" for k
    using f by (simp_all add: frame_def)
  from holdersD(2) [OF hok t] obtain c where c: "kind (clients p w) = Transaction c" by blast
  note w = holdersD(1) [OF hok t]
  note tl = locksD(4) [OF lok w c] locksD(3) [OF lok w c]
  have tc: "holds ph p t c" using t c unfolding holds_def by blast
  have h: "holds (ph(t := Outside)) p' u b \<longleftrightarrow> u \<noteq> t \<and> holds ph p u b" for u b
    by (auto simp: holds_def same)
  have "locked p' (own_lock (clients p b))" if u: "u \<noteq> t" "holds ph p u b" for u b
  proof -
    have "b \<noteq> c" using holdersD(4) [OF hok tc] u by blast
    then have "own_lock (clients p b) \<noteq> own_lock (clients p c)"
      using locksD(2) [OF lok tl(2) holds_bound [OF hok lok u(2)]] by blast
    with f tl(1) holdersD(3) [OF hok u(2)] show ?thesis by simp
  qed
  moreover have "x < next_client p \<and> (\<exists>b. kind (clients p x) = Transaction b)"
    if "(ph(t := Outside)) u = Inside x tk" for u x tk
    using that holdersD(1,2) [OF hok, of u x tk] by (auto split: if_splits)
  ultimately show ?thesis
    unfolding system_ok_def holders_ok_def h same
    using lok' holdersD(4) [OF hok] by blast
qed

lemma system_ok_statement:
  assumes ok: "system_ok ph p"
    and e: "execute_query ops c stmt p = (r, p')" "r \<noteq> Wait"
  shows "system_ok ph p'"
proof -
  have lok: "locks_ok p" and hok: "holders_ok ph p" using ok by (simp_all add: system_ok_def)
  note f = execute_query_frame [OF e]
  then have lok': "locks_ok p'" using frame_locks_ok lok by blast
  have same: "next_client p' = next_client p" "kind (clients p' k) = kind (clients p k)"
    "own_lock (clients p' k) = own_lock (clients p k)" for k
    using f by (simp_all add: frame_def)
  have more: "locked p l \<Longrightarrow> locked p' l" for l
    using f by metis
  have h: "holds ph p' u b \<longleftrightarrow> holds ph p u b" for u b
    by (simp add: holds_def same)
  show ?thesis
    unfolding system_ok_def holders_ok_def h same
    using lok' more holdersD [OF hok] by blast
qed

lemma system_ok_step: "trx_step ops s s' \<Longrightarrow> system_ok (fst s) (snd s) \<Longrightarrow> system_ok (fst s') (snd s')"
proof (induction rule: trx_step.induct)
  case (enter ph t c p token p')
  then show ?case using system_ok_enter(2) [of ph p c ops t "Ret token" p' token] by (simp add: fun_upd_def)
next
  case (enter_fails ph t c p e p')
  then show ?case using system_ok_enter(1) [of ph p c ops t "Raise e" p'] by simp
next
  case (leave ph t w token exc p r p')
  then show ?case using system_ok_leave [of ph p t w token ops exc r p'] by (simp add: fun_upd_def)
next
  case (statement c p stmt r p' ph)
  then show ?case using system_ok_statement [of ph p ops c stmt r p'] by simp
qed

lemma system_ok_reachable:
  "(trx_step ops)\<^sup>*\<^sup>* s s' \<Longrightarrow> system_ok (fst s) (snd s) \<Longrightarrow> system_ok (fst s') (snd s')"
  by (induction rule: rtranclp_induct) (blast intro: system_ok_step)+

text \<open>
  C4. Tasks exclude each other: however the entries, exits and statements of all tasks
  interleave, including transactions that fail to begin, commit or roll back, two tasks are
  never inside transaction blocks of the same client at once; and while a task is inside, a
  statement on the base client itself waits.
\<close>

theorem transactions_exclusive:
  assumes "(trx_step ops)\<^sup>*\<^sup>* (\<lambda>_. Outside, p) (ph, q)" and "locks_ok p"
    and "ph t = Inside w token" and "kind (clients q w) = Transaction c"
  shows "(\<forall>u v token'. u \<noteq> t \<longrightarrow> ph u = Inside v token' \<longrightarrow> kind (clients q v) \<noteq> Transaction c) \<and>
     fst (execute_query ops c stmt q) = Wait"
proof -
  have "system_ok (\<lambda>_. Outside) p" using assms(2) by (simp add: system_ok_def holders_ok_def holds_def)
  with system_ok_reachable [OF assms(1)] have "system_ok ph q" by simp
  then have hok: "holders_ok ph q" by (simp add: system_ok_def)
  have t: "holds ph q t c" using assms(3,4) unfolding holds_def by blast
  have "fst (execute_query ops c stmt q) = Wait"
    using holdersD(3) [OF hok t]
    by (simp add: execute_query_def with_connection_def with_block_def iseq_def lock_acquire_def)
  moreover have "kind (clients q v) \<noteq> Transaction c" if "u \<noteq> t" "ph u = Inside v token'" for u v token'
    using holdersD(4) [OF hok t, of u] that unfolding holds_def by blast
  ultimately show ?thesis by blast
qed

theorem transactions_exclusive_witness:
  "fst (execute_query toy_ops 0 (\<lambda>x. (None, x)) (entered toy_ops 0 0 toy_proc)) = Wait"
proof -
  let ?q = "entered toy_ops 0 0 toy_proc"
  have h: "kind (clients toy_proc 0) = BaseClient" "driver (clients toy_proc 0) = Some 0"
    "\<not> locked toy_proc (own_lock (clients toy_proc 0))" "fresh_ok toy_proc 0" "0 < next_client toy_proc"
    by (simp_all add: toy_proc_def fresh_ok_def proc_ok_def)
  let ?ph = "(\<lambda>_. Outside)(0 := Inside (next_client toy_proc) (current toy_proc 0))"
  have "trx_step toy_ops (\<lambda>_. Outside, toy_proc) (?ph, ?q)"
    by (rule trx_step.enter [OF _ h(5,1) aenter_run [OF toy_reliable h(2-4)]]) simp
  then have r: "(trx_step toy_ops)\<^sup>*\<^sup>* (\<lambda>_. Outside, toy_proc) (?ph, ?q)" by simp
  have l: "locks_ok toy_proc" by (simp add: locks_ok_def toy_proc_def)
  have k: "kind (clients ?q 1) = Transaction 0" by code_simp
  have w: "?ph 0 = Inside 1 0" by (simp add: toy_proc_def)
  show ?thesis using transactions_exclusive [OF r l w k] by blast
qed

end
