(* ===== verification/Converters.thy ===== *)
theory Converters
  imports Terms
begin

text \<open>
  \<^verbatim>\<open>converters.py\<close>: SQL literals of Python values, which the schema generators write as column
  defaults, and the escape table of comments. Strings are sequences of 8-bit characters; the
  table covers the first 128, others are left alone.
\<close>

section \<open>Escape tables\<close>

definition code :: "char \<Rightarrow> nat" where
  "code c = of_char c"

definition backslash :: char where "backslash = char_of (92::nat)"
definition quote1 :: char where "quote1 = char_of (39::nat)"
definition quote2 :: char where "quote2 = char_of (34::nat)"

text \<open>\<^verbatim>\<open>_escape_table\<close> of \<^verbatim>\<open>converters.py\<close>, the same as the base schema generator's.\<close>

definition escape_table :: "char \<Rightarrow> string" where
  "escape_table c =
     (if code c = 0 then [backslash, CHR ''0'']
      else if c = backslash then [backslash, backslash]
      else if code c = 10 then [backslash, CHR ''n'']
      else if code c = 13 then [backslash, CHR ''r'']
      else if code c = 26 then [backslash, CHR ''Z'']
      else if c = quote2 then [backslash, quote2]
      else if c = quote1 then [backslash, quote1]
      else [c])"

definition translate :: "(char \<Rightarrow> string) \<Rightarrow> string \<Rightarrow> string" where
  "translate table s = concat (map table s)"

definition escape_string :: "string \<Rightarrow> string" where
  "escape_string = translate escape_table"

lemma translate_simps [simp]:
  "translate tb [] = []" "translate tb (c # s) = tb c @ translate tb s"
  "translate tb (s @ t) = translate tb s @ translate tb t"
  by (simp_all add: translate_def)

section \<open>Literals\<close>

definition in_quotes :: "string \<Rightarrow> string" where
  "in_quotes s = quote1 # s @ [quote1]"

definition escape_str :: "string \<Rightarrow> string" where
  "escape_str s = in_quotes (escape_string s)"

text \<open>\<^verbatim>\<open>{:0nd}\<close> of an integer: zeros between the sign and the digits.\<close>

definition pad_int :: "nat \<Rightarrow> int \<Rightarrow> string" where
  "pad_int n i =
     (let ds = str_int \<bar>i\<bar>; sign = (if i < 0 then ''-'' else [])
      in sign @ replicate (n - length sign - length ds) (CHR ''0'') @ ds)"

definition timedelta_parts :: "int \<Rightarrow> int \<Rightarrow> int \<times> int \<times> int" where
  "timedelta_parts days secs = ((secs div 3600) mod 24 + days * 24, (secs div 60) mod 60, secs mod 60)"

definition escape_timedelta :: "int \<Rightarrow> int \<Rightarrow> int \<Rightarrow> string" where
  "escape_timedelta days secs micros =
     (case timedelta_parts days secs of (h, m, s) \<Rightarrow>
        in_quotes (pad_int 2 h @ '':'' @ pad_int 2 m @ '':'' @ pad_int 2 s @
          (if micros \<noteq> 0 then ''.'' @ pad_int 6 micros else [])))"

text \<open>
  \<^verbatim>\<open>encoders.get(type(v))(v)\<close>: a list is encoded by a function that wants more arguments, an
  enum member's class has no encoder; \<open>enc_obj\<close> is what happens for objects of other classes.
\<close>

fun encode_literal :: "(pyval \<Rightarrow> string res) \<Rightarrow> pyval \<Rightarrow> string res" where
  "encode_literal enc_obj VNone = Inr ''NULL''"
| "encode_literal enc_obj (VBool b) = Inr (if b then ''1'' else ''0'')"
| "encode_literal enc_obj (VInt i) = Inr (str_int i)"
| "encode_literal enc_obj (VStr s) = Inr (escape_str s)"
| "encode_literal enc_obj (VDelta d s m) = Inr (escape_timedelta d s m)"
| "encode_literal enc_obj (VObj t n b) = enc_obj (VObj t n b)"
| "encode_literal enc_obj v = Inl PyTypeError"

section \<open>Properties\<close>

text \<open>Reading an escaped string back.\<close>

fun unescape :: "string \<Rightarrow> string" where
  "unescape [] = []"
| "unescape [c] = [c]"
| "unescape (c # d # s) =
     (if c = backslash then
        (if d = CHR ''0'' then char_of (0::nat) else if d = CHR ''n'' then char_of (10::nat)
         else if d = CHR ''r'' then char_of (13::nat) else if d = CHR ''Z'' then char_of (26::nat) else d) # unescape s
      else c # unescape (d # s))"

lemma code_eq: "code c = n \<longleftrightarrow> n < 256 \<and> c = char_of n"
  by (auto simp: code_def char_of_eq_iff)

lemma unescape_other: "c \<noteq> backslash \<Longrightarrow> unescape (c # s) = c # unescape s"
  by (cases s) auto

lemma specials:
  "backslash = CHR 0x5C" "quote1 = CHR 0x27" "quote2 = CHR 0x22"
  "(char_of (0::nat) :: char) = CHR 0x00" "(char_of (10::nat) :: char) = CHR 0x0A"
  "(char_of (13::nat) :: char) = CHR 0x0D" "(char_of (26::nat) :: char) = CHR 0x1A"
  by code_simp+

lemma unescape_escape_table: "unescape (escape_table c @ s) = c # unescape s"
  by (auto simp: escape_table_def unescape_other code_eq specials)

lemma unescape_escape: "unescape (escape_string s) = s"
  by (induction s) (simp_all add: escape_string_def unescape_escape_table)

text \<open>
  How a database that understands backslash escapes reads a literal after its opening quote: the
  decoded text and what is left of the statement behind the first quote that is not escaped.
\<close>

fun read_literal :: "string \<Rightarrow> (string \<times> string) option" where
  "read_literal [] = None"
| "read_literal [c] = (if c = quote1 then Some ([], []) else None)"
| "read_literal (c # d # s) =
     (if c = quote1 then Some ([], d # s)
      else if c = backslash then map_option (apfst ((@) (unescape [c, d]))) (read_literal s)
      else map_option (apfst ((#) c)) (read_literal (d # s)))"

lemma read_literal_other:
  "c \<noteq> quote1 \<Longrightarrow> c \<noteq> backslash \<Longrightarrow> s \<noteq> [] \<Longrightarrow> read_literal (c # s) = map_option (apfst ((#) c)) (read_literal s)"
  by (cases s) auto

lemma read_literal_escape_table:
  "s \<noteq> [] \<Longrightarrow> read_literal (escape_table c @ s) = map_option (apfst ((#) c)) (read_literal s)"
proof -
  assume "s \<noteq> []"
  then have other: "c \<noteq> quote1 \<Longrightarrow> c \<noteq> backslash \<Longrightarrow> read_literal (c # s) = map_option (apfst ((#) c)) (read_literal s)"
    by (rule read_literal_other [rotated 2])
  have esc: "read_literal (backslash # d # s) = map_option (apfst ((@) (unescape [backslash, d]))) (read_literal s)" for d
    by (simp add: specials)
  have one: "unescape (escape_table c) = [c]"
    using unescape_escape_table [of c "[]"] by simp
  show ?thesis
  proof (cases "escape_table c = [c]")
    case True
    then have "c \<noteq> quote1" "c \<noteq> backslash"
      by (auto simp: escape_table_def code_eq specials)
    with True other show ?thesis by simp
  next
    case False
    then obtain d where "escape_table c = [backslash, d]"
      by (auto simp: escape_table_def split: if_splits)
    with one esc [of d] show ?thesis by (auto simp: apfst_def map_prod_def)
  qed
qed

lemma read_literal_quote: "read_literal (quote1 # s) = Some ([], s)"
  by (cases s) auto

lemma read_literal_escape: "read_literal (escape_string s @ quote1 # rest) = Some (s, rest)"
proof (induction s)
  case Nil
  then show ?case by (simp add: escape_string_def read_literal_quote)
next
  case (Cons c s)
  have "escape_string (c # s) = escape_table c @ escape_string s" by (simp add: escape_string_def)
  with Cons show ?case by (simp add: read_literal_escape_table)
qed


text \<open>
  A duration's literal is the duration: hours, minutes and seconds add up to its days and
  seconds (negative durations included), with minutes and seconds below sixty.
\<close>

theorem timedelta_parts_sum:
  assumes "0 \<le> secs" "secs < 86400" and "timedelta_parts days secs = (h, m, s)"
  shows "h * 3600 + m * 60 + s = days * 86400 + secs \<and> 0 \<le> m \<and> m < 60 \<and> 0 \<le> s \<and> s < 60"
proof -
  from assms(3) have e: "h = (secs div 3600) mod 24 + days * 24" "m = (secs div 60) mod 60" "s = secs mod 60"
    by (simp_all add: timedelta_parts_def)
  from assms(1,2) have h: "(secs div 3600) mod 24 = secs div 3600" by auto
  have q: "secs div 3600 = secs div 60 div 60"
    using zdiv_zmult2_eq [of 60 secs 60] by simp
  have sum: "h * 3600 + m * 60 + r = days * 86400 + secs"
    if "60 * q60 + r = secs" "60 * q3600 + m = q60" "h = q3600 + days * 24" for h m r q60 q3600 :: int
    using that by simp
  show ?thesis
    unfolding e h by (intro conjI sum [of "secs div 60" _ "secs div 3600"]) (simp_all add: q)
qed

theorem timedelta_parts_sum_witness:
  "timedelta_parts (- 1) 86399 = (- 1, 59, 59) \<and> - 1 * 3600 + 59 * 60 + 59 = - 1 * 86400 + (86399 :: int)"
proof -
  have "timedelta_parts (- 1) 86399 = (- 1, 59, 59)" by (simp add: timedelta_parts_def)
  from timedelta_parts_sum [OF _ _ this] this show ?thesis by simp
qed

end
