(* ===== verification/Pooled.thy ===== *)
theory Pooled
  imports Transactions Converters
begin

text \<open>
  Clients with a pool of connections: PostgreSQL by asyncpg and by psycopg, MySQL, and MSSQL and
  Oracle by ODBC. The pool contexts of \<^verbatim>\<open>backends/base/client.py\<close> and the clients and
  transaction wrappers of \<^verbatim>\<open>backends/asyncpg\<close>, \<^verbatim>\<open>psycopg\<close>, \<^verbatim>\<open>mysql\<close>, \<^verbatim>\<open>odbc\<close>, \<^verbatim>\<open>mssql\<close> and
  \<^verbatim>\<open>oracle\<close>. A pool is a value of a type of its own behind an identity; what the driver
  packages do to pools and connections is the record \<open>pool_env\<close>.
\<close>

section \<open>Drivers and their errors\<close>

datatype backend = Asyncpg | Psycopg | Mysql | Mssql | Oracle

text \<open>The error classes of the driver packages that the clients name.\<close>

datatype driver_err =
    ESyntax | EData | EIntegrity | EUndefinedTable | EInvalidTransaction | EFailedTransaction
  | EOperational | EProgramming | EInternal | ENotSupported | EInterface | EDatabase
  | ENoDatabase | EPoolTimeout | EOther exn

fun raw_driver_exn :: "driver_err \<Rightarrow> exn" where
  "raw_driver_exn (EOther e) = e"
| "raw_driver_exn _ = PyException"

fun asyncpg_translate :: "driver_err \<Rightarrow> exn" where
  "asyncpg_translate ESyntax = OperationalError"
| "asyncpg_translate EData = OperationalError"
| "asyncpg_translate EIntegrity = IntegrityError"
| "asyncpg_translate EInvalidTransaction = TransactionManagementError"
| "asyncpg_translate e = raw_driver_exn e"

fun psycopg_translate :: "driver_err \<Rightarrow> exn" where
  "psycopg_translate ESyntax = OperationalError"
| "psycopg_translate EData = OperationalError"
| "psycopg_translate EUndefinedTable = OperationalError"
| "psycopg_translate EIntegrity = IntegrityError"
| "psycopg_translate EInvalidTransaction = TransactionManagementError"
| "psycopg_translate EFailedTransaction = TransactionManagementError"
| "psycopg_translate e = raw_driver_exn e"

fun mysql_translate :: "driver_err \<Rightarrow> exn" where
  "mysql_translate EOperational = OperationalError"
| "mysql_translate EProgramming = OperationalError"
| "mysql_translate EData = OperationalError"
| "mysql_translate EInternal = OperationalError"
| "mysql_translate ENotSupported = OperationalError"
| "mysql_translate EIntegrity = IntegrityError"
| "mysql_translate e = raw_driver_exn e"

text \<open>\<^verbatim>\<open>pyodbc.Error\<close> is the base class of all its errors: what is left is an \<^verbatim>\<open>IntegrityError\<close>.\<close>

fun odbc_translate :: "driver_err \<Rightarrow> exn" where
  "odbc_translate EOperational = OperationalError"
| "odbc_translate EProgramming = OperationalError"
| "odbc_translate EData = OperationalError"
| "odbc_translate EInternal = OperationalError"
| "odbc_translate ENotSupported = OperationalError"
| "odbc_translate EInterface = OperationalError"
| "odbc_translate EIntegrity = IntegrityError"
| "odbc_translate EDatabase = IntegrityError"
| "odbc_translate e = raw_driver_exn e"

fun pool_translate :: "backend \<Rightarrow> driver_err \<Rightarrow> exn" where
  "pool_translate Asyncpg = asyncpg_translate"
| "pool_translate Psycopg = psycopg_translate"
| "pool_translate Mysql = mysql_translate"
| "pool_translate Mssql = odbc_translate"
| "pool_translate Oracle = odbc_translate"

section \<open>Pools\<close>

type_synonym 'd stmt = "'d \<Rightarrow> driver_err option \<times> 'd"

record ('d, 'p) pool_env =
  pe_backend :: backend
  pe_create :: "bool \<Rightarrow> driver_err + 'p"        \<comment> \<open>\<^verbatim>\<open>create_pool\<close>, with or without a database\<close>
  pe_prepare :: "'p \<Rightarrow> driver_err option \<times> 'p" \<comment> \<open>the first use of the new pool\<close>
  pe_acquire :: "'p \<Rightarrow> nat outcome \<times> 'p"       \<comment> \<open>waits when every connection is out\<close>
  pe_release :: "nat \<Rightarrow> 'p \<Rightarrow> 'p"
  pe_close :: "'p \<Rightarrow> 'p"
  pe_begin :: "'d stmt"
  pe_commit :: "'d stmt"
  pe_rollback :: "'d stmt"
  pe_autocommit :: "bool \<Rightarrow> 'd stmt"
  pe_supports_transactions :: bool

record ('d, 'p) pooled =
  base :: "'d proc"
  pools :: "nat \<Rightarrow> 'p"
  next_pool :: nat
  pool_of :: "nat \<Rightarrow> nat option"                \<comment> \<open>\<^verbatim>\<open>_pool\<close> of a client\<close>

type_synonym ('d, 'p, 'a) pio = "(('d, 'p) pooled, 'a) io"

definition on_base :: "('d proc, 'a) io \<Rightarrow> ('d, 'p, 'a) pio" where
  "on_base c s = (case c (base s) of (r, p) \<Rightarrow> (r, s\<lparr>base := p\<rparr>))"

definition client_at :: "nat \<Rightarrow> ('d, 'p, client) pio" where
  "client_at c = iget (\<lambda>s. clients (base s) c)"

text \<open>A new pool, which the client has from then on.\<close>

definition install_pool :: "nat \<Rightarrow> 'p \<Rightarrow> ('d, 'p, unit) pio" where
  "install_pool c q =
     imodify (\<lambda>s. s\<lparr>pools := (pools s)(next_pool s := q), next_pool := Suc (next_pool s),
       pool_of := (pool_of s)(c := Some (next_pool s))\<rparr>)"

definition prepare_pool :: "('d, 'p) pool_env \<Rightarrow> (driver_err \<Rightarrow> exn) \<Rightarrow> 'p \<Rightarrow> nat \<Rightarrow> ('d, 'p, unit) pio" where
  "prepare_pool env tr q c =
     (case pe_prepare env q of (err, q') \<Rightarrow>
        iseq (install_pool c q') (case err of None \<Rightarrow> iret () | Some e \<Rightarrow> iraise (tr e)))"

text \<open>
  \<^verbatim>\<open>create_connection\<close> of each client: the errors that mean that the database cannot be reached
  become \<^verbatim>\<open>DBConnectionError\<close>. psycopg waits for the new pool to open and MySQL sets its session
  up, which may still fail when the client has the pool already.
\<close>

definition asyncpg_create_connection :: "('d, 'p) pool_env \<Rightarrow> nat \<Rightarrow> bool \<Rightarrow> ('d, 'p, unit) pio" where
  "asyncpg_create_connection env c with_db =
     (case pe_create env with_db of
        Inl e \<Rightarrow> iraise (if e = ENoDatabase then DBConnectionError else raw_driver_exn e)
      | Inr q \<Rightarrow> install_pool c q)"

definition psycopg_create_connection :: "('d, 'p) pool_env \<Rightarrow> nat \<Rightarrow> bool \<Rightarrow> ('d, 'p, unit) pio" where
  "psycopg_create_connection env c with_db =
     (let tr = (\<lambda>e. if e = ENoDatabase \<or> e = EPoolTimeout then DBConnectionError else raw_driver_exn e)
      in case pe_create env with_db of Inl e \<Rightarrow> iraise (tr e) | Inr q \<Rightarrow> prepare_pool env tr q c)"

definition mysql_create_connection :: "('d, 'p) pool_env \<Rightarrow> nat \<Rightarrow> bool \<Rightarrow> ('d, 'p, unit) pio" where
  "mysql_create_connection env c with_db =
     (let tr = (\<lambda>e. if e = EOperational then DBConnectionError else raw_driver_exn e)
      in case pe_create env with_db of Inl e \<Rightarrow> iraise (tr e) | Inr q \<Rightarrow> prepare_pool env tr q c)"

definition odbc_create_connection :: "('d, 'p) pool_env \<Rightarrow> nat \<Rightarrow> bool \<Rightarrow> ('d, 'p, unit) pio" where
  "odbc_create_connection env c with_db =
     (case pe_create env with_db of
        Inl e \<Rightarrow> iraise (if e = EInterface then DBConnectionError else raw_driver_exn e)
      | Inr q \<Rightarrow> install_pool c q)"

definition create_pool :: "('d, 'p) pool_env \<Rightarrow> nat \<Rightarrow> bool \<Rightarrow> ('d, 'p, unit) pio" where
  "create_pool env =
     (case pe_backend env of
        Asyncpg \<Rightarrow> asyncpg_create_connection env
      | Psycopg \<Rightarrow> psycopg_create_connection env
      | Mysql \<Rightarrow> mysql_create_connection env
      | Mssql \<Rightarrow> odbc_create_connection env
      | Oracle \<Rightarrow> odbc_create_connection env)"

definition pool_acquire :: "('d, 'p) pool_env \<Rightarrow> nat \<Rightarrow> ('d, 'p, nat) pio" where
  "pool_acquire env k s = (case pe_acquire env (pools s k) of (r, q) \<Rightarrow> (r, s\<lparr>pools := (pools s)(k := q)\<rparr>))"

definition pool_release :: "('d, 'p) pool_env \<Rightarrow> nat \<Rightarrow> nat \<Rightarrow> ('d, 'p, unit) pio" where
  "pool_release env k d = imodify (\<lambda>s. s\<lparr>pools := (pools s)(k := pe_release env d (pools s k))\<rparr>)"

text \<open>\<^verbatim>\<open>_close\<close>\<close>

definition pool_close :: "('d, 'p) pool_env \<Rightarrow> nat \<Rightarrow> ('d, 'p, unit) pio" where
  "pool_close env c =
     imodify (\<lambda>s. case pool_of s c of None \<Rightarrow> s
        | Some k \<Rightarrow> s\<lparr>pools := (pools s)(k := pe_close env (pools s k)), pool_of := (pool_of s)(c := None)\<rparr>)"

text \<open>The pool of a client, made when there is none.\<close>

definition ensure_pool :: "('d, 'p) pool_env \<Rightarrow> nat \<Rightarrow> ('d, 'p, nat) pio" where
  "ensure_pool env c =
     iseq (ibind (iget (\<lambda>s. pool_of s c)) (\<lambda>k. iwhen (k = None) (create_pool env c True)))
       (ibind (iget (\<lambda>s. pool_of s c)) (\<lambda>k. case k of None \<Rightarrow> iraise PyAttributeError | Some k \<Rightarrow> iret k))"

section \<open>Statements\<close>

text \<open>\<^verbatim>\<open>PoolConnectionWrapper\<close>: a connection of the pool for one block.\<close>

definition with_pool_connection :: "('d, 'p) pool_env \<Rightarrow> nat \<Rightarrow> (nat option \<Rightarrow> ('d, 'p, 'a) pio) \<Rightarrow> ('d, 'p, 'a) pio" where
  "with_pool_connection env c body =
     with_block (ibind (ensure_pool env c) (\<lambda>k. ibind (pool_acquire env k) (\<lambda>d. iret (k, d))))
       (\<lambda>(k, d) _. pool_release env k d) (\<lambda>(k, d). body (Some d))"

text \<open>\<^verbatim>\<open>ConnectionWrapper\<close>: the wrapper's own connection under its lock.\<close>

definition with_own_connection :: "('d, 'p) pool_env \<Rightarrow> nat \<Rightarrow> (nat option \<Rightarrow> ('d, 'p, 'a) pio) \<Rightarrow> ('d, 'p, 'a) pio" where
  "with_own_connection env w body =
     ibind (client_at w) (\<lambda>k.
     with_block
       (iseq (on_base (lock_acquire (own_lock k))) (iwhen (driver k = None) (create_pool env w True)))
       (\<lambda>_ _. on_base (lock_release (own_lock k)))
       (\<lambda>_. ibind (client_at w) (\<lambda>k. body (driver k))))"

definition acquire_connection :: "('d, 'p) pool_env \<Rightarrow> nat \<Rightarrow> (nat option \<Rightarrow> ('d, 'p, 'a) pio) \<Rightarrow> ('d, 'p, 'a) pio" where
  "acquire_connection env c body =
     ibind (client_at c) (\<lambda>k. case kind k of
       BaseClient \<Rightarrow> with_pool_connection env c body
     | Transaction p \<Rightarrow> with_own_connection env c body)"

text \<open>A call on the connection, with the client's translation of its errors or without.\<close>

definition conn_call :: "('d, 'p) pool_env \<Rightarrow> 'd stmt \<Rightarrow> nat option \<Rightarrow> ('d, 'p, unit) pio" where
  "conn_call env op d = on_base (drv_call (pool_translate (pe_backend env)) op d)"

definition raw_call :: "'d stmt \<Rightarrow> nat option \<Rightarrow> ('d, 'p, unit) pio" where
  "raw_call op d = on_base (drv_call raw_driver_exn op d)"

definition plain_execute_query :: "('d, 'p) pool_env \<Rightarrow> nat \<Rightarrow> 'd stmt \<Rightarrow> ('d, 'p, unit) pio" where
  "plain_execute_query env c stmt = acquire_connection env c (conn_call env stmt)"

text \<open>psycopg rolls the connection back when a statement violates a constraint.\<close>

definition psycopg_execute_query :: "('d, 'p) pool_env \<Rightarrow> nat \<Rightarrow> 'd stmt \<Rightarrow> ('d, 'p, unit) pio" where
  "psycopg_execute_query env c stmt =
     acquire_connection env c (\<lambda>d.
       icatch (conn_call env stmt d)
         (\<lambda>e. if e = IntegrityError then iseq (conn_call env (pe_rollback env) d) (iraise e) else iraise e))"

definition pooled_execute_query :: "('d, 'p) pool_env \<Rightarrow> nat \<Rightarrow> 'd stmt \<Rightarrow> ('d, 'p, unit) pio" where
  "pooled_execute_query env =
     (if pe_backend env = Psycopg then psycopg_execute_query env else plain_execute_query env)"

text \<open>\<^verbatim>\<open>execute_many\<close> of the clients: a transaction of its own.\<close>

definition commit_or_rollback :: "('d, 'p) pool_env \<Rightarrow> 'd stmt \<Rightarrow> nat option \<Rightarrow> ('d, 'p, unit) pio" where
  "commit_or_rollback env stmt d =
     iseq (icatch (conn_call env stmt d) (\<lambda>e. iseq (conn_call env (pe_rollback env) d) (iraise e)))
       (conn_call env (pe_commit env) d)"

definition asyncpg_execute_many :: "('d, 'p) pool_env \<Rightarrow> nat \<Rightarrow> 'd stmt \<Rightarrow> ('d, 'p, unit) pio" where
  "asyncpg_execute_many env c stmt =
     acquire_connection env c (\<lambda>d. iseq (conn_call env (pe_begin env) d) (commit_or_rollback env stmt d))"

definition mysql_execute_many :: "('d, 'p) pool_env \<Rightarrow> nat \<Rightarrow> 'd stmt \<Rightarrow> ('d, 'p, unit) pio" where
  "mysql_execute_many env c stmt =
     acquire_connection env c (\<lambda>d.
       if pe_supports_transactions env
       then iseq (conn_call env (pe_begin env) d) (commit_or_rollback env stmt d)
       else conn_call env stmt d)"

definition psycopg_execute_many :: "('d, 'p) pool_env \<Rightarrow> nat \<Rightarrow> 'd stmt \<Rightarrow> ('d, 'p, unit) pio" where
  "psycopg_execute_many env c stmt = acquire_connection env c (commit_or_rollback env stmt)"

definition odbc_execute_many :: "('d, 'p) pool_env \<Rightarrow> nat \<Rightarrow> 'd stmt \<Rightarrow> ('d, 'p, unit) pio" where
  "odbc_execute_many env c stmt = acquire_connection env c (commit_or_rollback env stmt)"

text \<open>The wrappers of asyncpg, MySQL and ODBC override it.\<close>

definition wrapper_execute_many :: "('d, 'p) pool_env \<Rightarrow> nat \<Rightarrow> 'd stmt \<Rightarrow> ('d, 'p, unit) pio" where
  "wrapper_execute_many env w stmt = acquire_connection env w (conn_call env stmt)"

text \<open>Method resolution: the wrapper of psycopg inherits the method of its client.\<close>

definition pooled_execute_many :: "('d, 'p) pool_env \<Rightarrow> nat \<Rightarrow> 'd stmt \<Rightarrow> ('d, 'p, unit) pio" where
  "pooled_execute_many env c stmt =
     ibind (client_at c) (\<lambda>k.
     case pe_backend env of
       Psycopg \<Rightarrow> psycopg_execute_many env c stmt
     | Asyncpg \<Rightarrow> (if kind k = BaseClient then asyncpg_execute_many env c stmt else wrapper_execute_many env c stmt)
     | Mysql \<Rightarrow> (if kind k = BaseClient then mysql_execute_many env c stmt else wrapper_execute_many env c stmt)
     | _ \<Rightarrow> (if kind k = BaseClient then odbc_execute_many env c stmt else wrapper_execute_many env c stmt))"

section \<open>The transaction wrappers\<close>

definition new_lock :: "('d proc, nat) io" where
  "new_lock p = (Ret (next_lock p), p\<lparr>locked := (locked p)(next_lock p := False), next_lock := Suc (next_lock p)\<rparr>)"

text \<open>\<^verbatim>\<open>TransactionWrapper(self)\<close>: both locks are new.\<close>

definition pooled_wrapper :: "nat \<Rightarrow> ('d, 'p, nat) pio" where
  "pooled_wrapper c =
     on_base (ibind (iget (\<lambda>p. clients p c)) (\<lambda>k.
       ibind new_lock (\<lambda>l. new_client (Transaction c) (client.connection_name k) (driver k) (Some l))))"

definition mark_finalized :: "nat \<Rightarrow> bool \<Rightarrow> ('d, 'p, unit) pio" where
  "mark_finalized w b = on_base (imodify (set_client w (\<lambda>k. k\<lparr>finalized := b\<rparr>)))"

definition asyncpg_start :: "('d, 'p) pool_env \<Rightarrow> nat \<Rightarrow> ('d, 'p, unit) pio" where
  "asyncpg_start env w = ibind (client_at w) (\<lambda>k. conn_call env (pe_begin env) (driver k))"

definition psycopg_start :: "('d, 'p) pool_env \<Rightarrow> nat \<Rightarrow> ('d, 'p, unit) pio" where
  "psycopg_start env w = ibind (client_at w) (\<lambda>k. conn_call env (pe_autocommit env False) (driver k))"

definition mysql_start :: "('d, 'p) pool_env \<Rightarrow> nat \<Rightarrow> ('d, 'p, unit) pio" where
  "mysql_start env w =
     ibind (client_at w) (\<lambda>k. iseq (conn_call env (pe_begin env) (driver k)) (mark_finalized w False))"

definition odbc_start :: "('d, 'p) pool_env \<Rightarrow> nat \<Rightarrow> ('d, 'p, unit) pio" where
  "odbc_start env w =
     iseq (mark_finalized w False) (ibind (client_at w) (\<lambda>k. raw_call (pe_autocommit env False) (driver k)))"

text \<open>\<^verbatim>\<open>BEGIN TRANSACTION\<close>, whose errors nobody translates.\<close>

definition mssql_start :: "('d, 'p) pool_env \<Rightarrow> nat \<Rightarrow> ('d, 'p, unit) pio" where
  "mssql_start env w = iseq (ibind (client_at w) (\<lambda>k. raw_call (pe_begin env) (driver k))) (odbc_start env w)"

definition pooled_start :: "('d, 'p) pool_env \<Rightarrow> nat \<Rightarrow> ('d, 'p, unit) pio" where
  "pooled_start env =
     (case pe_backend env of
        Asyncpg \<Rightarrow> asyncpg_start env
      | Psycopg \<Rightarrow> psycopg_start env
      | Mysql \<Rightarrow> mysql_start env
      | Mssql \<Rightarrow> mssql_start env
      | Oracle \<Rightarrow> odbc_start env)"

text \<open>\<^verbatim>\<open>commit\<close> and \<^verbatim>\<open>rollback\<close> differ in the call they make.\<close>

definition unless_finalized :: "nat \<Rightarrow> (nat option \<Rightarrow> ('d, 'p, unit) pio) \<Rightarrow> ('d, 'p, unit) pio" where
  "unless_finalized w body =
     ibind (client_at w) (\<lambda>k. if finalized k then iraise TransactionManagementError else body (driver k))"

definition asyncpg_finish :: "('d, 'p) pool_env \<Rightarrow> 'd stmt \<Rightarrow> nat \<Rightarrow> ('d, 'p, unit) pio" where
  "asyncpg_finish env op w = unless_finalized w (\<lambda>d. iseq (raw_call op d) (mark_finalized w True))"

definition psycopg_finish :: "('d, 'p) pool_env \<Rightarrow> 'd stmt \<Rightarrow> nat \<Rightarrow> ('d, 'p, unit) pio" where
  "psycopg_finish env op w =
     unless_finalized w (\<lambda>d. iseq (raw_call op d) (iseq (raw_call (pe_autocommit env True) d) (mark_finalized w True)))"

definition mysql_finish :: "('d, 'p) pool_env \<Rightarrow> 'd stmt \<Rightarrow> nat \<Rightarrow> ('d, 'p, unit) pio" where
  "mysql_finish env op w = unless_finalized w (\<lambda>d. iseq (raw_call op d) (mark_finalized w True))"

definition odbc_finish :: "('d, 'p) pool_env \<Rightarrow> 'd stmt \<Rightarrow> nat \<Rightarrow> ('d, 'p, unit) pio" where
  "odbc_finish env op w =
     unless_finalized w (\<lambda>d. iseq (raw_call op d) (iseq (mark_finalized w True) (raw_call (pe_autocommit env True) d)))"

definition pooled_finish :: "('d, 'p) pool_env \<Rightarrow> 'd stmt \<Rightarrow> nat \<Rightarrow> ('d, 'p, unit) pio" where
  "pooled_finish env =
     (case pe_backend env of
        Asyncpg \<Rightarrow> asyncpg_finish env
      | Psycopg \<Rightarrow> psycopg_finish env
      | Mysql \<Rightarrow> mysql_finish env
      | Mssql \<Rightarrow> odbc_finish env
      | Oracle \<Rightarrow> odbc_finish env)"

lemmas start_defs = pooled_start_def asyncpg_start_def psycopg_start_def mysql_start_def odbc_start_def mssql_start_def
lemmas finish_defs = pooled_finish_def asyncpg_finish_def psycopg_finish_def mysql_finish_def odbc_finish_def unless_finalized_def

definition pooled_commit :: "('d, 'p) pool_env \<Rightarrow> nat \<Rightarrow> ('d, 'p, unit) pio" where
  "pooled_commit env = pooled_finish env (pe_commit env)"

definition pooled_rollback :: "('d, 'p) pool_env \<Rightarrow> nat \<Rightarrow> ('d, 'p, unit) pio" where
  "pooled_rollback env = pooled_finish env (pe_rollback env)"

section \<open>The contexts\<close>

text \<open>\<^verbatim>\<open>TransactionContextPooled\<close>; the wrapper \<open>w\<close> is of the client \<open>c\<close>.\<close>

definition pooled_aenter :: "('d, 'p) pool_env \<Rightarrow> task \<Rightarrow> nat \<Rightarrow> nat \<Rightarrow> ('d, 'p, nat) pio" where
  "pooled_aenter env t c w =
     iseq (ibind (iget (\<lambda>s. pool_of s c)) (\<lambda>k. iwhen (k = None) (create_pool env c True)))
     (ibind (client_at w) (\<lambda>k.
      ibind (on_base (conn_set t (client.connection_name k) w)) (\<lambda>token.
      ibind (iget (\<lambda>s. pool_of s c)) (\<lambda>q.
      ibind (case q of None \<Rightarrow> iraise PyAttributeError | Some q \<Rightarrow> pool_acquire env q) (\<lambda>d.
      iseq (on_base (imodify (set_client w (\<lambda>k. k\<lparr>driver := Some d\<rparr>))))
      (iseq (pooled_start env w) (iret token)))))))"

definition pooled_end :: "('d, 'p) pool_env \<Rightarrow> nat \<Rightarrow> exn option \<Rightarrow> ('d, 'p, unit) pio" where
  "pooled_end env w exc =
     ibind (client_at w) (\<lambda>k.
     if finalized k then iret ()
     else case exc of
       Some e \<Rightarrow> iwhen (e \<noteq> TransactionManagementError) (pooled_rollback env w)
     | None \<Rightarrow> pooled_commit env w)"

definition pooled_aexit :: "('d, 'p) pool_env \<Rightarrow> task \<Rightarrow> nat \<Rightarrow> nat \<Rightarrow> nat \<Rightarrow> exn option \<Rightarrow> ('d, 'p, unit) pio" where
  "pooled_aexit env t c w token exc =
     iseq (pooled_end env w exc)
     (iseq (ibind (iget (\<lambda>s. pool_of s c)) (\<lambda>q. ibind (client_at w) (\<lambda>k.
              case (q, driver k) of
                (Some q, Some d) \<Rightarrow> pool_release env q d
              | _ \<Rightarrow> iret ())))
       (on_base (conn_reset t token)))"

text \<open>\<^verbatim>\<open>NestedTransactionPooledContext\<close>\<close>

definition nested_pooled_aenter :: "nat \<Rightarrow> ('d, 'p, nat) pio" where
  "nested_pooled_aenter w =
     ibind (iget (\<lambda>s. trx_lock w (base s))) (\<lambda>l.
     ibind (ilift l) (\<lambda>l. iseq (on_base (lock_acquire l)) (iret w)))"

definition nested_pooled_aexit :: "('d, 'p) pool_env \<Rightarrow> nat \<Rightarrow> exn option \<Rightarrow> ('d, 'p, unit) pio" where
  "nested_pooled_aexit env w exc =
     ibind (iget (\<lambda>s. trx_lock w (base s))) (\<lambda>l.
     ibind (ilift l) (\<lambda>l.
     iseq (on_base (lock_release l))
       (ibind (client_at w) (\<lambda>k.
        iwhen (\<not> finalized k \<and> exc \<noteq> None \<and> exc \<noteq> Some TransactionManagementError) (pooled_rollback env w)))))"

text \<open>\<^verbatim>\<open>async with client._in_transaction()\<close>\<close>

definition run_pooled ::
    "('d, 'p) pool_env \<Rightarrow> task \<Rightarrow> nat \<Rightarrow> (nat \<Rightarrow> ('d, 'p, 'a) pio) \<Rightarrow> ('d, 'p, 'a) pio" where
  "run_pooled env t c body =
     ibind (client_at c) (\<lambda>k. case kind k of
       BaseClient \<Rightarrow>
         ibind (pooled_wrapper c) (\<lambda>w.
         with_block (pooled_aenter env t c w) (pooled_aexit env t c w) (\<lambda>_. body w))
     | Transaction p \<Rightarrow> with_block (nested_pooled_aenter c) (nested_pooled_aexit env) body)"

text \<open>\<^verbatim>\<open>db_create\<close>: a pool without the database, the statement, and the pool closed.\<close>

definition pooled_db_create :: "('d, 'p) pool_env \<Rightarrow> nat \<Rightarrow> 'd stmt list \<Rightarrow> ('d, 'p, unit) pio" where
  "pooled_db_create env c stmts =
     iseq (create_pool env c False)
     (iseq (ifold (\<lambda>st _. acquire_connection env c (conn_call env st)) stmts ()) (pool_close env c))"

section \<open>The session time zone of MySQL\<close>

text \<open>
  \<^verbatim>\<open>timezone.now().utcoffset().seconds / 3600\<close>, formatted as \<^verbatim>\<open>{:+d}:{:02d}\<close>; the offset is a
  \<^verbatim>\<open>timedelta\<close>, whose \<^verbatim>\<open>seconds\<close> are those of its day.
\<close>

definition mysql_time_zone :: "int \<Rightarrow> string" where
  "mysql_time_zone seconds =
     CHR ''+'' # str_int (seconds div 3600) @ '':'' @ pad_int 2 (seconds mod 3600 div 60)"

definition session_time_zone :: "clock_env \<Rightarrow> string res" where
  "session_time_zone ce =
     rbind (now ce) (\<lambda>n. rbind (utcoffset ce n) (\<lambda>d. case d of
       VDelta days seconds micros \<Rightarrow> Inr (mysql_time_zone seconds)
     | _ \<Rightarrow> Inl PyAttributeError))"

section \<open>Laws of the drivers\<close>

text \<open>
  COMMIT makes durable what the connection sees, ROLLBACK makes it see what is durable; BEGIN and
  the autocommit mode change neither.
\<close>

definition pool_laws :: "('d, 'p) pool_env \<Rightarrow> ('d \<Rightarrow> 'db) \<Rightarrow> ('d \<Rightarrow> 'db) \<Rightarrow> bool" where
  "pool_laws env durable visible \<longleftrightarrow>
     (\<forall>d x. pe_commit env d = (None, x) \<longrightarrow> durable x = visible d \<and> visible x = visible d) \<and>
     (\<forall>d x. pe_rollback env d = (None, x) \<longrightarrow> durable x = durable d \<and> visible x = durable d) \<and>
     (\<forall>d x. pe_begin env d = (None, x) \<longrightarrow> durable x = durable d \<and> visible x = visible d) \<and>
     (\<forall>b d x. pe_autocommit env b d = (None, x) \<longrightarrow> durable x = durable d \<and> visible x = visible d)"

definition pool_reliable :: "('d, 'p) pool_env \<Rightarrow> bool" where
  "pool_reliable env \<longleftrightarrow>
     (\<forall>d b. fst (pe_commit env d) = None \<and> fst (pe_rollback env d) = None \<and> fst (pe_begin env d) = None \<and>
        fst (pe_autocommit env b d) = None)"

lemma pool_reliableD:
  assumes "pool_reliable env"
  shows "pe_commit env d = (None, snd (pe_commit env d))" "pe_rollback env d = (None, snd (pe_rollback env d))"
    "pe_begin env d = (None, snd (pe_begin env d))" "pe_autocommit env b d = (None, snd (pe_autocommit env b d))"
  using assms unfolding pool_reliable_def by (metis prod.collapse)+

text \<open>The state after a call on a connection, with the wrapper marked.\<close>

definition touched :: "nat \<Rightarrow> nat \<Rightarrow> bool \<Rightarrow> 'd \<Rightarrow> ('d, 'p) pooled \<Rightarrow> ('d, 'p) pooled" where
  "touched w d b x s =
     s\<lparr>base := set_client w (\<lambda>k. k\<lparr>finalized := b\<rparr>) ((base s)\<lparr>drivers := (drivers (base s))(d := x)\<rparr>)\<rparr>"

lemma on_base_run: "c (base s) = (r, p) \<Longrightarrow> on_base c s = (r, s\<lparr>base := p\<rparr>)"
  by (simp add: on_base_def)

lemma client_at_run [simp]: "client_at c s = (Ret (clients (base s) c), s)"
  by (simp add: client_at_def)

lemma call_run:
  assumes "op (drivers (base s) d) = (None, x)"
  shows "conn_call env op (Some d) s = (Ret (), s\<lparr>base := (base s)\<lparr>drivers := (drivers (base s))(d := x)\<rparr>\<rparr>)"
    and "raw_call op (Some d) s = (Ret (), s\<lparr>base := (base s)\<lparr>drivers := (drivers (base s))(d := x)\<rparr>\<rparr>)"
  using assms by (simp_all add: conn_call_def raw_call_def on_base_def drv_call_def)

lemma mark_run: "mark_finalized w b s = (Ret (), s\<lparr>base := set_client w (\<lambda>k. k\<lparr>finalized := b\<rparr>) (base s)\<rparr>)"
  by (simp add: mark_finalized_def on_base_def)

lemma set_client_same: "g (clients p w) = clients p w \<Longrightarrow> set_client w g p = p"
  by (simp add: set_client_def fun_upd_idem)

lemma set_client_drivers: "(set_client w g p)\<lparr>drivers := f\<rparr> = set_client w g (p\<lparr>drivers := f\<rparr>)"
  by (simp add: set_client_def)

lemma start_run:
  assumes "pool_laws env durable visible" "pool_reliable env"
    and "driver (clients (base s) w) = Some d" "\<not> finalized (clients (base s) w)"
  shows "\<exists>x. pooled_start env w s = (Ret (), touched w d False x s) \<and>
     durable x = durable (drivers (base s) d) \<and> visible x = visible (drivers (base s) d)"
proof -
  note law = assms(1) [unfolded pool_laws_def] and ok = pool_reliableD [OF assms(2)]
  have plain: "touched w d False x s = s\<lparr>base := (base s)\<lparr>drivers := (drivers (base s))(d := x)\<rparr>\<rparr>" for x
    using assms(4) by (simp add: touched_def set_client_same)
  have id: "set_client w (\<lambda>k. k\<lparr>finalized := False\<rparr>) (base s) = base s"
    using assms(4) by (simp add: set_client_same)
  let ?b = "snd (pe_begin env (drivers (base s) d))" and ?a = "snd (pe_autocommit env False (drivers (base s) d))"
  have b: "durable ?b = durable (drivers (base s) d) \<and> visible ?b = visible (drivers (base s) d)"
    and a: "durable ?a = durable (drivers (base s) d) \<and> visible ?a = visible (drivers (base s) d)"
    using law ok by blast+
  let ?ba = "snd (pe_autocommit env False ?b)"
  have ba: "durable ?ba = durable (drivers (base s) d) \<and> visible ?ba = visible (drivers (base s) d)"
    using law ok b by metis
  show ?thesis
  proof (cases "pe_backend env")
    case Asyncpg
    then show ?thesis using b assms(3) call_run(1) [where s = s and op = "pe_begin env" and d = d and env = env, OF ok(3)] by (auto simp: start_defs plain)
  next
    case Psycopg
    then show ?thesis using a assms(3) call_run(1) [where s = s and op = "pe_autocommit env False" and d = d and env = env, OF ok(4)] by (auto simp: start_defs plain)
  next
    case Mysql
    then show ?thesis using b assms(3) call_run(1) [where s = s and op = "pe_begin env" and d = d and env = env, OF ok(3)]
      by (auto simp: start_defs iseq_def mark_run touched_def)
  next
    case Mssql
    let ?s1 = "touched w d False ?b s"
    have "raw_call (pe_autocommit env False) (Some d) ?s1 = (Ret (), touched w d False ?ba s)"
      using call_run(2) [where s = ?s1 and op = "pe_autocommit env False" and d = d, OF ok(4)] by (simp add: touched_def set_client_drivers)
    then show ?thesis using Mssql ba assms(3) call_run(2) [where s = s and op = "pe_begin env" and d = d, OF ok(3)]
      by (auto simp: start_defs iseq_def mark_run touched_def)
  next
    case Oracle
    then show ?thesis using a assms(3) id call_run(2) [where s = s and op = "pe_autocommit env False" and d = d, OF ok(4)]
      by (auto simp: start_defs iseq_def mark_run plain)
  qed
qed

lemma finish_run:
  assumes "pool_laws env durable visible" "pool_reliable env"
    and "driver (clients (base s) w) = Some d" "\<not> finalized (clients (base s) w)"
    and "op (drivers (base s) d) = (None, y)"
  shows "\<exists>x. pooled_finish env op w s = (Ret (), touched w d True x s) \<and> durable x = durable y \<and> visible x = visible y"
proof -
  note law = assms(1) [unfolded pool_laws_def] and ok = pool_reliableD [OF assms(2)]
  let ?s1 = "s\<lparr>base := (base s)\<lparr>drivers := (drivers (base s))(d := y)\<rparr>\<rparr>"
  let ?a = "snd (pe_autocommit env True y)"
  have a: "durable ?a = durable y \<and> visible ?a = visible y" using law ok by blast
  note call = call_run(2) [where s = s and op = op and d = d, OF assms(5)]
  have auto: "raw_call (pe_autocommit env True) (Some d) ?s1 = (Ret (), ?s1\<lparr>base := (base ?s1)\<lparr>drivers := (drivers (base ?s1))(d := ?a)\<rparr>\<rparr>)"
    by (rule call_run(2) [where op = "pe_autocommit env True"]) (simp, rule ok(4))
  let ?s2 = "touched w d True y s"
  have auto2: "raw_call (pe_autocommit env True) (Some d) ?s2 = (Ret (), touched w d True ?a s)"
    using call_run(2) [where s = ?s2 and op = "pe_autocommit env True" and d = d, OF ok(4)] by (simp add: touched_def set_client_drivers)
  show ?thesis
  proof (cases "pe_backend env")
    case Psycopg
    then show ?thesis using a assms(3,4) call auto
      by (intro exI [of _ ?a]) (simp add: finish_defs iseq_def mark_run touched_def)
  next
    case Mssql
    then show ?thesis using a assms(3,4) call auto2
      by (intro exI [of _ ?a]) (simp add: finish_defs iseq_def mark_run touched_def)
  next
    case Oracle
    then show ?thesis using a assms(3,4) call auto2
      by (intro exI [of _ ?a]) (simp add: finish_defs iseq_def mark_run touched_def)
  next
    case Asyncpg
    then show ?thesis using assms(3,4) call
      by (intro exI [of _ y]) (simp add: finish_defs iseq_def mark_run touched_def)
  next
    case Mysql
    then show ?thesis using assms(3,4) call
      by (intro exI [of _ y]) (simp add: finish_defs iseq_def mark_run touched_def)
  qed
qed

section \<open>A block of a pooled client\<close>

lemma wrapper_run:
  "pooled_wrapper c s = (Ret (next_client (base s)),
     s\<lparr>base := (base s)\<lparr>clients := (clients (base s))(next_client (base s) :=
          \<lparr> connection_name = client.connection_name (clients (base s) c), kind = Transaction c,
            driver = driver (clients (base s) c), finalized = False, own_lock = Suc (next_lock (base s)),
            trxlock = Some (next_lock (base s)) \<rparr>),
        next_client := Suc (next_client (base s)),
        locked := (locked (base s))(next_lock (base s) := False, Suc (next_lock (base s)) := False),
        next_lock := Suc (Suc (next_lock (base s)))\<rparr>\<rparr>)"
  by (simp add: pooled_wrapper_def on_base_def ibind_def iget_def new_lock_def new_client_run)

lemma touched_simps [simp]:
  "drivers (base (touched w d b x s)) = (drivers (base s))(d := x)"
  "clients (base (touched w d b x s)) = (clients (base s))(w := (clients (base s) w)\<lparr>finalized := b\<rparr>)"
  "locked (base (touched w d b x s)) = locked (base s)" "stores (base (touched w d b x s)) = stores (base s)"
  "current (base (touched w d b x s)) = current (base s)" "next_client (base (touched w d b x s)) = next_client (base s)"
  "next_lock (base (touched w d b x s)) = next_lock (base s)" "next_store (base (touched w d b x s)) = next_store (base s)"
  "pools (touched w d b x s) = pools s" "pool_of (touched w d b x s) = pool_of s" "next_pool (touched w d b x s) = next_pool s"
  by (simp_all add: touched_def set_client_def)

text \<open>Inside the block: the wrapper has a connection of the pool for itself, and stands for the alias.\<close>

definition pooled_entered :: "('d, 'p) pool_env \<Rightarrow> task \<Rightarrow> nat \<Rightarrow> ('d, 'p) pooled \<Rightarrow> ('d, 'p) pooled" where
  "pooled_entered env t c s = snd (pooled_aenter env t c (next_client (base s)) (snd (pooled_wrapper c s)))"

lemma pooled_aenter_run:
  fixes t :: task
  assumes "pool_laws env durable visible" "pool_reliable env" "proc_ok (base s)"
    and "pool_of s c = Some k" "pe_acquire env (pools s k) = (Ret d, q)"
  defines "w \<equiv> next_client (base s)" and "se \<equiv> pooled_entered env t c s"
  shows "pooled_aenter env t c w (snd (pooled_wrapper c s)) = (Ret (current (base s) t), se)"
    and "durable (drivers (base se) d) = durable (drivers (base s) d)" "visible (drivers (base se) d) = visible (drivers (base s) d)"
    and "driver (clients (base se) w) = Some d" "\<not> finalized (clients (base se) w)" "kind (clients (base se) w) = Transaction c"
    and "trxlock (clients (base se) w) = Some (next_lock (base s))" "\<not> locked (base se) (next_lock (base s))"
    and "own_lock (clients (base se) w) = Suc (next_lock (base s))" "\<not> locked (base se) (Suc (next_lock (base s)))"
    and "pools se = (pools s)(k := q)" "pool_of se = pool_of s"
    and "alias_of t (client.connection_name (clients (base s) c)) (base se) = Some w"
    and "token_view (current (base s) t) b (base se) = alias_of t b (base s)"
proof -
  define s1 where "s1 = snd (pooled_wrapper c s)"
  let ?a = "client.connection_name (clients (base s) c)"
  have s1: "clients (base s1) w = \<lparr> connection_name = ?a, kind = Transaction c, driver = driver (clients (base s) c),
      finalized = False, own_lock = Suc (next_lock (base s)), trxlock = Some (next_lock (base s)) \<rparr>"
    "pools s1 = pools s" "pool_of s1 = pool_of s" "current (base s1) = current (base s)" "stores (base s1) = stores (base s)"
    "drivers (base s1) = drivers (base s)" "next_store (base s1) = next_store (base s)" "\<not> locked (base s1) (next_lock (base s))"
    "\<not> locked (base s1) (Suc (next_lock (base s)))"
    by (simp_all add: s1_def wrapper_run w_def)
  define s2 where "s2 = s1\<lparr>base := snd (conn_set t ?a w (base s1))\<rparr>"
  define sa where "sa = s2\<lparr>pools := (pools s2)(k := q)\<rparr>"
  define s3 where "s3 = sa\<lparr>base := set_client w (\<lambda>k. k\<lparr>driver := Some d\<rparr>) (base sa)\<rparr>"
  have s2: "on_base (conn_set t ?a w) s1 = (Ret (current (base s) t), s2)"
    by (simp add: s2_def on_base_def conn_set_run s1(4))
  have sa: "pool_acquire env k s2 = (Ret d, sa)"
    using assms(5) by (simp add: pool_acquire_def sa_def s2_def s1(2))
  have s3': "on_base (imodify (set_client w (\<lambda>k. k\<lparr>driver := Some d\<rparr>))) sa = (Ret (), s3)"
    by (simp add: on_base_def s3_def)
  have s3: "driver (clients (base s3) w) = Some d" "\<not> finalized (clients (base s3) w)"
    by (simp_all add: s3_def sa_def s2_def conn_set_run s1)
  from start_run [OF assms(1,2) s3] obtain x where x: "pooled_start env w s3 = (Ret (), touched w d False x s3)"
    "durable x = durable (drivers (base s3) d)" "visible x = visible (drivers (base s3) d)" by blast
  have run: "pooled_aenter env t c w s1 = (Ret (current (base s) t), touched w d False x s3)"
    using assms(4) x(1) s2 sa s3'
    by (simp add: pooled_aenter_def iseq_def s1(1,3)) (simp add: s2_def s1(3))
  have se: "se = touched w d False x s3"
    using run by (simp add: se_def pooled_entered_def flip: w_def s1_def)
  then show "pooled_aenter env t c w (snd (pooled_wrapper c s)) = (Ret (current (base s) t), se)"
    using run by (simp add: s1_def)
  note defs = s3_def sa_def s2_def conn_set_run s1
  have d3: "drivers (base s3) = drivers (base s)" by (simp add: defs)
  show "durable (drivers (base se) d) = durable (drivers (base s) d)" "visible (drivers (base se) d) = visible (drivers (base s) d)"
    using x(2,3) d3 by (simp_all add: se)
  show "driver (clients (base se) w) = Some d" "\<not> finalized (clients (base se) w)" "kind (clients (base se) w) = Transaction c"
    "trxlock (clients (base se) w) = Some (next_lock (base s))" "\<not> locked (base se) (next_lock (base s))"
    "own_lock (clients (base se) w) = Suc (next_lock (base s))" "\<not> locked (base se) (Suc (next_lock (base s)))"
    "pools se = (pools s)(k := q)" "pool_of se = pool_of s"
    by (simp_all add: se defs)
  have old: "current (base s) t \<noteq> next_store (base s)" using assms(3) by (metis proc_ok_def less_irrefl)
  show "alias_of t ?a (base se) = Some w"
    by (simp add: se defs alias_of_def get_storage_def map_of_update)
  show "token_view (current (base s) t) b (base se) = alias_of t b (base s)"
    using old by (simp add: se defs alias_of_def get_storage_def token_view_def)
qed

lemma pooled_end_run:
  assumes "pool_laws env durable visible" "pool_reliable env"
    and "driver (clients (base s) w) = Some d" "\<not> finalized (clients (base s) w)"
  shows "\<exists>s'. pooled_end env w exc s = (Ret (), s') \<and> (s' = s \<or> (\<exists>x. s' = touched w d True x s)) \<and>
     (exc = None \<longrightarrow> durable (drivers (base s') d) = visible (drivers (base s) d)) \<and>
     (\<forall>e. exc = Some e \<longrightarrow> durable (drivers (base s') d) = durable (drivers (base s) d))"
proof -
  note law = assms(1) [unfolded pool_laws_def] and ok = pool_reliableD [OF assms(2)]
  show ?thesis
  proof (cases "exc = Some TransactionManagementError")
    case False
    define op where "op = (if exc = None then pe_commit env else pe_rollback env)"
    have op: "op (drivers (base s) d) = (None, snd (op (drivers (base s) d)))"
      unfolding op_def using ok by (cases "exc = None") auto
    from finish_run [where op = op, OF assms op] obtain x where
      x: "pooled_finish env op w s = (Ret (), touched w d True x s)" "durable x = durable (snd (op (drivers (base s) d)))" by blast
    have "pooled_end env w exc s = (Ret (), touched w d True x s)"
      using assms(4) x(1) False by (cases exc) (auto simp: pooled_end_def op_def pooled_commit_def pooled_rollback_def)
    moreover have "durable (snd (pe_commit env (drivers (base s) d))) = visible (drivers (base s) d)"
      "durable (snd (pe_rollback env (drivers (base s) d))) = durable (drivers (base s) d)"
      using law ok by blast+
    ultimately show ?thesis using x(2) by (cases exc) (auto simp: op_def)
  qed (use assms(4) in \<open>auto simp: pooled_end_def\<close>)
qed

lemma pooled_aexit_run:
  assumes "pool_laws env durable visible" "pool_reliable env"
    and "driver (clients (base s) w) = Some d" "\<not> finalized (clients (base s) w)" "pool_of s c = Some k"
  shows "\<exists>s'. pooled_aexit env t c w token exc s = (Ret (), s') \<and>
     pools s' = (pools s)(k := pe_release env d (pools s k)) \<and> pool_of s' = pool_of s \<and>
     (\<forall>b. alias_of t b (base s') = (case token_view token b (base s) of Some x \<Rightarrow> Some x | None \<Rightarrow> alias_of t b (base s))) \<and>
     (exc = None \<longrightarrow> durable (drivers (base s') d) = visible (drivers (base s) d)) \<and>
     (\<forall>e. exc = Some e \<longrightarrow> durable (drivers (base s') d) = durable (drivers (base s) d))"
proof -
  from pooled_end_run [OF assms(1-4), of exc] obtain u where u: "pooled_end env w exc s = (Ret (), u)"
    "u = s \<or> (\<exists>x. u = touched w d True x s)"
    "exc = None \<longrightarrow> durable (drivers (base u) d) = visible (drivers (base s) d)"
    "\<forall>e. exc = Some e \<longrightarrow> durable (drivers (base u) d) = durable (drivers (base s) d)" by blast
  from u(2) assms(3,5) have same: "driver (clients (base u) w) = Some d" "pool_of u = pool_of s" "pools u = pools s"
    "stores (base u) = stores (base s)" "current (base u) = current (base s)" by auto
  define v where "v = u\<lparr>pools := (pools u)(k := pe_release env d (pools u k))\<rparr>"
  have "pooled_aexit env t c w token exc s = on_base (conn_reset t token) v"
    using u(1) same(1,2) assms(5) by (simp add: pooled_aexit_def iseq_def pool_release_def v_def)
  then show ?thesis
    using u(3,4) same
    by (simp add: on_base_def conn_reset_run v_def alias_of_def get_storage_def token_view_def map_of_copy_missing
        split: option.splits)
qed


text \<open>A pool of the connections 5 and 6 to a database that stores one number.\<close>

definition toy_pool_env :: "backend \<Rightarrow> (toy_db, nat list) pool_env" where
  "toy_pool_env b = \<lparr> pe_backend = b, pe_create = (\<lambda>_. Inr [5, 6]), pe_prepare = (\<lambda>q. (None, q)),
     pe_acquire = (\<lambda>q. case q of [] \<Rightarrow> (Wait, q) | d # ds \<Rightarrow> (Ret d, ds)), pe_release = (\<lambda>d q. d # q), pe_close = (\<lambda>q. []),
     pe_begin = (\<lambda>x. (None, (fst x, Some (toy_visible x)))), pe_commit = (\<lambda>x. (None, (toy_visible x, None))),
     pe_rollback = (\<lambda>x. (None, (fst x, None))),
     pe_autocommit = (\<lambda>a x. (None, if a then x else (fst x, Some (toy_visible x)))), pe_supports_transactions = True \<rparr>"

lemma toy_pool_laws: "pool_laws (toy_pool_env b) fst toy_visible"
  by (auto simp: pool_laws_def toy_pool_env_def toy_visible_def split: option.splits if_splits)

lemma toy_pool_reliable: "pool_reliable (toy_pool_env b)"
  by (simp add: pool_reliable_def toy_pool_env_def)

definition toy_pooled :: "(toy_db, nat list) pooled" where
  "toy_pooled = \<lparr> base = toy_proc, pools = (\<lambda>_. [5, 6]), next_pool = 1, pool_of = (\<lambda>_. Some 0) \<rparr>"

lemma toy_pooled_ready:
  "proc_ok (base toy_pooled)" "kind (clients (base toy_pooled) 0) = BaseClient" "pool_of toy_pooled 0 = Some 0"
  "pe_acquire (toy_pool_env b) (pools toy_pooled 0) = (Ret 5, [6])"
  by (simp_all add: toy_pooled_def toy_proc_def proc_ok_def toy_pool_env_def)

definition toy_write :: "toy_db stmt" where
  "toy_write x = (None, (fst x, Some 9))"


section \<open>Nested blocks wait for themselves\<close>

lemma nested_entered:
  assumes "trxlock (clients (base s) w) = Some l"
  shows "nested_pooled_aenter w s =
    (if locked (base s) l then (Wait, s) else (Ret w, s\<lparr>base := (base s)\<lparr>locked := (locked (base s))(l := True)\<rparr>\<rparr>))"
  using assms by (simp add: nested_pooled_aenter_def trx_lock_def iseq_def on_base_def lock_acquire_def ibind_def)

lemma run_nested:
  assumes "kind (clients (base s) w) = Transaction c"
  shows "run_pooled env t w body s = with_block (nested_pooled_aenter w) (nested_pooled_aexit env) body s"
  using assms by (simp add: run_pooled_def)

lemma two_nested_wait:
  assumes "kind (clients (base s) w) = Transaction c" "trxlock (clients (base s) w) = Some l"
  shows "\<exists>s'. run_pooled env t w (\<lambda>_. run_pooled env t w body) s = (Wait, s') \<and> locked (base s') l"
proof (cases "locked (base s) l")
  case True
  then show ?thesis using assms by (simp add: run_nested nested_entered with_block_def)
next
  case False
  let ?s1 = "s\<lparr>base := (base s)\<lparr>locked := (locked (base s))(l := True)\<rparr>\<rparr>"
  have "run_pooled env t w body ?s1 = (Wait, ?s1)"
    using assms by (simp add: run_nested nested_entered with_block_def)
  then show ?thesis using False assms by (simp add: run_nested nested_entered with_block_def)
qed

text \<open>
  C36. Three blocks in each other never finish on a pooled client: the second takes the wrapper's
  transaction lock, which is not reentrant, and the third waits for it, so that the task waits
  for itself, whatever its body is.
\<close>

theorem third_block_waits:
  assumes "pool_laws env durable visible" and "pool_reliable env" and "proc_ok (base s)"
    and "kind (clients (base s) c) = BaseClient" and "pool_of s c = Some k" and "pe_acquire env (pools s k) = (Ret d, q)"
  shows "\<exists>s' l. run_pooled env t c (\<lambda>w. run_pooled env t w (\<lambda>_. run_pooled env t w body)) s = (Wait, s') \<and>
     trxlock (clients (base (pooled_entered env t c s)) (next_client (base s))) = Some l \<and> locked (base s') l"
proof -
  let ?w = "next_client (base s)"
  note enter = pooled_aenter_run [where t = t, OF assms(1-3,5,6)]
  define s1 where "s1 = snd (pooled_wrapper c s)"
  have w: "pooled_wrapper c s = (Ret ?w, s1)" by (simp add: wrapper_run s1_def)
  from two_nested_wait [where t = t and env = env and body = body, OF enter(6,7)] obtain s' where
    s': "run_pooled env t ?w (\<lambda>_. run_pooled env t ?w body) (pooled_entered env t c s) = (Wait, s')"
    "locked (base s') (next_lock (base s))" by blast
  have "run_pooled env t c (\<lambda>w. run_pooled env t w (\<lambda>_. run_pooled env t w body)) s =
      with_block (pooled_aenter env t c ?w) (pooled_aexit env t c ?w)
        (\<lambda>_. run_pooled env t ?w (\<lambda>_. run_pooled env t ?w body)) s1"
    by (subst run_pooled_def) (simp add: w assms(4))
  also have "\<dots> = (Wait, s')"
    using enter(1) [folded s1_def] s'(1) by (simp add: with_block_def)
  finally show ?thesis using s'(2) enter(7) by blast
qed

theorem third_block_waits_witness:
  "\<exists>s'. run_pooled (toy_pool_env Asyncpg) 0 0 (\<lambda>w. run_pooled (toy_pool_env Asyncpg) 0 w
     (\<lambda>_. run_pooled (toy_pool_env Asyncpg) 0 w (\<lambda>_. iret ()))) toy_pooled = (Wait, s')"
  using third_block_waits [where t = 0 and body = "\<lambda>_. iret ()" and env = "toy_pool_env Asyncpg",
    OF toy_pool_laws toy_pool_reliable toy_pooled_ready]
  by blast

section \<open>Bulk statements of psycopg\<close>

lemma own_connection_run:
  assumes "driver (clients (base s) w) = Some d" "own_lock (clients (base s) w) = l" "\<not> locked (base s) l"
    and "body (Some d) (s\<lparr>base := (base s)\<lparr>locked := (locked (base s))(l := True)\<rparr>\<rparr>) = (Ret a, u)" "locked (base u) l"
  shows "with_own_connection env w body s = (Ret a, u\<lparr>base := (base u)\<lparr>locked := (locked (base u))(l := False)\<rparr>\<rparr>)"
  using assms by (simp add: with_own_connection_def with_block_def iseq_def on_base_def lock_acquire_def lock_release_def)

text \<open>
  C37. A bulk statement in a transaction of psycopg commits the transaction: the wrapper inherits
  \<^verbatim>\<open>execute_many\<close> from the client, which commits. A block that makes one and then raises leaves
  everything it did until then in the database.
\<close>

theorem psycopg_many_commits:
  fixes s :: "('d, 'p) pooled"
  assumes "pool_laws env durable visible" and "pool_reliable env" and "proc_ok (base s)" and "pe_backend env = Psycopg"
    and "kind (clients (base s) c) = BaseClient" and "pool_of s c = Some k" and "pe_acquire env (pools s k) = (Ret d, q)"
    and "stmt (drivers (base (pooled_entered env t c s)) d) = (None, y)"
  shows "\<exists>s'. run_pooled env t c (\<lambda>w. iseq (pooled_execute_many env w stmt) (iraise e :: ('d, 'p, 'a) pio)) s = (Raise e, s') \<and>
     durable (drivers (base s') d) = visible y"
proof -
  let ?w = "next_client (base s)" and ?l = "Suc (next_lock (base s))"
  note enter = pooled_aenter_run [where t = t, OF assms(1-3,6,7)]
  define se where "se = pooled_entered env t c s"
  note en = enter [folded se_def]
  define z where "z = snd (pe_commit env y)"
  have z: "pe_commit env y = (None, z)" "durable z = visible y"
    using pool_reliableD(1) [OF assms(2)] assms(1) unfolding pool_laws_def z_def by blast+
  define sl where "sl = se\<lparr>base := (base se)\<lparr>locked := (locked (base se))(?l := True)\<rparr>\<rparr>"
  define sy where "sy = sl\<lparr>base := (base sl)\<lparr>drivers := (drivers (base sl))(d := y)\<rparr>\<rparr>"
  define u where "u = sy\<lparr>base := (base sy)\<lparr>drivers := (drivers (base sy))(d := z)\<rparr>\<rparr>"
  note st_defs = sl_def sy_def u_def
  have st: "conn_call env stmt (Some d) sl = (Ret (), sy)"
    unfolding sy_def by (rule call_run(1)) (simp add: assms(8) sl_def se_def)
  have co: "conn_call env (pe_commit env) (Some d) sy = (Ret (), u)"
    unfolding u_def by (rule call_run(1)) (simp add: z(1) sy_def)
  have many: "commit_or_rollback env stmt (Some d) sl = (Ret (), u)"
    unfolding commit_or_rollback_def iseq_def by (simp add: st co)
  define sb where "sb = u\<lparr>base := (base u)\<lparr>locked := (locked (base u))(?l := False)\<rparr>\<rparr>"
  have "with_own_connection env ?w (commit_or_rollback env stmt) se = (Ret (), sb)"
    unfolding sb_def using many [unfolded sl_def] by (intro own_connection_run) (simp_all add: en st_defs)
  then have body: "iseq (pooled_execute_many env ?w stmt) (iraise e :: ('d, 'p, 'a) pio) se = (Raise e, sb)"
    using assms(4) by (simp add: iseq_def pooled_execute_many_def psycopg_execute_many_def acquire_connection_def en(6))
  have sb: "driver (clients (base sb) ?w) = Some d" "\<not> finalized (clients (base sb) ?w)" "pool_of sb c = Some k"
    "drivers (base sb) d = z"
    using en(4,5,12) assms(6) by (simp_all add: sb_def st_defs)
  from pooled_aexit_run [where t = t and token = "current (base s) t" and exc = "Some e", OF assms(1,2) sb(1-3)] obtain s' where
    s': "pooled_aexit env t c ?w (current (base s) t) (Some e) sb = (Ret (), s')"
    "durable (drivers (base s') d) = durable (drivers (base sb) d)" by blast
  define s1 where "s1 = snd (pooled_wrapper c s)"
  have w: "pooled_wrapper c s = (Ret ?w, s1)" by (simp add: wrapper_run s1_def)
  have "run_pooled env t c (\<lambda>w. iseq (pooled_execute_many env w stmt) (iraise e :: ('d, 'p, 'a) pio)) s = (Raise e, s')"
    using en(1) [folded s1_def] body s'(1) assms(5) by (simp add: run_pooled_def w with_block_def)
  then show ?thesis using s'(2) sb(4) z(2) by auto
qed

theorem psycopg_many_commits_witness:
  "\<exists>s'. run_pooled (toy_pool_env Psycopg) 0 0
     (\<lambda>w. iseq (pooled_execute_many (toy_pool_env Psycopg) w toy_write) (iraise ValidationError :: (toy_db, nat list, unit) pio)) toy_pooled
       = (Raise ValidationError, s') \<and> fst (drivers (base s') 5) = 9"
proof -
  let ?se = "pooled_entered (toy_pool_env Psycopg) 0 0 toy_pooled"
  have b: "pe_backend (toy_pool_env Psycopg) = Psycopg" by (simp add: toy_pool_env_def)
  have st: "toy_write (drivers (base ?se) 5) = (None, (fst (drivers (base ?se) 5), Some 9))" by (simp add: toy_write_def)
  from psycopg_many_commits [where 'a = unit and t = 0 and e = ValidationError and stmt = toy_write,
      OF toy_pool_laws toy_pool_reliable toy_pooled_ready(1) b toy_pooled_ready(2-4) st]
  show ?thesis by (auto simp: toy_visible_def)
qed

section \<open>A COMMIT that fails\<close>

text \<open>
  When COMMIT raises in \<^verbatim>\<open>__aexit__\<close> nothing after it runs: the connection is never given back to
  the pool, and the task's alias still stands for the wrapper.
\<close>

lemma failed_commit_leaks:
  assumes "driver (clients (base s) w) = Some d" "\<not> finalized (clients (base s) w)"
    and "pe_commit env (drivers (base s) d) = (Some err, x)"
  shows "\<exists>s'. pooled_aexit env t c w token None s = (Raise (raw_driver_exn err), s') \<and>
     pools s' = pools s \<and> (\<forall>b. alias_of t b (base s') = alias_of t b (base s)) \<and> \<not> finalized (clients (base s') w)"
proof -
  let ?s = "s\<lparr>base := (base s)\<lparr>drivers := (drivers (base s))(d := x)\<rparr>\<rparr>"
  have "raw_call (pe_commit env) (Some d) s = (Raise (raw_driver_exn err), ?s)"
    using assms(3) by (simp add: raw_call_def on_base_def drv_call_def)
  then have "pooled_commit env w s = (Raise (raw_driver_exn err), ?s)"
    using assms(1,2) by (cases "pe_backend env") (simp_all add: pooled_commit_def finish_defs iseq_def)
  then have "pooled_aexit env t c w token None s = (Raise (raw_driver_exn err), ?s)"
    using assms(2) by (simp add: pooled_aexit_def iseq_def pooled_end_def)
  then show ?thesis using assms(2) by (simp add: alias_of_def get_storage_def)
qed

text \<open>West of Greenwich the session zone is wrong: five hours behind reads as nineteen ahead.\<close>

lemma mysql_zone_behind:
  assumes "0 < h" "h < 24"
  shows "mysql_time_zone (86400 - 3600 * h) = CHR ''+'' # str_int (24 - h) @ '':00''"
proof -
  have "(86400 - 3600 * h) div 3600 = 24 - h" "(86400 - 3600 * h) mod 3600 = 0"
    by (simp_all add: algebra_simps)
  moreover have "pad_int 2 0 = ''00''" by code_simp
  ultimately show ?thesis by (simp add: mysql_time_zone_def)
qed

end
