(* ===== verification/Queries.thy ===== *)
theory Queries
  imports SqlFunctions
begin

text \<open>
  \<^verbatim>\<open>AwaitableQuery\<close> of \<^verbatim>\<open>queryset.py\<close>: how filters, orderings and annotations are put into
  pypika's query builder. The builder is the record \<open>sqlq\<close> of the calls made on it and of the
  private attributes the sources assign; \<open>aq\<close> is the object's state while it makes its query,
  the builder and the list of joined tables that keeps a table from being joined twice.
\<close>

section \<open>The query builder\<close>

datatype query_kind = SelectQuery | UpdateStatement | DeleteStatement

record sqlq =
  sq_kind :: query_kind
  sq_selects :: "term list"
  sq_joins :: "join list"                 \<comment> \<open>\<^verbatim>\<open>.join(table, left_outer).on(criterion)\<close>\<close>
  sq_wheres :: crit
  sq_havings :: crit
  sq_orderbys :: "(term \<times> order) list"
  sq_groupbys :: "term list"
  sq_limit :: "int option"
  sq_offset :: "int option"
  sq_distinct :: bool
  sq_for_update :: "(bool \<times> bool \<times> string list) option"
  sq_force :: "string list"
  sq_use :: "string list"
  sq_sets :: "(string option \<times> term) list" \<comment> \<open>\<^verbatim>\<open>.set(column, term)\<close>; the column may be \<^verbatim>\<open>None\<close>\<close>

definition base_query :: sqlq where
  "base_query = \<lparr> sq_kind = SelectQuery, sq_selects = [], sq_joins = [], sq_wheres = EmptyCriterion,
     sq_havings = EmptyCriterion, sq_orderbys = [], sq_groupbys = [], sq_limit = None,
     sq_offset = None, sq_distinct = False, sq_for_update = None, sq_force = [], sq_use = [],
     sq_sets = [] \<rparr>"

record aq =
  joined_tables :: "table list"
  query :: sqlq

definition on_query :: "(sqlq \<Rightarrow> sqlq) \<Rightarrow> aq \<Rightarrow> aq" where
  "on_query g st = st\<lparr>query := g (query st)\<rparr>"

definition add_select :: "term \<Rightarrow> aq \<Rightarrow> aq" where
  "add_select x = on_query (\<lambda>s. s\<lparr>sq_selects := sq_selects s @ [x]\<rparr>)"

definition add_orderby :: "term \<Rightarrow> order \<Rightarrow> aq \<Rightarrow> aq" where
  "add_orderby x d = on_query (\<lambda>s. s\<lparr>sq_orderbys := sq_orderbys s @ [(x, d)]\<rparr>)"

lemma aq_simps [simp]:
  "joined_tables (on_query g st) = joined_tables st" "query (on_query g st) = g (query st)"
  "joined_tables (add_select x st) = joined_tables st" "joined_tables (add_orderby x d st) = joined_tables st"
  "sq_joins (query (add_select x st)) = sq_joins (query st)"
  "sq_joins (query (add_orderby x d st)) = sq_joins (query st)"
  by (simp_all add: on_query_def add_select_def add_orderby_def)

section \<open>Joins\<close>

definition add_join :: "pypika \<Rightarrow> join \<Rightarrow> aq \<Rightarrow> aq" where
  "add_join p j st =
     (if tbl_in p (fst j) (joined_tables st) then st
      else st\<lparr>query := (query st)\<lparr>sq_joins := sq_joins (query st) @ [j]\<rparr>,
              joined_tables := joined_tables st @ [fst j]\<rparr>)"

definition add_joins :: "pypika \<Rightarrow> join list \<Rightarrow> aq \<Rightarrow> aq" where
  "add_joins p js st = foldl (\<lambda>s j. add_join p j s) st js"

definition join_table_by_field :: "orm_env \<Rightarrow> table \<Rightarrow> string \<Rightarrow> field \<Rightarrow> aq \<Rightarrow> (table \<times> aq) res" where
  "join_table_by_field env t name f st =
     rbind (get_joins_for_related_field (metas env) (pp env) t f name) (\<lambda>js.
     Inr (fst (last js), add_joins (pp env) js st))"

section \<open>Annotations\<close>

datatype annotation = AnnTerm "term" | AnnFn fn | AnnCase "case_arg list" then_arg

type_synonym annotations = "(string, annotation) dict"

definition ann_resolve :: "orm_env \<Rightarrow> nat \<Rightarrow> mid \<Rightarrow> table \<Rightarrow> annotation \<Rightarrow> (join_step list \<times> term) res" where
  "ann_resolve env lim mo t a =
     (case a of
        AnnTerm x \<Rightarrow> Inr ([], x)
      | AnnFn g \<Rightarrow> rbind (fn_resolve env lim mo t g) (\<lambda>(js, x, fo). Inr (js, x))
      | AnnCase args d \<Rightarrow> case_resolve env lim mo t args d)"

text \<open>What the conditions on annotations (\<^verbatim>\<open>Q._resolve_custom_kwarg\<close>) see of them.\<close>

definition ann_lookup :: "orm_env \<Rightarrow> nat \<Rightarrow> annotations \<Rightarrow> ann_env" where
  "ann_lookup env lim anns mo t n =
     rbind (dict_at anns n) (\<lambda>a. rbind (ann_resolve env lim mo t a) (\<lambda>(js, x). Inr x))"

definition join_steps :: "orm_env \<Rightarrow> join_step list \<Rightarrow> aq \<Rightarrow> aq res" where
  "join_steps env = rfold (\<lambda>(t, n, f) st. rbind (join_table_by_field env t n f st) (\<lambda>(_, st'). Inr st'))"

text \<open>\<^verbatim>\<open>_resolve_annotate\<close>: \<open>own\<close> are \<^verbatim>\<open>self._annotations\<close>.\<close>

definition resolve_annotate ::
    "orm_env \<Rightarrow> nat \<Rightarrow> mid \<Rightarrow> annotations \<Rightarrow> annotations \<Rightarrow> aq \<Rightarrow> (bool \<times> aq) res" where
  "resolve_annotate env lim mo own extra st =
     (if own = [] \<and> extra = [] then Inr (False, st)
      else
        rbind (rmap (\<lambda>(k, a). rbind (ann_resolve env lim mo (basetable (metas env mo)) a) (\<lambda>i. Inr (k, i)))
                 (dict_update own extra)) (\<lambda>infos.
        rbind (rfold (\<lambda>(k, js, x) s. rbind (join_steps env js s) (\<lambda>s'.
                 Inr (if dict_has own k then add_select (TAs x k) s' else s'))) infos st) (\<lambda>st'.
        Inr (list_ex (\<lambda>(k, js, x). is_aggregate (pp env) x) infos, st'))))"

section \<open>Filters\<close>

definition resolve_q_list ::
    "orm_env \<Rightarrow> nat \<Rightarrow> mid \<Rightarrow> annotations \<Rightarrow> (string, filter_info) dict \<Rightarrow> q list \<Rightarrow> modifier res" where
  "resolve_q_list env lim mo anns cf qs =
     rfold (\<lambda>x md. rbind (q_resolve env cf (ann_lookup env lim anns) lim mo (basetable (metas env mo)) x)
              (\<lambda>nm. Inr (mod_and md nm))) qs empty_modifier"

definition resolve_filters ::
    "orm_env \<Rightarrow> nat \<Rightarrow> mid \<Rightarrow> annotations \<Rightarrow> q list \<Rightarrow> annotations \<Rightarrow> (string, filter_info) dict \<Rightarrow> aq \<Rightarrow> aq res" where
  "resolve_filters env lim mo own qs anns cf st =
     rbind (resolve_annotate env lim mo own anns st) (\<lambda>(has_aggregate, st1).
     rbind (resolve_q_list env lim mo anns cf qs) (\<lambda>md.
     let st2 = add_joins (pp env) (joins md) st1;
         st3 = on_query (\<lambda>s. s\<lparr>sq_wheres := where_criterion md, sq_havings := having_criterion md\<rparr>) st2
     in Inr (if has_aggregate \<and> (joined_tables st3 \<noteq> [] \<or> crit_bool (having_criterion md) \<or> sq_orderbys (query st3) \<noteq> [])
             then on_query (\<lambda>s. s\<lparr>sq_groupbys := sq_groupbys s @
                    map (TField (basetable (metas env mo))) (db_fields (metas env mo))\<rparr>) st3
             else st3)))"

section \<open>Orderings\<close>

definition order_by_column :: "orm_env \<Rightarrow> mid \<Rightarrow> table \<Rightarrow> string \<Rightarrow> order \<Rightarrow> aq \<Rightarrow> aq res" where
  "order_by_column env mo t name d st =
     (case map_of (fields_map (metas env mo)) name of
        None \<Rightarrow> Inl FieldError
      | Some f \<Rightarrow> Inr (add_orderby (apply_function_cast env f (TField t (source_or f name))) d st))"

text \<open>
  One ordering of \<^verbatim>\<open>resolve_ordering\<close>, which calls itself on the part behind the first double
  underscore; \<open>self\<close> is the model of the query, \<open>mo\<close> the model the name belongs to.
\<close>

lemma forwarded_shorter:
  "name \<notin> S \<Longrightarrow> fst (partition2 name) \<in> S \<Longrightarrow> length (snd (partition2 name)) < length name"
  by (rule partition2_length) auto

function order_one ::
    "orm_env \<Rightarrow> nat \<Rightarrow> mid \<Rightarrow> annotations \<Rightarrow> mid \<Rightarrow> table \<Rightarrow> string \<Rightarrow> order \<Rightarrow> aq \<Rightarrow> aq res" where
  "order_one env lim self anns mo t name d st =
     (if name \<in> set (fetch_fields (metas env mo)) then Inl FieldError
      else if fst (partition2 name) \<in> set (fetch_fields (metas env mo)) then
        (case map_of (fields_map (metas env mo)) (fst (partition2 name)) of
           None \<Rightarrow> Inl PyKeyError
         | Some rf \<Rightarrow>
             (case join_table_by_field env t (fst (partition2 name)) rf st of
                Inl e \<Rightarrow> Inl e
              | Inr (rt, st') \<Rightarrow>
                  (case related_model (rel rf) of
                     None \<Rightarrow> Inl PyAttributeError
                   | Some rm \<Rightarrow> order_one env lim self [] rm rt (snd (partition2 name)) d st')))
      else case map_of anns name of
        Some a \<Rightarrow> rbind (ann_resolve env lim self t a) (\<lambda>(js, x). Inr (add_orderby x d st))
      | None \<Rightarrow> order_by_column env mo t name d st)"
  by pat_completeness auto
termination
  by (relation "measure (\<lambda>(env, lim, self, anns, mo, t, name, d, st). length name)")
    (auto intro: forwarded_shorter)

declare order_one.simps [simp del]

definition resolve_ordering ::
    "orm_env \<Rightarrow> nat \<Rightarrow> mid \<Rightarrow> mid \<Rightarrow> table \<Rightarrow> (string \<times> order) list \<Rightarrow> annotations \<Rightarrow> aq \<Rightarrow> aq res" where
  "resolve_ordering env lim self mo t ords anns st =
     rbind (if ords = [] then rbind (ordering (metas env self)) (\<lambda>dflt.
              Inr (if dflt \<noteq> [] \<and> anns = [] then dflt else [])) else Inr ords) (\<lambda>os.
     rfold (\<lambda>(name, d). order_one env lim self anns mo t name d) os st)"

section \<open>No table is joined twice\<close>

text \<open>The joined tables are those of the builder, and no two of them are the same table.\<close>

definition joins_once :: "pypika \<Rightarrow> aq \<Rightarrow> bool" where
  "joins_once p st \<longleftrightarrow> joined_tables st = map fst (sq_joins (query st)) \<and>
     sorted_wrt (\<lambda>t u. \<not> tbl_eq p u t) (joined_tables st)"

lemma joins_once_empty: "joins_once p \<lparr> joined_tables = [], query = base_query \<rparr>"
  by (simp add: joins_once_def base_query_def)

lemma joins_once_on_query [simp]:
  "(\<And>s. sq_joins (g s) = sq_joins s) \<Longrightarrow> joins_once p (on_query g st) = joins_once p st"
  by (simp add: joins_once_def)

lemma joins_once_add [simp]:
  "joins_once p (add_select x st) = joins_once p st" "joins_once p (add_orderby x d st) = joins_once p st"
  by (simp_all add: add_select_def add_orderby_def)

lemma joins_once_add_join: "joins_once p st \<Longrightarrow> joins_once p (add_join p j st)"
  by (auto simp: joins_once_def add_join_def sorted_wrt_append tbl_in_def list_ex_iff)

lemma joins_once_add_joins: "joins_once p st \<Longrightarrow> joins_once p (add_joins p js st)"
  unfolding add_joins_def by (induction js arbitrary: st) (auto intro: joins_once_add_join)

text \<open>
  What every step keeps: a property of the state that joining, ordering and setting conditions
  and groups keep (\<open>quiet_closed\<close>), and selecting, too (\<open>step_closed\<close>).
\<close>

definition quiet_closed :: "pypika \<Rightarrow> (aq \<Rightarrow> bool) \<Rightarrow> bool" where
  "quiet_closed p P \<longleftrightarrow> (\<forall>st js. P st \<longrightarrow> P (add_joins p js st)) \<and> (\<forall>st x d. P st \<longrightarrow> P (add_orderby x d st)) \<and>
     (\<forall>st w h. P st \<longrightarrow> P (on_query (\<lambda>s. s\<lparr>sq_wheres := w, sq_havings := h\<rparr>) st)) \<and>
     (\<forall>st gs. P st \<longrightarrow> P (on_query (\<lambda>s. s\<lparr>sq_groupbys := sq_groupbys s @ gs\<rparr>) st))"

definition step_closed :: "pypika \<Rightarrow> (aq \<Rightarrow> bool) \<Rightarrow> bool" where
  "step_closed p P \<longleftrightarrow> quiet_closed p P \<and> (\<forall>st x. P st \<longrightarrow> P (add_select x st))"

lemma step_quiet: "step_closed p P \<Longrightarrow> quiet_closed p P"
  by (simp add: step_closed_def)

lemma join_table_quiet:
  "join_table_by_field env t n f st = Inr (rt, st') \<Longrightarrow> quiet_closed (pp env) P \<Longrightarrow> P st \<Longrightarrow> P st'"
  by (auto simp: join_table_by_field_def rbind_eq_Inr quiet_closed_def)

lemma join_steps_quiet:
  "join_steps env js st = Inr st' \<Longrightarrow> quiet_closed (pp env) P \<Longrightarrow> P st \<Longrightarrow> P st'"
  unfolding join_steps_def
  by (erule rfold_invariant [where P = P], assumption) (auto simp: rbind_eq_Inr intro: join_table_quiet)

lemmas join_table_keeps = join_table_quiet [OF _ step_quiet]
lemmas join_steps_keeps = join_steps_quiet [OF _ step_quiet]

lemma resolve_annotate_keeps:
  assumes "resolve_annotate env lim mo own extra st = Inr (b, st')" and "step_closed (pp env) P" and "P st"
  shows "P st'"
proof (cases "own = [] \<and> extra = []")
  case False
  with assms(1) obtain infos where "rfold (\<lambda>(k, js, x) s. rbind (join_steps env js s) (\<lambda>s'.
      Inr (if dict_has own k then add_select (TAs x k) s' else s'))) infos st = Inr st'"
    by (auto simp: resolve_annotate_def rbind_eq_Inr)
  then show ?thesis
  proof (rule rfold_invariant [where P = P, OF _ assms(3)])
    fix x u v
    assume "P u" and "(case x of (k, js, x) \<Rightarrow> \<lambda>s. rbind (join_steps env js s) (\<lambda>s'.
      Inr (if dict_has own k then add_select (TAs x k) s' else s'))) u = Inr v"
    then obtain k js y u' where j: "join_steps env js u = Inr u'"
      and v: "v = (if dict_has own k then add_select (TAs y k) u' else u')"
      by (auto simp: rbind_eq_Inr split: prod.splits)
    from join_steps_keeps [OF j assms(2) \<open>P u\<close>] assms(2) show "P v" by (simp add: v step_closed_def)
  qed
qed (use assms in \<open>auto simp: resolve_annotate_def\<close>)

lemma resolve_filters_stages:
  assumes "resolve_filters env lim mo own qs anns cf st = Inr st'"
  obtains b st1 where "resolve_annotate env lim mo own anns st = Inr (b, st1)"
    "\<forall>P. quiet_closed (pp env) P \<longrightarrow> P st1 \<longrightarrow> P st'"
proof -
  from assms obtain b st1 md where a: "resolve_annotate env lim mo own anns st = Inr (b, st1)"
    and r: "resolve_q_list env lim mo anns cf qs = Inr md"
    unfolding resolve_filters_def by (auto simp: rbind_eq_Inr)
  show thesis
  proof (rule that [OF a])
    show "\<forall>P. quiet_closed (pp env) P \<longrightarrow> P st1 \<longrightarrow> P st'"
      using assms unfolding resolve_filters_def a r quiet_closed_def by (auto simp: Let_def split: if_splits)
  qed
qed

lemma resolve_filters_keeps:
  assumes "resolve_filters env lim mo own qs anns cf st = Inr st'" and "step_closed (pp env) P" and "P st"
  shows "P st'"
proof -
  obtain b st1 where a: "resolve_annotate env lim mo own anns st = Inr (b, st1)"
    and P: "\<forall>P. quiet_closed (pp env) P \<longrightarrow> P st1 \<longrightarrow> P st'"
    by (rule resolve_filters_stages [OF assms(1)])
  with step_quiet [OF assms(2)] resolve_annotate_keeps [OF a assms(2,3)] show ?thesis by blast
qed

lemma order_one_quiet:
  "order_one env lim self anns mo t name d st = Inr st' \<Longrightarrow> quiet_closed (pp env) P \<Longrightarrow> P st \<Longrightarrow> P st'"
proof (induction env lim self anns mo t name d st rule: order_one.induct)
  case (1 env lim self anns mo t name d st)
  from 1(2) have nf: "name \<notin> set (fetch_fields (metas env mo))"
    by (auto simp: order_one.simps [of env])
  show ?case
  proof (cases "fst (partition2 name) \<in> set (fetch_fields (metas env mo))")
    case True
    with 1(2) nf obtain rf rt st1 rm where r: "map_of (fields_map (metas env mo)) (fst (partition2 name)) = Some rf"
      "join_table_by_field env t (fst (partition2 name)) rf st = Inr (rt, st1)" "related_model (rel rf) = Some rm"
      "order_one env lim self [] rm rt (snd (partition2 name)) d st1 = Inr st'"
      by (auto simp: order_one.simps [of env lim self anns] split: option.splits sum.splits)
    from 1(1) [OF nf True r(1,2) refl r(3,4) 1(3)] join_table_quiet [OF r(2) 1(3,4)] show ?thesis .
  next
    case False
    with 1(2-4) nf show ?thesis
      by (auto simp: order_one.simps [of env lim self anns] rbind_eq_Inr order_by_column_def quiet_closed_def
          split: option.splits)
  qed
qed

lemma resolve_ordering_quiet:
  assumes "resolve_ordering env lim self mo t ords anns st = Inr st'" and "quiet_closed (pp env) P" and "P st"
  shows "P st'"
proof -
  from assms(1) obtain os where "rfold (\<lambda>(name, d). order_one env lim self anns mo t name d) os st = Inr st'"
    by (auto simp: resolve_ordering_def rbind_eq_Inr)
  then show ?thesis
    by (rule rfold_invariant [where P = P, OF _ assms(3)]) (auto intro: order_one_quiet [OF _ assms(2)])
qed

lemmas resolve_ordering_keeps = resolve_ordering_quiet [OF _ step_quiet]

lemma once_closed: "step_closed p (joins_once p)"
  by (auto simp: step_closed_def quiet_closed_def joins_once_add_joins)

lemmas join_table_once = join_table_keeps [OF _ once_closed]
lemmas resolve_filters_once = resolve_filters_keeps [OF _ once_closed]
lemmas resolve_ordering_once = resolve_ordering_keeps [OF _ once_closed]

section \<open>What the filters of a query mean\<close>

definition query_sem :: "(crit \<Rightarrow> tv) \<Rightarrow> sqlq \<Rightarrow> tv option" where
  "query_sem ev s = opt2 and3 (crit_sem ev (sq_wheres s)) (crit_sem ev (sq_havings s))"

lemma resolve_filters_sem:
  assumes "resolve_filters env lim mo own qs anns cf st = Inr st'"
  obtains md where "resolve_q_list env lim mo anns cf qs = Inr md" "query_sem ev (query st') = mod_sem ev md"
  using assms
  by (fastforce simp: resolve_filters_def rbind_eq_Inr Let_def query_sem_def mod_sem_def on_query_def split: if_splits)

text \<open>A condition more is the conjunction of what was there and the condition's meaning.\<close>

lemma resolve_q_list_snoc:
  assumes "sql_laws ev" and "resolve_q_list env lim mo anns cf (qs @ [x]) = Inr md'"
  obtains md where "resolve_q_list env lim mo anns cf qs = Inr md"
    "mod_sem ev md' = opt2 and3 (mod_sem ev md)
       (q_sem (leaf_sem ev env cf (ann_lookup env lim anns) lim mo (basetable (metas env mo))) x)"
proof -
  from assms(2) obtain md nm where md: "resolve_q_list env lim mo anns cf qs = Inr md"
    "q_resolve env cf (ann_lookup env lim anns) lim mo (basetable (metas env mo)) x = Inr nm" "md' = mod_and md nm"
    by (auto simp: resolve_q_list_def rfold_append rbind_eq_Inr)
  from q_resolve_sem [OF assms(1) md(2)] mod_sem_and [OF assms(1), of md nm] md(1,3) that show thesis by simp
qed

end
