(* ===== verification/QuerySets.thy ===== *)
theory QuerySets
  imports Queries ModelClass Effects
begin

text \<open>
  \<^verbatim>\<open>QuerySet\<close> of \<^verbatim>\<open>queryset.py\<close>: the builders, and the query a query set makes. A builder returns
  a clone and leaves the receiver alone, except that \<^verbatim>\<open>_clone\<close> copies some containers and
  shares others: the sets \<^verbatim>\<open>_select_related\<close>, \<^verbatim>\<open>_force_indexes\<close> and \<^verbatim>\<open>_use_indexes\<close> are objects in
  a store, and a clone has the address of the original's.
\<close>

section \<open>Query sets\<close>

text \<open>\<^verbatim>\<open>client.capabilities\<close>, as far as queries look at it.\<close>

record capabilities =
  requires_limit :: bool
  support_for_update :: bool
  support_index_hint :: bool
  support_update_limit_order_by :: bool

text \<open>
  What is to be prefetched: a name, or a \<^verbatim>\<open>Prefetch\<close> with its relation, the address of its query
  set and \<^verbatim>\<open>to_attr\<close>.
\<close>

datatype prefetch_arg = PName string | PObj string nat "string option"

record qset =
  qs_model :: mid
  qs_db :: "nat option"
  qs_caps :: capabilities
  qs_single :: bool
  qs_raise_does_not_exist :: bool
  qs_limit :: "int option"
  qs_offset :: "int option"
  qs_orderings :: "(string \<times> order) list"
  qs_q_objects :: "q list"
  qs_distinct :: bool
  qs_annotations :: annotations
  qs_custom_filters :: "(string, filter_info) dict"
  qs_fields_for_select :: "string list"
  qs_group_bys :: "string list"
  qs_for_update :: "(bool \<times> bool \<times> string list) option"
  qs_prefetch_map :: "(string, prefetch_arg list) dict"
  qs_prefetch_queries :: "(string, nat) dict"
  qs_select_related :: nat
  qs_force_indexes :: nat
  qs_use_indexes :: nat

text \<open>
  The objects query sets share by address: the sets of names, the lists of \<^verbatim>\<open>_prefetch_queries\<close>,
  and the query sets in those lists, with the \<^verbatim>\<open>query\<close> and the \<^verbatim>\<open>_joined_tables\<close> they have.
\<close>

record pquery =
  pq_set :: qset
  pq_aq :: aq

record set_store =
  cells :: "nat \<Rightarrow> string list"
  next_cell :: nat
  plists :: "nat \<Rightarrow> (string option \<times> nat) list"
  next_plist :: nat
  pqueries :: "nat \<Rightarrow> pquery"
  next_pquery :: nat

type_synonym 'a qio = "(set_store, 'a) io"

definition alloc_set :: "nat qio" where
  "alloc_set h = (Ret (next_cell h), h\<lparr>cells := (cells h)(next_cell h := []), next_cell := Suc (next_cell h)\<rparr>)"

definition alloc_plist :: "nat qio" where
  "alloc_plist h = (Ret (next_plist h), h\<lparr>plists := (plists h)(next_plist h := []), next_plist := Suc (next_plist h)\<rparr>)"

definition alloc_pquery :: "pquery \<Rightarrow> nat qio" where
  "alloc_pquery q h =
     (Ret (next_pquery h), h\<lparr>pqueries := (pqueries h)(next_pquery h := q), next_pquery := Suc (next_pquery h)\<rparr>)"

definition set_cell_add :: "nat \<Rightarrow> string \<Rightarrow> unit qio" where
  "set_cell_add a x = imodify (\<lambda>h. h\<lparr>cells := (cells h)(a := set_add x (cells h a))\<rparr>)"

definition qset_init :: "capabilities \<Rightarrow> mid \<Rightarrow> qset qio" where
  "qset_init caps mo =
     ibind alloc_set (\<lambda>a. ibind alloc_set (\<lambda>b. ibind alloc_set (\<lambda>c.
     iret \<lparr> qs_model = mo, qs_db = None, qs_caps = caps, qs_single = False,
       qs_raise_does_not_exist = False, qs_limit = None, qs_offset = None, qs_orderings = [],
       qs_q_objects = [], qs_distinct = False, qs_annotations = [], qs_custom_filters = [],
       qs_fields_for_select = [], qs_group_bys = [], qs_for_update = None, qs_prefetch_map = [],
       qs_prefetch_queries = [],
       qs_select_related = a, qs_force_indexes = b, qs_use_indexes = c \<rparr>)))"

text \<open>
  \<^verbatim>\<open>_clone\<close>: the copied containers are values here, so a clone is the same record; what the
  clone shares with the original is what the record holds by address.
\<close>

definition clone :: "qset \<Rightarrow> qset qio" where
  "clone qs = iret qs"

section \<open>Builders\<close>

definition filter_args :: "bool \<Rightarrow> q_arg list \<Rightarrow> q list res" where
  "filter_args negate args =
     rmap (\<lambda>a. case a of ArgOther \<Rightarrow> Inl PyTypeError
                | ArgQ x \<Rightarrow> if negate then q_invert x else Inr x) args"

definition filter_kwargs :: "bool \<Rightarrow> kwargs \<Rightarrow> q list res" where
  "filter_kwargs negate kw =
     rmap (\<lambda>(k, v). rbind (q_init [] AND [(k, v)]) (\<lambda>x. if negate then q_invert x else Inr x)) kw"

definition filter_or_exclude :: "bool \<Rightarrow> q_arg list \<Rightarrow> kwargs \<Rightarrow> qset \<Rightarrow> qset qio" where
  "filter_or_exclude negate args kw qs =
     ibind (clone qs) (\<lambda>c.
     ibind (ilift (filter_args negate args)) (\<lambda>xs.
     ibind (ilift (filter_kwargs negate kw)) (\<lambda>ys.
     iret (c\<lparr>qs_q_objects := qs_q_objects c @ xs @ ys\<rparr>))))"

definition order_by :: "orm_env \<Rightarrow> string list \<Rightarrow> qset \<Rightarrow> qset qio" where
  "order_by env names qs =
     ibind (clone qs) (\<lambda>c.
     ibind (ilift (rmap (\<lambda>s. rbind (resolve_ordering_string s) (\<lambda>(n, d).
         if split2_head n \<in> set (field_names (metas env (qs_model qs))) \<or> dict_has (qs_annotations qs) n
         then Inr (n, d) else Inl FieldError)) names)) (\<lambda>os.
     iret (c\<lparr>qs_orderings := os\<rparr>)))"

definition qs_set_limit :: "int \<Rightarrow> qset \<Rightarrow> qset qio" where
  "qs_set_limit n qs = (if n < 0 then iraise ParamsError else ibind (clone qs) (\<lambda>c. iret (c\<lparr>qs_limit := Some n\<rparr>)))"

definition qs_set_offset :: "int \<Rightarrow> qset \<Rightarrow> qset qio" where
  "qs_set_offset n qs =
     (if n < 0 then iraise ParamsError
      else ibind (clone qs) (\<lambda>c.
        let c1 = c\<lparr>qs_offset := Some n\<rparr> in
        iret (if requires_limit (qs_caps c1) \<and> qs_limit c1 = None then c1\<lparr>qs_limit := Some 1000000\<rparr> else c1)))"

text \<open>\<^verbatim>\<open>qs[start:stop:step]\<close>; any other key is \<open>None\<close>. A bound that is no \<^verbatim>\<open>int\<close> is not modelled.\<close>

definition getitem :: "(int option \<times> int option \<times> int option) option \<Rightarrow> qset \<Rightarrow> qset qio" where
  "getitem key qs =
     (case key of None \<Rightarrow> iraise ParamsError
      | Some (start, stop, step) \<Rightarrow>
          if step \<noteq> None \<and> step \<noteq> Some 1 then iraise ParamsError
          else
            let a = (case start of None \<Rightarrow> 0 | Some n \<Rightarrow> n) in
            if a < 0 then iraise ParamsError
            else if (case stop of None \<Rightarrow> False | Some b \<Rightarrow> b \<le> a) then iraise ParamsError
            else ibind (qs_set_offset a qs) (\<lambda>c.
              case stop of None \<Rightarrow> iret c | Some b \<Rightarrow> if b \<noteq> 0 then qs_set_limit (b - a) c else iret c))"

definition qs_set_distinct :: "qset \<Rightarrow> qset qio" where
  "qs_set_distinct qs = ibind (clone qs) (\<lambda>c. iret (c\<lparr>qs_distinct := True\<rparr>))"

definition select_for_update :: "bool \<Rightarrow> bool \<Rightarrow> string list \<Rightarrow> qset \<Rightarrow> qset qio" where
  "select_for_update nowait skip ofs qs =
     (if support_for_update (qs_caps qs)
      then ibind (clone qs) (\<lambda>c. iret (c\<lparr>qs_for_update := Some (nowait, skip, ofs)\<rparr>))
      else iret qs)"

definition annotate :: "orm_env \<Rightarrow> annotations \<Rightarrow> qset \<Rightarrow> qset qio" where
  "annotate env anns qs =
     ibind (clone qs) (\<lambda>c.
     ibind (ilift (rfold (\<lambda>(k, a) s. rbind (get_filters_for_field (metas env) k None k) (\<lambda>fl.
         Inr (s\<lparr>qs_annotations := AList.update k a (qs_annotations s),
                qs_custom_filters := dict_update (qs_custom_filters s) fl\<rparr>))) anns c)) iret)"

definition group_by :: "string list \<Rightarrow> qset \<Rightarrow> qset qio" where
  "group_by names qs = ibind (clone qs) (\<lambda>c. iret (c\<lparr>qs_group_bys := names\<rparr>))"

definition only_fields :: "string list \<Rightarrow> qset \<Rightarrow> qset qio" where
  "only_fields names qs = ibind (clone qs) (\<lambda>c. iret (c\<lparr>qs_fields_for_select := names\<rparr>))"

definition qs_first :: "qset \<Rightarrow> qset qio" where
  "qs_first qs = ibind (clone qs) (\<lambda>c. iret (c\<lparr>qs_limit := Some 1, qs_single := True\<rparr>))"

definition qs_get :: "q_arg list \<Rightarrow> kwargs \<Rightarrow> qset \<Rightarrow> qset qio" where
  "qs_get args kw qs = ibind (filter_or_exclude False args kw qs) (\<lambda>c.
     iret (c\<lparr>qs_limit := Some 2, qs_single := True, qs_raise_does_not_exist := True\<rparr>))"

definition get_or_none :: "q_arg list \<Rightarrow> kwargs \<Rightarrow> qset \<Rightarrow> qset qio" where
  "get_or_none args kw qs = ibind (filter_or_exclude False args kw qs) (\<lambda>c.
     iret (c\<lparr>qs_limit := Some 2, qs_single := True\<rparr>))"

definition add_all :: "nat \<Rightarrow> string list \<Rightarrow> unit qio" where
  "add_all a names = ifold (\<lambda>x _. set_cell_add a x) names ()"

definition select_related :: "string list \<Rightarrow> qset \<Rightarrow> qset qio" where
  "select_related names qs = ibind (clone qs) (\<lambda>c. ibind (add_all (qs_select_related c) names) (\<lambda>_. iret c))"

definition force_index :: "string list \<Rightarrow> qset \<Rightarrow> qset qio" where
  "force_index names qs =
     (if support_index_hint (qs_caps qs)
      then ibind (clone qs) (\<lambda>c. ibind (add_all (qs_force_indexes c) names) (\<lambda>_. iret c)) else iret qs)"

definition use_index :: "string list \<Rightarrow> qset \<Rightarrow> qset qio" where
  "use_index names qs =
     (if support_index_hint (qs_caps qs)
      then ibind (clone qs) (\<lambda>c. ibind (add_all (qs_use_indexes c) names) (\<lambda>_. iret c)) else iret qs)"

text \<open>
  \<^verbatim>\<open>Prefetch.__init__\<close>, for the query set at \<open>a\<close>, and \<^verbatim>\<open>resolve_for_queryset\<close>. Every \<^verbatim>\<open>Prefetch\<close> is an
  object of its own, so a set that takes one grows.
\<close>

definition prefetch_init :: "nat \<Rightarrow> unit qio" where
  "prefetch_init a = imodify (\<lambda>h. h\<lparr>pqueries := (pqueries h)(a := (pqueries h a)\<lparr>
     pq_aq := (pq_aq (pqueries h a))\<lparr>query := base_query\<rparr>\<rparr>)\<rparr>)"

definition prefetch_add :: "string \<Rightarrow> prefetch_arg \<Rightarrow> (string, prefetch_arg list) dict \<Rightarrow> (string, prefetch_arg list) dict" where
  "prefetch_add key x pm =
     AList.update key (let xs = (case map_of pm key of None \<Rightarrow> [] | Some xs \<Rightarrow> xs) in
       case x of PName n \<Rightarrow> set_add x xs | PObj r a t \<Rightarrow> xs @ [x]) pm"

definition plist_append :: "string \<Rightarrow> string option \<times> nat \<Rightarrow> (string, nat) dict \<Rightarrow> (string, nat) dict qio" where
  "plist_append key x pqs =
     (case map_of pqs key of
        Some a \<Rightarrow> iseq (imodify (\<lambda>h. h\<lparr>plists := (plists h)(a := plists h a @ [x])\<rparr>)) (iret pqs)
      | None \<Rightarrow> ibind alloc_plist (\<lambda>a.
          iseq (imodify (\<lambda>h. h\<lparr>plists := (plists h)(a := [x])\<rparr>)) (iret (AList.update key a pqs))))"

definition resolve_for_queryset :: "orm_env \<Rightarrow> string \<Rightarrow> nat \<Rightarrow> string option \<Rightarrow> qset \<Rightarrow> qset qio" where
  "resolve_for_queryset env relation a to_attr qs =
     (case partition2 relation of (fst_level, fwd) \<Rightarrow>
        if fst_level \<notin> set (fetch_fields (metas env (qs_model qs))) then iraise OperationalError
        else if fwd \<noteq> [] then
          iseq (prefetch_init a) (iret (qs\<lparr>qs_prefetch_map := prefetch_add fst_level (PObj fwd a to_attr) (qs_prefetch_map qs)\<rparr>))
        else
          ibind (plist_append fst_level (to_attr, a) (qs_prefetch_queries qs)) (\<lambda>pqs.
          iret (qs\<lparr>qs_prefetch_queries := pqs\<rparr>)))"

definition prefetch_step :: "orm_env \<Rightarrow> prefetch_arg \<Rightarrow> qset \<Rightarrow> qset qio" where
  "prefetch_step env x qs =
     (case x of
        PObj relation a to_attr \<Rightarrow> resolve_for_queryset env relation a to_attr qs
      | PName name \<Rightarrow>
          (case partition2 name of (fst_level, fwd) \<Rightarrow>
             if fst_level \<notin> set (fetch_fields (metas env (qs_model qs))) then iraise FieldError
             else
               let pm = qs_prefetch_map qs;
                   pm1 = (if dict_has pm fst_level then pm else AList.update fst_level [] pm)
               in iret (qs\<lparr>qs_prefetch_map := (if fwd \<noteq> [] then prefetch_add fst_level (PName fwd) pm1 else pm1)\<rparr>)))"

definition prefetch_related :: "orm_env \<Rightarrow> prefetch_arg list \<Rightarrow> qset \<Rightarrow> qset qio" where
  "prefetch_related env args qs =
     ibind (clone qs) (\<lambda>c. ifold (prefetch_step env) args (c\<lparr>qs_prefetch_map := []\<rparr>))"

definition using_db :: "nat option \<Rightarrow> qset \<Rightarrow> qset qio" where
  "using_db db qs = ibind (clone qs) (\<lambda>c. iret (case db of None \<Rightarrow> c | Some d \<Rightarrow> c\<lparr>qs_db := Some d\<rparr>))"

section \<open>The query of a query set\<close>

text \<open>
  \<^verbatim>\<open>_join_table_with_select_related\<close>: an entry for \<^verbatim>\<open>_select_related_idx\<close> holds the related
  model, the number of its columns, and the path of attributes.
\<close>

type_synonym related_idx = "(mid \<times> nat \<times> string \<times> mid \<times> string option list) list"

fun join_select_related ::
    "orm_env \<Rightarrow> nat \<Rightarrow> mid \<Rightarrow> table \<Rightarrow> string \<Rightarrow> string \<Rightarrow> string option list \<Rightarrow> related_idx \<times> aq \<Rightarrow> (related_idx \<times> aq) res" where
  "join_select_related env 0 mo t fld fwd path s = Inl PyRecursionError"
| "join_select_related env (Suc lim) mo t fld fwd path (idx, st) =
     (let m = metas env mo in
      if dict_has (fields_db_projection m) fld \<and> fwd \<noteq> [] then Inl FieldError
      else case map_of (fields_map m) fld of
        None \<Rightarrow> Inl FieldError
      | Some f \<Rightarrow>
          rbind (join_table_by_field env t fld f st) (\<lambda>(rt, st1).
          rbind (opt_attr (related_model (rel f))) (\<lambda>rm.
          let cols = db_fields (metas env rm);
              idx1 = set_add (rm, length cols, fld, mo, path) idx;
              st2 = foldl (\<lambda>s c. add_select (TAs (TField rt c) (tbl_name (pp env) rt @ ''.'' @ c)) s) st1 cols
          in if fwd \<noteq> [] then
               (let (nxt, fwd') = partition2 fwd in
                join_select_related env lim rm rt nxt fwd' (path @ [Some nxt]) (idx1, st2))
             else Inr (idx1, st2))))"

definition column_selects :: "meta \<Rightarrow> string list \<Rightarrow> term list res" where
  "column_selects m names =
     rmap (\<lambda>n. rbind (dict_at (fields_db_projection m) n) (\<lambda>c. Inr (TAs (TField (basetable m) c) n))) names"

definition hint_indexes :: "string list \<Rightarrow> string list \<Rightarrow> aq \<Rightarrow> aq" where
  "hint_indexes force_ixs use_ixs =
     on_query (\<lambda>s. s\<lparr>sq_force := (if force_ixs \<noteq> [] then force_ixs else sq_force s),
                     sq_use := (if use_ixs \<noteq> [] then use_ixs else sq_use s)\<rparr>)"

definition base_columns :: "orm_env \<Rightarrow> qset \<Rightarrow> (term list \<times> nat) res" where
  "base_columns env qs =
     (let m = metas env (qs_model qs); names = qs_fields_for_select qs in
      if names \<noteq> [] then rbind (column_selects m names) (\<lambda>cols. Inr (cols, length names))
      else Inr (map (TField (basetable m)) (db_fields m), length (db_fields m) + length (qs_annotations qs)))"

definition set_limits :: "qset \<Rightarrow> sqlq \<Rightarrow> sqlq" where
  "set_limits qs s =
     s\<lparr>sq_limit := (case qs_limit qs of None \<Rightarrow> sq_limit s | Some n \<Rightarrow> Some n),
       sq_offset := (case qs_offset qs of None \<Rightarrow> sq_offset s | Some n \<Rightarrow> if n \<noteq> 0 then Some n else sq_offset s),
       sq_distinct := (sq_distinct s \<or> qs_distinct qs),
       sq_for_update := (case qs_for_update qs of None \<Rightarrow> sq_for_update s | Some u \<Rightarrow> Some u)\<rparr>"

definition select_related_step :: "orm_env \<Rightarrow> nat \<Rightarrow> mid \<Rightarrow> string \<Rightarrow> related_idx \<times> aq \<Rightarrow> (related_idx \<times> aq) res" where
  "select_related_step env lim mo name s =
     (case partition2 name of (fld, fwd) \<Rightarrow>
        join_select_related env lim mo (basetable (metas env mo)) fld fwd [None, Some fld] s)"

definition make_query :: "orm_env \<Rightarrow> nat \<Rightarrow> set_store \<Rightarrow> qset \<Rightarrow> (related_idx \<times> aq) res" where
  "make_query env lim h qs =
     (let mo = qs_model qs in
      rbind (base_columns env qs) (\<lambda>(cols, n0).
      rbind (resolve_ordering env lim mo mo (basetable (metas env mo)) (qs_orderings qs) (qs_annotations qs)
               \<lparr> joined_tables = [], query = base_query\<lparr>sq_selects := cols\<rparr> \<rparr>) (\<lambda>st1.
      rbind (resolve_filters env lim mo (qs_annotations qs) (qs_q_objects qs) (qs_annotations qs)
               (qs_custom_filters qs) st1) (\<lambda>st2.
      rbind (rfold (select_related_step env lim mo) (cells h (qs_select_related qs))
               ([(mo, n0, [], mo, [None])], on_query (set_limits qs) st2)) (\<lambda>(idx, st3).
      Inr (idx, hint_indexes (cells h (qs_force_indexes qs)) (cells h (qs_use_indexes qs)) st3))))))"

section \<open>Reading the result\<close>

text \<open>The end of \<^verbatim>\<open>_execute\<close> of query sets and of \<^verbatim>\<open>values()\<close> queries.\<close>

datatype 'a answer = Rows "'a list" | One 'a | NoRow

definition pick :: "bool \<Rightarrow> bool \<Rightarrow> 'a list \<Rightarrow> 'a answer res" where
  "pick single raise_dne rows =
     (if single then
        (case rows of
           [x] \<Rightarrow> Inr (One x)
         | [] \<Rightarrow> if raise_dne then Inl DoesNotExist else Inr NoRow
         | _ \<Rightarrow> Inl MultipleObjectsReturned)
      else Inr (Rows rows))"

section \<open>Counting, deleting, asking for existence\<close>

text \<open>
  These objects keep \<^verbatim>\<open>_joined_tables\<close> from one \<^verbatim>\<open>_make_query\<close> to the next, while the builder
  starts afresh: the argument \<open>st\<close> is what an earlier call has left.
\<close>

record pending =
  pd_model :: mid
  pd_caps :: capabilities
  pd_q_objects :: "q list"
  pd_annotations :: annotations
  pd_custom_filters :: "(string, filter_info) dict"
  pd_limit :: "int option"
  pd_offset :: "int option"
  pd_orderings :: "(string \<times> order) list"
  pd_force_indexes :: nat
  pd_use_indexes :: nat

definition to_pending :: "qset \<Rightarrow> pending" where
  "to_pending qs = \<lparr> pd_model = qs_model qs, pd_caps = qs_caps qs, pd_q_objects = qs_q_objects qs,
     pd_annotations = qs_annotations qs, pd_custom_filters = qs_custom_filters qs,
     pd_limit = qs_limit qs, pd_offset = qs_offset qs, pd_orderings = qs_orderings qs,
     pd_force_indexes = qs_force_indexes qs, pd_use_indexes = qs_use_indexes qs \<rparr>"

definition pending_init :: aq where
  "pending_init = \<lparr> joined_tables = [], query = base_query \<rparr>"

definition pending_filters :: "orm_env \<Rightarrow> nat \<Rightarrow> pending \<Rightarrow> aq \<Rightarrow> aq res" where
  "pending_filters env lim p =
     resolve_filters env lim (pd_model p) [] (pd_q_objects p) (pd_annotations p) (pd_custom_filters p)"

definition make_count_query :: "orm_env \<Rightarrow> nat \<Rightarrow> set_store \<Rightarrow> pending \<Rightarrow> aq \<Rightarrow> aq res" where
  "make_count_query env lim h p st =
     rbind (pending_filters env lim p (st\<lparr>query := base_query\<rparr>)) (\<lambda>st1.
     let cnt = TFunc ''COUNT'' [VStr ''*''];
         x = (if sq_groupbys (query st1) \<noteq> [] then TOver cnt else cnt)
     in Inr (hint_indexes (cells h (pd_force_indexes p)) (cells h (pd_use_indexes p)) (add_select x st1)))"

definition make_exists_query :: "orm_env \<Rightarrow> nat \<Rightarrow> set_store \<Rightarrow> pending \<Rightarrow> aq \<Rightarrow> aq res" where
  "make_exists_query env lim h p st =
     rbind (pending_filters env lim p (st\<lparr>query := base_query\<rparr>)) (\<lambda>st1.
     Inr (hint_indexes (cells h (pd_force_indexes p)) (cells h (pd_use_indexes p))
       (add_select (TWrap (VInt 1)) (on_query (\<lambda>s. s\<lparr>sq_limit := Some 1\<rparr>) st1))))"

text \<open>The limit and the ordering of UPDATE and DELETE, where the database has them.\<close>

definition limit_order :: "orm_env \<Rightarrow> nat \<Rightarrow> pending \<Rightarrow> aq \<Rightarrow> aq res" where
  "limit_order env lim p st =
     (case pd_limit p of
        Some n \<Rightarrow>
          if support_update_limit_order_by (pd_caps p) \<and> n \<noteq> 0 then
            resolve_ordering env lim (pd_model p) (pd_model p) (basetable (metas env (pd_model p)))
              (pd_orderings p) (pd_annotations p) (on_query (\<lambda>s. s\<lparr>sq_limit := Some n\<rparr>) st)
          else Inr st
      | None \<Rightarrow> Inr st)"

definition make_delete_query :: "orm_env \<Rightarrow> nat \<Rightarrow> pending \<Rightarrow> aq \<Rightarrow> aq res" where
  "make_delete_query env lim p st =
     rbind (limit_order env lim p (st\<lparr>query := base_query\<rparr>)) (\<lambda>st1.
     rbind (pending_filters env lim p st1) (\<lambda>st2. Inr (on_query (\<lambda>s. s\<lparr>sq_kind := DeleteStatement\<rparr>) st2)))"

text \<open>\<^verbatim>\<open>CountQuery._execute\<close> on the first row of the result, if there is one.\<close>

definition count_result :: "int option \<Rightarrow> int option \<Rightarrow> int option \<Rightarrow> int" where
  "count_result lim off first_row =
     (case first_row of None \<Rightarrow> 0
      | Some n \<Rightarrow>
          (let c = n - (case off of None \<Rightarrow> 0 | Some o' \<Rightarrow> o') in
           case lim of None \<Rightarrow> c | Some l \<Rightarrow> if l \<noteq> 0 \<and> c > l then l else c))"

section \<open>Filters narrow\<close>

text \<open>What every step of select_related keeps: a predicate that selecting a column and joining a table keep.\<close>

lemma join_select_related_keeps:
  assumes sel: "\<And>x u. P u \<Longrightarrow> P (add_select x u)" and join: "\<And>js u. P u \<Longrightarrow> P (add_joins (pp env) js u)"
  shows "join_select_related env lim mo t fld fwd path (idx, st) = Inr (idx', st') \<Longrightarrow> P st \<Longrightarrow> P st'"
proof (induction lim arbitrary: mo t fld fwd path idx st)
  case (Suc lim)
  have sels: "P (foldl (\<lambda>s c. add_select (g c) s) u cols)" if "P u" for g u cols
    using that by (induction cols arbitrary: u) (simp_all add: sel)
  from Suc.prems(1) obtain f rt st1 rm where f: "map_of (fields_map (metas env mo)) fld = Some f"
    and j: "join_table_by_field env t fld f st = Inr (rt, st1)" and rm: "related_model (rel f) = Some rm"
    by (auto simp: rbind_eq_Inr Let_def split: if_splits option.splits prod.splits)
  define st2 where "st2 = foldl (\<lambda>s c. add_select (TAs (TField rt c) (tbl_name (pp env) rt @ ''.'' @ c)) s) st1 (db_fields (metas env rm))"
  from j Suc.prems(2) have "P st1" by (auto simp: join_table_by_field_def rbind_eq_Inr intro: join)
  then have "P st2" unfolding st2_def by (rule sels)
  show ?case
  proof (cases "fwd = []")
    case True
    with Suc.prems(1) f j rm have "st' = st2" by (auto simp: Let_def st2_def split: if_splits)
    with \<open>P st2\<close> show ?thesis by simp
  next
    case False
    obtain nxt fwd' where "partition2 fwd = (nxt, fwd')" by (cases "partition2 fwd")
    with Suc.prems(1) f j rm False obtain idx1 where
      "join_select_related env lim rm rt nxt fwd' (path @ [Some nxt]) (idx1, st2) = Inr (idx', st')"
      by (auto simp: Let_def st2_def split: if_splits)
    from Suc.IH [OF this \<open>P st2\<close>] show ?thesis .
  qed
qed simp

lemma select_related_keeps:
  assumes "rfold (select_related_step env lim mo) names (idx, st) = Inr (idx', st')" and "P st"
    and sel: "\<And>x u. P u \<Longrightarrow> P (add_select x u)" and join: "\<And>js u. P u \<Longrightarrow> P (add_joins (pp env) js u)"
  shows "P st'"
proof -
  have "P (snd v)" if "P (snd u)" "select_related_step env lim mo x u = Inr v" for x u v
    using join_select_related_keeps [where P = P and env = env, OF sel join] that
    by (cases u; cases v) (auto simp: select_related_step_def split: prod.splits)
  with rfold_invariant [OF assms(1), of "\<lambda>s. P (snd s)"] assms(2) show ?thesis by auto
qed

lemma query_sem_add [simp]:
  "query_sem ev (query (add_select x u)) = query_sem ev (query u)"
  "query_sem ev (query (add_joins p js u)) = query_sem ev (query u)"
proof -
  show "query_sem ev (query (add_select x u)) = query_sem ev (query u)"
    by (simp add: query_sem_def add_select_def)
  show "query_sem ev (query (add_joins p js u)) = query_sem ev (query u)"
    unfolding add_joins_def by (induction js arbitrary: u) (simp_all add: query_sem_def add_join_def)
qed

text \<open>The stages of a query that was made.\<close>

lemma make_query_stages:
  assumes "make_query env lim h qs = Inr (idx, st)"
  obtains cols n0 st1 st2 st3 where "base_columns env qs = Inr (cols, n0)"
    "resolve_ordering env lim (qs_model qs) (qs_model qs) (basetable (metas env (qs_model qs))) (qs_orderings qs)
       (qs_annotations qs) \<lparr> joined_tables = [], query = base_query\<lparr>sq_selects := cols\<rparr> \<rparr> = Inr st1"
    "resolve_filters env lim (qs_model qs) (qs_annotations qs) (qs_q_objects qs) (qs_annotations qs)
       (qs_custom_filters qs) st1 = Inr st2"
    "rfold (select_related_step env lim (qs_model qs)) (cells h (qs_select_related qs))
       ([(qs_model qs, n0, [], qs_model qs, [None])], on_query (set_limits qs) st2) = Inr (idx, st3)"
    "st = hint_indexes (cells h (qs_force_indexes qs)) (cells h (qs_use_indexes qs)) st3"
  using assms by (auto simp: make_query_def Let_def rbind_eq_Inr)

lemma make_query_sem:
  assumes "make_query env lim h qs = Inr (idx, st)"
  obtains md where "resolve_q_list env lim (qs_model qs) (qs_annotations qs) (qs_custom_filters qs) (qs_q_objects qs) = Inr md"
    "query_sem ev (query st) = mod_sem ev md"
proof -
  from make_query_stages [OF assms] obtain st1 st2 st3 n0
    where f: "resolve_filters env lim (qs_model qs) (qs_annotations qs) (qs_q_objects qs) (qs_annotations qs)
       (qs_custom_filters qs) st1 = Inr st2"
    and r: "rfold (select_related_step env lim (qs_model qs)) (cells h (qs_select_related qs))
       ([(qs_model qs, n0, [], qs_model qs, [None])], on_query (set_limits qs) st2) = Inr (idx, st3)"
    and st: "st = hint_indexes (cells h (qs_force_indexes qs)) (cells h (qs_use_indexes qs)) st3"
    by metis
  have "query_sem ev (query st3) = query_sem ev (query st2)"
  proof (rule select_related_keeps [OF r])
    show "query_sem ev (query (on_query (set_limits qs) st2)) = query_sem ev (query st2)"
      by (simp add: query_sem_def set_limits_def)
  qed simp_all
  then have "query_sem ev (query st) = query_sem ev (query st2)"
    by (simp add: st hint_indexes_def query_sem_def)
  with resolve_filters_sem [OF f, of ev] that show thesis by metis
qed

lemma q_invert_sem:
  "q_ok x \<Longrightarrow> \<not> q_negated x \<Longrightarrow> q_invert x = Inr y \<Longrightarrow> q_sem leaf y = map_option not3 (q_sem leaf x)"
  by (cases x) (auto simp: q_invert_eq)


definition sample_q :: q where
  "sample_q = Q [] [(''author__name'', VStr ''x'')] AND False"

definition ordered_env :: orm_env where
  "ordered_env = sample_env\<lparr>metas := (\<lambda>k. (sample_metas k)\<lparr>ordering_validated := True\<rparr>)\<rparr>"

definition sqlite_caps :: capabilities where
  "sqlite_caps = \<lparr> requires_limit = True, support_for_update = False, support_index_hint = False,
     support_update_limit_order_by = False \<rparr>"

definition sample_qs :: qset where
  "sample_qs = \<lparr> qs_model = sample_post, qs_db = None, qs_caps = sqlite_caps, qs_single = False,
     qs_raise_does_not_exist = False, qs_limit = None, qs_offset = None,
     qs_orderings = [(''author__name'', Desc)],
     qs_q_objects = [sample_q], qs_distinct = False, qs_annotations = [], qs_custom_filters = [],
     qs_fields_for_select = [], qs_group_bys = [], qs_for_update = None, qs_prefetch_map = [],
       qs_prefetch_queries = [],
     qs_select_related = 0, qs_force_indexes = 1, qs_use_indexes = 2 \<rparr>"

definition empty_store :: set_store where
  "empty_store = \<lparr> cells = (\<lambda>_. []), next_cell = 3, plists = (\<lambda>_. []), next_plist = 0,
     pqueries = (\<lambda>_. \<lparr> pq_set = sample_qs, pq_aq = pending_init \<rparr>), next_pquery = 0 \<rparr>"

lemma sample_q_made:
  "(case make_query ordered_env 20 empty_store sample_qs of
      Inl e \<Rightarrow> False | Inr (idx, st) \<Rightarrow> length (sq_joins (query st)) = 1)"
  by code_simp


section \<open>What clones share\<close>

datatype builder =
    BFilter bool "q_arg list" kwargs | BOrderBy "string list" | BLimit int | BOffset int
  | BItem "(int option \<times> int option \<times> int option) option" | BDistinct
  | BForUpdate bool bool "string list" | BAnnotate annotations | BGroupBy "string list"
  | BOnly "string list" | BFirst | BGet "q_arg list" kwargs | BGetOrNone "q_arg list" kwargs
  | BPrefetch "prefetch_arg list" | BUsing "nat option"
  | BSelectRelated "string list" | BForceIndex "string list" | BUseIndex "string list"

fun build :: "orm_env \<Rightarrow> builder \<Rightarrow> qset \<Rightarrow> qset qio" where
  "build env (BFilter negate args kw) = filter_or_exclude negate args kw"
| "build env (BOrderBy names) = order_by env names"
| "build env (BLimit n) = qs_set_limit n"
| "build env (BOffset n) = qs_set_offset n"
| "build env (BItem key) = getitem key"
| "build env BDistinct = qs_set_distinct"
| "build env (BForUpdate nw sk ofs) = select_for_update nw sk ofs"
| "build env (BAnnotate anns) = annotate env anns"
| "build env (BGroupBy names) = group_by names"
| "build env (BOnly names) = only_fields names"
| "build env BFirst = qs_first"
| "build env (BGet args kw) = qs_get args kw"
| "build env (BGetOrNone args kw) = get_or_none args kw"
| "build env (BPrefetch names) = prefetch_related env names"
| "build env (BUsing db) = using_db db"
| "build env (BSelectRelated names) = select_related names"
| "build env (BForceIndex names) = force_index names"
| "build env (BUseIndex names) = use_index names"

fun shared_adds :: "builder \<Rightarrow> string list" where
  "shared_adds (BSelectRelated names) = names"
| "shared_adds (BForceIndex names) = names"
| "shared_adds (BUseIndex names) = names"
| "shared_adds b = []"

lemma add_all_cells:
  "add_all a names h = (Ret u, h') \<Longrightarrow>
     set (cells h' a) = set (cells h a) \<union> set names \<and> (\<forall>b. b \<noteq> a \<longrightarrow> cells h' b = cells h b)"
  unfolding add_all_def
proof (induction names arbitrary: h u)
  case (Cons x names)
  let ?h1 = "h\<lparr>cells := (cells h)(a := set_add x (cells h a))\<rparr>"
  have "set_cell_add a x h = (Ret (), ?h1)" by (simp add: set_cell_add_def imodify_def)
  with Cons.prems have "ifold (\<lambda>x _. set_cell_add a x) names () ?h1 = (Ret u, h')" by simp
  from Cons.IH [OF this] show ?case by auto
qed (simp add: iret_def)

lemma add_all_Nil [simp]: "add_all a [] h = (Ret (), h)"
  by (simp add: add_all_def)

lemma clone_simp [simp]: "clone qs h = (Ret qs, h)"
  by (simp add: clone_def)

lemma clone_keeps [simp]: "keeps P (clone qs)"
  by (simp add: clone_def)

lemma limit_keeps [simp]: "keeps P (qs_set_limit n qs)"
  by (simp add: qs_set_limit_def keeps_ibind)

lemma offset_keeps [simp]: "keeps P (qs_set_offset n qs)"
  by (simp add: qs_set_offset_def Let_def keeps_ibind)

lemma filter_keeps [simp]: "keeps P (filter_or_exclude negate args kw qs)"
  by (simp add: filter_or_exclude_def keeps_ibind)

lemma getitem_keeps [simp]: "keeps P (getitem key qs)"
  by (auto simp: getitem_def Let_def intro!: keeps_ibind split: option.split)

text \<open>\<open>Prefetch\<close> objects change lists of prefetch queries, never the sets of names a query is made from.\<close>

lemma prefetch_step_cells: "keeps (\<lambda>h. cells h = C) (prefetch_step env x qs)"
proof -
  have pl: "keeps (\<lambda>h. cells h = C) (plist_append key y pqs)" for key y pqs
    unfolding plist_append_def iseq_def
    by (auto split: option.splits intro!: keeps_ibind keeps_imodify simp: keeps_def alloc_plist_def)
  show ?thesis
    unfolding prefetch_step_def resolve_for_queryset_def prefetch_init_def iseq_def Let_def
    by (auto split: prefetch_arg.splits prod.splits intro!: keeps_ibind keeps_imodify pl)
qed

lemma build_keeps: "shared_adds b = [] \<Longrightarrow> keeps (\<lambda>h. cells h = C) (build env b qs)"
  by (cases b) (simp_all add: order_by_def qs_set_distinct_def select_for_update_def annotate_def group_by_def
      only_fields_def qs_first_def qs_get_def get_or_none_def prefetch_related_def using_db_def
      select_related_def force_index_def use_index_def add_all_def keeps_ibind keeps_ifold prefetch_step_cells)

lemma build_store: "shared_adds b = [] \<Longrightarrow> cells (snd (build env b qs h)) = cells h"
  using build_keeps [of b "cells h"] by (simp add: keeps_def)

lemma make_query_cells: "cells h = cells h' \<Longrightarrow> make_query env lim h qs = make_query env lim h' qs"
  by (simp add: make_query_def)

text \<open>A \<^verbatim>\<open>Prefetch\<close> for a relation that has one already goes into the list the receiver has too.\<close>

lemma prefetch_shared:
  assumes "prefetch_related env [PObj relation a to_attr] qs h = (Ret c, h')" and "partition2 relation = (relation, [])"
    and "map_of (qs_prefetch_queries qs) relation = Some l"
  shows "qs_prefetch_queries c = qs_prefetch_queries qs \<and> plists h' l = plists h l @ [(to_attr, a)]"
proof -
  from assms(2,3) have "prefetch_step env (PObj relation a to_attr) (qs\<lparr>qs_prefetch_map := []\<rparr>) h =
      (if relation \<notin> set (fetch_fields (metas env (qs_model qs))) then (Raise OperationalError, h)
       else (Ret (qs\<lparr>qs_prefetch_map := []\<rparr>), h\<lparr>plists := (plists h)(l := plists h l @ [(to_attr, a)])\<rparr>))"
    by (simp add: prefetch_step_def resolve_for_queryset_def plist_append_def iseq_def ibind_def)
  with assms(1) show ?thesis
    by (auto simp: prefetch_related_def ibind_def clone_def split: if_splits)
qed

lemma select_related_Ret:
  assumes "select_related names qs h = (Ret c, h')"
  shows "c = qs" "\<exists>u. add_all (qs_select_related qs) names h = (Ret u, h')"
proof -
  from assms have "ibind (add_all (qs_select_related qs) names) (\<lambda>_. iret qs) h = (Ret c, h')"
    by (simp add: select_related_def)
  then show "c = qs" "\<exists>u. add_all (qs_select_related qs) names h = (Ret u, h')"
    unfolding ibind_Ret by (auto simp: iret_def)
qed



section \<open>Each table is joined once\<close>

lemma make_query_once:
  assumes "make_query env lim h qs = Inr (idx, st)"
  shows "joins_once (pp env) st"
proof -
  from make_query_stages [OF assms] obtain cols st1 st2 st3 n0
    where o: "resolve_ordering env lim (qs_model qs) (qs_model qs) (basetable (metas env (qs_model qs))) (qs_orderings qs)
       (qs_annotations qs) \<lparr> joined_tables = [], query = base_query\<lparr>sq_selects := cols\<rparr> \<rparr> = Inr st1"
    and f: "resolve_filters env lim (qs_model qs) (qs_annotations qs) (qs_q_objects qs) (qs_annotations qs)
       (qs_custom_filters qs) st1 = Inr st2"
    and r: "rfold (select_related_step env lim (qs_model qs)) (cells h (qs_select_related qs))
       ([(qs_model qs, n0, [], qs_model qs, [None])], on_query (set_limits qs) st2) = Inr (idx, st3)"
    and st: "st = hint_indexes (cells h (qs_force_indexes qs)) (cells h (qs_use_indexes qs)) st3"
    by metis
  have "joins_once (pp env) st1"
    by (rule resolve_ordering_once [OF o]) (simp add: joins_once_def base_query_def)
  then have "joins_once (pp env) (on_query (set_limits qs) st2)"
    using resolve_filters_once [OF f] by (simp add: set_limits_def)
  then have "joins_once (pp env) st3"
    by (rule select_related_keeps [OF r]) (simp_all add: joins_once_add_joins)
  then show ?thesis by (simp add: st hint_indexes_def)
qed

text \<open>
  C24. However many filters, orderings, annotations and related selections name the same
  relation, the query joins each table once: the tables of its joins are pairwise different (as
  pypika compares tables).
\<close>

theorem query_joins_once:
  assumes "make_query env lim h qs = Inr (idx, st)"
  shows "sorted_wrt (\<lambda>t u. \<not> tbl_eq (pp env) u t) (map fst (sq_joins (query st)))"
  using make_query_once [OF assms] by (metis joins_once_def)

theorem query_joins_once_witness:
  "\<exists>idx st. make_query ordered_env 20 empty_store sample_qs = Inr (idx, st) \<and>
     sorted_wrt (\<lambda>t u. u \<noteq> t) (map fst (sq_joins (query st)))"
proof -
  obtain idx st where m: "make_query ordered_env 20 empty_store sample_qs = Inr (idx, st)"
    using sample_q_made by (auto split: sum.splits prod.splits)
  have "tbl_eq (pp ordered_env) = (=)" by (simp add: ordered_env_def sample_env_def)
  with query_joins_once [OF m] m show ?thesis by simp
qed

section \<open>Making a query a second time\<close>

text \<open>
  \<open>settled p f st\<close>: once \<open>f\<close> has run, running it on any state that has joined those tables
  joins nothing.
\<close>

definition covers :: "pypika \<Rightarrow> aq \<Rightarrow> aq \<Rightarrow> bool" where
  "covers p st u \<longleftrightarrow> (\<forall>t. tbl_in p t (joined_tables st) \<longrightarrow> tbl_in p t (joined_tables u))"

definition settled :: "pypika \<Rightarrow> (aq \<Rightarrow> aq res) \<Rightarrow> bool" where
  "settled p f \<longleftrightarrow> (\<forall>st st'. f st = Inr st' \<longrightarrow> covers p st st' \<and>
     (\<forall>u u'. covers p st' u \<longrightarrow> f u = Inr u' \<longrightarrow>
        sq_joins (query u') = sq_joins (query u) \<and> joined_tables u' = joined_tables u))"

lemma settled_covers: "settled p f \<Longrightarrow> f st = Inr st' \<Longrightarrow> covers p st st'"
  unfolding settled_def by blast

lemma settled_idle:
  "settled p f \<Longrightarrow> f st = Inr st' \<Longrightarrow> covers p st' u \<Longrightarrow> f u = Inr u' \<Longrightarrow>
     sq_joins (query u') = sq_joins (query u) \<and> joined_tables u' = joined_tables u"
  unfolding settled_def by blast

lemma covers_refl [simp]: "covers p st st"
  by (simp add: covers_def)

lemma covers_trans: "covers p a b \<Longrightarrow> covers p b c \<Longrightarrow> covers p a c"
  by (auto simp: covers_def)

lemma add_joins_covers: "covers p st (add_joins p js st)"
proof -
  have one: "covers p st (add_join p j st)" for j st
    by (auto simp: covers_def add_join_def tbl_in_def)
  show ?thesis
    unfolding add_joins_def by (induction js arbitrary: st) (auto intro: covers_trans one)
qed

lemma add_joins_has:
  "(\<And>t. tbl_eq p t t) \<Longrightarrow> j \<in> set js \<Longrightarrow> tbl_in p (fst j) (joined_tables (add_joins p js st))"
proof (induction js arbitrary: st)
  case (Cons i js)
  have e: "add_joins p (i # js) st = add_joins p js (add_join p i st)" by (simp add: add_joins_def)
  show ?case
  proof (cases "j = i")
    case True
    have "tbl_in p (fst i) (joined_tables (add_join p i st))"
      using Cons.prems(1) by (auto simp: add_join_def tbl_in_def)
    with add_joins_covers [of p "add_join p i st" js] show ?thesis by (simp add: True e covers_def)
  next
    case False
    with Cons.prems(2) have "j \<in> set js" by simp
    from Cons.IH [OF Cons.prems(1) this] show ?thesis by (simp add: e)
  qed
qed simp

lemma add_joins_idle:
  "(\<And>j. j \<in> set js \<Longrightarrow> tbl_in p (fst j) (joined_tables u)) \<Longrightarrow> add_joins p js u = u"
proof (induction js)
  case (Cons j js)
  then have "add_join p j u = u" by (simp add: add_join_def)
  with Cons show ?case by (simp add: add_joins_def)
qed (simp add: add_joins_def)

lemma settled_id [simp]: "settled p Inr"
  by (simp add: settled_def)

lemma settled_bind:
  assumes "settled p f" "settled p g"
  shows "settled p (\<lambda>s. rbind (f s) g)"
  unfolding settled_def
proof (intro allI impI conjI)
  fix st st'' assume "rbind (f st) g = Inr st''"
  then obtain st' where f: "f st = Inr st'" and g: "g st' = Inr st''" by (auto simp: rbind_eq_Inr)
  note c = settled_covers [OF assms(1) f] settled_covers [OF assms(2) g]
  from c show "covers p st st''" by (rule covers_trans)
  fix u u'' assume u: "covers p st'' u" and "rbind (f u) g = Inr u''"
  then obtain u' where fu: "f u = Inr u'" and gu: "g u' = Inr u''" by (auto simp: rbind_eq_Inr)
  note 1 = settled_idle [OF assms(1) f covers_trans [OF c(2) u] fu]
  from 1 u have "covers p st'' u'" by (simp add: covers_def)
  from settled_idle [OF assms(2) g this gu] 1
  show "sq_joins (query u'') = sq_joins (query u)" "joined_tables u'' = joined_tables u" by simp_all
qed

lemma settled_rfold: "(\<And>x. settled p (f x)) \<Longrightarrow> settled p (rfold f xs)"
proof (induction xs)
  case Nil
  have "rfold f [] = Inr" by (rule ext) simp
  then show ?case by simp
next
  case (Cons x xs)
  have e: "rfold f (x # xs) = (\<lambda>s. rbind (f x s) (rfold f xs))" by (rule ext) simp
  show ?case unfolding e by (rule settled_bind) (rule Cons.prems, rule Cons.IH [OF Cons.prems])
qed

lemma settled_add_joins:
  assumes refl: "\<And>t. tbl_eq p t t"
  shows "settled p (\<lambda>s. Inr (add_joins p js s))"
  unfolding settled_def sum.inject
proof (intro allI impI conjI)
  fix st st' u u' assume st': "add_joins p js st = st'"
  then show "covers p st st'" using add_joins_covers by blast
  assume u: "covers p st' u" and u': "add_joins p js u = u'"
  have "tbl_in p (fst j) (joined_tables u)" if "j \<in> set js" for j
    using add_joins_has [OF refl that] u unfolding covers_def st' [symmetric] by blast
  then have "add_joins p js u = u" by (rule add_joins_idle)
  with u' show "sq_joins (query u') = sq_joins (query u)" "joined_tables u' = joined_tables u" by simp_all
qed

text \<open>Computations that do not touch the joins settle, whatever else they change.\<close>
lemma settled_other:
  assumes "\<And>s. sq_joins (query (g s)) = sq_joins (query s)" and "\<And>s. joined_tables (g s) = joined_tables s"
  shows "settled p (\<lambda>s. Inr (g s))"
  unfolding settled_def sum.inject
proof (intro allI impI conjI)
  fix st st' u u' assume e: "g st = st'"
  show "covers p st st'" unfolding covers_def e [symmetric] assms(2) by blast
  assume u': "g u = u'"
  show "sq_joins (query u') = sq_joins (query u)" unfolding u' [symmetric] by (rule assms(1))
  show "joined_tables u' = joined_tables u" unfolding u' [symmetric] by (rule assms(2))
qed

lemma settled_fail: "settled p (\<lambda>s. Inl e)"
  unfolding settled_def by blast

lemma settled_bind_res: "(\<And>a. settled p (f a)) \<Longrightarrow> settled p (\<lambda>s. rbind r (\<lambda>a. f a s))"
  by (cases r) (simp_all add: settled_fail)

lemma join_steps_settled:
  assumes refl: "\<And>t. tbl_eq (pp env) t t"
  shows "settled (pp env) (join_steps env js)"
proof -
  have "settled (pp env) (\<lambda>s. rbind (join_table_by_field env t n f s) (\<lambda>(_, s'). Inr s'))" for t n f
  proof -
    have "(\<lambda>s. rbind (join_table_by_field env t n f s) (\<lambda>(_, s'). Inr s')) =
        (\<lambda>s. rbind (get_joins_for_related_field (metas env) (pp env) t f n) (\<lambda>js. Inr (add_joins (pp env) js s)))"
      by (rule ext) (simp add: join_table_by_field_def rbind_assoc)
    then show ?thesis by (simp add: settled_bind_res settled_add_joins refl)
  qed
  then show ?thesis unfolding join_steps_def by (intro settled_rfold) (simp add: split_beta)
qed

text \<open>\<^verbatim>\<open>_resolve_annotate\<close> without annotations of its own joins what the given ones need.\<close>

lemma resolve_annotate_settled:
  assumes refl: "\<And>t. tbl_eq (pp env) t t"
  shows "settled (pp env) (\<lambda>s. rbind (resolve_annotate env lim mo [] extra s) (\<lambda>(b, s'). Inr s'))"
proof (cases "extra = []")
  case True
  then show ?thesis by (simp add: resolve_annotate_def)
next
  case False
  then have "(\<lambda>s. rbind (resolve_annotate env lim mo [] extra s) (\<lambda>(b, s'). Inr s')) =
      (\<lambda>s. rbind (rmap (\<lambda>(k, a). rbind (ann_resolve env lim mo (basetable (metas env mo)) a) (\<lambda>i. Inr (k, i)))
         (dict_update [] extra)) (\<lambda>infos. rfold (\<lambda>(k, js, x). join_steps env js) infos s))"
    by (intro ext) (simp add: resolve_annotate_def rbind_assoc dict_has_def case_prod_unfold)
  moreover have "settled (pp env) (rfold (\<lambda>(k, js, x). join_steps env js) infos)" for infos
    by (rule settled_rfold) (simp add: split_beta join_steps_settled [OF refl])
  ultimately show ?thesis
    by (simp only:) (rule settled_bind_res)
qed

text \<open>The joins of \<^verbatim>\<open>resolve_filters\<close>, for a query that selects no annotation.\<close>

definition filter_joins :: "orm_env \<Rightarrow> nat \<Rightarrow> pending \<Rightarrow> aq \<Rightarrow> aq res" where
  "filter_joins env lim p st =
     rbind (rbind (resolve_annotate env lim (pd_model p) [] (pd_annotations p) st) (\<lambda>(b, s'). Inr s')) (\<lambda>s.
     rbind (resolve_q_list env lim (pd_model p) (pd_annotations p) (pd_custom_filters p) (pd_q_objects p)) (\<lambda>md.
     Inr (add_joins (pp env) (joins md) s)))"

lemma filter_joins_settled:
  assumes refl: "\<And>t. tbl_eq (pp env) t t"
  shows "settled (pp env) (filter_joins env lim p)"
proof -
  have "filter_joins env lim p =
      (\<lambda>st. rbind (rbind (resolve_annotate env lim (pd_model p) [] (pd_annotations p) st) (\<lambda>(b, s'). Inr s'))
        (\<lambda>s. rbind (resolve_q_list env lim (pd_model p) (pd_annotations p) (pd_custom_filters p) (pd_q_objects p))
          (\<lambda>md. Inr (add_joins (pp env) (joins md) s))))"
    by (rule ext) (simp only: filter_joins_def)
  then show ?thesis
    by (simp only:) (intro settled_bind settled_bind_res resolve_annotate_settled settled_add_joins refl)
qed

lemma pending_filters_joins:
  assumes "pending_filters env lim p st = Inr st'"
  obtains s md where "filter_joins env lim p st = Inr s" "joined_tables st' = joined_tables s"
    "sq_joins (query st') = sq_joins (query s)"
    "resolve_q_list env lim (pd_model p) (pd_annotations p) (pd_custom_filters p) (pd_q_objects p) = Inr md"
    "sq_wheres (query st') = where_criterion md"
proof -
  from assms obtain b s1 md where a: "resolve_annotate env lim (pd_model p) [] (pd_annotations p) st = Inr (b, s1)"
    and q: "resolve_q_list env lim (pd_model p) (pd_annotations p) (pd_custom_filters p) (pd_q_objects p) = Inr md"
    and st': "joined_tables st' = joined_tables (add_joins (pp env) (joins md) s1) \<and>
      sq_joins (query st') = sq_joins (query (add_joins (pp env) (joins md) s1)) \<and>
      sq_wheres (query st') = where_criterion md"
    by (auto simp: pending_filters_def resolve_filters_def rbind_eq_Inr Let_def split: if_splits)
  have "filter_joins env lim p st = Inr (add_joins (pp env) (joins md) s1)"
    by (simp add: filter_joins_def a q)
  with that q st' show thesis by blast
qed

lemma make_count_query_filters:
  assumes "make_count_query env lim h p st = Inr st'"
  obtains s where "pending_filters env lim p (st\<lparr>query := base_query\<rparr>) = Inr s"
    "joined_tables st' = joined_tables s" "sq_joins (query st') = sq_joins (query s)"
    "sq_wheres (query st') = sq_wheres (query s)"
proof -
  from assms obtain s x where s: "pending_filters env lim p (st\<lparr>query := base_query\<rparr>) = Inr s"
    and st': "st' = hint_indexes (cells h (pd_force_indexes p)) (cells h (pd_use_indexes p)) (add_select x s)"
    by (auto simp: make_count_query_def Let_def rbind_eq_Inr)
  show thesis
    by (rule that [OF s]) (simp_all add: st' hint_indexes_def add_select_def)
qed

text \<open>
  A count query keeps the list of the tables it has joined but starts a new builder, so when it
  makes its SQL again (\<^verbatim>\<open>sql()\<close> and then \<^verbatim>\<open>await\<close>) it has the same conditions and no join at
  all: a condition on a related table then refers to a table that the query does not have.
\<close>

theorem requery_loses_joins:
  assumes refl: "\<And>t. tbl_eq (pp env) t t"
    and "make_count_query env lim h p pending_init = Inr st1" and "make_count_query env lim h p st1 = Inr st2"
  shows "sq_joins (query st2) = [] \<and> sq_wheres (query st2) = sq_wheres (query st1)"
proof -
  from make_count_query_filters [OF assms(2)] obtain s1 where 1:
    "pending_filters env lim p (pending_init\<lparr>query := base_query\<rparr>) = Inr s1" "joined_tables st1 = joined_tables s1"
    "sq_wheres (query st1) = sq_wheres (query s1)" by metis
  from make_count_query_filters [OF assms(3)] obtain s2 where 2:
    "pending_filters env lim p (st1\<lparr>query := base_query\<rparr>) = Inr s2" "sq_joins (query st2) = sq_joins (query s2)"
    "sq_wheres (query st2) = sq_wheres (query s2)" by metis
  from pending_filters_joins [OF 1(1)] obtain f1 md where f1:
    "filter_joins env lim p (pending_init\<lparr>query := base_query\<rparr>) = Inr f1" "joined_tables s1 = joined_tables f1"
    "resolve_q_list env lim (pd_model p) (pd_annotations p) (pd_custom_filters p) (pd_q_objects p) = Inr md"
    "sq_wheres (query s1) = where_criterion md" by metis
  from pending_filters_joins [OF 2(1)] f1(3) obtain f2 where f2:
    "filter_joins env lim p (st1\<lparr>query := base_query\<rparr>) = Inr f2" "sq_joins (query s2) = sq_joins (query f2)"
    "sq_wheres (query s2) = where_criterion md" by (metis sum.inject(2))
  have "covers (pp env) f1 (st1\<lparr>query := base_query\<rparr>)"
    by (simp add: covers_def 1(2) f1(2))
  from settled_idle [OF filter_joins_settled [OF refl] f1(1) this f2(1)]
  have "sq_joins (query f2) = []" by (simp add: base_query_def)
  then show ?thesis by (simp add: 1(3) 2(2,3) f1(4) f2(2,3))
qed

theorem requery_loses_joins_witness:
  "\<exists>st1 st2. make_count_query ordered_env 20 empty_store (to_pending sample_qs) pending_init = Inr st1 \<and>
     length (sq_joins (query st1)) = 1 \<and>
     make_count_query ordered_env 20 empty_store (to_pending sample_qs) st1 = Inr st2 \<and> sq_joins (query st2) = []"
proof -
  have "(case make_count_query ordered_env 20 empty_store (to_pending sample_qs) pending_init of
      Inl e \<Rightarrow> False | Inr st1 \<Rightarrow> length (sq_joins (query st1)) = 1 \<and>
        (case make_count_query ordered_env 20 empty_store (to_pending sample_qs) st1 of Inl e \<Rightarrow> False | Inr st2 \<Rightarrow> True))"
    by code_simp
  then obtain st1 st2 where 1: "make_count_query ordered_env 20 empty_store (to_pending sample_qs) pending_init = Inr st1"
    and 2: "length (sq_joins (query st1)) = 1"
    and 3: "make_count_query ordered_env 20 empty_store (to_pending sample_qs) st1 = Inr st2"
    by (auto split: sum.splits)
  have "tbl_eq (pp ordered_env) t t" for t by (simp add: ordered_env_def sample_env_def)
  from requery_loses_joins [OF this 1 3] 1 2 3 show ?thesis by blast
qed

section \<open>Counting a window\<close>

definition window :: "int option \<Rightarrow> int option \<Rightarrow> 'a list \<Rightarrow> 'a list" where
  "window lim off rows =
     (let rest = drop (case off of None \<Rightarrow> 0 | Some n \<Rightarrow> nat n) rows in
      case lim of None \<Rightarrow> rest | Some n \<Rightarrow> take (nat n) rest)"

text \<open>
  \<^verbatim>\<open>count()\<close> of a sliced query set is the number of rows the slice has, exactly when the offset
  does not pass the end and the limit is not zero (or nothing is left to count): past the end
  the count is negative, and \<^verbatim>\<open>limit(0).count()\<close> counts as if there were no limit.
\<close>

theorem count_of_window:
  assumes "\<And>o'. off = Some o' \<Longrightarrow> 0 \<le> o'" and "\<And>l. lim = Some l \<Longrightarrow> 0 \<le> l"
  shows "count_result lim off (Some (int (length rows))) = int (length (window lim off rows)) \<longleftrightarrow>
     (case off of None \<Rightarrow> 0 | Some o' \<Rightarrow> o') \<le> int (length rows) \<and>
     (lim = Some 0 \<longrightarrow> (case off of None \<Rightarrow> 0 | Some o' \<Rightarrow> o') = int (length rows))"
proof -
  define o' where "o' = (case off of None \<Rightarrow> 0 | Some o' \<Rightarrow> o')"
  have o: "0 \<le> o'" using assms(1) by (auto simp: o'_def split: option.split)
  have w: "int (length (window lim off rows)) =
     (case lim of None \<Rightarrow> max 0 (int (length rows) - o') | Some l \<Rightarrow> min l (max 0 (int (length rows) - o')))"
    using assms(2) o by (cases off; cases lim) (auto simp: window_def o'_def)
  show ?thesis
    using assms(2) o w by (cases lim) (auto simp: count_result_def Let_def o'_def [symmetric])
qed

theorem count_of_window_witness:
  "count_result (Some 2) (Some 1) (Some (int (length [VInt 7, VInt 8, VInt 9]))) = int (length (window (Some 2) (Some 1) [VInt 7, VInt 8, VInt 9]))"
proof -
  have "(0::int) \<le> o'" if "Some 1 = Some o'" for o' using that by simp
  moreover have "(0::int) \<le> l" if "Some 2 = Some l" for l using that by simp
  ultimately show ?thesis using count_of_window [of "Some 1" "Some 2" "[VInt 7, VInt 8, VInt 9]"] by simp
qed

end
