(* ===== verification/Objects.thy ===== *)
theory Objects
  imports QuerySets
begin

text \<open>
  Model instances (\<^verbatim>\<open>Model\<close> of \<^verbatim>\<open>models.py\<close>): Python objects with a dictionary of attributes. The
  process keeps the objects in a store, because relations, query results and caches share
  them; \<open>session\<close> also holds the executor cache and the database. The sub-dictionary
  \<^verbatim>\<open>_await_when_save\<close> has an address of its own: \<^verbatim>\<open>copy(instance)\<close> shares it.
\<close>

section \<open>Objects and their store\<close>

datatype attr =
    APy pyval                      \<comment> \<open>a plain value\<close>
  | AInst nat                      \<comment> \<open>a model instance\<close>
  | AInsts "nat list"              \<comment> \<open>a list of model instances\<close>
  | ARelation nat                  \<comment> \<open>a relation container\<close>
  | AQuery qset                    \<comment> \<open>a query set that was not awaited\<close>
  | ANoneAwaitable

record inst =
  i_model :: mid
  i_dict :: "(string, attr) dict"
  i_partial :: bool
  i_saved :: bool                  \<comment> \<open>\<^verbatim>\<open>_saved_in_db\<close>\<close>
  i_custom_pk :: bool              \<comment> \<open>\<^verbatim>\<open>_custom_generated_pk\<close>\<close>
  i_await :: nat                   \<comment> \<open>address of \<^verbatim>\<open>_await_when_save\<close>\<close>

text \<open>\<^verbatim>\<open>ReverseRelation\<close>, and \<^verbatim>\<open>ManyToManyRelation\<close>, which has its field, too.\<close>

record container =
  ct_model :: mid                  \<comment> \<open>\<^verbatim>\<open>remote_model\<close>\<close>
  ct_field :: string               \<comment> \<open>\<^verbatim>\<open>relation_field\<close>\<close>
  ct_instance :: nat
  ct_from :: string                \<comment> \<open>\<^verbatim>\<open>from_field\<close>\<close>
  ct_m2m :: "field option"
  ct_fetched :: bool
  ct_objects :: "nat list"         \<comment> \<open>\<^verbatim>\<open>related_objects\<close>\<close>

text \<open>SQL statements the executor sends; values are bound to their placeholders.\<close>

datatype stmt =
    InsertInto table "string list" "term list" "string list" bool
      \<comment> \<open>columns, values, \<^verbatim>\<open>returning\<close>, \<^verbatim>\<open>on_conflict().do_nothing()\<close>\<close>
  | UpdateSet table "(string \<times> term) list" string "term"   \<comment> \<open>\<^verbatim>\<open>WHERE column = term\<close>\<close>
  | DeleteFrom table string "term"
  | InsertUpdate table "string list" "term list" "string list" string "string list" "string list"
      \<comment> \<open>an INSERT with alias, \<^verbatim>\<open>on_conflict\<close> and the fields of its \<^verbatim>\<open>do_update\<close>\<close>
  | Built sqlq                     \<comment> \<open>what the query builder holds\<close>
  | InsertRows table "string list" "pyval list list"
  | RawSql string
  | SelectFrom table "string list" crit
  | DeleteWhere table crit
  | LinkedSelect table string string "pyval list" string sqlq
      \<comment> \<open>a query joined with \<^verbatim>\<open>SELECT backward AS _backward_relation_key, forward AS _forward_relation_key
         FROM through WHERE backward IN keys\<close>, where the forward key is the given column\<close>

datatype reply =
    RowId int                      \<comment> \<open>\<^verbatim>\<open>lastrowid\<close>\<close>
  | RowCount int
  | RowValues "pyval list"         \<comment> \<open>the values of a RETURNING clause\<close>
  | RowNothing
  | Fetched int "(string, pyval) dict list"  \<comment> \<open>both results of \<^verbatim>\<open>execute_query\<close>\<close>

record exec_entry =                \<comment> \<open>an entry of \<^verbatim>\<open>EXECUTOR_CACHE\<close>\<close>
  regular_columns :: "string list"
  insert_query :: stmt
  regular_columns_all :: "string list"
  insert_query_all :: stmt
  column_map :: "(string, field) dict"
  delete_query :: stmt

type_synonym exec_key = "string \<times> string option \<times> string"

record 'd session =
  objs :: "nat \<Rightarrow> inst"
  next_obj :: nat
  awaits :: "nat \<Rightarrow> (string, nat) dict"
  next_await :: nat
  exec_cache :: "(exec_key, exec_entry) dict"
  update_cache :: "exec_key \<Rightarrow> (string, stmt) dict"
  containers :: "nat \<Rightarrow> container"
  next_container :: nat
  qstore :: set_store              \<comment> \<open>what query sets share\<close>
  sdb :: 'd

type_synonym ('d, 'a) sio = "('d session, 'a) io"

text \<open>
  What the process runs with: the environment of queries, what calling a default gives, the
  types a driver converts itself (\<^verbatim>\<open>DB_NATIVE\<close>), and the connection, which is not part of the
  model: \<open>send\<close> is its \<^verbatim>\<open>execute_query\<close>, \<^verbatim>\<open>execute_insert\<close> or one row of \<^verbatim>\<open>execute_many\<close>.
\<close>

record 'd run_env =
  orm :: orm_env
  call_default :: "nat \<Rightarrow> pyval res"
  await_default :: "nat \<Rightarrow> pyval res"
  db_native :: "pytype \<Rightarrow> bool"
  connection_name :: string
  caps :: capabilities
  postgres :: bool                 \<comment> \<open>\<^verbatim>\<open>BasePostgresExecutor\<close>\<close>
  send :: "stmt \<Rightarrow> pyval list \<Rightarrow> ('d, reply) io"

abbreviation model_of :: "'d run_env \<Rightarrow> mid \<Rightarrow> meta" where
  "model_of rv \<equiv> metas (orm rv)"

section \<open>Attributes\<close>

text \<open>What a conversion of columns sees of an attribute: instances and containers are objects it knows nothing of.\<close>

fun plain :: "attr \<Rightarrow> pyval" where
  "plain (APy x) = x"
| "plain (AInst b) = VObj (PyOther ''Model'') b True"
| "plain (AInsts xs) = VList (map (\<lambda>b. VObj (PyOther ''Model'') b True) xs)"
| "plain (ARelation c) = VObj (PyOther ''RelationContainer'') c True"
| "plain (AQuery q) = VObj (PyOther ''QuerySet'') 0 True"
| "plain ANoneAwaitable = VObj (PyOther ''NoneAwaitable'') 0 False"

lemma plain_None [simp]: "plain v = VNone \<longleftrightarrow> v = APy VNone"
  by (cases v) auto

definition update_obj :: "nat \<Rightarrow> (inst \<Rightarrow> inst) \<Rightarrow> ('d, unit) sio" where
  "update_obj a g = imodify (\<lambda>s. s\<lparr>objs := (objs s)(a := g (objs s a))\<rparr>)"

definition attr_at :: "inst \<Rightarrow> string \<Rightarrow> attr res" where
  "attr_at i n = opt_attr (map_of (i_dict i) n)"

definition get_raw :: "nat \<Rightarrow> string \<Rightarrow> ('d, attr) sio" where
  "get_raw a n s = ilift (attr_at (objs s a) n) s"

text \<open>\<^verbatim>\<open>Model.__setattr__\<close> of an attribute that is no property.\<close>

definition put_state :: "nat \<Rightarrow> string \<Rightarrow> attr \<Rightarrow> 'd session \<Rightarrow> 'd session" where
  "put_state a n v s =
     (let w = i_await (objs s a) in
      s\<lparr>awaits := (awaits s)(w := AList.delete n (awaits s w)),
        objs := (objs s)(a := (objs s a)\<lparr>i_dict := AList.update n v (i_dict (objs s a))\<rparr>)\<rparr>)"

definition put_raw :: "nat \<Rightarrow> string \<Rightarrow> attr \<Rightarrow> ('d, unit) sio" where
  "put_raw a n v = imodify (put_state a n v)"

text \<open>A value that is no instance has no attributes of a model.\<close>

definition attr_of :: "attr \<Rightarrow> string \<Rightarrow> ('d, attr) sio" where
  "attr_of v n = (case v of AInst b \<Rightarrow> get_raw b n | _ \<Rightarrow> iraise PyAttributeError)"

definition attr_truthy :: "attr \<Rightarrow> bool" where
  "attr_truthy v = (case v of APy x \<Rightarrow> truthy x | AInsts xs \<Rightarrow> xs \<noteq> [] | ANoneAwaitable \<Rightarrow> False | _ \<Rightarrow> True)"

text \<open>\<^verbatim>\<open>_fk_setter\<close>\<close>

definition fk_setter :: "nat \<Rightarrow> attr \<Rightarrow> string \<Rightarrow> string \<Rightarrow> string \<Rightarrow> ('d, unit) sio" where
  "fk_setter a v key relation_fld to_fld =
     ibind (if attr_truthy v then attr_of v to_fld else iret (APy VNone)) (\<lambda>k.
     iseq (put_raw a relation_fld k) (put_raw a key v))"

text \<open>
  \<^verbatim>\<open>setattr(self, name, value)\<close>: \<^verbatim>\<open>_generate_lazy_fk_m2m_fields\<close> has made the relations
  properties of the class (those of backward and many-to-many relations have no setter), and
  \<^verbatim>\<open>pk\<close> stands for the attribute of the primary key.
\<close>

definition py_setattr :: "'d run_env \<Rightarrow> nat \<Rightarrow> string \<Rightarrow> attr \<Rightarrow> ('d, unit) sio" where
  "py_setattr rv a name v s =
     (let m = model_of rv (i_model (objs s a)) in
      if name \<in> set (fk_fields m) \<union> set (o2o_fields m) then
        ibind (ilift (dict_at (fields_map m) name)) (\<lambda>f.
        ibind (ilift (to_field_obj (metas (orm rv)) f)) (\<lambda>tf.
        ibind (ilift (opt_attr (source_field f))) (\<lambda>sf.
        fk_setter a v (''_'' @ name) sf (model_field_name tf)))) s
      else if name \<in> set (backward_fk_fields m) \<union> set (backward_o2o_fields m) \<union> set (m2m_fields m) then
        iraise PyAttributeError s
      else if name = ''pk'' then put_raw a (pk_attr m) v s
      else put_raw a name v s)"

text \<open>\<^verbatim>\<open>instance.pk\<close>\<close>

definition get_pk_val :: "'d run_env \<Rightarrow> nat \<Rightarrow> ('d, attr) sio" where
  "get_pk_val rv a = iget (\<lambda>s.
     case map_of (i_dict (objs s a)) (pk_attr (model_of rv (i_model (objs s a)))) of
       None \<Rightarrow> APy VNone | Some v \<Rightarrow> v)"

section \<open>Relations as attributes\<close>

text \<open>Computations on query sets, and \<^verbatim>\<open>Model.filter(**kwargs)\<close> with the default manager.\<close>

definition on_sets :: "'a qio \<Rightarrow> ('d, 'a) sio" where
  "on_sets c s = (case c (qstore s) of (r, h) \<Rightarrow> (r, s\<lparr>qstore := h\<rparr>))"

definition model_filter :: "'d run_env \<Rightarrow> mid \<Rightarrow> kwargs \<Rightarrow> ('d, qset) sio" where
  "model_filter rv mo kw = on_sets (ibind (qset_init (caps rv) mo) (filter_or_exclude False [] kw))"

definition filter_first :: "'d run_env \<Rightarrow> mid \<Rightarrow> kwargs \<Rightarrow> ('d, qset) sio" where
  "filter_first rv mo kw = ibind (model_filter rv mo kw) (\<lambda>q. on_sets (qs_first q))"

definition new_container :: "container \<Rightarrow> ('d, nat) sio" where
  "new_container c s =
     (Ret (next_container s), s\<lparr>containers := (containers s)(next_container s := c), next_container := Suc (next_container s)\<rparr>)"

definition relation_init :: "mid \<Rightarrow> string \<Rightarrow> nat \<Rightarrow> string \<Rightarrow> field option \<Rightarrow> container" where
  "relation_init remote fld a from_fld m2m = \<lparr> ct_model = remote, ct_field = fld, ct_instance = a, ct_from = from_fld,
     ct_m2m = m2m, ct_fetched = False, ct_objects = [] \<rparr>"

text \<open>\<^verbatim>\<open>_fk_getter\<close>\<close>

definition fk_getter :: "'d run_env \<Rightarrow> nat \<Rightarrow> string \<Rightarrow> field \<Rightarrow> ('d, attr) sio" where
  "fk_getter rv a name f =
     ibind (ilift (to_field_obj (metas (orm rv)) f)) (\<lambda>tf.
     ibind (ilift (opt_attr (source_field f))) (\<lambda>sf.
     ibind (ilift (opt_attr (related_model (rel f)))) (\<lambda>rm.
     icatch (get_raw a (''_'' @ name)) (\<lambda>e.
       if exn_isa e PyAttributeError then
         ibind (get_raw a sf) (\<lambda>v.
         if v = APy VNone then iret ANoneAwaitable
         else ibind (filter_first rv rm [(model_field_name tf, plain v)]) (\<lambda>q. iret (AQuery q)))
       else iraise e))))"

text \<open>\<^verbatim>\<open>_rfk_getter\<close> and \<^verbatim>\<open>_m2m_getter\<close>: the container is made once.\<close>

definition container_getter :: "nat \<Rightarrow> string \<Rightarrow> container \<Rightarrow> ('d, attr) sio" where
  "container_getter a key c s =
     (case map_of (i_dict (objs s a)) key of
        Some v \<Rightarrow> if v = APy VNone
          then ibind (new_container c) (\<lambda>n. iseq (put_raw a key (ARelation n)) (iret (ARelation n))) s
          else (Ret v, s)
      | None \<Rightarrow> ibind (new_container c) (\<lambda>n. iseq (put_raw a key (ARelation n)) (iret (ARelation n))) s)"

definition rfk_getter :: "'d run_env \<Rightarrow> nat \<Rightarrow> string \<Rightarrow> field \<Rightarrow> ('d, attr) sio" where
  "rfk_getter rv a name f =
     ibind (ilift (to_field_obj (metas (orm rv)) f)) (\<lambda>tf.
     ibind (ilift (opt_attr (related_model (rel f)))) (\<lambda>rm.
     container_getter a (''_'' @ name) (relation_init rm (relation_field (rel f)) a (model_field_name tf) None)))"

definition rel_name :: "field \<Rightarrow> string" where
  "rel_name f = (case related_name (rel f) of RelName n \<Rightarrow> n | _ \<Rightarrow> [])"

definition m2m_getter :: "'d run_env \<Rightarrow> nat \<Rightarrow> string \<Rightarrow> field \<Rightarrow> ('d, attr) sio" where
  "m2m_getter rv a name f =
     ibind (ilift (opt_attr (related_model (rel f)))) (\<lambda>rm.
     container_getter a (''_'' @ name) (relation_init rm (rel_name f) a ''pk'' (Some f)))"

text \<open>\<^verbatim>\<open>instance.pk\<close> or an attribute.\<close>

definition plain_getattr :: "'d run_env \<Rightarrow> nat \<Rightarrow> string \<Rightarrow> ('d, attr) sio" where
  "plain_getattr rv a n = (if n = ''pk'' then get_pk_val rv a else get_raw a n)"

definition ro2o_getter :: "'d run_env \<Rightarrow> nat \<Rightarrow> string \<Rightarrow> field \<Rightarrow> ('d, attr) sio" where
  "ro2o_getter rv a name f s =
     (case map_of (i_dict (objs s a)) (''_'' @ name) of
        Some v \<Rightarrow> (Ret v, s)
      | None \<Rightarrow>
          ibind (ilift (to_field_obj (metas (orm rv)) f)) (\<lambda>tf.
          ibind (ilift (opt_attr (related_model (rel f)))) (\<lambda>rm.
          ibind (plain_getattr rv a (model_field_name tf)) (\<lambda>v.
          ibind (filter_first rv rm [(relation_field (rel f), plain v)]) (\<lambda>q.
          iseq (put_raw a (''_'' @ name) (AQuery q)) (iret (AQuery q)))))) s)"

text \<open>\<^verbatim>\<open>getattr(instance, name)\<close>\<close>

definition relation_getter :: "'d run_env \<Rightarrow> nat \<Rightarrow> string \<Rightarrow> meta \<Rightarrow> field \<Rightarrow> ('d, attr) sio" where
  "relation_getter rv a n m f =
     (if n \<in> set (fk_fields m) \<union> set (o2o_fields m) then fk_getter rv a n f
      else if n \<in> set (backward_fk_fields m) then rfk_getter rv a n f
      else if n \<in> set (backward_o2o_fields m) then ro2o_getter rv a n f
      else m2m_getter rv a n f)"

definition py_getattr :: "'d run_env \<Rightarrow> nat \<Rightarrow> string \<Rightarrow> ('d, attr) sio" where
  "py_getattr rv a n s =
     (let m = model_of rv (i_model (objs s a)) in
      if n \<in> set (fk_fields m) \<union> set (o2o_fields m) \<union> set (backward_fk_fields m) \<union> set (backward_o2o_fields m) \<union>
             set (m2m_fields m)
      then ibind (ilift (dict_at (fields_map m) n)) (relation_getter rv a n m) s
      else plain_getattr rv a n s)"

section \<open>Making instances\<close>

definition alloc_obj :: "inst \<Rightarrow> ('d, nat) sio" where
  "alloc_obj i s = (Ret (next_obj s), s\<lparr>objs := (objs s)(next_obj s := i), next_obj := Suc (next_obj s)\<rparr>)"

definition new_await :: "('d, nat) sio" where
  "new_await s = (Ret (next_await s), s\<lparr>awaits := (awaits s)(next_await s := []), next_await := Suc (next_await s)\<rparr>)"

text \<open>One keyword argument of \<^verbatim>\<open>_set_kwargs\<close>; the result is added to \<^verbatim>\<open>passed_fields\<close>.\<close>

definition set_kwarg :: "'d run_env \<Rightarrow> nat \<Rightarrow> string \<Rightarrow> attr \<Rightarrow> ('d, string list) sio" where
  "set_kwarg rv a key v s =
     (let m = model_of rv (i_model (objs s a)) in
      if key \<in> set (fk_fields m) \<union> set (o2o_fields m) then
        (case v of
           AInst b \<Rightarrow> if i_saved (objs s b) then
               iseq (py_setattr rv a key v) (ibind (ilift (dict_at (fields_map m) key)) (\<lambda>f.
                 iret (case source_field f of None \<Rightarrow> [] | Some n \<Rightarrow> [n]))) s
             else iraise OperationalError s
         | _ \<Rightarrow> if attr_truthy v then iraise PyAttributeError s
             else iseq (py_setattr rv a key v) (ibind (ilift (dict_at (fields_map m) key)) (\<lambda>f.
                 iret (case source_field f of None \<Rightarrow> [] | Some n \<Rightarrow> [n]))) s)
      else if dict_has (fields_db_projection m) key then
        ibind (ilift (dict_at (fields_map m) key)) (\<lambda>f.
        iseq (iwhen (pk f \<and> generated f) (update_obj a (\<lambda>i. i\<lparr>i_custom_pk := True\<rparr>)))
          (if plain v = VNone \<and> \<not> null f then iraise PyValueError
           else ibind (ilift (to_python_value (lib (orm rv)) (ce (orm rv)) f (plain v))) (\<lambda>y.
             iseq (py_setattr rv a key (APy y)) (iret [])))) s
      else if key \<in> set (backward_fk_fields m) \<union> set (backward_o2o_fields m) \<union> set (m2m_fields m) then
        iraise ConfigurationError s
      else iret [] s)"

definition set_kwargs :: "'d run_env \<Rightarrow> nat \<Rightarrow> (string, attr) dict \<Rightarrow> ('d, string list) sio" where
  "set_kwargs rv a kw s =
     ifold (\<lambda>(k, v) passed. ibind (set_kwarg rv a k v) (\<lambda>more. iret (set_union passed more))) kw
       (set_union (map fst kw) (fetch_fields (model_of rv (i_model (objs s a))))) s"

text \<open>The default of a field that was not passed.\<close>

definition set_default :: "'d run_env \<Rightarrow> nat \<Rightarrow> string \<Rightarrow> ('d, unit) sio" where
  "set_default rv a key s =
     ibind (ilift (dict_at (fields_map (model_of rv (i_model (objs s a)))) key)) (\<lambda>f.
       case default f of
         VCoroutine n \<Rightarrow> (\<lambda>s. let w = i_await (objs s a) in
             imodify (\<lambda>s. s\<lparr>awaits := (awaits s)(w := AList.update key n (awaits s w))\<rparr>) s)
       | VCallable n \<Rightarrow> ibind (ilift (call_default rv n)) (\<lambda>v. py_setattr rv a key (APy v))
       | d \<Rightarrow> py_setattr rv a key (APy d)) s"

text \<open>\<^verbatim>\<open>Model.__init__\<close>\<close>

definition model_init :: "'d run_env \<Rightarrow> mid \<Rightarrow> (string, attr) dict \<Rightarrow> ('d, nat) sio" where
  "model_init rv mo kw =
     ibind new_await (\<lambda>w.
     ibind (alloc_obj \<lparr> i_model = mo, i_dict = [], i_partial = False, i_saved = False,
                        i_custom_pk = False, i_await = w \<rparr>) (\<lambda>a.
     ibind (set_kwargs rv a kw) (\<lambda>passed.
     iseq (ifold (\<lambda>key _. set_default rv a key)
            (filter (\<lambda>n. n \<notin> set passed) (field_names (model_of rv mo))) ())
       (iret a))))"

section \<open>Instances from rows\<close>

text \<open>
  \<^verbatim>\<open>_generate_db_fields\<close>: how a column is converted. A field whose class does not override
  \<^verbatim>\<open>to_python_value\<close> is converted by its type, unless the driver gives that type itself.
\<close>

datatype from_db = Native | ByType | Complex

fun default_converter :: "fclass \<Rightarrow> bool" where
  "default_converter (DecimalField d p) = False"
| "default_converter (DatetimeField an ana) = False"
| "default_converter (TimeField an ana) = False"
| "default_converter DateField = False"
| "default_converter TimeDeltaField = False"
| "default_converter JSONField = False"
| "default_converter UUIDField = False"
| "default_converter (IntEnumField e) = False"
| "default_converter (CharEnumField n e) = False"
| "default_converter c = True"

definition from_db_kind :: "'d run_env \<Rightarrow> field \<Rightarrow> from_db" where
  "from_db_kind rv f =
     (if db_native rv (field_type (fclass f)) \<and> (default_converter (fclass f) \<or> skip_to_python_if_native (fclass f))
      then Native else if default_converter (fclass f) then ByType else Complex)"

definition db_field_table :: "'d run_env \<Rightarrow> meta \<Rightarrow> (string \<times> string \<times> field) list res" where
  "db_field_table rv m =
     rmap (\<lambda>key. rbind (dict_at (fields_db_projection_reverse m) key) (\<lambda>n.
       rbind (dict_at (fields_map m) n) (\<lambda>f. Inr (key, n, f)))) (db_fields m)"

definition in_kind_order :: "'d run_env \<Rightarrow> (string \<times> string \<times> field) list \<Rightarrow> (string \<times> string \<times> field) list" where
  "in_kind_order rv tab =
     (let of_kind = \<lambda>k. filter (\<lambda>(key, n, f). from_db_kind rv f = k) tab
      in of_kind Native @ of_kind ByType @ of_kind Complex)"

definition from_db_value :: "'d run_env \<Rightarrow> field \<Rightarrow> pyval \<Rightarrow> pyval res" where
  "from_db_value rv f v =
     (case from_db_kind rv f of
        Native \<Rightarrow> Inr v
      | ByType \<Rightarrow> if v = VNone then Inr v else call (lib (orm rv)) (field_type (fclass f)) v
      | Complex \<Rightarrow> to_python_value (lib (orm rv)) (ce (orm rv)) f v)"

text \<open>
  The \<^verbatim>\<open>try\<close> of \<^verbatim>\<open>_init_from_db\<close>: the columns in order until one is missing. The result is the
  attributes, the columns read, and the exception that ended the loop.
\<close>

fun init_loop ::
    "'d run_env \<Rightarrow> (string, pyval) dict \<Rightarrow> (string \<times> string \<times> field) list \<Rightarrow> (string, attr) dict \<Rightarrow> string list \<Rightarrow>
     (string, attr) dict \<times> string list \<times> exn option" where
  "init_loop rv row [] d done = (d, done, None)"
| "init_loop rv row ((key, n, f) # rest) d done =
     (case rbind (dict_at row key) (from_db_value rv f) of
        Inl e \<Rightarrow> (d, done, Some e)
      | Inr v \<Rightarrow> init_loop rv row rest (AList.update n (APy v) d) (done @ [key]))"

text \<open>The fallback for partial rows, whose keys are names of fields.\<close>

definition init_partial_step ::
    "'d run_env \<Rightarrow> meta \<Rightarrow> string list \<Rightarrow> string \<times> pyval \<Rightarrow> (string, attr) dict \<Rightarrow> (string, attr) dict res" where
  "init_partial_step rv m done kv d =
     (case kv of (key, v) \<Rightarrow>
        if key \<in> set done then Inr d
        else case map_of (fields_map m) key of
          None \<Rightarrow> Inr d
        | Some f \<Rightarrow>
            if has_db_field (fclass f) then
              rbind (from_db_value rv f v) (\<lambda>w. Inr (AList.update key (APy w) d))
            else
              rbind (to_python_value (lib (orm rv)) (ce (orm rv)) f v) (\<lambda>w.
              case (fclass f \<in> {ForeignKeyFieldInstance, OneToOneFieldInstance} \<and> \<not> truthy w, source_field f) of
                (True, Some sf) \<Rightarrow> Inr (AList.update (''_'' @ key) (APy w) (AList.update sf (APy VNone) d))
              | _ \<Rightarrow> Inl PyAttributeError))"

definition init_attrs :: "'d run_env \<Rightarrow> meta \<Rightarrow> (string, pyval) dict \<Rightarrow> ((string, attr) dict \<times> bool) res" where
  "init_attrs rv m row =
     rbind (db_field_table rv m) (\<lambda>tab.
     case init_loop rv row (in_kind_order rv tab) [] [] of
       (d, done, None) \<Rightarrow> Inr (d, False)
     | (d, done, Some e) \<Rightarrow>
         if exn_isa e PyKeyError then
           rbind (rfold (init_partial_step rv m done) row d) (\<lambda>d'. Inr (d', True))
         else Inl e)"

definition init_from_db :: "'d run_env \<Rightarrow> mid \<Rightarrow> (string, pyval) dict \<Rightarrow> ('d, nat) sio" where
  "init_from_db rv mo row =
     (let m = model_of rv mo in
      ibind (ilift (init_attrs rv m row)) (\<lambda>(d, part).
      ibind new_await (\<lambda>w.
      alloc_obj \<lparr> i_model = mo, i_dict = d, i_partial = part, i_saved = True,
        i_custom_pk = (db_pk_column m \<notin> set (generated_db_fields m)), i_await = w \<rparr>)))"

section \<open>Copies and comparison\<close>

text \<open>\<^verbatim>\<open>clone(pk)\<close>; no argument is \<open>None\<close>. \<^verbatim>\<open>copy(self)\<close> copies the attributes, not what they refer to.\<close>

definition clone_instance :: "'d run_env \<Rightarrow> nat \<Rightarrow> pyval option \<Rightarrow> ('d, nat) sio" where
  "clone_instance rv a k s =
     ibind (alloc_obj (objs s a)) (\<lambda>b.
     iseq (case k of
        None \<Rightarrow> ibind (ilift (get_pk (model_of rv (i_model (objs s a))))) (\<lambda>f.
          if \<not> generated f \<and> default f = VNone then iraise ParamsError else py_setattr rv b ''pk'' (APy VNone))
      | Some v \<Rightarrow> py_setattr rv b ''pk'' (APy v))
     (iseq (update_obj b (\<lambda>i. i\<lparr>i_saved := False\<rparr>)) (iret b))) s"

definition update_from_dict :: "'d run_env \<Rightarrow> nat \<Rightarrow> (string, attr) dict \<Rightarrow> ('d, unit) sio" where
  "update_from_dict rv a data = iseq (set_kwargs rv a data) (iret ())"

definition inst_eq :: "'d run_env \<Rightarrow> nat \<Rightarrow> nat \<Rightarrow> ('d, bool) sio" where
  "inst_eq rv a b =
     ibind (get_pk_val rv a) (\<lambda>k. ibind (get_pk_val rv b) (\<lambda>l.
     iget (\<lambda>s. i_model (objs s a) = i_model (objs s b) \<and> k = l)))"

definition inst_hash :: "'d run_env \<Rightarrow> nat \<Rightarrow> ('d, attr) sio" where
  "inst_hash rv a = ibind (get_pk_val rv a) (\<lambda>k. if attr_truthy k then iret k else iraise PyTypeError)"

end
