(* ===== verification/Executor.thy ===== *)
theory Executor
  imports Objects Config
begin

text \<open>
  \<^verbatim>\<open>BaseExecutor\<close> of \<^verbatim>\<open>backends/base/executor.py\<close> (and what the executors of the backends
  override): the INSERT, UPDATE and DELETE statements of a model, their placeholders, the
  values bound to them, and the caches of prepared statements.
\<close>

section \<open>Prepared statements\<close>

definition prepare_insert_columns :: "meta \<Rightarrow> bool \<Rightarrow> (string list \<times> string list) res" where
  "prepare_insert_columns m include_generated =
     rbind (rmap (\<lambda>c. rbind (dict_at (fields_map m) c) (\<lambda>f. Inr (c, f))) (map fst (fields_db_projection m))) (\<lambda>cfs.
     let cols = map fst (filter (\<lambda>(c, f). include_generated \<or> \<not> generated f) cfs) in
     rbind (rmap (dict_at (fields_db_projection m)) cols) (\<lambda>columns. Inr (cols, columns)))"

definition prepare_insert_statement :: "'d run_env \<Rightarrow> meta \<Rightarrow> string list \<Rightarrow> bool \<Rightarrow> bool \<Rightarrow> stmt" where
  "prepare_insert_statement rv m columns has_generated ignore_conflicts =
     InsertInto (basetable m) columns (map TParam [0..<length columns])
       (if postgres rv \<and> has_generated then generated_db_fields m else []) ignore_conflicts"

definition make_entry :: "'d run_env \<Rightarrow> mid \<Rightarrow> exec_entry res" where
  "make_entry rv mo =
     (let m = model_of rv mo in
      rbind (prepare_insert_columns m False) (\<lambda>(reg, columns).
      let ins = prepare_insert_statement rv m columns True False in
      rbind (if generated_db_fields m \<noteq> [] then
               rbind (prepare_insert_columns m True) (\<lambda>(reg_all, columns_all).
               Inr (reg_all, prepare_insert_statement rv m columns_all False False))
             else Inr (reg, ins)) (\<lambda>(reg_all, ins_all).
      rbind (rmap (\<lambda>c. rbind (dict_at (fields_map m) c) (\<lambda>f. Inr (c, f))) reg_all) (\<lambda>cm.
      Inr \<lparr> regular_columns = reg, insert_query = ins, regular_columns_all = reg_all,
            insert_query_all = ins_all, column_map = cm,
            delete_query = DeleteFrom (basetable m) (db_pk_column m) (TParam 0) \<rparr>))))"

definition exec_key_of :: "'d run_env \<Rightarrow> mid \<Rightarrow> exec_key" where
  "exec_key_of rv mo = (connection_name rv, schema (model_of rv mo), db_table (model_of rv mo))"

text \<open>\<^verbatim>\<open>BaseExecutor.__init__\<close>\<close>

definition executor_init :: "'d run_env \<Rightarrow> mid \<Rightarrow> ('d, exec_entry) sio" where
  "executor_init rv mo s =
     (let key = exec_key_of rv mo in
      case map_of (exec_cache s) key of
        Some e \<Rightarrow> (Ret e, s)
      | None \<Rightarrow> ibind (ilift (make_entry rv mo)) (\<lambda>e.
          iseq (imodify (\<lambda>s. s\<lparr>exec_cache := AList.update key e (exec_cache s),
                               update_cache := (update_cache s)(key := [])\<rparr>)) (iret e)) s)"

section \<open>Values\<close>

text \<open>
  \<^verbatim>\<open>_field_to_db\<close> and the entries of \<^verbatim>\<open>column_map\<close>: the conversion of field \<open>f\<close> on an instance may
  write the field's attribute (\<^verbatim>\<open>auto_now\<close>).
\<close>

definition conv_on :: "'d run_env \<Rightarrow> nat \<Rightarrow> field \<Rightarrow> attr \<Rightarrow> ('d, pyval) sio" where
  "conv_on rv a f v s =
     (let cur = (case map_of (i_dict (objs s a)) (model_field_name f) of None \<Rightarrow> VNone | Some w \<Rightarrow> plain w) in
      ibind (ilift (field_to_db (orm rv) f (plain v) (Instance cur))) (\<lambda>(w, wb).
      iseq (case wb of None \<Rightarrow> iret () | Some x \<Rightarrow> py_setattr rv a (model_field_name f) (APy x))
        (iret w)) s)"

definition column_values :: "'d run_env \<Rightarrow> nat \<Rightarrow> (string, field) dict \<Rightarrow> string list \<Rightarrow> ('d, pyval list) sio" where
  "column_values rv a cm =
     imap (\<lambda>c. ibind (ilift (dict_at cm c)) (\<lambda>f. ibind (py_getattr rv a c) (conv_on rv a f)))"

definition send_db :: "'d run_env \<Rightarrow> stmt \<Rightarrow> pyval list \<Rightarrow> ('d, reply) sio" where
  "send_db rv q vals s = (case send rv q vals (sdb s) of (r, d) \<Rightarrow> (r, s\<lparr>sdb := d\<rparr>))"

section \<open>INSERT\<close>

fun reply_value :: "reply \<Rightarrow> pyval" where
  "reply_value (RowId n) = VInt n"
| "reply_value (RowCount n) = VInt n"
| "reply_value (RowValues vs) = VList vs"
| "reply_value RowNothing = VNone"
| "reply_value (Fetched n rows) = VInt n"

fun is_int_pk :: "fclass \<Rightarrow> bool" where
  "is_int_pk IntField = True"
| "is_int_pk BigIntField = True"
| "is_int_pk SmallIntField = True"
| "is_int_pk (IntEnumField e) = True"
| "is_int_pk c = False"

text \<open>\<^verbatim>\<open>_process_insert_result\<close> of the executors; \<open>mo\<close> is the executor's model.\<close>

definition process_insert_result :: "'d run_env \<Rightarrow> mid \<Rightarrow> nat \<Rightarrow> reply \<Rightarrow> ('d, unit) sio" where
  "process_insert_result rv mo a r s =
     (if postgres rv then
        (case r of
           RowValues vs \<Rightarrow> ifold (\<lambda>(key, v) _.
               ibind (ilift (dict_at (fields_db_projection_reverse (model_of rv (i_model (objs s a)))) key)) (\<lambda>n.
               py_setattr rv a n (APy v))) (zip (generated_db_fields (model_of rv mo)) vs) ()
         | _ \<Rightarrow> iret ())
      else
        ibind (ilift (get_pk (model_of rv mo))) (\<lambda>f.
        iwhen (is_int_pk (fclass f) \<and> generated f) (py_setattr rv a ''pk'' (APy (reply_value r))))) s"

definition execute_insert :: "'d run_env \<Rightarrow> exec_entry \<Rightarrow> mid \<Rightarrow> nat \<Rightarrow> ('d, unit) sio" where
  "execute_insert rv e mo a s =
     (if \<not> i_custom_pk (objs s a) then
        ibind (column_values rv a (column_map e) (regular_columns e)) (\<lambda>vals.
        ibind (send_db rv (insert_query e) vals) (process_insert_result rv mo a)) s
      else
        ibind (column_values rv a (column_map e) (regular_columns_all e)) (\<lambda>vals.
        ibind (send_db rv (insert_query_all e) vals) (\<lambda>_. iret ())) s)"

text \<open>
  \<^verbatim>\<open>execute_many\<close> is the driver's: here it sends the rows one after the other and stops at the
  first exception, as a driver outside a transaction may.
\<close>

definition send_many :: "'d run_env \<Rightarrow> stmt \<Rightarrow> pyval list list \<Rightarrow> ('d, unit) sio" where
  "send_many rv q rows = ifold (\<lambda>vals _. ibind (send_db rv q vals) (\<lambda>_. iret ())) rows ()"

text \<open>One chunk of \<^verbatim>\<open>execute_bulk_insert\<close>: the values of the rows with and without a key of their own.\<close>

definition bulk_row :: "'d run_env \<Rightarrow> exec_entry \<Rightarrow> nat \<Rightarrow> pyval list list \<times> pyval list list \<Rightarrow>
    ('d, pyval list list \<times> pyval list list) sio" where
  "bulk_row rv e a rows s =
     (case rows of (all_rows, reg_rows) \<Rightarrow>
        if i_custom_pk (objs s a) then
          ibind (column_values rv a (column_map e) (regular_columns_all e)) (\<lambda>vals.
          iret (all_rows @ [vals], reg_rows)) s
        else
          ibind (column_values rv a (column_map e) (regular_columns e)) (\<lambda>vals.
          iret (all_rows, reg_rows @ [vals])) s)"

definition bulk_chunk :: "'d run_env \<Rightarrow> exec_entry \<Rightarrow> nat list \<Rightarrow> ('d, unit) sio" where
  "bulk_chunk rv e insts =
     ibind (ifold (bulk_row rv e) insts ([], [])) (\<lambda>(all_rows, reg_rows).
     iseq (iwhen (all_rows \<noteq> []) (send_many rv (insert_query_all e) all_rows))
       (iwhen (reg_rows \<noteq> []) (send_many rv (insert_query e) reg_rows)))"

definition execute_bulk_insert :: "'d run_env \<Rightarrow> exec_entry \<Rightarrow> nat list \<Rightarrow> int option \<Rightarrow> ('d, unit) sio" where
  "execute_bulk_insert rv e insts batch_size =
     ibind (ilift (chunk insts batch_size)) (\<lambda>cs. ifold (\<lambda>c _. bulk_chunk rv e c) cs ())"

section \<open>UPDATE and DELETE\<close>

text \<open>\<^verbatim>\<open>isinstance(v, (ArithmeticExpression, Function))\<close>, pypika's classes.\<close>

fun is_expression :: "attr \<Rightarrow> term option" where
  "is_expression (APy (VTerm (TArith op l r))) = Some (TArith op l r)"
| "is_expression (APy (VTerm (TFunc n xs))) = Some (TFunc n xs)"
| "is_expression v = None"

definition update_names :: "meta \<Rightarrow> string list \<Rightarrow> string list" where
  "update_names m update_fields = (if update_fields \<noteq> [] then update_fields else map fst (fields_db_projection m))"

text \<open>The SET clauses of \<^verbatim>\<open>get_update_sql\<close> and the number of placeholders they use.\<close>

fun update_sets ::
    "orm_env \<Rightarrow> meta \<Rightarrow> (string, term) dict \<Rightarrow> string list \<Rightarrow> nat \<Rightarrow> ((string \<times> term) list \<times> nat) res" where
  "update_sets env m arith [] n = Inr ([], n)"
| "update_sets env m arith (fld # rest) n =
     rbind (dict_at (fields_db_projection m) fld) (\<lambda>col.
     rbind (dict_at (fields_map m) fld) (\<lambda>f.
     if pk f then update_sets env m arith rest n
     else
       rbind (case map_of arith fld of
                None \<Rightarrow> Inr (TParam n, Suc n)
              | Some x \<Rightarrow> rbind (resolver_arithmetic_expression env m x) (\<lambda>(y, _). Inr (y, n))) (\<lambda>(t, n').
       rbind (update_sets env m arith rest n') (\<lambda>(sets, k). Inr ((col, t) # sets, k)))))"

definition update_stmt :: "orm_env \<Rightarrow> meta \<Rightarrow> (string, term) dict \<Rightarrow> string list \<Rightarrow> stmt res" where
  "update_stmt env m arith update_fields =
     rbind (update_sets env m arith (update_names m update_fields) 0) (\<lambda>(sets, n).
     Inr (UpdateSet (basetable m) sets (db_pk_column m) (TParam n)))"

definition get_update_sql ::
    "'d run_env \<Rightarrow> exec_key \<Rightarrow> mid \<Rightarrow> string list \<Rightarrow> (string, term) dict \<Rightarrow> ('d, stmt) sio" where
  "get_update_sql rv key mo update_fields arith s =
     (let k = join_str '','' update_fields in
      case (arith = [], map_of (update_cache s key) k) of
        (True, Some q) \<Rightarrow> (Ret q, s)
      | _ \<Rightarrow> ibind (ilift (update_stmt (orm rv) (model_of rv mo) arith update_fields)) (\<lambda>q.
          iseq (iwhen (arith = []) (imodify (\<lambda>s. s\<lparr>update_cache :=
                  (update_cache s)(key := AList.update k q (update_cache s key))\<rparr>)))
            (iret q)) s)"

text \<open>The values of \<^verbatim>\<open>execute_update\<close>, field by field, and the expressions among the attributes.\<close>

definition update_step ::
    "'d run_env \<Rightarrow> meta \<Rightarrow> exec_entry \<Rightarrow> nat \<Rightarrow> string \<Rightarrow> pyval list \<times> (string, term) dict \<Rightarrow>
     ('d, pyval list \<times> (string, term) dict) sio" where
  "update_step rv m e a fld acc =
     (case acc of (vals, arith) \<Rightarrow>
        ibind (ilift (dict_at (fields_map m) fld)) (\<lambda>f.
        if pk f then iret (vals, arith)
        else ibind (py_getattr rv a fld) (\<lambda>v.
          case is_expression v of
            Some x \<Rightarrow> iret (vals, AList.update fld x arith)
          | None \<Rightarrow> ibind (ilift (dict_at (column_map e) fld)) (\<lambda>g.
              ibind (conv_on rv a g v) (\<lambda>w. iret (vals @ [w], arith))))))"

text \<open>\<^verbatim>\<open>self.model._meta.pk.to_db_value(instance.pk, instance)\<close>, which no backend overrides.\<close>

definition pk_value :: "'d run_env \<Rightarrow> meta \<Rightarrow> nat \<Rightarrow> ('d, pyval) sio" where
  "pk_value rv m a =
     ibind (ilift (get_pk m)) (\<lambda>f.
     ibind (get_pk_val rv a) (\<lambda>v.
     ibind (ilift (to_db_value (lib (orm rv)) (ce (orm rv)) f (plain v) (Instance (plain v)))) (\<lambda>(w, wb).
     iseq (case wb of None \<Rightarrow> iret () | Some x \<Rightarrow> py_setattr rv a (model_field_name f) (APy x)) (iret w))))"

fun row_count :: "reply \<Rightarrow> int" where
  "row_count (RowCount n) = n"
| "row_count (RowId n) = n"
| "row_count (RowValues vs) = int (length vs)"
| "row_count RowNothing = 0"
| "row_count (Fetched n rows) = n"

definition execute_update :: "'d run_env \<Rightarrow> exec_entry \<Rightarrow> mid \<Rightarrow> nat \<Rightarrow> string list \<Rightarrow> ('d, int) sio" where
  "execute_update rv e mo a update_fields =
     (let m = model_of rv mo in
      ibind (ifold (update_step rv m e a) (update_names m update_fields) ([], [])) (\<lambda>(vals, arith).
      ibind (pk_value rv m a) (\<lambda>k.
      ibind (get_update_sql rv (exec_key_of rv mo) mo update_fields arith) (\<lambda>q.
      ibind (send_db rv q (vals @ [k])) (\<lambda>r. iret (row_count r))))))"

definition execute_delete :: "'d run_env \<Rightarrow> exec_entry \<Rightarrow> mid \<Rightarrow> nat \<Rightarrow> ('d, int) sio" where
  "execute_delete rv e mo a =
     ibind (pk_value rv (model_of rv mo) a) (\<lambda>k.
     ibind (send_db rv (delete_query e) [k]) (\<lambda>r. iret (row_count r)))"

end
