(* ===== verification/Backends.thy ===== *)
theory Backends
  imports Executor Converters
begin

text \<open>
  What the executors of the databases override: the conversions of SQLite and MSSQL, the filter
  operators of MySQL and PostgreSQL with their JSON, search and regular expression functions, the
  placeholders, and what an INSERT answers (\<^verbatim>\<open>backends/*/executor.py\<close>, \<^verbatim>\<open>contrib/mysql\<close>,
  \<^verbatim>\<open>contrib/postgres\<close>).
\<close>

section \<open>Conversions of SQLite\<close>

text \<open>\<^verbatim>\<open>isoformat(" ")\<close> of a datetime and \<^verbatim>\<open>isoformat()\<close> of a time.\<close>

record iso_lib =
  iso_datetime :: "pyval \<Rightarrow> string"
  iso_time :: "pyval \<Rightarrow> string"

definition to_db_bool :: "pyval \<Rightarrow> conv" where
  "to_db_bool v = Inr (if v = VNone then VNone else VInt (if truthy v then 1 else 0), None)"

definition to_db_decimal :: "pylib \<Rightarrow> clock_env \<Rightarrow> int \<Rightarrow> pyval \<Rightarrow> conv" where
  "to_db_decimal py clk places v =
     (if v = VNone then Inr (VNone, None)
      else rbind (quantize clk places v) (\<lambda>w. Inr (VStr (py_str py w), None)))"

text \<open>The clock is read as \<^verbatim>\<open>timezone.now()\<close> does.\<close>

definition to_db_datetime :: "iso_lib \<Rightarrow> clock_env \<Rightarrow> bool \<Rightarrow> bool \<Rightarrow> pyval \<Rightarrow> inst_arg \<Rightarrow> conv" where
  "to_db_datetime fmt clk an ana v ia =
     (if auto_now_applies an ana ia then rbind (now clk) (\<lambda>n. Inr (VStr (iso_datetime fmt n), Some n))
      else Inr (if isinst v PyDatetime then VStr (iso_datetime fmt v) else VNone, None))"

definition to_db_time :: "iso_lib \<Rightarrow> clock_env \<Rightarrow> bool \<Rightarrow> bool \<Rightarrow> pyval \<Rightarrow> inst_arg \<Rightarrow> conv" where
  "to_db_time fmt clk an ana v ia =
     (if auto_now_applies an ana ia
      then rbind (rbind (now clk) (dt_time clk)) (\<lambda>n. Inr (VStr (iso_time fmt n), Some n))
      else Inr (if isinst v PyTime then VStr (iso_time fmt v) else VNone, None))"

text \<open>\<^verbatim>\<open>TO_DB_OVERRIDE\<close>: the class of the field itself decides, not a subclass.\<close>

fun sqlite_override :: "pylib \<Rightarrow> clock_env \<Rightarrow> iso_lib \<Rightarrow> fclass \<Rightarrow> (field \<Rightarrow> pyval \<Rightarrow> inst_arg \<Rightarrow> conv) option" where
  "sqlite_override py clk fmt BooleanField = Some (\<lambda>f v ia. to_db_bool v)"
| "sqlite_override py clk fmt (DecimalField d p) = Some (\<lambda>f v ia. to_db_decimal py clk p v)"
| "sqlite_override py clk fmt (DatetimeField an ana) = Some (\<lambda>f v ia. to_db_datetime fmt clk an ana v ia)"
| "sqlite_override py clk fmt (TimeField an ana) = Some (\<lambda>f v ia. to_db_time fmt clk an ana v ia)"
| "sqlite_override py clk fmt c = None"

fun mssql_override :: "fclass \<Rightarrow> (field \<Rightarrow> pyval \<Rightarrow> inst_arg \<Rightarrow> conv) option" where
  "mssql_override BooleanField = Some (\<lambda>f v ia. to_db_bool v)"
| "mssql_override c = None"

section \<open>Filter operators of MySQL\<close>

definition mysql_escape_like :: "string \<Rightarrow> string" where
  "mysql_escape_like v =
     replace_chr CHR ''_'' [bs, CHR ''_'']
       (replace_chr CHR ''%'' [bs, CHR ''%''] (replace_chr bs [bs, bs, bs, bs] v))"

text \<open>\<^verbatim>\<open>StrWrapper(s)\<close> and its SQL: quotes are doubled, nothing else is escaped.\<close>

definition str_wrapper :: "pyval \<Rightarrow> term" where
  "str_wrapper v = TFunc ''StrWrapper'' [v]"

definition str_wrapper_sql :: "char \<Rightarrow> string \<Rightarrow> string" where
  "str_wrapper_sql q s = q # replace_chr q [q, q] s @ [q]"

definition cast_char :: "term \<Rightarrow> term" where
  "cast_char t = TFunc ''CAST'' [VTerm t, VStr ''CHAR'']"

definition mysql_contains :: "term \<Rightarrow> pyval \<Rightarrow> crit res" where
  "mysql_contains t v = with_str v (\<lambda>s.
     CLike (cast_char t) (str_wrapper (VStr (''%'' @ mysql_escape_like s @ ''%''))) [])"

definition mysql_starts_with :: "term \<Rightarrow> pyval \<Rightarrow> crit res" where
  "mysql_starts_with t v = with_str v (\<lambda>s. CLike (cast_char t) (str_wrapper (VStr (mysql_escape_like s @ ''%''))) [])"

definition mysql_ends_with :: "term \<Rightarrow> pyval \<Rightarrow> crit res" where
  "mysql_ends_with t v = with_str v (\<lambda>s. CLike (cast_char t) (str_wrapper (VStr (''%'' @ mysql_escape_like s))) [])"

definition mysql_insensitive_exact :: "pylib \<Rightarrow> term \<Rightarrow> pyval \<Rightarrow> crit" where
  "mysql_insensitive_exact py t v =
     CCmp CmpEq (upper_of (VTerm (cast_char t))) (VTerm (upper_of (VStr (py_str py v))))"

definition mysql_insensitive_contains :: "term \<Rightarrow> pyval \<Rightarrow> crit res" where
  "mysql_insensitive_contains t v = with_str v (\<lambda>s.
     CLike (upper_of (VTerm (cast_char t)))
       (upper_of (VTerm (str_wrapper (VStr (''%'' @ mysql_escape_like s @ ''%''))))) [])"

definition mysql_insensitive_starts_with :: "term \<Rightarrow> pyval \<Rightarrow> crit res" where
  "mysql_insensitive_starts_with t v = with_str v (\<lambda>s.
     CLike (upper_of (VTerm (cast_char t))) (upper_of (VTerm (str_wrapper (VStr (mysql_escape_like s @ ''%''))))) [])"

definition mysql_insensitive_ends_with :: "term \<Rightarrow> pyval \<Rightarrow> crit res" where
  "mysql_insensitive_ends_with t v = with_str v (\<lambda>s.
     CLike (upper_of (VTerm (cast_char t))) (upper_of (VTerm (str_wrapper (VStr (''%'' @ mysql_escape_like s))))) [])"

text \<open>\<^verbatim>\<open>BasicCriterion(op, left, right)\<close>\<close>

definition basic_criterion :: "string \<Rightarrow> term \<Rightarrow> pyval \<Rightarrow> crit" where
  "basic_criterion op l r = CBackend op l r"

definition mysql_search_criterion :: "term \<Rightarrow> term \<Rightarrow> crit" where
  "mysql_search_criterion t expr = basic_criterion '' '' (TFunc ''MATCH'' [VTerm t]) (VTerm (TFunc ''AGAINST'' [VTerm expr]))"

definition mysql_search :: "term \<Rightarrow> pyval \<Rightarrow> crit" where
  "mysql_search t v = mysql_search_criterion t (str_wrapper v)"

definition mysql_posix_regex :: "term \<Rightarrow> pyval \<Rightarrow> crit" where
  "mysql_posix_regex t v = basic_criterion '' REGEXP '' t (VTerm (str_wrapper v))"

section \<open>JSON\<close>

datatype json_part = JIndex int | JKey string

fun part_value :: "json_part \<Rightarrow> pyval" where
  "part_value (JIndex i) = VInt i"
| "part_value (JKey s) = VStr s"

definition digits_value :: "string \<Rightarrow> int" where
  "digits_value s = foldl (\<lambda>n c. n * 10 + (of_char c - 48)) 0 s"

definition key_part :: "string \<Rightarrow> json_part" where
  "key_part s = (if s \<noteq> [] \<and> list_all is_digit s then JIndex (digits_value s) else JKey s)"

definition serialize_json :: "pylib \<Rightarrow> pyval \<Rightarrow> pyval" where
  "serialize_json py v = (if isinst v PyJson then VStr (json_dumps py v) else v)"

text \<open>The operator named by the last part of a key, and the parts that are left.\<close>

datatype json_op = JEq | JNot | JIsNull | JNotIsNull

definition json_operator :: "json_part list \<Rightarrow> json_op \<times> json_part list" where
  "json_operator parts =
     (if last parts = JKey ''not'' then (JNot, butlast parts)
      else if last parts = JKey ''isnull'' then (JIsNull, butlast parts)
      else if last parts = JKey ''not_isnull'' then (JNotIsNull, butlast parts)
      else (JEq, parts))"

fun mysql_path_part :: "json_part \<Rightarrow> string" where
  "mysql_path_part (JIndex i) = ''['' @ str_int i @ '']''"
| "mysql_path_part (JKey s) = CHR ''.'' # s"

definition json_extract :: "term \<Rightarrow> json_part list \<Rightarrow> term" where
  "json_extract t parts = TFunc ''JSON_EXTRACT'' [VTerm t, VStr (CHR ''$'' # concat (map mysql_path_part parts))]"

definition mysql_json_is_null :: "term \<Rightarrow> bool \<Rightarrow> crit" where
  "mysql_json_is_null l b =
     (let null_json = VTerm (TFunc ''CAST'' [VStr ''null'', VStr ''JSON''])
      in if b then CCmp CmpEq l null_json else not_equal l null_json)"

fun mysql_json_op :: "json_op \<Rightarrow> term \<Rightarrow> pyval \<Rightarrow> crit" where
  "mysql_json_op JEq l v = CCmp CmpEq l v"
| "mysql_json_op JNot l v = not_equal l v"
| "mysql_json_op JIsNull l v = mysql_json_is_null l (truthy v)"
| "mysql_json_op JNotIsNull l v = mysql_json_is_null l (\<not> truthy v)"

definition mysql_json_filter :: "pylib \<Rightarrow> term \<Rightarrow> string \<Rightarrow> pyval \<Rightarrow> crit" where
  "mysql_json_filter py t key v =
     (case json_operator (map key_part (split2 key)) of (op, parts) \<Rightarrow>
        mysql_json_op op (json_extract t parts) (serialize_json py v))"

definition mysql_json_contains :: "term \<Rightarrow> pyval \<Rightarrow> crit" where
  "mysql_json_contains t v = basic_criterion ''JSON_CONTAINS'' t (VTerm (TWrap v))"

text \<open>The loop leaves \<^verbatim>\<open>None\<close> when the list is empty.\<close>

definition mysql_json_contained_by :: "pylib \<Rightarrow> term \<Rightarrow> pyval \<Rightarrow> crit option res" where
  "mysql_json_contained_by py t v =
     rbind (py_iter (json_loads py v)) (\<lambda>xs.
     Inr (foldl (\<lambda>acc x.
            let c = mysql_json_contains t (VStr (json_dumps py (VList [x])))
            in case acc of None \<Rightarrow> Some c | Some a \<Rightarrow> Some (COr a c)) None xs))"

fun get_json_criterion :: "json_part list \<Rightarrow> crit res" where
  "get_json_criterion [] = Inl PyIndexError"
| "get_json_criterion [a, b] =
     Inr (basic_criterion ''->>'' (TWrap (part_value a)) (VTerm (TWrap (part_value b))))"
| "get_json_criterion (a # rest) =
     rbind (get_json_criterion rest) (\<lambda>c. Inr (basic_criterion ''->'' (TWrap (part_value a)) (VTerm (TCriterion c))))"

fun postgres_json_op :: "json_op \<Rightarrow> crit \<Rightarrow> pyval \<Rightarrow> crit" where
  "postgres_json_op JEq c v = CCmp CmpEq (TCriterion c) v"
| "postgres_json_op JNot c v = not_equal (TCriterion c) v"
| "postgres_json_op JIsNull c v = is_null (TCriterion c) v"
| "postgres_json_op JNotIsNull c v = not_null (TCriterion c) v"

definition create_json_criterion :: "json_part list \<Rightarrow> term \<Rightarrow> json_op \<Rightarrow> pyval \<Rightarrow> crit res" where
  "create_json_criterion parts t op v =
     (case parts of
        [p] \<Rightarrow> Inr (postgres_json_op op (basic_criterion ''->>'' t (VTerm (TWrap (part_value p)))) v)
      | _ \<Rightarrow> rbind (get_json_criterion parts) (\<lambda>c.
               Inr (postgres_json_op op (basic_criterion ''->'' t (VTerm (TCriterion c))) v)))"

definition postgres_json_filter :: "pylib \<Rightarrow> term \<Rightarrow> string \<Rightarrow> pyval \<Rightarrow> crit res" where
  "postgres_json_filter py t key v =
     (case json_operator (map key_part (split2 key)) of (op, parts) \<Rightarrow>
        create_json_criterion parts t op (serialize_json py v))"

definition postgres_json_contains :: "term \<Rightarrow> pyval \<Rightarrow> crit" where
  "postgres_json_contains t v = basic_criterion ''@>'' t (VTerm (TWrap v))"

definition postgres_json_contained_by :: "term \<Rightarrow> pyval \<Rightarrow> crit" where
  "postgres_json_contained_by t v = basic_criterion ''<@'' t (VTerm (TWrap v))"

text \<open>\<^verbatim>\<open>ToTsQuery\<close> around a value that is not a function, and \<^verbatim>\<open>ToTsVector\<close> around the field.\<close>

definition postgres_search :: "term \<Rightarrow> pyval \<Rightarrow> crit" where
  "postgres_search t v =
     basic_criterion '' @@ '' (TFunc ''TO_TSVECTOR'' [VTerm t])
       (case v of VTerm (TFunc n xs) \<Rightarrow> v | _ \<Rightarrow> VTerm (TFunc ''TO_TSQUERY'' [v]))"

definition postgres_posix_regex :: "term \<Rightarrow> pyval \<Rightarrow> crit" where
  "postgres_posix_regex t v = basic_criterion ''~'' t (VTerm (TConst v))"

text \<open>\<^verbatim>\<open>FILTER_FUNC_OVERRIDE\<close>: which operators a backend replaces, and by what.\<close>

definition mysql_filter_override :: "(filter_op, filter_op) dict" where
  "mysql_filter_override =
     [(OpContains, OpBackend ''mysql_contains''), (OpStartsWith, OpBackend ''mysql_starts_with''),
      (OpEndsWith, OpBackend ''mysql_ends_with''), (OpIExact, OpBackend ''mysql_insensitive_exact''),
      (OpIContains, OpBackend ''mysql_insensitive_contains''), (OpIStartsWith, OpBackend ''mysql_insensitive_starts_with''),
      (OpIEndsWith, OpBackend ''mysql_insensitive_ends_with''), (OpSearch, OpBackend ''mysql_search''),
      (OpJsonContains, OpBackend ''mysql_json_contains''), (OpJsonContainedBy, OpBackend ''mysql_json_contained_by''),
      (OpJsonFilter, OpBackend ''mysql_json_filter''), (OpPosixRegex, OpBackend ''mysql_posix_regex'')]"

definition postgres_filter_override :: "(filter_op, filter_op) dict" where
  "postgres_filter_override =
     [(OpSearch, OpBackend ''postgres_search''), (OpJsonContains, OpBackend ''postgres_json_contains''),
      (OpJsonContainedBy, OpBackend ''postgres_json_contained_by''), (OpJsonFilter, OpBackend ''postgres_json_filter''),
      (OpPosixRegex, OpBackend ''postgres_posix_regex'')]"

text \<open>The criterion that \<open>CBackend\<close> with such a name stands for; a JSON filter takes a dictionary.\<close>

definition backend_op :: "pylib \<Rightarrow> string \<Rightarrow> term \<Rightarrow> pyval \<Rightarrow> crit option res" where
  "backend_op py n t v =
     (let some = (\<lambda>c. Inr (Some c)); lift = (\<lambda>r. rbind r some) in
      if n = ''mysql_contains'' then lift (mysql_contains t v)
      else if n = ''mysql_starts_with'' then lift (mysql_starts_with t v)
      else if n = ''mysql_ends_with'' then lift (mysql_ends_with t v)
      else if n = ''mysql_insensitive_exact'' then some (mysql_insensitive_exact py t v)
      else if n = ''mysql_insensitive_contains'' then lift (mysql_insensitive_contains t v)
      else if n = ''mysql_insensitive_starts_with'' then lift (mysql_insensitive_starts_with t v)
      else if n = ''mysql_insensitive_ends_with'' then lift (mysql_insensitive_ends_with t v)
      else if n = ''mysql_search'' then some (mysql_search t v)
      else if n = ''mysql_posix_regex'' then some (mysql_posix_regex t v)
      else if n = ''mysql_json_contains'' then some (mysql_json_contains t v)
      else if n = ''mysql_json_contained_by'' then mysql_json_contained_by py t v
      else if n = ''postgres_search'' then some (postgres_search t v)
      else if n = ''postgres_json_contains'' then some (postgres_json_contains t v)
      else if n = ''postgres_json_contained_by'' then some (postgres_json_contained_by t v)
      else if n = ''postgres_posix_regex'' then some (postgres_posix_regex t v)
      else Inl PyTypeError)"

section \<open>Placeholders and answers\<close>

definition sqlite_parameter :: "nat \<Rightarrow> string" where "sqlite_parameter n = ''?''"
definition odbc_parameter :: "nat \<Rightarrow> string" where "odbc_parameter n = ''?''"
definition mysql_parameter :: "nat \<Rightarrow> string" where "mysql_parameter n = ''%s''"
definition psycopg_parameter :: "nat \<Rightarrow> string" where "psycopg_parameter n = ''%s''"
definition postgres_parameter :: "nat \<Rightarrow> string" where "postgres_parameter n = CHR ''$'' # str_int (int n + 1)"

text \<open>psycopg answers nothing, a dictionary from columns to values, or a tuple of values.\<close>

definition psycopg_insert_result ::
    "'d run_env \<Rightarrow> mid \<Rightarrow> nat \<Rightarrow> (string, pyval) dict + pyval list \<Rightarrow> ('d, unit) sio" where
  "psycopg_insert_result rv mo a results s =
     ifold (\<lambda>(key, v) _.
       ibind (ilift (dict_at (fields_db_projection_reverse (model_of rv (i_model (objs s a)))) key)) (\<lambda>n.
       py_setattr rv a n (APy v)))
     (case results of Inl d \<Rightarrow> d | Inr vs \<Rightarrow> zip (generated_db_fields (model_of rv mo)) vs) () s"

section \<open>UUIDs of MySQL\<close>

record uuid_lib =
  uuid_bytes :: "pyval \<Rightarrow> pyval"         \<comment> \<open>\<^verbatim>\<open>value.bytes\<close>\<close>
  uuid_of_bytes :: "pyval \<Rightarrow> pyval res"  \<comment> \<open>\<^verbatim>\<open>UUID(bytes=value)\<close>\<close>

definition mysql_uuid_to_db :: "pylib \<Rightarrow> uuid_lib \<Rightarrow> bool \<Rightarrow> pyval \<Rightarrow> pyval res" where
  "mysql_uuid_to_db py ul compressed v =
     (if compressed then (if isinst v PyUUID then Inr (uuid_bytes ul v) else Inl PyValueError)
      else Inr (if truthy v then VStr (py_str py v) else v))"

definition mysql_uuid_to_python :: "pylib \<Rightarrow> uuid_lib \<Rightarrow> bool \<Rightarrow> pyval \<Rightarrow> pyval res" where
  "mysql_uuid_to_python py ul compressed v =
     (if v = VNone \<or> isinst v PyUUID then Inr v
      else if compressed \<and> isinst v PyBytes then uuid_of_bytes ul v
      else call py PyUUID v)"

section \<open>How MySQL reads the patterns\<close>

text \<open>
  A MySQL string literal after its opening quote: a doubled quote is a quote, a backslash takes
  the next character, except that \<^verbatim>\<open>\%\<close> and \<^verbatim>\<open>\_\<close> stay as they are. The result is the text and
  what follows the closing quote.
\<close>

definition mysql_escaped :: "char \<Rightarrow> string" where
  "mysql_escaped c =
     (if c = CHR ''%'' \<or> c = CHR ''_'' then [bs, c]
      else if c = CHR ''0'' then [char_of (0::nat)] else if c = CHR ''n'' then [char_of (10::nat)]
      else if c = CHR ''r'' then [char_of (13::nat)] else if c = CHR ''t'' then [char_of (9::nat)]
      else if c = CHR ''b'' then [char_of (8::nat)] else if c = CHR ''Z'' then [char_of (26::nat)] else [c])"

fun read_mysql :: "string \<Rightarrow> (string \<times> string) option" where
  "read_mysql [] = None"
| "read_mysql [c] = (if c = quote1 then Some ([], []) else None)"
| "read_mysql (c # d # s) =
     (if c = bs then map_option (apfst ((@) (mysql_escaped d))) (read_mysql s)
      else if c = quote1 then (if d = quote1 then map_option (apfst ((#) quote1)) (read_mysql s) else Some ([], d # s))
      else map_option (apfst ((#) c)) (read_mysql (d # s)))"

lemma quote1_neq [simp]: "quote1 \<noteq> bs" "bs \<noteq> quote1" "quote1 \<noteq> CHR ''%''" "quote1 \<noteq> CHR ''_''" "CHR ''%'' \<noteq> quote1" "CHR ''_'' \<noteq> quote1"
  by (simp_all add: specials bs_def)

lemma read_mysql_plain:
  "c \<noteq> bs \<Longrightarrow> c \<noteq> quote1 \<Longrightarrow> s \<noteq> [] \<Longrightarrow> read_mysql (c # s) = map_option (apfst ((#) c)) (read_mysql s)"
  by (cases s) auto

definition mysql_char :: "char \<Rightarrow> string" where
  "mysql_char c =
     (if c = bs then [bs, bs, bs, bs] else if c = CHR ''%'' \<or> c = CHR ''_'' then [bs, c]
      else if c = quote1 then [quote1, quote1] else [c])"

lemma doubled_escape:
  "replace_chr quote1 [quote1, quote1] (mysql_escape_like v) = concat (map mysql_char v)"
  by (induction v) (simp_all add: mysql_escape_like_def mysql_char_def)

lemma read_mysql_char:
  assumes "s \<noteq> []"
  shows "read_mysql (mysql_char c @ s) = map_option (apfst ((@) (esc1 c))) (read_mysql s)"
proof -
  have two: "map_option (apfst ((@) [a])) (map_option (apfst ((@) [b])) r) = map_option (apfst ((@) [a, b])) r"
    for a b and r :: "(string \<times> string) option"
    by (cases r) auto
  have one: "map_option (apfst ((#) a)) r = map_option (apfst ((@) [a])) r" for a and r :: "(string \<times> string) option"
    by (cases r) auto
  have b: "mysql_escaped bs = [bs]" "mysql_escaped CHR ''%'' = [bs, CHR ''%'']" "mysql_escaped CHR ''_'' = [bs, CHR ''_'']"
    by (simp_all add: mysql_escaped_def bs_def)
  consider "c = bs" | "c = CHR ''%''" | "c = CHR ''_''" | "c = quote1" | "c \<noteq> bs" "c \<noteq> CHR ''%''" "c \<noteq> CHR ''_''" "c \<noteq> quote1"
    by blast
  then show ?thesis
  proof cases
    case 5
    then show ?thesis using read_mysql_plain [OF 5(1,4) assms] by (simp add: mysql_char_def esc1_def one)
  qed (simp_all add: mysql_char_def esc1_def b two one)
qed

lemma read_mysql_chars:
  "s \<noteq> [] \<Longrightarrow> read_mysql (concat (map mysql_char v) @ s) = map_option (apfst ((@) (escape_like v))) (read_mysql s)"
proof (induction v)
  case Nil
  show ?case by (cases "read_mysql s") auto
next
  case (Cons c v)
  then have "read_mysql (concat (map mysql_char v) @ s) = map_option (apfst ((@) (escape_like v))) (read_mysql s)" by simp
  with Cons.prems show ?case by (cases "read_mysql s") (auto simp: read_mysql_char)
qed

text \<open>What MySQL makes of a literal: the pattern, and where the statement goes on.\<close>

lemma read_str_wrapper:
  assumes "rest = [] \<or> hd rest \<noteq> quote1" and "a = [] \<or> a = ''%''" "b = [] \<or> b = ''%''"
  shows "read_mysql (tl (str_wrapper_sql quote1 (a @ mysql_escape_like v @ b) @ rest)) = Some (a @ escape_like v @ b, rest)"
proof -
  have q: "read_mysql (quote1 # rest) = Some ([], rest)" using assms(1) by (cases rest) auto
  have b: "read_mysql (replace_chr quote1 [quote1, quote1] b @ quote1 # rest) = Some (b, rest)"
    using assms(3) q by (auto simp: read_mysql_plain)
  have v: "read_mysql (concat (map mysql_char v) @ replace_chr quote1 [quote1, quote1] b @ quote1 # rest) = Some (escape_like v @ b, rest)"
    by (subst read_mysql_chars) (simp_all add: b)
  show ?thesis
    using assms(2) v by (auto simp: str_wrapper_sql_def doubled_escape read_mysql_plain)
qed

text \<open>
  C12. On MySQL the text filters are literal too, although a pattern passes through a string
  literal that has backslash escapes of its own before LIKE sees it: whatever the value holds,
  the literal ends where the code ends it, and the pattern that MySQL reads from it matches
  exactly the texts that contain the value, begin with it or end with it.
\<close>

theorem mysql_filters_literal:
  assumes "like_laws like" and "rest = [] \<or> hd rest \<noteq> quote1"
  shows "\<exists>p q r p' q' r'.
    mysql_contains t (VStr v) = Inr (CLike (cast_char t) (str_wrapper (VStr p)) []) \<and>
    mysql_starts_with t (VStr v) = Inr (CLike (cast_char t) (str_wrapper (VStr q)) []) \<and>
    mysql_ends_with t (VStr v) = Inr (CLike (cast_char t) (str_wrapper (VStr r)) []) \<and>
    read_mysql (tl (str_wrapper_sql quote1 p @ rest)) = Some (p', rest) \<and> (\<forall>s. like p' s \<longleftrightarrow> (\<exists>a b. s = a @ v @ b)) \<and>
    read_mysql (tl (str_wrapper_sql quote1 q @ rest)) = Some (q', rest) \<and> (\<forall>s. like q' s \<longleftrightarrow> (\<exists>b. s = v @ b)) \<and>
    read_mysql (tl (str_wrapper_sql quote1 r @ rest)) = Some (r', rest) \<and> (\<forall>s. like r' s \<longleftrightarrow> (\<exists>a. s = a @ v))"
proof -
  note read = read_str_wrapper [OF assms(2), of "[]" "''%''" v] read_str_wrapper [OF assms(2), of "''%''" "''%''" v]
    read_str_wrapper [OF assms(2), of "''%''" "[]" v]
  have tail: "like ''%'' s" for s
    using like_percent [OF assms(1)] by blast
  have p: "like (CHR ''%'' # escape_like v @ ''%'') s \<longleftrightarrow> (\<exists>a b. s = a @ v @ b)" for s
    by (auto simp: like_percent [OF assms(1)] like_escape_append [OF assms(1)] tail)
  have q: "like (escape_like v @ ''%'') s \<longleftrightarrow> (\<exists>b. s = v @ b)" for s
    by (simp add: like_escape_append [OF assms(1)] tail)
  have r: "like (CHR ''%'' # escape_like v) s \<longleftrightarrow> (\<exists>a. s = a @ v)" for s
    using like_escape_append [OF assms(1), of v "[]"] by (auto simp: like_percent [OF assms(1)])
  have c: "mysql_contains t (VStr v) = Inr (CLike (cast_char t) (str_wrapper (VStr (''%'' @ mysql_escape_like v @ ''%''))) [])"
    "mysql_starts_with t (VStr v) = Inr (CLike (cast_char t) (str_wrapper (VStr ([] @ mysql_escape_like v @ ''%''))) [])"
    "mysql_ends_with t (VStr v) = Inr (CLike (cast_char t) (str_wrapper (VStr (''%'' @ mysql_escape_like v @ []))) [])"
    by (simp_all add: mysql_contains_def mysql_starts_with_def mysql_ends_with_def with_str_def)
  have rd: "read_mysql (tl (str_wrapper_sql quote1 (''%'' @ mysql_escape_like v @ ''%'') @ rest)) = Some (CHR ''%'' # escape_like v @ ''%'', rest)"
    "read_mysql (tl (str_wrapper_sql quote1 ([] @ mysql_escape_like v @ ''%'') @ rest)) = Some (escape_like v @ ''%'', rest)"
    "read_mysql (tl (str_wrapper_sql quote1 (''%'' @ mysql_escape_like v @ []) @ rest)) = Some (CHR ''%'' # escape_like v, rest)"
    using read by simp_all
  show ?thesis
    by (intro exI conjI, rule c, rule c, rule c, rule rd, rule allI, rule p, rule rd, rule allI, rule q, rule rd, rule allI, rule r)
qed

theorem mysql_filters_literal_witness:
  "\<exists>p p'. mysql_contains (TBare ''n'') (VStr ''5%'') = Inr (CLike (cast_char (TBare ''n'')) (str_wrapper (VStr p)) []) \<and>
     read_mysql (tl (str_wrapper_sql quote1 p @ '' x'')) = Some (p', '' x'') \<and> \<not> like_ref p' ''cut 50 off''"
proof -
  have "'' x'' = [] \<or> hd '' x'' \<noteq> quote1" by (simp add: specials)
  from mysql_filters_literal [OF like_ref_laws this, of "TBare ''n''" "''5%''"] show ?thesis
  proof (elim exE conjE)
    fix p q r p' q' r'
    assume p: "mysql_contains (TBare ''n'') (VStr ''5%'') = Inr (CLike (cast_char (TBare ''n'')) (str_wrapper (VStr p)) [])"
      "read_mysql (tl (str_wrapper_sql quote1 p @ '' x'')) = Some (p', '' x'')"
      and m: "\<forall>s. like_ref p' s \<longleftrightarrow> (\<exists>a b. s = a @ ''5%'' @ b)"
    have "CHR ''%'' \<in> set s" if "s = a @ ''5%'' @ b" for s a b using that by simp
    then have "like_ref p' s \<Longrightarrow> CHR ''%'' \<in> set s" for s using m by blast
    then have "\<not> like_ref p' ''cut 50 off''" by fastforce
    with p show ?thesis by blast
  qed
qed

section \<open>What SQLite does not check\<close>

text \<open>
  The conversions that SQLite puts in the place of a field's own do not validate: whatever
  validators a boolean, decimal, datetime or time field has, what is sent is the same; and a
  value for a datetime field that is not a datetime (a text, a date) is sent as NULL.
\<close>

theorem sqlite_unchecked:
  assumes "field_override env = sqlite_override py clk fmt"
  shows "(sqlite_override py clk fmt (fclass f) \<noteq> None \<longrightarrow>
            field_to_db env (f\<lparr>validators := vs\<rparr>) v ia = field_to_db env f v ia) \<and>
         (fclass f = DatetimeField an ana \<longrightarrow> \<not> auto_now_applies an ana ia \<longrightarrow> \<not> isinst v PyDatetime \<longrightarrow>
            field_to_db env f v ia = Inr (VNone, None))"
  using assms
  by (cases "fclass f") (auto simp: field_to_db_def to_db_datetime_def)

theorem sqlite_unchecked_witness:
  "field_to_db (orm_env.make (\<lambda>_. sample_meta) sample_pp sample_lib sample_ce []
     (sqlite_override sample_lib sample_ce \<lparr> iso_datetime = (\<lambda>v. []), iso_time = (\<lambda>v. []) \<rparr>) ''sqlite'')
     (plain_field (DatetimeField False False)) (VStr ''2024-01-01'') ModelClass = Inr (VNone, None)"
proof -
  let ?env = "orm_env.make (\<lambda>_. sample_meta) sample_pp sample_lib sample_ce []
     (sqlite_override sample_lib sample_ce \<lparr> iso_datetime = (\<lambda>v. []), iso_time = (\<lambda>v. []) \<rparr>) ''sqlite''"
  have "field_override ?env = sqlite_override sample_lib sample_ce \<lparr> iso_datetime = (\<lambda>v. []), iso_time = (\<lambda>v. []) \<rparr>"
    by (simp add: orm_env.make_def)
  from sqlite_unchecked [OF this, of "plain_field (DatetimeField False False)" "[]" "VStr ''2024-01-01''" ModelClass False False]
  show ?thesis by (simp add: plain_field_def auto_now_applies_def)
qed

end
