(* ===== verification/Literals.thy ===== *)
theory Literals
  imports Converters
begin

text \<open>
  The general entry of \<^verbatim>\<open>converters.py\<close>, \<^verbatim>\<open>escape_item\<close>, with the encoders that the schema generators
  do not meet: sequences, dictionaries, dates and times. Values are seen through what the
  encoders read of them; how Python prints floats, decimals and other objects, and
  \<^verbatim>\<open>isoformat\<close>, is part of the value.
\<close>

datatype item =
    INone
  | IBool bool
  | IInt int
  | IFloat string                      \<comment> \<open>\<^verbatim>\<open>"%.15g" % value\<close>\<close>
  | IStr string
  | IDecimal string                    \<comment> \<open>\<^verbatim>\<open>str(value)\<close>\<close>
  | IDelta int int int
  | ITime int int int int              \<comment> \<open>hour, minute, second, microsecond\<close>
  | IDate int int int                  \<comment> \<open>year, month, day\<close>
  | IDatetime string                   \<comment> \<open>\<^verbatim>\<open>isoformat()\<close>\<close>
  | IStructTime string                 \<comment> \<open>\<^verbatim>\<open>datetime(*obj[:6]).isoformat()\<close>\<close>
  | ISequence "item list"              \<comment> \<open>a tuple, list, set or frozenset, in the order of iteration\<close>
  | IDict "(string \<times> item) list"
  | IOther string                      \<comment> \<open>an object of another class, with its \<^verbatim>\<open>str\<close>\<close>

text \<open>The answer is a text, except for a dictionary.\<close>

datatype escaped = EText string | EDict "(string \<times> escaped) list"

definition escape_time :: "int \<Rightarrow> int \<Rightarrow> int \<Rightarrow> int \<Rightarrow> string" where
  "escape_time hh mm ss us = in_quotes (pad_int 2 hh @ '':'' @ pad_int 2 mm @ '':'' @ pad_int 2 ss @
     (if us \<noteq> 0 then ''.'' @ pad_int 6 us else []))"

definition escape_date :: "int \<Rightarrow> int \<Rightarrow> int \<Rightarrow> string" where
  "escape_date y m d = in_quotes (pad_int 4 y @ ''-'' @ pad_int 2 m @ ''-'' @ pad_int 2 d)"

definition escape_datetime :: "string \<Rightarrow> string" where
  "escape_datetime fmt = in_quotes fmt"

text \<open>\<^verbatim>\<open>",".join\<close> accepts texts only.\<close>

fun text_of :: "escaped \<Rightarrow> string res" where
  "text_of (EText s) = Inr s"
| "text_of (EDict d) = Inl PyTypeError"

definition join_items :: "escaped list \<Rightarrow> string res" where
  "join_items es = rbind (rmap text_of es) (\<lambda>ts. Inr (''('' @ join_str '','' ts @ '')''))"

text \<open>\<^verbatim>\<open>escape_item\<close> with the default \<^verbatim>\<open>mapping\<close>; a class without an encoder is written as a string.\<close>

fun escape_item :: "item \<Rightarrow> escaped res" where
  "escape_item INone = Inr (EText ''NULL'')"
| "escape_item (IBool b) = Inr (EText (if b then ''1'' else ''0''))"
| "escape_item (IInt i) = Inr (EText (str_int i))"
| "escape_item (IFloat s) = Inr (EText s)"
| "escape_item (IStr s) = Inr (EText (escape_str s))"
| "escape_item (IDecimal s) = Inr (EText s)"
| "escape_item (IDelta d s u) = Inr (EText (escape_timedelta d s u))"
| "escape_item (ITime h m s u) = Inr (EText (escape_time h m s u))"
| "escape_item (IDate y m d) = Inr (EText (escape_date y m d))"
| "escape_item (IDatetime s) = Inr (EText (escape_datetime s))"
| "escape_item (IStructTime s) = Inr (EText (escape_datetime s))"
| "escape_item (IOther s) = Inr (EText (escape_str s))"
| "escape_item (ISequence xs) = rbind (rmap escape_item xs) (\<lambda>es. rbind (join_items es) (\<lambda>s. Inr (EText s)))"
| "escape_item (IDict d) = rbind (rmap (\<lambda>(k, v). rbind (escape_item v) (\<lambda>e. Inr (k, e))) d) (\<lambda>n. Inr (EDict n))"

text \<open>\<^verbatim>\<open>_convert_second_fraction\<close> of a text of digits.\<close>

definition digits_value :: "string \<Rightarrow> nat" where
  "digits_value s = foldl (\<lambda>n c. 10 * n + (code c - 48)) 0 s"

definition convert_second_fraction :: "string \<Rightarrow> nat" where
  "convert_second_fraction s = (if s = [] then 0 else digits_value (take 6 (s @ replicate (6 - length s) (CHR ''0''))))"

section \<open>Which values have a literal\<close>

text \<open>No dictionary stands inside a sequence.\<close>

fun flat_item :: "item \<Rightarrow> bool" where
  "flat_item (ISequence xs) \<longleftrightarrow> list_all (\<lambda>x. flat_item x \<and> (\<forall>d. x \<noteq> IDict d)) xs"
| "flat_item (IDict d) \<longleftrightarrow> list_all (\<lambda>(k, v). flat_item v) d"
| "flat_item _ \<longleftrightarrow> True"

lemma rmap_texts: "(\<And>x. x \<in> set xs \<Longrightarrow> \<exists>s. f x = Inr (EText s)) \<Longrightarrow> \<exists>ss. rmap f xs = Inr (map EText ss)"
proof (induction xs)
  case (Cons x xs)
  from Cons.prems [of x] obtain s where s: "f x = Inr (EText s)" by auto
  from Cons obtain ss where "rmap f xs = Inr (map EText ss)" by auto
  with s show ?case by (intro exI [of _ "s # ss"]) simp
qed simp

lemma rmap_defined: "(\<And>x. x \<in> set xs \<Longrightarrow> \<exists>y. f x = Inr y) \<Longrightarrow> \<exists>ys. rmap f xs = Inr ys"
proof (induction xs)
  case (Cons x xs)
  from Cons.prems [of x] obtain y where "f x = Inr y" by auto
  moreover from Cons obtain ys where "rmap f xs = Inr ys" by auto
  ultimately show ?case by simp
qed simp

lemma join_texts: "join_items (map EText ss) = Inr (''('' @ join_str '','' ss @ '')'')"
proof -
  have "rmap text_of (map EText ss) = Inr ss" by (induction ss) auto
  then show ?thesis by (simp add: join_items_def)
qed

text \<open>Then the value has a literal, and a text unless it is a dictionary itself.\<close>

definition written :: "item \<Rightarrow> escaped res \<Rightarrow> bool" where
  "written x r \<longleftrightarrow> (case x of IDict d \<Rightarrow> \<exists>n. r = Inr (EDict n) | _ \<Rightarrow> \<exists>s. r = Inr (EText s))"

lemma written_text: "written x r \<Longrightarrow> (\<And>d. x \<noteq> IDict d) \<Longrightarrow> \<exists>s. r = Inr (EText s)"
  by (cases x) (auto simp: written_def)

lemma written_Inr: "written x r \<Longrightarrow> \<exists>e. r = Inr e"
  by (cases x) (auto simp: written_def)

lemma escape_item_flat: "flat_item x \<Longrightarrow> written x (escape_item x)"
proof (induction x rule: escape_item.induct)
  case (13 xs)
  then have "\<exists>s. escape_item x = Inr (EText s)" if "x \<in> set xs" for x
    using that by (intro written_text [of x]) (auto simp: list_all_iff)
  then obtain ss where "rmap escape_item xs = Inr (map EText ss)" using rmap_texts by blast
  then show ?case by (simp add: join_texts written_def)
next
  case (14 d)
  have "\<exists>y. (\<lambda>(k, v). rbind (escape_item v) (\<lambda>e. Inr (k, e))) p = Inr y" if "p \<in> set d" for p
    using 14(1) [OF that, of "fst p" "snd p"] 14(2) that written_Inr [of "snd p"]
    by (fastforce simp: list_all_iff split: prod.splits)
  then have "\<exists>n. rmap (\<lambda>(k, v). rbind (escape_item v) (\<lambda>e. Inr (k, e))) d = Inr n"
    by (rule rmap_defined)
  then show ?case by (auto simp: written_def)
qed (auto simp: written_def)

end
