(* ===== verification/Schema.thy ===== *)
theory Schema
  imports Converters Relations Effects Samples
begin

text \<open>
  The DDL of one table (\<^verbatim>\<open>backends/base/schema_generator.py\<close>, with the SQLite, MySQL, PostgreSQL,
  MSSQL and Oracle generators, and \<^verbatim>\<open>Index.get_sql\<close>). A generator keeps text between its methods
  (MySQL and MSSQL the foreign keys and indexes that go inside the table, PostgreSQL and Oracle the
  comments that go after it): that is \<open>gen_state\<close>, and the methods are computations over it. \<^verbatim>\<open>sha256\<close> is a parameter.
\<close>

section \<open>Generators\<close>

datatype generator =
    BaseGenerator
  | SqliteGenerator
  | MySQLGenerator string        \<comment> \<open>with the client's \<^verbatim>\<open>charset\<close>\<close>
  | PostgresGenerator
  | MSSQLGenerator
  | OracleGenerator

record gen_state =
  field_indexes :: "string list"
  foreign_keys :: "string list"
  comments_array :: "string list"

type_synonym 'a gen = "(gen_state, 'a) io"

definition clean_state :: gen_state where
  "clean_state = \<lparr> field_indexes = [], foreign_keys = [], comments_array = [] \<rparr>"

record schema_env =
  hexdigest :: "string \<Rightarrow> string"          \<comment> \<open>\<^verbatim>\<open>sha256(s).hexdigest()\<close>\<close>
  s_lib :: pylib
  s_ce :: clock_env
  s_enc :: "pyval \<Rightarrow> string res"           \<comment> \<open>encoders of classes outside the model\<close>
  s_metas :: "mid \<Rightarrow> meta"

fun dialect :: "generator \<Rightarrow> string" where
  "dialect BaseGenerator = ''sql''"
| "dialect SqliteGenerator = ''sqlite''"
| "dialect (MySQLGenerator cs) = ''mysql''"
| "dialect PostgresGenerator = ''postgres''"
| "dialect MSSQLGenerator = ''mssql''"
| "dialect OracleGenerator = ''oracle''"

text \<open>\<^verbatim>\<open>client.capabilities.inline_comment\<close>\<close>

fun inline_comment :: "generator \<Rightarrow> bool" where
  "inline_comment SqliteGenerator = True"
| "inline_comment (MySQLGenerator cs) = True"
| "inline_comment _ = False"

definition backtick :: char where "backtick = CHR 0x60"

fun gquote :: "generator \<Rightarrow> string \<Rightarrow> string" where
  "gquote (MySQLGenerator cs) s = backtick # s @ [backtick]"
| "gquote MSSQLGenerator s = CHR ''['' # s @ '']''"
| "gquote _ s = quote2 # s @ [quote2]"

text \<open>The quotes of the templates that the class of \<^verbatim>\<open>g\<close> inherits from the base class.\<close>

definition base_quote :: "string \<Rightarrow> string" where
  "base_quote s = quote2 # s @ [quote2]"

text \<open>The templates of MSSQL and Oracle have no place for \<^verbatim>\<open>IF NOT EXISTS\<close>: their methods pass \<^verbatim>\<open>False\<close> on.\<close>

fun effective_safe :: "generator \<Rightarrow> bool \<Rightarrow> bool" where
  "effective_safe MSSQLGenerator safe = False"
| "effective_safe OracleGenerator safe = False"
| "effective_safe g safe = safe"

section \<open>Templates\<close>

definition if_not_exists :: "bool \<Rightarrow> string" where
  "if_not_exists safe = (if safe then ''IF NOT EXISTS '' else [])"

definition table_create :: "generator \<Rightarrow> string \<Rightarrow> string \<Rightarrow> string \<Rightarrow> string \<Rightarrow> string \<Rightarrow> string" where
  "table_create g exists table cols extra comment =
     ''CREATE TABLE '' @ exists @ gquote g table @ '' ('' @ cols @ '')'' @ extra @ comment @ '';''"

text \<open>\<^verbatim>\<open>str.isspace\<close> on 8-bit characters, and \<^verbatim>\<open>s.strip()\<close>.\<close>

definition is_space :: "char \<Rightarrow> bool" where
  "is_space c = (let n = code c in 9 \<le> n \<and> n \<le> 13 \<or> 28 \<le> n \<and> n \<le> 32 \<or> n = 133 \<or> n = 160)"

definition strip :: "string \<Rightarrow> string" where
  "strip s = rev (dropWhile is_space (rev (dropWhile is_space s)))"

fun field_template :: "generator \<Rightarrow> string \<Rightarrow> string \<Rightarrow> string \<Rightarrow> string \<Rightarrow> string \<Rightarrow> string \<Rightarrow> string \<Rightarrow> string" where
  "field_template (MySQLGenerator cs) name typ nullable uniq primary dflt comment =
     gquote (MySQLGenerator cs) name @ '' '' @ typ @ '' '' @ nullable @ '' '' @ uniq @ primary @ comment @ dflt"
| "field_template MSSQLGenerator name typ nullable uniq primary dflt comment =
     gquote MSSQLGenerator name @ '' '' @ typ @ '' '' @ nullable @ '' '' @ uniq @ primary @ dflt"
| "field_template OracleGenerator name typ nullable uniq primary dflt comment =
     gquote OracleGenerator name @ '' '' @ typ @ dflt @ '' '' @ nullable @ '' '' @ uniq @ primary"
| "field_template g name typ nullable uniq primary dflt comment =
     gquote g name @ '' '' @ typ @ '' '' @ nullable @ '' '' @ uniq @ primary @ dflt @ comment"

text \<open>On MSSQL a column that may be null is not unique.\<close>

fun column_unique :: "generator \<Rightarrow> string \<Rightarrow> string \<Rightarrow> string" where
  "column_unique MSSQLGenerator nullable uniq = (if nullable = [] then [] else uniq)"
| "column_unique g nullable uniq = uniq"

definition create_string ::
    "generator \<Rightarrow> string \<Rightarrow> string \<Rightarrow> string \<Rightarrow> string \<Rightarrow> bool \<Rightarrow> string \<Rightarrow> string \<Rightarrow> string" where
  "create_string g db_column typ nullable uniq is_primary_key comment dflt =
     strip (field_template g db_column typ nullable (if is_primary_key then [] else column_unique g nullable uniq)
       (if is_primary_key then '' PRIMARY KEY'' else []) dflt (if inline_comment g then comment else []))"

text \<open>The templates of PostgreSQL, MSSQL and Oracle for a generated key have no comment.\<close>

fun generated_pk :: "generator \<Rightarrow> string \<Rightarrow> string \<Rightarrow> string \<Rightarrow> string" where
  "generated_pk PostgresGenerator name gsql comment = gquote PostgresGenerator name @ '' '' @ gsql"
| "generated_pk MSSQLGenerator name gsql comment = gquote MSSQLGenerator name @ '' '' @ gsql"
| "generated_pk OracleGenerator name gsql comment = gquote OracleGenerator name @ '' '' @ gsql"
| "generated_pk g name gsql comment = gquote g name @ '' '' @ gsql @ comment"

section \<open>Comments\<close>

text \<open>\<^verbatim>\<open>_get_escape_translation_table\<close>\<close>

fun comment_table :: "generator \<Rightarrow> char \<Rightarrow> string" where
  "comment_table SqliteGenerator c =
     (if c = quote2 then [quote2] else if c = quote1 then [quote1]
      else if c = CHR ''/'' then [backslash, CHR ''/''] else escape_table c)"
| "comment_table PostgresGenerator c = (if c = quote1 then [quote1, quote1] else escape_table c)"
| "comment_table OracleGenerator c = (if c = quote1 then [quote1, quote1] else escape_table c)"
| "comment_table _ c = escape_table c"

definition escape_comment :: "generator \<Rightarrow> string \<Rightarrow> string" where
  "escape_comment g = translate (comment_table g)"

text \<open>The statements of PostgreSQL and Oracle.\<close>

definition comment_on_table :: "generator \<Rightarrow> string \<Rightarrow> string \<Rightarrow> string" where
  "comment_on_table g table comment = ''COMMENT ON TABLE '' @ gquote g table @ '' IS '' @
     in_quotes (escape_comment g comment) @ '';''"

definition comment_on_column :: "generator \<Rightarrow> string \<Rightarrow> string \<Rightarrow> string \<Rightarrow> string" where
  "comment_on_column g table column comment = ''COMMENT ON COLUMN '' @ gquote g table @ ''.'' @
     gquote g column @ '' IS '' @ in_quotes (escape_comment g comment) @ '';''"

definition block_comment :: "string \<Rightarrow> string" where
  "block_comment comment = '' /* '' @ escape_comment SqliteGenerator comment @ '' */''"

fun table_comment :: "generator \<Rightarrow> string \<Rightarrow> string \<Rightarrow> string gen" where
  "table_comment BaseGenerator table comment = iraise PyNotImplementedError"
| "table_comment SqliteGenerator table comment = iret (block_comment comment)"
| "table_comment (MySQLGenerator cs) table comment =
     iret ('' COMMENT='' @ in_quotes (escape_comment (MySQLGenerator cs) comment))"
| "table_comment MSSQLGenerator table comment = iret []"
| "table_comment g table comment =
     ibind (imodify (\<lambda>s. s\<lparr>comments_array := comments_array s @ [comment_on_table g table comment]\<rparr>))
       (\<lambda>_. iret [])"

fun column_comment :: "generator \<Rightarrow> string \<Rightarrow> string \<Rightarrow> string \<Rightarrow> string gen" where
  "column_comment BaseGenerator table column comment = iraise PyNotImplementedError"
| "column_comment SqliteGenerator table column comment = iret (block_comment comment)"
| "column_comment (MySQLGenerator cs) table column comment =
     iret ('' COMMENT '' @ in_quotes (escape_comment (MySQLGenerator cs) comment))"
| "column_comment MSSQLGenerator table column comment = iret []"
| "column_comment g table column comment =
     ibind (imodify (\<lambda>s. s\<lparr>comments_array := set_add (comment_on_column g table column comment) (comments_array s)\<rparr>))
       (\<lambda>_. iret [])"

text \<open>\<^verbatim>\<open>x(...) if description else ""\<close>\<close>

definition described :: "string option \<Rightarrow> (string \<Rightarrow> string gen) \<Rightarrow> string gen" where
  "described d mk = (case d of None \<Rightarrow> iret [] | Some s \<Rightarrow> if s = [] then iret [] else mk s)"

definition flush_comments :: "string gen" where
  "flush_comments =
     ibind (iget comments_array) (\<lambda>cs. ibind (imodify (\<lambda>s. s\<lparr>comments_array := []\<rparr>)) (\<lambda>_.
       let val = join_str nl cs in iret (if val \<noteq> [] then nl @ val else [])))"

fun post_table_hook :: "generator \<Rightarrow> string gen" where
  "post_table_hook PostgresGenerator = flush_comments"
| "post_table_hook OracleGenerator = flush_comments"
| "post_table_hook g = iret []"

fun table_extra :: "generator \<Rightarrow> string" where
  "table_extra (MySQLGenerator cs) = (if cs \<noteq> [] then '' CHARACTER SET '' @ cs else [])"
| "table_extra g = []"

section \<open>Column defaults\<close>

text \<open>MSSQL and Oracle have the same text.\<close>

definition odbc_default :: "string \<Rightarrow> bool \<Rightarrow> bool \<Rightarrow> string" where
  "odbc_default d auto_now_add auto_now =
     '' DEFAULT'' @ (if \<not> (auto_now \<or> auto_now_add) then '' '' @ d else []) @
     (if auto_now_add then '' CURRENT_TIMESTAMP'' else [])"

fun column_default :: "generator \<Rightarrow> string \<Rightarrow> bool \<Rightarrow> bool \<Rightarrow> string res" where
  "column_default BaseGenerator d auto_now_add auto_now = Inl PyNotImplementedError"
| "column_default (MySQLGenerator cs) d auto_now_add auto_now =
     Inr ('' DEFAULT'' @ (if \<not> (auto_now \<or> auto_now_add) then '' '' @ d else []) @
          (if auto_now_add then '' CURRENT_TIMESTAMP(6)'' else []) @
          (if auto_now then '' ON UPDATE CURRENT_TIMESTAMP(6)'' else []))"
| "column_default MSSQLGenerator d auto_now_add auto_now = Inr (odbc_default d auto_now_add auto_now)"
| "column_default OracleGenerator d auto_now_add auto_now = Inr (odbc_default d auto_now_add auto_now)"
| "column_default g d auto_now_add auto_now =
     Inr ('' DEFAULT'' @ (if auto_now_add then '' CURRENT_TIMESTAMP'' else '' '' @ d))"

fun escape_default_value :: "generator \<Rightarrow> (pyval \<Rightarrow> string res) \<Rightarrow> pyval \<Rightarrow> string res" where
  "escape_default_value BaseGenerator enc v = Inl PyNotImplementedError"
| "escape_default_value PostgresGenerator enc (VBool b) = Inr (if b then ''True'' else ''False'')"
| "escape_default_value g enc v = encode_literal enc v"

fun auto_now_add :: "fclass \<Rightarrow> bool" where
  "auto_now_add (DatetimeField an ana) = ana"
| "auto_now_add (TimeField an ana) = ana"
| "auto_now_add c = False"

fun auto_now :: "fclass \<Rightarrow> bool" where
  "auto_now (DatetimeField an ana) = an"
| "auto_now (TimeField an ana) = an"
| "auto_now c = False"

fun callable :: "pyval \<Rightarrow> bool" where
  "callable (VCallable n) = True"
| "callable (VCoroutine n) = True"
| "callable v = False"

definition default_sql :: "generator \<Rightarrow> schema_env \<Rightarrow> field \<Rightarrow> string res" where
  "default_sql g env f =
     (if default f \<noteq> VNone \<or> auto_now (fclass f) \<or> auto_now_add (fclass f) then
        if callable (default f) \<or> fclass f \<in> {UUIDField, TextField, JSONField} then Inr []
        else rbind (to_db_value (s_lib env) (s_ce env) f (default f) ModelClass) (\<lambda>(v, _).
          case rbind (escape_default_value g (s_enc env) v)
                 (\<lambda>d. column_default g d (auto_now_add (fclass f)) (auto_now (fclass f))) of
            Inl e \<Rightarrow> if exn_isa e PyNotImplementedError then Inr [] else Inl e
          | Inr s \<Rightarrow> Inr s)
      else Inr [])"

section \<open>Names\<close>

definition make_hash :: "schema_env \<Rightarrow> string list \<Rightarrow> nat \<Rightarrow> string" where
  "make_hash env args len = take len (hexdigest env (join_str '';'' args))"

definition generate_index_name :: "schema_env \<Rightarrow> string \<Rightarrow> string \<Rightarrow> string list \<Rightarrow> string res" where
  "generate_index_name env prefix table names =
     (case names of [] \<Rightarrow> Inl PyIndexError
      | n # _ \<Rightarrow> Inr (prefix @ ''_'' @ take 11 table @ ''_'' @ take 7 n @ ''_'' @ make_hash env (table # names) 6))"

definition generate_fk_name :: "schema_env \<Rightarrow> string \<Rightarrow> string \<Rightarrow> string \<Rightarrow> string \<Rightarrow> string" where
  "generate_fk_name env from_table from_col to_table to_col =
     ''fk_'' @ take 8 from_table @ ''_'' @ take 8 to_table @ ''_'' @
     make_hash env [from_table, from_col, to_table, to_col] 8"

definition quoted_list :: "generator \<Rightarrow> string list \<Rightarrow> string" where
  "quoted_list g names = join_str '', '' (map (gquote g) names)"

section \<open>Indexes and constraints\<close>

definition index_template :: "generator \<Rightarrow> string \<Rightarrow> string \<Rightarrow> string \<Rightarrow> string" where
  "index_template g exists name rest = ''CREATE INDEX '' @ exists @ gquote g name @ '' ON '' @ rest"

fun get_index_sql :: "generator \<Rightarrow> schema_env \<Rightarrow> string \<Rightarrow> string list \<Rightarrow> bool \<Rightarrow> string gen" where
  "get_index_sql (MySQLGenerator cs) env table names safe =
     ibind (ilift (generate_index_name env ''idx'' table names)) (\<lambda>name.
     ibind (imodify (\<lambda>s. s\<lparr>field_indexes := field_indexes s @
        [''KEY '' @ gquote (MySQLGenerator cs) name @ '' ('' @ quoted_list (MySQLGenerator cs) names @ '')'']\<rparr>))
       (\<lambda>_. iret []))"
| "get_index_sql g env table names safe =
     ibind (ilift (generate_index_name env ''idx'' table names)) (\<lambda>name.
       iret (index_template g (if_not_exists (effective_safe g safe)) name (gquote g table @ '' ('' @ quoted_list g names @ '');'')))"

fun get_unique_index_sql :: "generator \<Rightarrow> schema_env \<Rightarrow> string \<Rightarrow> string \<Rightarrow> string list \<Rightarrow> string res" where
  "get_unique_index_sql (MySQLGenerator cs) env exists table names =
     rbind (generate_index_name env ''uidx'' table names) (\<lambda>name.
       Inr (''UNIQUE KEY '' @ gquote (MySQLGenerator cs) name @ '' ('' @ quoted_list (MySQLGenerator cs) names @ '')''))"
| "get_unique_index_sql g env exists table names =
     rbind (generate_index_name env ''uidx'' table names) (\<lambda>name.
       Inr (''CREATE UNIQUE INDEX '' @ exists @ base_quote name @ '' ON '' @ base_quote table @
            '' ('' @ quoted_list g names @ '');''))"

fun get_unique_constraint_sql :: "generator \<Rightarrow> schema_env \<Rightarrow> string \<Rightarrow> string list \<Rightarrow> string res" where
  "get_unique_constraint_sql (MySQLGenerator cs) env table names =
     rbind (generate_index_name env ''uid'' table names) (\<lambda>name.
       Inr (''UNIQUE KEY '' @ gquote (MySQLGenerator cs) name @ '' ('' @ quoted_list (MySQLGenerator cs) names @ '')''))"
| "get_unique_constraint_sql g env table names =
     rbind (generate_index_name env ''uid'' table names) (\<lambda>name.
       Inr (''CONSTRAINT '' @ base_quote name @ '' UNIQUE ('' @ quoted_list g names @ '')''))"

text \<open>
  \<^verbatim>\<open>Index.get_sql\<close>: only PostgreSQL's template has a place for \<^verbatim>\<open>{exists}\<close>, and the field names
  are quoted as they are.
\<close>

definition index_object_name :: "schema_env \<Rightarrow> string \<Rightarrow> index_obj \<Rightarrow> string res" where
  "index_object_name env table i =
     (case idx_name i of
        Some n \<Rightarrow> if n \<noteq> [] then Inr n else generate_index_name env ''idx'' table (idx_fields i)
      | None \<Rightarrow> generate_index_name env ''idx'' table (idx_fields i))"

definition index_object_sql ::
    "generator \<Rightarrow> schema_env \<Rightarrow> string \<Rightarrow> index_obj \<Rightarrow> bool \<Rightarrow> string res" where
  "index_object_sql g env table i safe =
     (let columns = (if idx_fields i \<noteq> [] then quoted_list g (idx_fields i)
                     else join_str '', '' (map (\<lambda>e. ''('' @ e @ '')'') (idx_expressions i)));
          typ = '' '' @ index_type (idx_class i) @ '' '' in
      rbind (index_object_name env table i) (\<lambda>name.
       Inr (if postgres_index (idx_class i) then
              ''CREATE INDEX '' @ if_not_exists safe @ gquote g name @ '' ON '' @ gquote g table @
              '' USING'' @ typ @ ''('' @ columns @ '')'' @ idx_extra i @ '';''
            else
              ''CREATE'' @ typ @ ''INDEX '' @ gquote g name @ '' ON '' @ gquote g table @
              '' ('' @ columns @ '')'' @ idx_extra i @ '';'')))"

text \<open>An index over expressions can only be written when it was given a name.\<close>

lemma expression_index_needs_name:
  assumes "index_wf i" and "idx_expressions i \<noteq> []" and "idx_name i = None \<or> idx_name i = Some []"
  shows "index_object_sql g env table i safe = Inl PyIndexError"
  using assms
  by (auto simp: index_wf_def index_object_sql_def index_object_name_def generate_index_name_def Let_def)

text \<open>\<^verbatim>\<open>list(dict.fromkeys(xs))\<close>\<close>

definition fromkeys :: "'a list \<Rightarrow> 'a list" where
  "fromkeys xs = rev (remdups (rev xs))"

definition take_statements :: "string list gen" where
  "take_statements =
     ibind (iget (\<lambda>s. foreign_keys s @ fromkeys (field_indexes s))) (\<lambda>extra.
     ibind (imodify (\<lambda>s. s\<lparr>field_indexes := [], foreign_keys := []\<rparr>)) (\<lambda>_. iret extra))"

text \<open>Oracle's generator has the base class's method.\<close>

fun inner_statements :: "generator \<Rightarrow> string list gen" where
  "inner_statements (MySQLGenerator cs) = take_statements"
| "inner_statements MSSQLGenerator = take_statements"
| "inner_statements g = iret []"

text \<open>\<^verbatim>\<open>FK_TEMPLATE\<close> of MySQL, MSSQL and Oracle, filled in.\<close>

definition fk_clause :: "generator \<Rightarrow> string \<Rightarrow> string \<Rightarrow> string \<Rightarrow> string \<Rightarrow> on_delete \<Rightarrow> string" where
  "fk_clause g constraint_name db_column table refcol od =
     (if constraint_name \<noteq> [] then ''CONSTRAINT '' @ gquote g constraint_name @ '' '' else []) @
     ''FOREIGN KEY ('' @ gquote g db_column @ '') REFERENCES '' @ gquote g table @
     '' ('' @ gquote g refcol @ '') ON DELETE '' @ on_delete_str od"

text \<open>A clause with a name is kept for the end of the table, and \<open>line\<close> is what follows the column.\<close>

definition keep_clause :: "string \<Rightarrow> string \<Rightarrow> string \<Rightarrow> string gen" where
  "keep_clause constraint_name fk line =
     (if constraint_name \<noteq> [] then
        ibind (imodify (\<lambda>s. s\<lparr>foreign_keys := foreign_keys s @ [fk]\<rparr>)) (\<lambda>_. iret line)
      else iret fk)"

definition oracle_on_delete :: "on_delete \<Rightarrow> on_delete" where
  "oracle_on_delete od = (if od \<in> {CASCADE, SET_NULL} then od else CASCADE)"

fun create_fk_string ::
    "generator \<Rightarrow> string \<Rightarrow> string \<Rightarrow> string \<Rightarrow> string \<Rightarrow> on_delete \<Rightarrow> string \<Rightarrow> string gen" where
  "create_fk_string (MySQLGenerator cs) constraint_name db_column table refcol od comment =
     keep_clause constraint_name (fk_clause (MySQLGenerator cs) constraint_name db_column table refcol od) comment"
| "create_fk_string MSSQLGenerator constraint_name db_column table refcol od comment =
     keep_clause constraint_name (fk_clause MSSQLGenerator constraint_name db_column table refcol od) []"
| "create_fk_string OracleGenerator constraint_name db_column table refcol od comment =
     keep_clause constraint_name
       (fk_clause OracleGenerator constraint_name db_column table refcol (oracle_on_delete od)) []"
| "create_fk_string g constraint_name db_column table refcol od comment =
     iret ('' REFERENCES '' @ gquote g table @ '' ('' @ gquote g refcol @ '') ON DELETE '' @ on_delete_str od @ comment)"

section \<open>Columns\<close>

text \<open>The text of a dialect attribute; the keys asked for below are never functions or fields.\<close>

fun dattr_str :: "dattr \<Rightarrow> string" where
  "dattr_str DNone = ''None''"
| "dattr_str (DStr s) = s"
| "dattr_str (DFunction n) = n"
| "dattr_str DFieldObj = []"

fun dattr_truthy :: "dattr \<Rightarrow> bool" where
  "dattr_truthy DNone = False"
| "dattr_truthy (DStr s) = (s \<noteq> [])"
| "dattr_truthy d = True"

text \<open>
  \<^verbatim>\<open>field_object.reference\<close>: the foreign key whose key this field is, the name of the column it
  refers to, and the table of the related model.
\<close>

definition get_reference :: "meta \<Rightarrow> field \<Rightarrow> field option res" where
  "get_reference m f =
     (case reference f of None \<Rightarrow> Inr None
      | Some n \<Rightarrow> rbind (dict_at (fields_map m) n) (\<lambda>r. Inr (Some r)))"

definition to_field_column :: "schema_env \<Rightarrow> field \<Rightarrow> string res" where
  "to_field_column env r =
     (case to_field_instance (rel r) of None \<Rightarrow> Inl PyAttributeError
      | Some (rm, n) \<Rightarrow> rbind (dict_at (fields_map (s_metas env rm)) n)
          (\<lambda>f. Inr (str_or (source_field f) (model_field_name f))))"

definition related_table :: "schema_env \<Rightarrow> field \<Rightarrow> string res" where
  "related_table env r =
     (case related_model (rel r) of None \<Rightarrow> Inl PyAttributeError | Some rm \<Rightarrow> Inr (db_table (s_metas env rm)))"

text \<open>
  One round of the loop over the columns: the text, whether the column gets an index, and the
  table it refers to.
\<close>

definition create_column ::
    "generator \<Rightarrow> schema_env \<Rightarrow> meta \<Rightarrow> string \<times> string \<Rightarrow> (string \<times> bool \<times> string option) gen" where
  "create_column g env m p =
     (case p of (field_name, column_name) \<Rightarrow>
      ibind (ilift (dict_at (fields_map m) field_name)) (\<lambda>f.
      ibind (described (description f) (column_comment g (db_table m) column_name)) (\<lambda>comment.
      ibind (ilift (default_sql g env f)) (\<lambda>dflt.
      let gsql = get_for_dialect f (dialect g) ''GENERATED_SQL'';
          typ = dattr_str (get_for_dialect f (dialect g) ''SQL_TYPE'');
          nullable = (if \<not> null f then ''NOT NULL'' else []);
          uniq = (if unique f then ''UNIQUE'' else []);
          indexed = (index f \<and> \<not> pk f)
      in if pk f \<and> generated f \<and> dattr_truthy gsql then
           iret (generated_pk g column_name (dattr_str gsql) comment, False, None)
         else
           ibind (ilift (get_reference m f)) (\<lambda>ref.
           case ref of
             None \<Rightarrow> iret (create_string g column_name typ nullable uniq (pk f) comment dflt, indexed, None)
           | Some r \<Rightarrow>
               ibind (described (description r) (column_comment g (db_table m) column_name)) (\<lambda>comment.
               ibind (ilift (to_field_column env r)) (\<lambda>to_name.
               let line = create_string g column_name typ nullable uniq (pk f)
                            (if \<not> db_constraint (rel r) then comment else []) dflt
               in ibind (ilift (related_table env r)) (\<lambda>rt.
                  ibind (if db_constraint (rel r) then
                           create_fk_string g (generate_fk_name env (db_table m) column_name rt to_name)
                             column_name rt to_name (on_delete (rel r)) comment
                         else iret [])
                    (\<lambda>fk. iret (line @ fk, indexed, Some rt))))))))))"

text \<open>\<^verbatim>\<open>fields_map[field].source_field or field\<close> of each name of a group.\<close>

definition together_columns :: "meta \<Rightarrow> string list \<Rightarrow> string list res" where
  "together_columns m names = rmap (\<lambda>n. rbind (dict_at (fields_map m) n) (\<lambda>f. Inr (source_or f n))) names"

definition unique_constraints :: "generator \<Rightarrow> schema_env \<Rightarrow> meta \<Rightarrow> string list res" where
  "unique_constraints g env m =
     rmap (\<lambda>names. rbind (together_columns m names) (get_unique_constraint_sql g env (db_table m)))
       (unique_together m)"

fun meta_index_sql :: "generator \<Rightarrow> schema_env \<Rightarrow> meta \<Rightarrow> bool \<Rightarrow> index_decl \<Rightarrow> string gen" where
  "meta_index_sql g env m safe (IdxFields names) =
     ibind (ilift (together_columns m names)) (\<lambda>cols. get_index_sql g env (db_table m) cols safe)"
| "meta_index_sql g env m safe (IdxObject i) = ilift (index_object_sql g env (db_table m) i safe)"

section \<open>Tables of many-to-many relations\<close>

definition m2m_template ::
    "generator \<Rightarrow> string \<Rightarrow> string \<Rightarrow> string \<Rightarrow> string \<Rightarrow> string \<Rightarrow> string \<Rightarrow> string \<Rightarrow> string \<Rightarrow> string \<Rightarrow> string" where
  "m2m_template g exists table bk btype bfk fk ftype ffk tail =
     ''CREATE TABLE '' @ exists @ gquote g table @ '' ('' @ nl @
     (case g of
        MySQLGenerator cs \<Rightarrow>
          ''    '' @ gquote g bk @ '' '' @ btype @ '' NOT NULL,'' @ nl @
          ''    '' @ gquote g fk @ '' '' @ ftype @ '' NOT NULL,'' @ nl @
          ''    '' @ bfk @ '','' @ nl @ ''    '' @ ffk @ nl
      | MSSQLGenerator \<Rightarrow>
          ''    '' @ bk @ '' '' @ btype @ '' NOT NULL,'' @ nl @
          ''    '' @ fk @ '' '' @ ftype @ '' NOT NULL,'' @ nl @
          ''    '' @ bfk @ '','' @ nl @ ''    '' @ ffk @ nl
      | OracleGenerator \<Rightarrow>
          ''    '' @ gquote g bk @ '' '' @ btype @ '' NOT NULL,'' @ nl @
          ''    '' @ gquote g fk @ '' '' @ ftype @ '' NOT NULL,'' @ nl @
          ''    '' @ bfk @ '','' @ nl @ ''    '' @ ffk @ nl
      | _ \<Rightarrow>
          ''    '' @ gquote g bk @ '' '' @ btype @ '' NOT NULL'' @ bfk @ '','' @ nl @
          ''    '' @ gquote g fk @ '' '' @ ftype @ '' NOT NULL'' @ ffk @ nl) @
     '')'' @ tail @ '';''"

text \<open>\<^verbatim>\<open>s.replace(p, r)\<close> for a pattern that is not empty.\<close>

function replace_all :: "string \<Rightarrow> string \<Rightarrow> string \<Rightarrow> string" where
  "replace_all p r s =
     (if s = [] then []
      else if p \<noteq> [] \<and> take (length p) s = p then r @ replace_all p r (drop (length p) s)
      else hd s # replace_all p r (tl s))"
  by pat_completeness auto
termination
  by (relation "measure (\<lambda>(p, r, s). length s)") auto

declare replace_all.simps [simp del]

definition empty_lines :: string where
  "empty_lines = '','' @ nl @ ''    ,'' @ nl @ ''    ''"

text \<open>\<^verbatim>\<open>s.splitlines()\<close>: a carriage return and newline are one break, a last empty line is dropped.\<close>

definition line_break :: "char \<Rightarrow> bool" where
  "line_break c = (code c \<in> {10, 11, 12, 13, 28, 29, 30, 133})"

fun split_lines :: "string \<Rightarrow> string \<Rightarrow> string list" where
  "split_lines acc [] = (if acc = [] then [] else [rev acc])"
| "split_lines acc [c] = (if line_break c then [rev acc] else [rev (c # acc)])"
| "split_lines acc (c # d # s) =
     (if code c = 13 \<and> code d = 10 then rev acc # split_lines [] s
      else if line_break c then rev acc # split_lines [] (d # s)
      else split_lines (c # acc) (d # s))"

definition insert_line :: "string \<Rightarrow> string \<Rightarrow> string res" where
  "insert_line s line =
     (case rev (split_lines [] s) of
        lst # prev # rest \<Rightarrow>
          Inr (join_str nl (rev rest @ [prev @ '','', takeWhile is_space prev @ line, lst]))
      | _ \<Rightarrow> Inl PyIndexError)"

definition add_unique_index :: "string \<Rightarrow> string \<Rightarrow> string res" where
  "add_unique_index s uidx =
     (if uidx \<noteq> [] \<and> last uidx = CHR '';'' then Inr (s @ nl @ uidx) else insert_line s uidx)"

definition m2m_table_sql :: "generator \<Rightarrow> schema_env \<Rightarrow> meta \<Rightarrow> bool \<Rightarrow> field \<Rightarrow> string \<Rightarrow> string gen" where
  "m2m_table_sql g env m safe f table =
     (let bk = backward_key (rel f); fk = forward_key (rel f); od = on_delete (rel f) in
      ibind (ilift (case related_model (rel f) of None \<Rightarrow> Inl PyAttributeError | Some rm \<Rightarrow> Inr (s_metas env rm))) (\<lambda>rm.
      ibind (if db_constraint (rel f) then create_fk_string g [] bk (db_table m) (db_pk_column m) od [] else iret []) (\<lambda>bfk.
      ibind (if db_constraint (rel f) then create_fk_string g [] fk (db_table rm) (db_pk_column rm) od [] else iret []) (\<lambda>ffk.
      ibind (ilift (get_pk m)) (\<lambda>bpk. ibind (ilift (get_pk rm)) (\<lambda>fpk.
      ibind (described (description f) (table_comment g table)) (\<lambda>comment.
      let s = m2m_template g (if_not_exists safe) table
                bk (dattr_str (get_for_dialect bpk (dialect g) ''SQL_TYPE'')) bfk
                fk (dattr_str (get_for_dialect fpk (dialect g) ''SQL_TYPE'')) ffk (table_extra g @ comment);
          s1 = (if \<not> db_constraint (rel f) then replace_all empty_lines [] s else s)
      in ibind (post_table_hook g) (\<lambda>post.
         if create_unique_index (rel f) then
           ibind (ilift (get_unique_index_sql g env (if_not_exists safe) table [bk, fk])) (\<lambda>u.
             ilift (add_unique_index (s1 @ post) u))
         else iret (s1 @ post))))))))) "

section \<open>\<^verbatim>\<open>_get_table_sql\<close>\<close>

record t_entry =
  t_table :: string
  t_sql :: string
  t_refs :: "string list"     \<comment> \<open>a set\<close>
  t_m2m :: "string list"

text \<open>\<open>tables\<close> are the tables of the models to create.\<close>

definition m2m_step ::
    "generator \<Rightarrow> schema_env \<Rightarrow> meta \<Rightarrow> bool \<Rightarrow> string list \<Rightarrow> string \<Rightarrow> string list \<Rightarrow> string list gen" where
  "m2m_step g env m safe tables n acc =
     ibind (ilift (dict_at (fields_map m) n)) (\<lambda>f.
       let table = (case through (rel f) of None \<Rightarrow> ''None'' | Some t \<Rightarrow> t) in
       if m2m_generated (rel f) \<or> (through (rel f) \<noteq> None \<and> table \<in> set tables) then iret acc
       else ibind (m2m_table_sql g env m safe f table) (\<lambda>s. iret (acc @ [s])))"

definition column_lines :: "(string \<times> bool \<times> string option) list \<Rightarrow> string list" where
  "column_lines cols = map fst cols"

definition get_table_sql ::
    "generator \<Rightarrow> schema_env \<Rightarrow> string list \<Rightarrow> mid \<Rightarrow> bool \<Rightarrow> t_entry gen" where
  "get_table_sql g env tables model given_safe =
     (let safe = effective_safe g given_safe; m = s_metas env model; table = db_table m in
      ibind (imap (create_column g env m) (fields_db_projection m)) (\<lambda>cols.
      ibind (ilift (unique_constraints g env m)) (\<lambda>uniques.
      ibind (imap (\<lambda>c. get_index_sql g env table [c] safe)
               (map (snd \<circ> fst) (filter (fst \<circ> snd \<circ> snd) (zip (fields_db_projection m) cols)))) (\<lambda>idx1.
      ibind (imap (meta_index_sql g env m safe) (indexes m)) (\<lambda>idx2.
      let field_indexes_sqls = filter (\<lambda>v. v \<noteq> []) (fromkeys (idx1 @ idx2)) in
      ibind (inner_statements g) (\<lambda>inner.
      let body = nl @ ''    '' @ join_str ('','' @ nl @ ''    '') (column_lines cols @ uniques @ inner) @ nl in
      ibind (described (Some (table_description m)) (table_comment g table)) (\<lambda>comment.
      let create = table_create g (if_not_exists safe) table body (table_extra g) comment in
      ibind (post_table_hook g) (\<lambda>post.
      ibind (ifold (m2m_step g env m safe tables) (m2m_fields m) []) (\<lambda>m2m.
      iret \<lparr> t_table = table, t_sql = join_str nl (create # field_indexes_sqls) @ post,
             t_refs = remdups (List.map_filter (snd \<circ> snd) cols), t_m2m = m2m \<rparr>)))))))))"

section \<open>Comments cannot end early\<close>

lemma sqlite_piece:
  "(\<exists>x. comment_table SqliteGenerator c = [x] \<and> x \<noteq> CHR ''/'') \<or> (\<exists>y. comment_table SqliteGenerator c = [backslash, y])"
proof -
  have "quote1 \<noteq> CHR ''/''" "quote2 \<noteq> CHR ''/''" by (simp_all add: specials)
  then show ?thesis by (auto simp: escape_table_def)
qed

lemma sqlite_comment_inert:
  "(escape_comment SqliteGenerator s @ '' */'' = a @ ''*/'' @ b \<longrightarrow> b = []) \<and>
   (\<forall>t. escape_comment SqliteGenerator s \<noteq> CHR ''/'' # t)"
proof (induction s arbitrary: a b)
  case Nil
  have "'' */'' = a @ ''*/'' @ b \<Longrightarrow> b = []"
    by (cases a; cases "tl a") (auto simp: Cons_eq_append_conv)
  then show ?case by (simp add: escape_comment_def)
next
  case (Cons c s)
  let ?r = "escape_comment SqliteGenerator s"
  have bs: "backslash \<noteq> CHR ''*''" "backslash \<noteq> CHR ''/''" by (simp_all add: specials)
  have r1: "?r @ '' */'' = a @ ''*/'' @ b \<Longrightarrow> b = []" for a b
    using Cons.IH by blast
  have r2: "?r @ '' */'' \<noteq> CHR ''/'' # b" for b
    using Cons.IH by (cases ?r) auto
  note r = r1 r2
  have eq: "escape_comment SqliteGenerator (c # s) = comment_table SqliteGenerator c @ ?r"
    by (simp add: escape_comment_def)
  from sqlite_piece [of c] show ?case
  proof (elim disjE exE conjE)
    fix x assume x: "comment_table SqliteGenerator c = [x]" "x \<noteq> CHR ''/''"
    have "x # ?r @ '' */'' = a @ ''*/'' @ b \<Longrightarrow> b = []"
      by (cases a) (use r in auto)
    then show ?thesis unfolding eq x(1) using x(2) by simp
  next
    fix y assume y: "comment_table SqliteGenerator c = [backslash, y]"
    have "y # ?r @ '' */'' = a' @ ''*/'' @ b \<Longrightarrow> b = []" for a'
      by (cases a') (use r in auto)
    then have "backslash # y # ?r @ '' */'' = a @ ''*/'' @ b \<Longrightarrow> b = []"
      by (cases a) (use bs in auto)
    then show ?thesis unfolding eq y using bs by simp
  qed
qed

text \<open>
  A description cannot end the comment it is written into: whatever the text, the block
  comment that the SQLite generator writes closes nowhere before its own end.
\<close>

theorem sqlite_comment_closed:
  assumes "block_comment s = a @ ''*/'' @ b"
  shows "b = []"
proof -
  let ?t = "escape_comment SqliteGenerator s @ '' */''"
  from assms have e: "CHR '' '' # CHR ''/'' # CHR ''*'' # CHR '' '' # ?t = a @ ''*/'' @ b"
    by (simp add: block_comment_def)
  then have "\<exists>a'. ?t = a' @ ''*/'' @ b" by (auto simp: Cons_eq_append_conv)
  then show ?thesis using sqlite_comment_inert by blast
qed

theorem sqlite_comment_closed_witness:
  "block_comment ''x */ y'' = '' /* x *'' @ [backslash] @ ''/ y '' @ ''*/'' @ [] \<and> ([] :: string) = []"
proof -
  have e: "block_comment ''x */ y'' = ('' /* x *'' @ [backslash] @ ''/ y '') @ ''*/'' @ []"
    by code_simp
  from sqlite_comment_closed [OF e] e show ?thesis by simp
qed

section \<open>A table's statements do not leak into the next table\<close>

text \<open>\<open>returns P c Q\<close>: if \<open>c\<close> returns from a state in \<open>P\<close>, it leaves one in \<open>Q\<close>.\<close>

definition returns :: "(gen_state \<Rightarrow> bool) \<Rightarrow> 'a gen \<Rightarrow> (gen_state \<Rightarrow> bool) \<Rightarrow> bool" where
  "returns P c Q \<longleftrightarrow> (\<forall>s a t. P s \<longrightarrow> c s = (Ret a, t) \<longrightarrow> Q t)"

named_theorems gen_rules \<open>what a generator's methods leave behind\<close>

lemma returns_ibind: "returns P c R \<Longrightarrow> (\<And>a. returns R (k a) Q) \<Longrightarrow> returns P (ibind c k) Q"
  unfolding returns_def ibind_Ret by blast

lemma returns_simple [gen_rules]:
  "returns P (iret a) P" "returns P (iraise e) Q" "returns P (ilift r) P" "returns P (iget h) P"
  by (auto simp: returns_def iret_def iraise_def iget_def)

lemma returns_imap: "(\<And>x. returns P (f x) P) \<Longrightarrow> returns P (imap f xs) P"
  by (induction xs) (auto intro!: returns_ibind gen_rules)

lemma returns_ifold: "(\<And>x b. returns P (f x b) P) \<Longrightarrow> returns P (ifold f xs b) P"
  by (induction xs arbitrary: b) (auto intro!: returns_ibind gen_rules)

lemma returns_imodify: "(\<And>s. P s \<Longrightarrow> Q (g s)) \<Longrightarrow> returns P (imodify g) Q"
  by (simp add: returns_def imodify_def)

lemma returns_described: "(\<And>d. returns P (mk d) P) \<Longrightarrow> returns P (described d mk) P"
  by (auto simp: described_def gen_rules split: option.split)

text \<open>
  Before, and after, the inner statements of a table were taken, and between two tables. Oracle's
  generator never takes the foreign keys it keeps.
\<close>

definition in_columns :: "generator \<Rightarrow> gen_state \<Rightarrow> bool" where
  "in_columns g s \<longleftrightarrow> (g = PostgresGenerator \<or> g = OracleGenerator \<or> comments_array s = []) \<and>
     (g = OracleGenerator \<or> (\<exists>cs. g = MySQLGenerator cs) \<or> g = MSSQLGenerator \<or> foreign_keys s = []) \<and>
     ((\<exists>cs. g = MySQLGenerator cs) \<or> field_indexes s = [])"

definition after_columns :: "generator \<Rightarrow> gen_state \<Rightarrow> bool" where
  "after_columns g s \<longleftrightarrow> field_indexes s = [] \<and> (g = OracleGenerator \<or> foreign_keys s = []) \<and>
     (g = PostgresGenerator \<or> g = OracleGenerator \<or> comments_array s = [])"

definition idle :: "generator \<Rightarrow> gen_state \<Rightarrow> bool" where
  "idle g s \<longleftrightarrow> field_indexes s = [] \<and> (g = OracleGenerator \<or> foreign_keys s = []) \<and> comments_array s = []"

lemma idle_clean [simp]: "idle g clean_state"
  by (simp add: idle_def clean_state_def)

lemma idle_iff: "g \<noteq> OracleGenerator \<Longrightarrow> idle g s \<longleftrightarrow> s = clean_state"
  by (auto simp: idle_def clean_state_def intro!: gen_state.equality)

lemma idle_stages: "idle g s \<Longrightarrow> in_columns g s" "idle g s \<Longrightarrow> after_columns g s"
  by (auto simp: idle_def in_columns_def after_columns_def)

lemma returns_weaken: "returns P c Q \<Longrightarrow> (\<And>s. P' s \<Longrightarrow> P s) \<Longrightarrow> (\<And>s. Q s \<Longrightarrow> Q' s) \<Longrightarrow> returns P' c Q'"
  unfolding returns_def by blast

lemma column_comment_stage [gen_rules]: "returns (in_columns g) (column_comment g t c d) (in_columns g)"
  by (cases g) (auto intro!: returns_ibind [where R = "in_columns g"] returns_imodify gen_rules simp: in_columns_def)

lemma table_comment_stage [gen_rules]: "returns (after_columns g) (table_comment g t d) (after_columns g)"
  by (cases g) (auto intro!: returns_ibind [where R = "after_columns g"] returns_imodify gen_rules simp: after_columns_def)

lemma create_fk_stage [gen_rules]: "returns (in_columns g) (create_fk_string g n c t f od d) (in_columns g)"
  by (cases g) (auto intro!: returns_ibind [where R = "in_columns g"] returns_imodify gen_rules
      simp: in_columns_def keep_clause_def)

lemma create_fk_plain [gen_rules]: "returns P (create_fk_string g [] c t f od d) P"
  by (cases g) (auto intro!: gen_rules simp: keep_clause_def)

lemma get_index_stage [gen_rules]: "returns (in_columns g) (get_index_sql g env t ns safe) (in_columns g)"
  by (cases g) (auto intro!: returns_ibind [where R = "in_columns g"] returns_imodify gen_rules simp: in_columns_def)

lemma inner_statements_stage [gen_rules]: "returns (in_columns g) (inner_statements g) (after_columns g)"
  by (cases g) (auto simp: returns_def ibind_Ret in_columns_def after_columns_def iret_def take_statements_def
      iget_def imodify_def)

lemma post_table_hook_stage [gen_rules]: "returns (after_columns g) (post_table_hook g) (idle g)"
  by (cases g) (auto simp: returns_def ibind_Ret after_columns_def idle_def flush_comments_def
      iget_def imodify_def iret_def Let_def)

lemma create_column_stage: "returns (in_columns g) (create_column g env m p) (in_columns g)"
  unfolding create_column_def Let_def
  by (auto intro!: returns_ibind [where R = "in_columns g"] returns_described gen_rules
      split: prod.splits option.splits)

lemma meta_index_stage: "returns (in_columns g) (meta_index_sql g env m safe d) (in_columns g)"
  by (cases d) (auto intro!: returns_ibind [where R = "in_columns g"] gen_rules)

lemma idle_after [gen_rules]:
  "returns (idle g) (described d (table_comment g t)) (after_columns g)"
  by (rule returns_weaken [OF returns_described [OF table_comment_stage]]) (auto simp: idle_stages)

lemma m2m_table_stage [gen_rules]: "returns (idle g) (m2m_table_sql g env m safe f t) (idle g)"
  unfolding m2m_table_sql_def Let_def
  by (rule returns_ibind gen_rules | auto intro!: gen_rules
      | rule returns_ibind [where R = "idle g"] returns_ibind [where R = "after_columns g"])+

lemma m2m_step_stage: "returns (idle g) (m2m_step g env m safe tables n acc) (idle g)"
  unfolding m2m_step_def Let_def
  by (auto intro!: returns_ibind [where R = "idle g"] gen_rules)

lemma get_table_stages: "returns (idle g) (get_table_sql g env tables model safe) (idle g)"
proof -
  have cols: "returns (in_columns g) (imap (create_column g env m) xs) (in_columns g)"
    "returns (in_columns g) (imap (\<lambda>c. get_index_sql g env t [c] sf) cs) (in_columns g)"
    "returns (in_columns g) (imap (meta_index_sql g env m sf) ds) (in_columns g)" for m xs t cs ds sf
    by (rule returns_imap, rule create_column_stage get_index_stage meta_index_stage)+
  have comment: "returns (after_columns g) (described d (table_comment g t)) (after_columns g)" for d t
    by (rule returns_described [OF table_comment_stage])
  have "returns (in_columns g) (get_table_sql g env tables model safe) (idle g)"
    unfolding get_table_sql_def Let_def
    by (rule returns_ibind [OF cols(1)] returns_ibind [OF cols(2)] returns_ibind [OF cols(3)]
        returns_ibind [OF inner_statements_stage] returns_ibind [OF comment]
        returns_ibind [OF post_table_hook_stage] returns_ibind [OF returns_ifold [OF m2m_step_stage]]
        returns_ibind [OF returns_simple(3)] returns_simple(1))+
  then show ?thesis by (rule returns_weaken) (auto simp: idle_stages)
qed

section \<open>The tables a table refers to\<close>

lemma imap_Ret:
  "imap f xs s = (Ret ys, t) \<Longrightarrow> length ys = length xs \<and> (\<forall>i<length xs. \<exists>u v. f (xs ! i) u = (Ret (ys ! i), v))"
proof (induction xs arbitrary: s ys)
  case (Cons x xs)
  then obtain y u zs where y: "f x s = (Ret y, u)" and zs: "imap f xs u = (Ret zs, t)" "ys = y # zs"
    by (auto simp: ibind_Ret)
  from Cons.IH [OF zs(1)] zs(2) y show ?case by (auto simp: less_Suc_eq_0_disj)
qed simp

text \<open>What a round of the loop over the columns says about the table the column refers to.\<close>

lemma create_column_ref:
  assumes "create_column g env m (n, c) s = (Ret (line, ix, ref), t)" and "map_of (fields_map m) n = Some f"
  shows "ref = None \<and> (reference f = None \<or> pk f \<and> generated f) \<or>
    (\<exists>k r rm. reference f = Some k \<and> map_of (fields_map m) k = Some r \<and> related_model (rel r) = Some rm \<and>
       ref = Some (db_table (s_metas env rm)))"
  using assms
  by (auto simp: create_column_def ibind_Ret Let_def get_reference_def rbind_eq_Inr related_table_def
      split: if_splits option.splits)

lemma get_table_refs:
  assumes "get_table_sql g env tables model safe s = (Ret e, t)"
  shows "t_table e = db_table (s_metas env model)"
    and "\<exists>cols. length cols = length (fields_db_projection (s_metas env model)) \<and>
      (\<forall>i<length cols. \<exists>u v. create_column g env (s_metas env model) (fields_db_projection (s_metas env model) ! i) u
         = (Ret (cols ! i), v)) \<and> set (t_refs e) = set (List.map_filter (snd \<circ> snd) cols)"
proof -
  show "t_table e = db_table (s_metas env model)"
    using assms by (auto simp: get_table_sql_def Let_def ibind_Ret iret_def)
  from assms obtain cols u where "imap (create_column g env (s_metas env model)) (fields_db_projection (s_metas env model)) s = (Ret cols, u)"
    and "t_refs e = remdups (List.map_filter (snd \<circ> snd) cols)"
    by (auto simp: get_table_sql_def Let_def ibind_Ret iret_def)
  with imap_Ret [OF this(1)]
  show "\<exists>cols. length cols = length (fields_db_projection (s_metas env model)) \<and>
      (\<forall>i<length cols. \<exists>u v. create_column g env (s_metas env model) (fields_db_projection (s_metas env model) ! i) u
         = (Ret (cols ! i), v)) \<and> set (t_refs e) = set (List.map_filter (snd \<circ> snd) cols)"
    by auto
qed

text \<open>The column \<open>n\<close> of a model is the key of a foreign key to a model of the table \<open>tbl\<close>.\<close>

definition refers_to :: "schema_env \<Rightarrow> meta \<Rightarrow> string \<Rightarrow> field \<Rightarrow> string \<Rightarrow> bool" where
  "refers_to env m n f tbl \<longleftrightarrow> (\<exists>k r rm. map_of (fields_map m) n = Some f \<and> reference f = Some k \<and>
     map_of (fields_map m) k = Some r \<and> related_model (rel r) = Some rm \<and> tbl = db_table (s_metas env rm))"

lemma in_map_filter: "x \<in> set (List.map_filter f xs) \<longleftrightarrow> (\<exists>i<length xs. f (xs ! i) = Some x)"
proof (induction xs)
  case (Cons a xs)
  then show ?case by (auto simp: map_filter_simps less_Suc_eq_0_disj split: option.splits)
qed (simp add: map_filter_simps)

lemma create_column_field:
  assumes "create_column g env m (n, c) s = (Ret x, t)"
  obtains f where "map_of (fields_map m) n = Some f"
  using assms by (auto simp: create_column_def ibind_Ret)

text \<open>
  The references a table is recorded with are those of its columns: every table in them is
  that of the model a key column refers to, and the table of each key column is in them, except
  a generated primary key's (whose column is written without a foreign key).
\<close>

theorem table_references:
  assumes "get_table_sql g env tables model safe s = (Ret e, t)" and "m = s_metas env model"
  shows "(\<forall>tbl\<in>set (t_refs e). \<exists>n f. dict_has (fields_db_projection m) n \<and> refers_to env m n f tbl) \<and>
     (\<forall>n f tbl. dict_has (fields_db_projection m) n \<longrightarrow> refers_to env m n f tbl \<longrightarrow>
        \<not> (pk f \<and> generated f) \<longrightarrow> tbl \<in> set (t_refs e))"
proof -
  let ?P = "fields_db_projection m"
  from get_table_refs(2) [OF assms(1)] assms(2) obtain cols where len: "length cols = length ?P"
    and col: "\<And>i. i < length cols \<Longrightarrow> \<exists>u v. create_column g env m (?P ! i) u = (Ret (cols ! i), v)"
    and refs: "set (t_refs e) = set (List.map_filter (snd \<circ> snd) cols)"
    by auto
  have one: "\<exists>f. map_of (fields_map m) (fst (?P ! i)) = Some f \<and>
      (snd (snd (cols ! i)) = None \<and> (reference f = None \<or> pk f \<and> generated f) \<or>
       (\<exists>tbl. snd (snd (cols ! i)) = Some tbl \<and> refers_to env m (fst (?P ! i)) f tbl))" if "i < length cols" for i
  proof -
    obtain n c line ix ref where p: "?P ! i = (n, c)" "cols ! i = (line, ix, ref)" by (metis prod.exhaust)
    from col [OF that] p obtain u v where c: "create_column g env m (n, c) u = (Ret (line, ix, ref), v)" by auto
    then obtain f where f: "map_of (fields_map m) n = Some f" by (rule create_column_field)
    from create_column_ref [OF c f] f p show ?thesis by (auto simp: refers_to_def)
  qed
  show ?thesis
  proof (intro conjI ballI allI impI)
    fix tbl assume "tbl \<in> set (t_refs e)"
    then obtain i where i: "i < length cols" "snd (snd (cols ! i)) = Some tbl"
      by (auto simp: refs in_map_filter)
    from i(1) len have "dict_has ?P (fst (?P ! i))" by (simp add: dict_has_iff)
    with one [OF i(1)] i(2) show "\<exists>n f. dict_has ?P n \<and> refers_to env m n f tbl" by auto
  next
    fix n f tbl
    assume n: "dict_has ?P n" and r: "refers_to env m n f tbl" and g: "\<not> (pk f \<and> generated f)"
    from n len obtain i where i: "i < length cols" "fst (?P ! i) = n"
      by (auto simp: dict_has_iff in_set_conv_nth)
    from one [OF i(1)] i(2) r g have "snd (snd (cols ! i)) = Some tbl"
      by (auto simp: refers_to_def)
    with i(1) show "tbl \<in> set (t_refs e)" by (auto simp: refs in_map_filter)
  qed
qed

definition sample_schema_env :: schema_env where
  "sample_schema_env = \<lparr> hexdigest = (\<lambda>s. ''0123456789''), s_lib = sample_lib, s_ce = sample_ce,
     s_enc = (\<lambda>v. Inl PyTypeError), s_metas = sample_metas \<rparr>"

lemma sample_post_sql:
  "(case get_table_sql SqliteGenerator sample_schema_env [] sample_post True clean_state of
      (Ret e, t) \<Rightarrow> t_refs e = [''user''] \<and> t = clean_state | _ \<Rightarrow> False)"
  by code_simp

theorem table_references_witness:
  "\<exists>e. fst (get_table_sql SqliteGenerator sample_schema_env [] sample_post True clean_state) = Ret e \<and>
     t_refs e = [''user''] \<and> ''user'' \<in> set (t_refs e)"
proof -
  obtain e t where e: "get_table_sql SqliteGenerator sample_schema_env [] sample_post True clean_state = (Ret e, t)"
    "t_refs e = [''user'']"
    using sample_post_sql by (auto split: prod.splits outcome.splits)
  have m: "s_metas sample_schema_env sample_post = sample_post_meta"
    by (simp add: sample_schema_env_def sample_metas_def)
  have "dict_has (fields_db_projection sample_post_meta) ''author_id''" "\<not> pk author_id_field"
    "map_of (fields_map sample_post_meta) ''author_id'' = Some author_id_field"
    "reference author_id_field = Some ''author''" "map_of (fields_map sample_post_meta) ''author'' = Some author_field"
    "related_model (rel author_field) = Some sample_user" "db_table (s_metas sample_schema_env sample_user) = ''user''"
    by code_simp+
  then have "refers_to sample_schema_env sample_post_meta ''author_id'' author_id_field ''user''"
    unfolding refers_to_def by metis
  with table_references [OF e(1) m [symmetric]] \<open>dict_has _ _\<close> \<open>\<not> pk author_id_field\<close>
  have "''user'' \<in> set (t_refs e)" by blast
  with e show ?thesis by (metis fst_conv)
qed

text \<open>
  A table's statements do not leak into the next one: whatever a generator collects while it
  writes a table (MySQL's keys, PostgreSQL's comments), it has written out and forgotten when
  the table and its many-to-many tables are done. Oracle's generator alone keeps the foreign keys.
\<close>

theorem generator_left_clean:
  assumes "get_table_sql g env tables model safe s = (Ret e, t)" and "idle g s"
  shows "idle g t \<and> (g \<noteq> OracleGenerator \<longrightarrow> t = clean_state)"
  using get_table_stages assms idle_iff unfolding returns_def by blast

end
