(* ===== verification/OracleSchema.thy ===== *)
theory OracleSchema
  imports Schema
begin

text \<open>
  The generator of Oracle collects the foreign keys of a table as MySQL's and MSSQL's do, but has
  the base class's \<^verbatim>\<open>_get_inner_statements\<close>, which takes none of them. This theory shows that it
  writes each table as if no foreign key had a constraint; \<open>SchemaOrder\<close> has the whole script.
\<close>

section \<open>The foreign keys are not read\<close>

text \<open>Two computations that answer the same, whatever foreign keys the generator keeps.\<close>

definition same_text :: "'a gen \<Rightarrow> 'a gen \<Rightarrow> bool" where
  "same_text c d \<longleftrightarrow> (\<forall>s x. \<exists>y. d (s\<lparr>foreign_keys := x\<rparr>) = (fst (c s), (snd (c s))\<lparr>foreign_keys := y\<rparr>))"

named_theorems same_rules \<open>computations that do not read the foreign keys\<close>

lemma same_simple [same_rules]:
  "same_text (iret a) (iret a)" "same_text (iraise e) (iraise e)" "same_text (ilift r) (ilift r)"
  "same_text (iget comments_array) (iget comments_array)"
  by (cases r; auto simp: same_text_def iret_def iraise_def iget_def)+

lemma same_imodify [same_rules]:
  "same_text (imodify (\<lambda>s. s\<lparr>comments_array := f (comments_array s)\<rparr>)) (imodify (\<lambda>s. s\<lparr>comments_array := f (comments_array s)\<rparr>))"
  unfolding same_text_def imodify_def
  by (intro allI, rule_tac x = x in exI) simp

lemma same_keep:
  "same_text (imodify (\<lambda>s. s\<lparr>foreign_keys := foreign_keys s @ [k]\<rparr>)) (iret ())"
  "same_text (imodify (\<lambda>s. s\<lparr>foreign_keys := foreign_keys s @ [k]\<rparr>)) (imodify (\<lambda>s. s\<lparr>foreign_keys := foreign_keys s @ [k]\<rparr>))"
  unfolding same_text_def imodify_def iret_def
   apply (intro allI, rule_tac x = x in exI, simp)
  apply (intro allI, rule_tac x = "x @ [k]" in exI, simp)
  done

lemma same_ibind [same_rules]:
  "same_text c d \<Longrightarrow> (\<And>a. same_text (k a) (l a)) \<Longrightarrow> same_text (ibind c k) (ibind d l)"
  unfolding same_text_def
proof (intro allI)
  fix s x
  assume c: "\<forall>s x. \<exists>y. d (s\<lparr>foreign_keys := x\<rparr>) = (fst (c s), (snd (c s))\<lparr>foreign_keys := y\<rparr>)"
    and k: "\<And>a. \<forall>s x. \<exists>y. l a (s\<lparr>foreign_keys := x\<rparr>) = (fst (k a s), (snd (k a s))\<lparr>foreign_keys := y\<rparr>)"
  obtain r t where rt: "c s = (r, t)" by fastforce
  from c rt obtain y where y: "d (s\<lparr>foreign_keys := x\<rparr>) = (r, t\<lparr>foreign_keys := y\<rparr>)" by (metis fst_conv snd_conv)
  show "\<exists>z. ibind d l (s\<lparr>foreign_keys := x\<rparr>) = (fst (ibind c k s), (snd (ibind c k s))\<lparr>foreign_keys := z\<rparr>)"
    using k rt y by (cases r) (auto simp: ibind_def)
qed

lemma same_imap: "(\<And>x. x \<in> set xs \<Longrightarrow> same_text (f x) (g x)) \<Longrightarrow> same_text (imap f xs) (imap g xs)"
  by (induction xs) (auto intro!: same_rules)

lemma same_ifold: "(\<And>x b. x \<in> set xs \<Longrightarrow> same_text (f x b) (g x b)) \<Longrightarrow> same_text (ifold f xs b) (ifold g xs b)"
  by (induction xs arbitrary: b) (auto intro!: same_rules)

section \<open>Foreign keys without constraints\<close>

text \<open>The models of \<open>env\<close>, with the foreign keys in \<open>P\<close> declared without \<^verbatim>\<open>db_constraint\<close>.\<close>

definition free_key :: "(field \<Rightarrow> bool) \<Rightarrow> field \<Rightarrow> field" where
  "free_key P f = (if P f then f\<lparr>rel := (rel f)\<lparr>db_constraint := False\<rparr>\<rparr> else f)"

definition without_keys :: "(field \<Rightarrow> bool) \<Rightarrow> meta \<Rightarrow> meta" where
  "without_keys P m = m\<lparr>fields_map := map (\<lambda>(n, f). (n, free_key P f)) (fields_map m)\<rparr>"

definition env_without_keys :: "(field \<Rightarrow> bool) \<Rightarrow> schema_env \<Rightarrow> schema_env" where
  "env_without_keys P env = env\<lparr>s_metas := without_keys P \<circ> s_metas env\<rparr>"

named_theorems free_simps \<open>what declaring keys without a constraint leaves alone\<close>

lemma free_key_fields [free_simps]:
  "fclass (free_key P f) = fclass f" "description (free_key P f) = description f" "default (free_key P f) = default f"
  "pk (free_key P f) = pk f" "generated (free_key P f) = generated f" "null (free_key P f) = null f"
  "unique (free_key P f) = unique f" "index (free_key P f) = index f" "reference (free_key P f) = reference f"
  "source_field (free_key P f) = source_field f" "model_field_name (free_key P f) = model_field_name f"
  "related_model (rel (free_key P f)) = related_model (rel f)"
  "to_field_instance (rel (free_key P f)) = to_field_instance (rel f)"
  "on_delete (rel (free_key P f)) = on_delete (rel f)" "get_for_dialect (free_key P f) = get_for_dialect f"
  "db_constraint (rel (free_key P f)) \<longleftrightarrow> db_constraint (rel f) \<and> \<not> P f"
  "\<not> P f \<Longrightarrow> free_key P f = f"
  by (auto simp: free_key_def get_for_dialect_def fun_eq_iff)

lemma free_key_value [free_simps]: "to_db_value lib ck (free_key P f) v a = to_db_value lib ck f v a"
  by (cases "fclass f") (auto simp: free_key_def to_db_value_def base_to_db_def datetime_to_db_def time_to_db_def
      date_to_db_def timedelta_to_db_def json_to_db_def int_enum_to_db_def char_enum_to_db_def validate_def)

lemma map_of_without: "map_of (fields_map (without_keys P m)) k = map_option (free_key P) (map_of (fields_map m) k)"
  by (simp add: without_keys_def map_of_map)

lemma without_keys_fields [free_simps]:
  "db_table (without_keys P m) = db_table m" "m2m_fields (without_keys P m) = m2m_fields m"
  "fields_db_projection (without_keys P m) = fields_db_projection m" "unique_together (without_keys P m) = unique_together m"
  "indexes (without_keys P m) = indexes m" "table_description (without_keys P m) = table_description m"
  "db_pk_column (without_keys P m) = db_pk_column m"
  "dict_at (fields_map (without_keys P m)) n = rbind (dict_at (fields_map m) n) (\<lambda>f. Inr (free_key P f))"
  "get_pk (without_keys P m) = rbind (get_pk m) (\<lambda>f. Inr (free_key P f))"
proof -
  note m = map_of_without [where P = P and m = m]
  from m show "dict_at (fields_map (without_keys P m)) n = rbind (dict_at (fields_map m) n) (\<lambda>f. Inr (free_key P f))"
    by (simp add: dict_at_def split: option.split)
  from m show "get_pk (without_keys P m) = rbind (get_pk m) (\<lambda>f. Inr (free_key P f))"
    by (simp add: get_pk_def meta_pk_def without_keys_def split: option.split)
qed (simp_all add: without_keys_def)

lemma ibind_lift_map [free_simps]: "ibind (ilift (rbind r (\<lambda>f. Inr (h f)))) k = ibind (ilift r) (\<lambda>f. k (h f))"
  by (cases r) (simp_all add: fun_eq_iff ibind_def ilift_def iret_def iraise_def)

lemma same_column_comment [same_rules]:
  "same_text (described d (column_comment OracleGenerator t c)) (described d (column_comment OracleGenerator t c))"
  by (auto simp: described_def intro!: same_rules split: option.split)

lemma same_table_comment [same_rules]:
  "same_text (described d (table_comment OracleGenerator t)) (described d (table_comment OracleGenerator t))"
  by (auto simp: described_def intro!: same_rules split: option.split)

lemma same_flush [same_rules]: "same_text flush_comments flush_comments"
proof -
  have "same_text (imodify (\<lambda>s. s\<lparr>comments_array := []\<rparr>)) (imodify (\<lambda>s. s\<lparr>comments_array := []\<rparr>))"
    using same_imodify [of "\<lambda>_. []"] by simp
  then show ?thesis by (auto simp: flush_comments_def Let_def intro!: same_rules)
qed

lemma env_without_keys_simps [free_simps]:
  "s_metas (env_without_keys P env) k = without_keys P (s_metas env k)"
  "default_sql g (env_without_keys P env) f = default_sql g env f"
  "generate_fk_name (env_without_keys P env) a b c d = generate_fk_name env a b c d"
  "generate_index_name (env_without_keys P env) p t ns = generate_index_name env p t ns"
  by (simp_all add: env_without_keys_def default_sql_def generate_fk_name_def generate_index_name_def make_hash_def
      split: list.split)

lemma index_object_free [free_simps]:
  "index_object_sql g (env_without_keys P env) t i safe = index_object_sql g env t i safe"
  by (cases "idx_name i") (simp_all add: index_object_sql_def index_object_name_def free_simps)

lemma index_sql_free [free_simps]:
  "get_index_sql OracleGenerator (env_without_keys P env) = get_index_sql OracleGenerator env"
  "get_unique_index_sql OracleGenerator (env_without_keys P env) = get_unique_index_sql OracleGenerator env"
  "get_unique_constraint_sql OracleGenerator (env_without_keys P env) = get_unique_constraint_sql OracleGenerator env"
  by (simp_all add: fun_eq_iff free_simps)

lemma default_free [free_simps]: "default_sql g env (free_key P f) = default_sql g env f"
  by (simp add: default_sql_def free_simps)

lemma to_field_free [free_simps]: "to_field_column (env_without_keys P env) (free_key P r) = to_field_column env r"
  by (auto simp: to_field_column_def free_simps rbind_assoc split: option.split)

lemma related_table_free [free_simps]: "related_table (env_without_keys P env) (free_key P r) = related_table env r"
  by (simp add: related_table_def free_simps split: option.split)

lemma get_reference_free [free_simps]:
  "get_reference (without_keys P m) (free_key P f) = rbind (get_reference m f) (\<lambda>r. Inr (map_option (free_key P) r))"
  by (auto simp: get_reference_def free_simps rbind_assoc split: option.split)

lemma together_free [free_simps]: "together_columns (without_keys P m) names = together_columns m names"
  by (simp add: together_columns_def free_simps rbind_assoc source_or_def)

text \<open>A constraint with a name leaves nothing in the column's line.\<close>

lemma same_fk_string [same_rules]:
  assumes "b' \<longrightarrow> b"
  shows "same_text
     (if b then create_fk_string OracleGenerator (generate_fk_name env t c rt rc) c rt rc od d else iret [])
     (if b' then create_fk_string OracleGenerator (generate_fk_name env t c rt rc) c rt rc od d else iret [])"
proof -
  let ?keep = "\<lambda>k. imodify (\<lambda>s. s\<lparr>foreign_keys := foreign_keys s @ [k]\<rparr>) :: unit gen"
  have "same_text (ibind (?keep k) (\<lambda>_. iret [])) (ibind (iret ()) (\<lambda>_. iret ([] :: string)))"
    "same_text (ibind (?keep k) (\<lambda>_. iret ([] :: string))) (ibind (?keep k) (\<lambda>_. iret []))" for k
    by (rule same_ibind [OF same_keep(1) same_simple(1)], rule same_ibind [OF same_keep(2) same_simple(1)])
  moreover have "ibind (iret ()) (\<lambda>_. iret ([] :: string)) = (iret [] :: string gen)"
    by (simp add: fun_eq_iff ibind_def iret_def)
  ultimately show ?thesis
    using assms by (auto simp: keep_clause_def generate_fk_name_def same_simple)
qed

lemma same_if [same_rules]:
  "same_text c c' \<Longrightarrow> same_text d d' \<Longrightarrow> same_text (if b then c else d) (if b then c' else d')"
  by simp

lemma same_reference:
  assumes "same_text n n'" and "\<And>r. same_text (k r) (l (free_key P r))"
  shows "same_text (case ref of None \<Rightarrow> n | Some r \<Rightarrow> k r) (case map_option (free_key P) ref of None \<Rightarrow> n' | Some r \<Rightarrow> l r)"
  using assms by (cases ref) auto

lemma same_create_column:
  "same_text (create_column OracleGenerator env m p)
     (create_column OracleGenerator (env_without_keys P env) (without_keys P m) p)"
proof (cases p)
  case (Pair n c)
  show ?thesis
    unfolding create_column_def Pair prod.case Let_def create_string_def inline_comment.simps if_False free_simps
    by (intro same_ibind same_if same_reference same_fk_string same_rules | simp only: free_simps simp_thms | blast)+
qed

lemma same_get_index [same_rules]:
  "same_text (get_index_sql OracleGenerator env t ns safe) (get_index_sql OracleGenerator env t ns safe)"
  by (auto intro!: same_rules)

lemma same_meta_index:
  "same_text (meta_index_sql OracleGenerator env m safe d)
     (meta_index_sql OracleGenerator (env_without_keys P env) (without_keys P m) safe d)"
proof (cases d)
  case (IdxFields ns)
  show ?thesis
    unfolding IdxFields meta_index_sql.simps free_simps by (intro same_ibind same_rules)
qed (auto simp: free_simps intro: same_rules)

lemma unique_constraints_free [free_simps]:
  "unique_constraints OracleGenerator (env_without_keys P env) (without_keys P m) = unique_constraints OracleGenerator env m"
  by (simp add: unique_constraints_def free_simps del: get_unique_constraint_sql.simps)

lemma ibind_lift: "ibind (ilift (Inr x)) h = h x" "ibind (ilift (Inl e)) h = iraise e"
  by (simp_all add: fun_eq_iff ibind_def ilift_def iret_def iraise_def)

lemma same_related:
  "same_text
     (ibind (ilift (case r of None \<Rightarrow> Inl PyAttributeError | Some rm \<Rightarrow> Inr (s_metas env rm))) k)
     (ibind (ilift (case r of None \<Rightarrow> Inl PyAttributeError | Some rm \<Rightarrow> Inr (without_keys P (s_metas env rm)))) l)"
  if "\<And>m. same_text (k m) (l (without_keys P m))"
  using that by (cases r) (simp_all add: ibind_lift free_simps same_rules)

lemma same_fk_plain [same_rules]:
  "same_text (create_fk_string OracleGenerator [] c t rc od d) (create_fk_string OracleGenerator [] c t rc od d)"
  by (simp add: keep_clause_def same_rules)

lemma same_hook [same_rules]: "same_text (post_table_hook OracleGenerator) (post_table_hook OracleGenerator)"
  by (simp add: same_rules)

lemma same_m2m_table:
  "same_text (m2m_table_sql OracleGenerator env m safe f t)
     (m2m_table_sql OracleGenerator (env_without_keys P env) (without_keys P m) safe f t)"
  unfolding m2m_table_sql_def Let_def
  by (simp only: free_simps | rule same_related same_ibind same_if same_rules)+

lemma same_m2m_step:
  assumes "\<And>f. map_of (fields_map m) n = Some f \<Longrightarrow> \<not> P f"
  shows "same_text (m2m_step OracleGenerator env m safe tables n acc)
     (m2m_step OracleGenerator (env_without_keys P env) (without_keys P m) safe tables n acc)"
proof (cases "map_of (fields_map m) n")
  case None
  then have d: "dict_at (fields_map m) n = Inl PyKeyError" by (simp add: dict_at_def)
  show ?thesis
    unfolding m2m_step_def Let_def free_simps d rbind_simps ibind_lift by (rule same_simple)
next
  case (Some f)
  with assms have "\<not> P f" by blast
  then have f: "free_key P f = f" by (simp add: free_key_def)
  have d: "dict_at (fields_map m) n = Inr f" using Some by simp
  show ?thesis
    unfolding m2m_step_def Let_def free_simps d rbind_simps ibind_lift
    unfolding f by (intro same_if same_ibind same_m2m_table same_rules)
qed

lemma same_inner [same_rules]: "same_text (inner_statements OracleGenerator) (inner_statements OracleGenerator)"
  by (simp add: same_rules)

lemma same_table:
  assumes "\<And>n f. n \<in> set (m2m_fields (s_metas env k)) \<Longrightarrow> map_of (fields_map (s_metas env k)) n = Some f \<Longrightarrow> \<not> P f"
  shows "same_text (get_table_sql OracleGenerator env tables k safe)
     (get_table_sql OracleGenerator (env_without_keys P env) tables k safe)"
  unfolding get_table_sql_def Let_def free_simps
  by (intro same_ibind same_imap same_ifold same_create_column same_meta_index same_m2m_step same_rules)
    (use assms in blast)+

lemma without_none: "env_without_keys (\<lambda>f. False) env = env"
proof -
  have "without_keys (\<lambda>f. False) m = m" for m
    by (simp add: without_keys_def free_key_def case_prod_beta)
  then show ?thesis by (simp add: env_without_keys_def comp_def)
qed

text \<open>So the text of a table does not depend on the keys that the generator keeps.\<close>

lemma oracle_text:
  "fst (get_table_sql OracleGenerator env tables k safe (s\<lparr>foreign_keys := x\<rparr>)) =
     fst (get_table_sql OracleGenerator env tables k safe s)"
proof -
  have "same_text (get_table_sql OracleGenerator env tables k safe) (get_table_sql OracleGenerator env tables k safe)"
    using same_table [of env k "\<lambda>f. False"] by (simp add: without_none)
  then show ?thesis unfolding same_text_def by (metis fst_conv)
qed

lemma same_text_clean: "same_text c d \<Longrightarrow> fst (c clean_state) = fst (d clean_state)"
proof -
  assume "same_text c d"
  then obtain y where "d (clean_state\<lparr>foreign_keys := []\<rparr>) = (fst (c clean_state), (snd (c clean_state))\<lparr>foreign_keys := y\<rparr>)"
    unfolding same_text_def by blast
  moreover have "clean_state\<lparr>foreign_keys := []\<rparr> = clean_state" by (simp add: clean_state_def)
  ultimately show ?thesis by simp
qed

end
