(* ===== verification/SchemaOrder.thy ===== *)
theory SchemaOrder
  imports OracleSchema Connections "HOL-Library.Multiset"
begin

text \<open>
  The schema of a whole database: which models a client creates, their checks, and the loop of
  \<^verbatim>\<open>get_create_schema_sql\<close> that puts a table after the tables its foreign keys refer to. The
  registry of connections is read through the argument \<open>conn\<close> (what \<^verbatim>\<open>connections.get\<close> answers).
\<close>

section \<open>The models to create\<close>

fun check_names :: "meta \<Rightarrow> string list \<Rightarrow> unit res" where
  "check_names m [] = Inr ()"
| "check_names m (n # ns) =
     (case map_of (fields_map m) n of
        None \<Rightarrow> Inl ConfigurationError
      | Some f \<Rightarrow> if fclass f = ManyToManyFieldInstance then Inl ConfigurationError else check_names m ns)"

fun index_names :: "index_decl \<Rightarrow> string list" where
  "index_names (IdxFields ns) = ns"
| "index_names (IdxObject i) = idx_fields i"

text \<open>\<^verbatim>\<open>_check\<close>; that the options are lists of lists is part of their type here.\<close>

definition check_together :: "meta \<Rightarrow> string list list \<Rightarrow> unit res" where
  "check_together m groups = rfold (\<lambda>ns _. check_names m ns) groups ()"

definition model_check :: "meta \<Rightarrow> unit res" where
  "model_check m = rbind (check_together m (unique_together m)) (\<lambda>_. check_together m (map index_names (indexes m)))"

definition meta_db :: "(string \<Rightarrow> nat res) \<Rightarrow> meta \<Rightarrow> nat res" where
  "meta_db conn m = (case default_connection m of None \<Rightarrow> Inl ConfigurationError | Some a \<Rightarrow> conn a)"

definition models_to_create ::
    "(string, (string, mid) dict) dict \<Rightarrow> (mid \<Rightarrow> meta) \<Rightarrow> (string \<Rightarrow> nat res) \<Rightarrow> nat \<Rightarrow> mid list res" where
  "models_to_create apps metas conn client =
     rfold (\<lambda>k acc. rbind (meta_db conn (metas k)) (\<lambda>c.
        if c = client then rbind (model_check (metas k)) (\<lambda>_. Inr (acc @ [k])) else Inr acc))
       (concat (map (map snd \<circ> snd) apps)) []"

section \<open>The order of the tables\<close>

definition ready :: "string list \<Rightarrow> t_entry \<Rightarrow> bool" where
  "ready created t \<longleftrightarrow> set (t_refs t) \<subseteq> insert (t_table t) (set created)"

lemma find_in: "find P xs = Some x \<Longrightarrow> x \<in> set xs \<and> P x"
  by (auto simp: find_Some_iff)

lemma length_remove1_in: "x \<in> set xs \<Longrightarrow> Suc (length (remove1 x xs)) = length xs"
  by (induction xs) auto

lemma find_shorter: "find P xs = Some x \<Longrightarrow> length (remove1 x xs) < length xs"
  using length_remove1_in [of x xs] find_in [of P xs x] by auto

text \<open>
  The \<^verbatim>\<open>while True\<close> loop: \<open>n\<close> is \<^verbatim>\<open>tables_to_create_count\<close>, \<open>created\<close> the set of created table
  names. The entries are collected in order; their strings are taken out afterwards.
\<close>

function order_tables :: "nat \<Rightarrow> t_entry list \<Rightarrow> string list \<Rightarrow> t_entry list \<Rightarrow> t_entry list res" where
  "order_tables n pending created ordered =
     (if length created = n then Inr ordered
      else case find (ready created) pending of
             None \<Rightarrow> Inl ConfigurationError
           | Some t \<Rightarrow> order_tables n (remove1 t pending) (set_add (t_table t) created) (ordered @ [t]))"
  by pat_completeness auto
termination
  by (relation "measure (\<lambda>(n, pending, created, ordered). length pending)")
    (simp_all add: find_shorter)

declare order_tables.simps [simp del]

definition get_create_schema_sql ::
    "generator \<Rightarrow> schema_env \<Rightarrow> (string, (string, mid) dict) dict \<Rightarrow> (string \<Rightarrow> nat res) \<Rightarrow> nat \<Rightarrow> bool \<Rightarrow> string gen" where
  "get_create_schema_sql g env apps conn client safe =
     ibind (ilift (models_to_create apps (s_metas env) conn client)) (\<lambda>models.
     let tables = map (\<lambda>k. db_table (s_metas env k)) models in
     ibind (imap (\<lambda>k. get_table_sql g env tables k safe) models) (\<lambda>es.
     ibind (ilift (order_tables (length es) es [] [])) (\<lambda>os.
     iret (join_str nl (map t_sql os @ concat (map t_m2m os))))))"

section \<open>Orders that respect the references\<close>

fun valid_from :: "string set \<Rightarrow> t_entry list \<Rightarrow> bool" where
  "valid_from created [] = True"
| "valid_from created (t # ts) \<longleftrightarrow>
     set (t_refs t) \<subseteq> insert (t_table t) created \<and> valid_from (insert (t_table t) created) ts"

lemma valid_from_mono: "valid_from c ts \<Longrightarrow> c \<subseteq> d \<Longrightarrow> valid_from d ts"
proof (induction ts arbitrary: c d)
  case (Cons t ts)
  from Cons.prems have "valid_from (insert (t_table t) d) ts"
    by (intro Cons.IH [of "insert (t_table t) c" "insert (t_table t) d"]) auto
  with Cons.prems(1,2) show ?case by auto
qed simp

lemma valid_from_append:
  "valid_from c (xs @ ys) \<longleftrightarrow> valid_from c xs \<and> valid_from (c \<union> t_table ` set xs) ys"
  by (induction xs arbitrary: c) auto

lemma valid_from_remove1: "valid_from c ts \<Longrightarrow> valid_from (insert (t_table t) c) (remove1 t ts)"
  by (induction ts arbitrary: c) (auto intro: valid_from_mono simp: insert_commute)

lemma valid_from_nth:
  "valid_from c ts \<Longrightarrow> i < length ts \<Longrightarrow> tbl \<in> set (t_refs (ts ! i)) \<Longrightarrow> tbl \<notin> c \<Longrightarrow>
     \<exists>j\<le>i. t_table (ts ! j) = tbl"
proof (induction ts arbitrary: c i)
  case (Cons t ts)
  show ?case
  proof (cases i)
    case 0
    with Cons.prems show ?thesis by auto
  next
    case (Suc k)
    show ?thesis
    proof (cases "tbl = t_table t")
      case True
      then show ?thesis by (intro exI [of _ 0]) auto
    next
      case False
      with Cons.IH [of "insert (t_table t) c" k] Cons.prems Suc obtain j where "j \<le> k" "t_table (ts ! j) = tbl"
        by auto
      then show ?thesis using Suc by (intro exI [of _ "Suc j"]) auto
    qed
  qed
qed simp

lemma ready_iff: "ready created t \<longleftrightarrow> set (t_refs t) \<subseteq> insert (t_table t) (set created)"
  by (simp add: ready_def)

lemma order_tables_error: "order_tables n pending created ordered = Inl e \<Longrightarrow> e = ConfigurationError"
proof (induction n pending created ordered rule: order_tables.induct)
  case (1 n pending created ordered)
  from 1(2) show ?case
    by (subst (asm) order_tables.simps) (auto split: if_splits option.splits intro: 1(1))
qed

text \<open>What the loop has collected when it ends.\<close>

lemma order_tables_sound:
  "order_tables n pending created ordered = Inr r \<Longrightarrow>
     \<exists>os. r = ordered @ os \<and> mset os \<subseteq># mset pending \<and> valid_from (set created) os \<and>
       length (foldl (\<lambda>c t. set_add (t_table t) c) created os) = n"
proof (induction n pending created ordered rule: order_tables.induct)
  case (1 n pending created ordered)
  show ?case
  proof (cases "length created = n")
    case True
    with 1(2) show ?thesis by (auto simp: order_tables.simps [of n] intro!: exI [of _ "[]"])
  next
    case False
    with 1(2) obtain t where t: "find (ready created) pending = Some t"
      by (auto simp: order_tables.simps [of n] split: option.splits)
    with 1(2) False have "order_tables n (remove1 t pending) (set_add (t_table t) created) (ordered @ [t]) = Inr r"
      by (simp add: order_tables.simps [of n])
    from 1(1) [OF False t this] obtain os where os: "r = (ordered @ [t]) @ os" "mset os \<subseteq># mset (remove1 t pending)"
      "valid_from (set (set_add (t_table t) created)) os"
      "length (foldl (\<lambda>c t. set_add (t_table t) c) (set_add (t_table t) created) os) = n" by auto
    from t have "t \<in> set pending" "ready created t" by (auto simp: find_Some_iff)
    with os show ?thesis
      by (intro exI [of _ "t # os"]) (auto simp: ready_def insert_subset_eq_iff)
  qed
qed

lemma foldl_set_add_length:
  "distinct c \<Longrightarrow> length (foldl (\<lambda>c t. set_add (t_table t) c) c os) = card (set c \<union> t_table ` set os)"
proof (induction os arbitrary: c)
  case (Cons t os)
  then show ?case by (simp add: Un_insert_right insert_commute)
qed (simp add: distinct_card)

lemma card_names: "card (t_table ` set os) = length os \<Longrightarrow> distinct (map t_table os)"
  by (metis card_distinct length_map list.set_map)

lemma order_tables_Inr:
  assumes "order_tables (length es) es [] [] = Inr os"
  shows "mset os = mset es" "valid_from {} os" "distinct (map t_table os)"
proof -
  from order_tables_sound [OF assms] have os: "mset os \<subseteq># mset es" "valid_from {} os"
    "card (t_table ` set os) = length es"
    by (auto simp: foldl_set_add_length)
  have "card (t_table ` set os) \<le> length os"
    using card_image_le [of "set os" t_table] card_length [of os] by simp
  moreover have "length os \<le> length es" using size_mset_mono [OF os(1)] by simp
  ultimately have l: "length os = length es" using os(3) by simp
  then show "mset os = mset es" using os(1) by (metis mset_subset_size size_mset subset_mset.le_neq_trans less_irrefl)
  show "valid_from {} os" by (rule os(2))
  from l os(3) show "distinct (map t_table os)" by (simp add: card_names)
qed

lemma order_tables_complete:
  assumes "mset os = mset pending" "valid_from (set created) os" "distinct created"
    "distinct (map t_table pending)" "set created \<inter> t_table ` set pending = {}"
    "n = length created + length pending"
  shows "\<exists>r. order_tables n pending created ordered = Inr r"
  using assms
proof (induction n pending created ordered arbitrary: os rule: order_tables.induct)
  case (1 n pending created ordered)
  show ?case
  proof (cases pending)
    case Nil
    with 1(7) show ?thesis by (simp add: order_tables.simps)
  next
    case (Cons p ps)
    with 1(7) have nz: "length created \<noteq> n" by simp
    from Cons 1(2) obtain o1 os' where o1: "os = o1 # os'" by (cases os) auto
    with 1(2) have "o1 \<in> set pending" by (metis list.set_intros(1) set_mset_mset)
    moreover from o1 1(3) have "ready created o1" by (simp add: ready_def)
    ultimately obtain t where t: "find (ready created) pending = Some t"
      by (metis find_None_iff option.exhaust)
    then have tin: "t \<in> set pending" by (auto simp: find_Some_iff)
    have new: "t_table t \<notin> set created" using tin 1(6) by auto
    have ms: "mset (remove1 t os) = mset (remove1 t pending)" using 1(2) by simp
    have d: "distinct (map t_table (remove1 t pending))" "t_table t \<notin> t_table ` set (remove1 t pending)"
    proof -
      have dp: "distinct pending" using 1(5) by (simp add: distinct_map)
      show "distinct (map t_table (remove1 t pending))"
        using 1(5) dp by (auto simp: distinct_map set_remove1_eq intro: inj_on_subset)
      show "t_table t \<notin> t_table ` set (remove1 t pending)"
        using 1(5) dp tin by (auto simp: distinct_map set_remove1_eq inj_on_def)
    qed
    have "\<exists>r. order_tables n (remove1 t pending) (set_add (t_table t) created) (ordered @ [t]) = Inr r"
    proof (rule 1(1) [OF nz t ms])
      show "valid_from (set (set_add (t_table t) created)) (remove1 t os)"
        using valid_from_remove1 [OF 1(3)] by simp
      show "distinct (set_add (t_table t) created)" using 1(4) by simp
      show "distinct (map t_table (remove1 t pending))" by (rule d)
      show "set (set_add (t_table t) created) \<inter> t_table ` set (remove1 t pending) = {}"
        using d(2) 1(6) by (auto dest: notin_set_remove1 set_remove1_subset [THEN subsetD])
      show "n = length (set_add (t_table t) created) + length (remove1 t pending)"
        using new length_remove1_in [OF tin] 1(7) by (simp add: set_add_def)
    qed
    with nz t show ?thesis by (simp add: order_tables.simps [of n])
  qed
qed

section \<open>The schema script\<close>

lemma imap_each:
  assumes "imap f xs s = (Ret ys, t)" and "P s" and "\<And>x u y v. f x u = (Ret y, v) \<Longrightarrow> P u \<Longrightarrow> P v"
  shows "list_all2 (\<lambda>x y. \<exists>u v. P u \<and> f x u = (Ret y, v)) xs ys \<and> P t"
  using assms(1,2)
proof (induction xs arbitrary: s ys)
  case (Cons x xs)
  then obtain y u zs where y: "f x s = (Ret y, u)" and zs: "imap f xs u = (Ret zs, t)" "ys = y # zs"
    by (auto simp: ibind_Ret)
  from assms(3) [OF y] Cons.prems(2) have "P u" by blast
  from Cons.IH [OF zs(1) this] y Cons.prems(2) zs(2) show ?case by auto
qed simp

text \<open>What an idle generator answers, it answers when it is new.\<close>

lemma idle_text:
  assumes "idle g s"
  shows "fst (get_table_sql g env tables k safe s) = fst (get_table_sql g env tables k safe clean_state)"
proof (cases "g = OracleGenerator")
  case True
  from assms have "s = clean_state\<lparr>foreign_keys := foreign_keys s\<rparr>"
    by (auto simp: idle_def clean_state_def intro!: gen_state.equality)
  with True oracle_text show ?thesis by metis
next
  case False
  with assms show ?thesis by (simp add: idle_iff)
qed


definition two_table_env :: schema_env where
  "two_table_env = sample_schema_env\<lparr>s_metas := (\<lambda>k. (sample_metas k)\<lparr>default_connection := Some ''default''\<rparr>)\<rparr>"

definition two_table_apps :: "(string, (string, mid) dict) dict" where
  "two_table_apps = [(''app'', [(''Post'', sample_post), (''User'', sample_user)])]"


text \<open>
  C34. The loop refuses exactly the databases without an acceptable script: it returns an order
  when the tables have distinct names and some order creates each table after the tables it
  refers to, and otherwise raises \<^verbatim>\<open>ConfigurationError\<close>. (Two models with one table name are
  therefore reported as cyclic references.)
\<close>

theorem schema_order_complete:
  "((\<exists>os. order_tables (length es) es [] [] = Inr os) \<longleftrightarrow>
      distinct (map t_table es) \<and> (\<exists>os. mset os = mset es \<and> valid_from {} os)) \<and>
   (order_tables (length es) es [] [] = Inl ConfigurationError \<longleftrightarrow>
      \<not> (distinct (map t_table es) \<and> (\<exists>os. mset os = mset es \<and> valid_from {} os)))"
proof -
  have "(\<exists>os. order_tables (length es) es [] [] = Inr os) \<longleftrightarrow>
      distinct (map t_table es) \<and> (\<exists>os. mset os = mset es \<and> valid_from {} os)"
  proof
    assume "\<exists>os. order_tables (length es) es [] [] = Inr os"
    then obtain os where os: "order_tables (length es) es [] [] = Inr os" by blast
    note ok = order_tables_Inr [OF this]
    from ok(1) have "mset (map t_table os) = mset (map t_table es)" by simp
    with ok(3) have "distinct (map t_table es)" using mset_eq_imp_distinct_iff by blast
    with ok show "distinct (map t_table es) \<and> (\<exists>os. mset os = mset es \<and> valid_from {} os)" by blast
  next
    assume "distinct (map t_table es) \<and> (\<exists>os. mset os = mset es \<and> valid_from {} os)"
    then obtain os where "distinct (map t_table es)" "mset os = mset es" "valid_from {} os" by blast
    then show "\<exists>os. order_tables (length es) es [] [] = Inr os"
      by (intro order_tables_complete [of os]) auto
  qed
  moreover have "order_tables (length es) es [] [] = Inl ConfigurationError \<longleftrightarrow>
      \<not> (\<exists>os. order_tables (length es) es [] [] = Inr os)"
    using order_tables_error [of "length es" es "[]" "[]"]
    by (cases "order_tables (length es) es [] []") auto
  ultimately show ?thesis by blast
qed

section \<open>Oracle\<close>

lemma check_names_free: "check_names (without_keys P m) ns = check_names m ns"
  by (induction ns) (auto simp: map_of_without free_simps split: option.split)

lemma model_check_free [free_simps]: "model_check (without_keys P m) = model_check m"
  by (simp add: model_check_def check_together_def check_names_free free_simps)

lemma meta_db_free [free_simps]: "meta_db conn (without_keys P m) = meta_db conn m"
  by (simp add: meta_db_def without_keys_def)

lemma models_to_create_free [free_simps]:
  "models_to_create apps (s_metas (env_without_keys P env)) conn client = models_to_create apps (s_metas env) conn client"
  unfolding models_to_create_def by (simp only: free_simps)

abbreviation to_one :: "field \<Rightarrow> bool" where
  "to_one f \<equiv> fclass f \<noteq> ManyToManyFieldInstance"

text \<open>
  C38. On Oracle no foreign key becomes a constraint: the script is the one of the same models with
  every foreign key declared without \<^verbatim>\<open>db_constraint\<close>. (The clauses are collected, and never taken.)
\<close>

theorem oracle_keys_lost:
  assumes "\<And>k n f. n \<in> set (m2m_fields (s_metas env k)) \<Longrightarrow> map_of (fields_map (s_metas env k)) n = Some f \<Longrightarrow>
     fclass f = ManyToManyFieldInstance"
  shows "fst (get_create_schema_sql OracleGenerator env apps conn client safe clean_state) =
     fst (get_create_schema_sql OracleGenerator (env_without_keys to_one env) apps conn client safe clean_state)"
proof -
  have "same_text (get_create_schema_sql OracleGenerator env apps conn client safe)
      (get_create_schema_sql OracleGenerator (env_without_keys to_one env) apps conn client safe)"
    unfolding get_create_schema_sql_def Let_def free_simps
    by (intro same_ibind same_imap same_table same_rules) (use assms in blast)+
  then show ?thesis by (rule same_text_clean)
qed

theorem oracle_keys_lost_witness:
  "fst (get_create_schema_sql OracleGenerator two_table_env two_table_apps (\<lambda>a. Inr 0) 0 True clean_state) =
     fst (get_create_schema_sql OracleGenerator (env_without_keys to_one two_table_env) two_table_apps (\<lambda>a. Inr 0) 0 True clean_state) \<and>
   (\<exists>r. map_of (fields_map (s_metas two_table_env sample_post)) ''author'' = Some r \<and> db_constraint (rel r))"
proof
  have m: "m2m_fields (s_metas two_table_env k) = []" for k
    by (simp add: two_table_env_def sample_schema_env_def sample_metas_def sample_post_meta_def sample_meta_def empty_meta_def)
  show "fst (get_create_schema_sql OracleGenerator two_table_env two_table_apps (\<lambda>a. Inr 0) 0 True clean_state) =
     fst (get_create_schema_sql OracleGenerator (env_without_keys to_one two_table_env) two_table_apps (\<lambda>a. Inr 0) 0 True clean_state)"
    by (rule oracle_keys_lost) (simp add: m)
  show "\<exists>r. map_of (fields_map (s_metas two_table_env sample_post)) ''author'' = Some r \<and> db_constraint (rel r)"
    by (simp add: two_table_env_def sample_schema_env_def sample_metas_def sample_post_meta_def author_field_def no_relattrs_def)
qed

end
