(* ===== verification/ExecutorProofs.thy ===== *)
theory ExecutorProofs
  imports Executor "HOL-Library.Multiset"
begin

text \<open>
  What the executor's statements do: the values bound to the placeholders are the converted
  attributes of the instance, column by column, and the caches of prepared statements hold
  what would be prepared afresh.
\<close>

section \<open>What a conversion changes\<close>

text \<open>Only attributes in \<open>C\<close> of the object at \<open>a\<close> differ.\<close>

definition same_but :: "string set \<Rightarrow> nat \<Rightarrow> 'd session \<Rightarrow> 'd session \<Rightarrow> bool" where
  "same_but C a s s' \<longleftrightarrow>
     (\<forall>b. b \<noteq> a \<longrightarrow> objs s' b = objs s b) \<and>
     (\<forall>n. n \<notin> C \<longrightarrow> map_of (i_dict (objs s' a)) n = map_of (i_dict (objs s a)) n) \<and>
     i_model (objs s' a) = i_model (objs s a) \<and> i_custom_pk (objs s' a) = i_custom_pk (objs s a) \<and>
     i_saved (objs s' a) = i_saved (objs s a) \<and> i_partial (objs s' a) = i_partial (objs s a) \<and>
     exec_cache s' = exec_cache s \<and> update_cache s' = update_cache s \<and> sdb s' = sdb s"

lemma same_but_refl [simp]: "same_but C a s s"
  by (simp add: same_but_def)

lemma same_but_trans: "same_but C a s t \<Longrightarrow> same_but D a t u \<Longrightarrow> same_but (C \<union> D) a s u"
  by (auto simp: same_but_def)

lemma same_but_mono: "same_but C a s t \<Longrightarrow> C \<subseteq> D \<Longrightarrow> same_but D a s t"
  by (auto simp: same_but_def)

lemma same_but_put [simp]: "same_but {n} a s (put_state a n v s)"
  by (auto simp: same_but_def put_state_def Let_def map_of_update)

text \<open>Names of columns, which no property of the class stands for.\<close>

definition plain_col :: "meta \<Rightarrow> string \<Rightarrow> bool" where
  "plain_col m c \<longleftrightarrow> c \<notin> set (fetch_fields m) \<and> c \<noteq> ''pk''"

definition columns_ok :: "meta \<Rightarrow> bool" where
  "columns_ok m \<longleftrightarrow> meta_wf m \<and> (\<forall>c. dict_has (fields_db_projection m) c \<longrightarrow> plain_col m c) \<and>
     (\<forall>f. map_of (fields_map m) (pk_attr m) = Some f \<longrightarrow> pk f)"

lemma columns_ok_field:
  assumes "columns_ok m" "dict_has (fields_db_projection m) c"
  obtains f where "map_of (fields_map m) c = Some f" "model_field_name f = c" "has_db_field (fclass f)"
  using assms unfolding columns_ok_def meta_wf_def by metis

lemma py_setattr_plain:
  "meta_wf (model_of rv (i_model (objs s a))) \<Longrightarrow> plain_col (model_of rv (i_model (objs s a))) c \<Longrightarrow>
     py_setattr rv a c v s = (Ret (), put_state a c v s)"
  by (auto simp: py_setattr_def plain_col_def meta_wf_def put_raw_def imodify_def Let_def)

lemma py_getattr_plain:
  "meta_wf (model_of rv (i_model (objs s a))) \<Longrightarrow> plain_col (model_of rv (i_model (objs s a))) c \<Longrightarrow>
     py_getattr rv a c s = ilift (attr_at (objs s a) c) s"
  by (auto simp: py_getattr_def plain_getattr_def plain_col_def meta_wf_def get_raw_def Let_def)

text \<open>The value a conversion binds, on the instance as it is.\<close>

definition conv_value :: "'d run_env \<Rightarrow> inst \<Rightarrow> field \<Rightarrow> attr \<Rightarrow> pyval res" where
  "conv_value rv i f v =
     rbind (field_to_db (orm rv) f (plain v)
              (Instance (case map_of (i_dict i) (model_field_name f) of None \<Rightarrow> VNone | Some w \<Rightarrow> plain w)))
       (\<lambda>(w, wb). Inr w)"

lemma conv_on_spec:
  assumes "conv_on rv a f v s = (Ret w, s')" and "meta_wf (model_of rv (i_model (objs s a)))"
    and "plain_col (model_of rv (i_model (objs s a))) (model_field_name f)"
  shows "conv_value rv (objs s a) f v = Inr w \<and> same_but {model_field_name f} a s s'"
proof -
  let ?cur = "case map_of (i_dict (objs s a)) (model_field_name f) of None \<Rightarrow> VNone | Some w \<Rightarrow> plain w"
  from assms(1) obtain u wb where f: "field_to_db (orm rv) f (plain v) (Instance ?cur) = Inr (u, wb)"
    and r: "iseq (case wb of None \<Rightarrow> iret () | Some x \<Rightarrow> py_setattr rv a (model_field_name f) (APy x)) (iret u) s = (Ret w, s')"
    unfolding conv_on_def Let_def ibind_Ret by auto
  from r have [simp]: "u = w" by (simp add: iseq_def ibind_Ret iret_def)
  note s' = r [simplified]
  have "same_but {model_field_name f} a s s'"
  proof (cases wb)
    case None
    with s' show ?thesis by (simp add: iseq_def ibind_Ret iret_def)
  next
    case (Some x)
    with s' have "s' = put_state a (model_field_name f) (APy x) s"
      by (simp add: iseq_def ibind_Ret iret_def py_setattr_plain [OF assms(2,3)])
    then show ?thesis by simp
  qed
  with f show ?thesis by (simp add: conv_value_def)
qed

lemma conv_value_cong:
  "map_of (i_dict i) (model_field_name f) = map_of (i_dict j) (model_field_name f) \<Longrightarrow>
     conv_value rv i f v = conv_value rv j f v"
  by (simp add: conv_value_def)

text \<open>The value bound for a column, and its field's conversion.\<close>

definition col_value :: "'d run_env \<Rightarrow> (string, field) dict \<Rightarrow> inst \<Rightarrow> string \<Rightarrow> pyval res" where
  "col_value rv cm i c = rbind (dict_at cm c) (\<lambda>f. rbind (attr_at i c) (conv_value rv i f))"

definition cols_named :: "(string, field) dict \<Rightarrow> string list \<Rightarrow> bool" where
  "cols_named cm cols \<longleftrightarrow> (\<forall>c\<in>set cols. \<forall>f. map_of cm c = Some f \<longrightarrow> model_field_name f = c)"

lemma col_value_cong:
  assumes "map_of (i_dict i) c = map_of (i_dict j) c" "\<forall>f. map_of cm c = Some f \<longrightarrow> model_field_name f = c"
  shows "col_value rv cm i c = col_value rv cm j c"
proof (cases "map_of cm c")
  case (Some f)
  with assms have "conv_value rv i f v = conv_value rv j f v" for v by (intro conv_value_cong) simp
  with Some assms(1) show ?thesis by (simp add: col_value_def dict_at_def attr_at_def cong: rbind_cong)
qed (simp add: col_value_def dict_at_def)

lemma column_values_spec:
  assumes "column_values rv a cm cols s = (Ret vals, s')" and "meta_wf (model_of rv (i_model (objs s a)))"
    and "\<forall>c\<in>set cols. plain_col (model_of rv (i_model (objs s a))) c" and "cols_named cm cols" and "distinct cols"
  shows "list_all2 (\<lambda>c v. col_value rv cm (objs s a) c = Inr v) cols vals \<and> same_but (set cols) a s s'"
  using assms
proof (induction cols arbitrary: s vals)
  case Nil
  then show ?case by (simp add: column_values_def iret_def)
next
  case (Cons c cols)
  let ?m = "model_of rv (i_model (objs s a))"
  from Cons.prems(1) obtain f v w t vs where f: "map_of cm c = Some f"
    and g: "py_getattr rv a c s = (Ret v, s)" "attr_at (objs s a) c = Inr v"
    and w: "conv_on rv a f v s = (Ret w, t)"
    and r: "column_values rv a cm cols t = (Ret vs, s')" and vals: "vals = w # vs"
  proof -
    from Cons.prems(2,3) have "py_getattr rv a c s = ilift (attr_at (objs s a) c) s"
      by (intro py_getattr_plain) simp_all
    with Cons.prems(1) that show thesis
      unfolding column_values_def imap.simps ibind_Ret by (auto simp: iret_def dict_at_def split: option.splits)
  qed
  from Cons.prems(4) f have n: "model_field_name f = c" by (simp add: cols_named_def)
  from conv_on_spec [OF w Cons.prems(2)] Cons.prems(3) n
  have w1: "conv_value rv (objs s a) f v = Inr w" and st: "same_but {c} a s t" by simp_all
  from st have m: "i_model (objs t a) = i_model (objs s a)" by (simp add: same_but_def)
  have "list_all2 (\<lambda>c v. col_value rv cm (objs t a) c = Inr v) cols vs \<and> same_but (set cols) a t s'"
    by (rule Cons.IH [OF r]) (use Cons.prems m in \<open>auto simp: cols_named_def\<close>)
  moreover have "col_value rv cm (objs t a) d = col_value rv cm (objs s a) d" if "d \<in> set cols" for d
    using st that Cons.prems(4,5) by (intro col_value_cong) (auto simp: same_but_def cols_named_def)
  ultimately have "list_all2 (\<lambda>c v. col_value rv cm (objs s a) c = Inr v) cols vs" "same_but (set cols) a t s'"
    by (auto simp: list_all2_conv_all_nth)
  moreover have "col_value rv cm (objs s a) c = Inr w"
    by (simp add: col_value_def dict_at_def f g(2) w1)
  ultimately show ?case using same_but_trans [OF st] by (simp add: vals)
qed

section \<open>Prepared entries\<close>

lemma rmap_eq_Inr: "rmap f xs = Inr ys \<longleftrightarrow> list_all2 (\<lambda>x y. f x = Inr y) xs ys"
proof
  assume "rmap f xs = Inr ys"
  then show "list_all2 (\<lambda>x y. f x = Inr y) xs ys"
    by (auto simp: list_all2_conv_all_nth rmap_length rmap_nth)
next
  show "list_all2 (\<lambda>x y. f x = Inr y) xs ys \<Longrightarrow> rmap f xs = Inr ys"
    by (induction rule: list_all2_induct) auto
qed

lemma rmap_pairs:
  assumes "rmap (\<lambda>c. rbind (dict_at d c) (\<lambda>f. Inr (c, f))) cols = Inr cfs"
  shows "cfs = map (\<lambda>c. (c, the (map_of d c))) cols" "\<forall>c\<in>set cols. map_of d c \<noteq> None"
  using assms by (induction cols arbitrary: cfs) (auto simp: rbind_eq_Inr)

text \<open>The columns an insert of a model writes: all, or those the database does not generate.\<close>

definition insert_cols :: "meta \<Rightarrow> bool \<Rightarrow> string list" where
  "insert_cols m all_columns =
     filter (\<lambda>c. all_columns \<or> \<not> generated (the (map_of (fields_map m) c))) (map fst (fields_db_projection m))"

lemma prepare_insert_columns_spec:
  assumes "prepare_insert_columns m g = Inr (cols, columns)"
  shows "cols = insert_cols m g" "rmap (dict_at (fields_db_projection m)) cols = Inr columns"
proof -
  from assms obtain cfs where r: "rmap (\<lambda>c. rbind (dict_at (fields_map m) c) (\<lambda>f. Inr (c, f))) (map fst (fields_db_projection m)) = Inr cfs"
    and cols: "cols = map fst (filter (\<lambda>(c, f). g \<or> \<not> generated f) cfs)"
    and col: "rmap (dict_at (fields_db_projection m)) cols = Inr columns"
    by (auto simp: prepare_insert_columns_def rbind_eq_Inr Let_def)
  from cols rmap_pairs(1) [OF r] show "cols = insert_cols m g"
    by (simp add: insert_cols_def filter_map comp_def case_prod_unfold)
  show "rmap (dict_at (fields_db_projection m)) cols = Inr columns" by (rule col)
qed

lemma insert_cols_simps:
  "set (insert_cols m g) \<subseteq> fst ` set (fields_db_projection m)"
  "meta_wf m \<Longrightarrow> distinct (insert_cols m g)"
  by (auto simp: insert_cols_def meta_wf_def)

text \<open>
  The entry of a model. \<^verbatim>\<open>generated_db_fields\<close> decides whether the columns with generated keys
  are prepared too; \<open>all_columns\<close> is what an instance with a key of its own writes.
\<close>

definition entry_cols :: "meta \<Rightarrow> bool \<Rightarrow> string list" where
  "entry_cols m own_key = insert_cols m (own_key \<and> generated_db_fields m \<noteq> [])"

lemma make_entry_spec:
  assumes "make_entry rv mo = Inr e"
  obtains columns columns_all where
    "regular_columns e = entry_cols (model_of rv mo) False" "regular_columns_all e = entry_cols (model_of rv mo) True"
    "rmap (dict_at (fields_db_projection (model_of rv mo))) (regular_columns e) = Inr columns"
    "rmap (dict_at (fields_db_projection (model_of rv mo))) (regular_columns_all e) = Inr columns_all"
    "\<exists>ret. insert_query e = InsertInto (basetable (model_of rv mo)) columns (map TParam [0..<length columns]) ret False"
    "\<exists>ret. insert_query_all e = InsertInto (basetable (model_of rv mo)) columns_all (map TParam [0..<length columns_all]) ret False"
    "column_map e = map (\<lambda>c. (c, the (map_of (fields_map (model_of rv mo)) c))) (regular_columns_all e)"
    "\<forall>c\<in>set (regular_columns_all e). map_of (fields_map (model_of rv mo)) c \<noteq> None"
    "delete_query e = DeleteFrom (basetable (model_of rv mo)) (db_pk_column (model_of rv mo)) (TParam 0)"
proof -
  let ?m = "model_of rv mo"
  from assms obtain reg columns reg_all ins_all cm where r: "prepare_insert_columns ?m False = Inr (reg, columns)"
    and a: "(if generated_db_fields ?m \<noteq> [] then
               rbind (prepare_insert_columns ?m True) (\<lambda>(reg_all, columns_all).
               Inr (reg_all, prepare_insert_statement rv ?m columns_all False False))
             else Inr (reg, prepare_insert_statement rv ?m columns True False)) = Inr (reg_all, ins_all)"
    and cm: "rmap (\<lambda>c. rbind (dict_at (fields_map ?m) c) (\<lambda>f. Inr (c, f))) reg_all = Inr cm"
    and e: "e = \<lparr> regular_columns = reg, insert_query = prepare_insert_statement rv ?m columns True False,
            regular_columns_all = reg_all, insert_query_all = ins_all, column_map = cm,
            delete_query = DeleteFrom (basetable ?m) (db_pk_column ?m) (TParam 0) \<rparr>"
    by (auto simp: make_entry_def rbind_eq_Inr Let_def)
  note p = prepare_insert_columns_spec [OF r]
  obtain columns_all ret_all where all: "reg_all = entry_cols ?m True"
    "rmap (dict_at (fields_db_projection ?m)) reg_all = Inr columns_all"
    "ins_all = InsertInto (basetable ?m) columns_all (map TParam [0..<length columns_all]) ret_all False"
  proof (cases "generated_db_fields ?m = []")
    case True
    with a p that show thesis by (auto simp: entry_cols_def prepare_insert_statement_def)
  next
    case False
    with a obtain columns_all where "prepare_insert_columns ?m True = Inr (reg_all, columns_all)"
      "ins_all = prepare_insert_statement rv ?m columns_all False False"
      by (auto simp: rbind_eq_Inr)
    with prepare_insert_columns_spec [OF this(1)] False that show thesis
      by (auto simp: entry_cols_def prepare_insert_statement_def)
  qed
  show thesis
    by (rule that [of columns columns_all])
      (use p all rmap_pairs [OF cm] in \<open>auto simp: e entry_cols_def prepare_insert_statement_def\<close>)
qed

section \<open>What is bound\<close>

text \<open>A placeholder stands for the value at its position; another term stands for itself.\<close>

fun bind_param :: "pyval list \<Rightarrow> term \<Rightarrow> term" where
  "bind_param vals (TParam n) = TWrap (vals ! n)"
| "bind_param vals t = t"

fun bound_row :: "pyval list \<Rightarrow> stmt \<Rightarrow> (string \<times> term) list" where
  "bound_row vals (InsertInto t cols ts ret ig) = zip cols (map (bind_param vals) ts)"
| "bound_row vals (UpdateSet t sets k x) = map (\<lambda>(c, t). (c, bind_param vals t)) sets"
| "bound_row vals q = []"

fun is_insert_of :: "meta \<Rightarrow> stmt \<Rightarrow> bool" where
  "is_insert_of m (InsertInto t cols ts ret ig) = (t = basetable m \<and> \<not> ig)"
| "is_insert_of m q = False"

fun is_update_of :: "meta \<Rightarrow> stmt \<Rightarrow> bool" where
  "is_update_of m (UpdateSet t sets c x) = (t = basetable m \<and> c = db_pk_column m)"
| "is_update_of m q = False"

text \<open>The placeholders of a statement, in the order of its text.\<close>

definition params_of :: "term list \<Rightarrow> nat list" where
  "params_of ts = concat (map (\<lambda>t. case t of TParam n \<Rightarrow> [n] | _ \<Rightarrow> []) ts)"

fun stmt_params :: "stmt \<Rightarrow> nat list" where
  "stmt_params (InsertInto t cols ts ret ig) = params_of ts"
| "stmt_params (UpdateSet t sets k x) = params_of (map snd sets @ [x])"
| "stmt_params (DeleteFrom t k x) = params_of [x]"
| "stmt_params (InsertUpdate t cols ts ret al oc du) = params_of ts"
| "stmt_params q = []"

lemma params_of_simps [simp]:
  "params_of [] = []"
  "params_of (ts @ us) = params_of ts @ params_of us" "params_of [TParam n] = [n]"
  by (simp_all add: params_of_def)

lemma params_of_upt [simp]: "params_of (map TParam [0..<n]) = [0..<n]"
  by (induction n) simp_all

text \<open>The row an instance stands for: the column of each field and its converted value.\<close>

definition inst_column :: "'d run_env \<Rightarrow> meta \<Rightarrow> inst \<Rightarrow> string \<Rightarrow> (string \<times> term) res" where
  "inst_column rv m i c =
     rbind (dict_at (fields_db_projection m) c) (\<lambda>col.
     rbind (col_value rv (fields_map m) i c) (\<lambda>w. Inr (col, TWrap w)))"

definition inst_row :: "'d run_env \<Rightarrow> meta \<Rightarrow> inst \<Rightarrow> string list \<Rightarrow> (string \<times> term) list res" where
  "inst_row rv m i = rmap (inst_column rv m i)"

lemma bind_all: "map (bind_param vals) (map TParam [0..<length vals]) = map TWrap vals"
proof -
  have "map (bind_param vals) (map TParam [0..<length vals]) = map TWrap (map (\<lambda>i. vals ! i) [0..<length vals])"
    by (simp only: map_map comp_def bind_param.simps)
  then show ?thesis by (simp only: map_nth)
qed

lemma entry_columns_ok:
  assumes "columns_ok m"
  shows "distinct (entry_cols m b)" "\<forall>c\<in>set (entry_cols m b). plain_col m c"
    "cols_named (fields_map m) cols"
proof -
  from assms have m: "meta_wf m" by (simp add: columns_ok_def)
  show "distinct (entry_cols m b)" by (simp add: entry_cols_def insert_cols_simps(2) [OF m])
  show "\<forall>c\<in>set (entry_cols m b). plain_col m c"
  proof
    fix c assume "c \<in> set (entry_cols m b)"
    then have "dict_has (fields_db_projection m) c"
      unfolding entry_cols_def dict_has_iff by (rule rev_subsetD [OF _ insert_cols_simps(1)])
    with assms show "plain_col m c" by (simp add: columns_ok_def)
  qed
  show "cols_named (fields_map m) cols" using m by (simp add: cols_named_def meta_wf_def)
qed

lemma map_of_pairs: "map_of (map (\<lambda>c. (c, g c)) cols) c = (if c \<in> set cols then Some (g c) else None)"
  by (induction cols) auto

lemma entry_cols_mono: "set (entry_cols m False) \<subseteq> set (entry_cols m True)"
  by (auto simp: entry_cols_def insert_cols_def)

text \<open>The values for the columns of an entry are the converted attributes.\<close>

lemma entry_values:
  assumes "columns_ok (model_of rv mo)" and "make_entry rv mo = Inr e" and "i_model (objs s a) = mo"
    and "column_values rv a (column_map e) (entry_cols (model_of rv mo) b) s = (Ret vals, s')"
    and "rmap (dict_at (fields_db_projection (model_of rv mo))) (entry_cols (model_of rv mo) b) = Inr columns"
  shows "inst_row rv (model_of rv mo) (objs s a) (entry_cols (model_of rv mo) b) = Inr (zip columns (map TWrap vals))"
    and "length vals = length columns" "same_but (set (entry_cols (model_of rv mo) b)) a s s'"
proof -
  let ?m = "model_of rv mo"
  obtain "regular_columns_all e = entry_cols ?m True"
    and cm: "column_map e = map (\<lambda>c. (c, the (map_of (fields_map ?m) c))) (regular_columns_all e)"
      "\<forall>c\<in>set (regular_columns_all e). map_of (fields_map ?m) c \<noteq> None"
    by (rule make_entry_spec [OF assms(2)])
  then have m: "map_of (column_map e) c = map_of (fields_map ?m) c" if "c \<in> set (entry_cols ?m b)" for c
    using that entry_cols_mono [of ?m] by (cases b) (auto simp: map_of_pairs)
  note ok = entry_columns_ok [OF assms(1)]
  have "meta_wf (model_of rv (i_model (objs s a)))" using assms(1,3) by (simp add: columns_ok_def)
  moreover have "cols_named (column_map e) (entry_cols ?m b)"
    using ok(3) m by (simp add: cols_named_def)
  ultimately have v: "list_all2 (\<lambda>c v. col_value rv (column_map e) (objs s a) c = Inr v) (entry_cols ?m b) vals"
    and sb: "same_but (set (entry_cols ?m b)) a s s'"
    using column_values_spec [OF assms(4)] ok(1,2) assms(3) by simp_all
  then show "same_but (set (entry_cols ?m b)) a s s'" by simp
  have "col_value rv (column_map e) i c = col_value rv (fields_map ?m) i c" if "c \<in> set (entry_cols ?m b)" for i c
    by (simp add: col_value_def dict_at_def m [OF that])
  with v have v: "list_all2 (\<lambda>c v. col_value rv (fields_map ?m) (objs s a) c = Inr v) (entry_cols ?m b) vals"
    by (auto simp: list_all2_conv_all_nth)
  from assms(5) have "list_all2 (\<lambda>c col. dict_at (fields_db_projection ?m) c = Inr col) (entry_cols ?m b) columns"
    by (simp add: rmap_eq_Inr)
  from list_all2_lengthD [OF v] list_all2_lengthD [OF this] show "length vals = length columns" by simp
  then show "inst_row rv ?m (objs s a) (entry_cols ?m b) = Inr (zip columns (map TWrap vals))"
    using v assms(5) by (auto simp: inst_row_def rmap_eq_Inr inst_column_def list_all2_conv_all_nth rbind_eq_Inr)
qed

section \<open>What writing attributes keeps\<close>

lemma keeps_put_raw: "(\<And>n v s. P s \<Longrightarrow> P (put_state a n v s)) \<Longrightarrow> keeps P (put_raw a n v)"
  by (simp add: put_raw_def keeps_imodify)

lemma keeps_reads [simp]: "keeps P (get_raw b n)" "keeps P (attr_of v n)" "keeps P (get_pk_val rv b)"
proof -
  show g: "keeps P (get_raw b n)" for b by (auto simp: keeps_def get_raw_def ilift_def split: sum.split)
  show "keeps P (attr_of v n)" by (cases v) (simp_all add: attr_of_def g)
  show "keeps P (get_pk_val rv b)" by (simp add: get_pk_val_def)
qed

lemma keeps_py_setattr:
  assumes put: "\<And>n v s. P s \<Longrightarrow> P (put_state a n v s)"
  shows "keeps P (py_setattr rv a name v)"
proof -
  have pr: "keeps P (put_raw a n v)" for n v by (intro keeps_put_raw put)
  have fk: "keeps P (fk_setter a v key sf tf)" for key sf tf
    by (auto simp: fk_setter_def iseq_def intro!: keeps_ibind keeps_put_raw put)
  have "keeps P (ibind (ilift (dict_at d name)) (\<lambda>f. ibind (ilift (to_field_obj (metas (orm rv)) f)) (\<lambda>tf.
        ibind (ilift (opt_attr (source_field f))) (\<lambda>sf. fk_setter a v (''_'' @ name) sf (model_field_name tf)))))" for d
    by (intro keeps_ibind keeps_simple fk)
  then show ?thesis
    using pr by (auto simp: keeps_def py_setattr_def Let_def iraise_def)
qed

lemma keepsD: "keeps P c \<Longrightarrow> P s \<Longrightarrow> P (snd (c s))"
  by (simp add: keeps_def)

lemma keeps_process_insert_result:
  assumes put: "\<And>n v s. P s \<Longrightarrow> P (put_state a n v s)"
  shows "keeps P (process_insert_result rv mo a r)"
proof -
  have 1: "keeps P (ifold (\<lambda>(key, v) _. ibind (ilift (dict_at d key)) (\<lambda>n. py_setattr rv a n (APy v))) kvs ())" for d kvs
    by (intro keeps_ifold) (auto intro!: keeps_ibind keeps_py_setattr put split: prod.split)
  have 2: "keeps P (ibind (ilift (get_pk (model_of rv mo))) (\<lambda>f.
      iwhen (is_int_pk (fclass f) \<and> generated f) (py_setattr rv a ''pk'' v)))" for v
    by (intro keeps_ibind keeps_simple keeps_iwhen keeps_py_setattr put)
  show ?thesis
    unfolding keeps_def
  proof (intro allI impI)
    fix s assume s: "P s"
    show "P (snd (process_insert_result rv mo a r s))"
    proof (cases "postgres rv")
      case True
      with s keepsD [OF 1 s] show ?thesis by (cases r) (simp_all add: process_insert_result_def iret_def)
    next
      case False
      with keepsD [OF 2 s] show ?thesis by (simp add: process_insert_result_def)
    qed
  qed
qed

lemma send_db_Ret: "send_db rv q vals s = (Ret r, s') \<longleftrightarrow> (\<exists>d. send rv q vals (sdb s) = (Ret r, d) \<and> s' = s\<lparr>sdb := d\<rparr>)"
  by (auto simp: send_db_def split: prod.split)

lemma put_state_simps [simp]:
  "sdb (put_state a n v s) = sdb s" "exec_cache (put_state a n v s) = exec_cache s"
  "update_cache (put_state a n v s) = update_cache s"
  by (simp_all add: put_state_def Let_def)

section \<open>A concrete process\<close>

text \<open>For the witnesses: a driver that records what it is sent, and two users without a row yet.\<close>

definition solo_metas :: "mid \<Rightarrow> meta" where
  "solo_metas k = (if k = sample_user then sample_meta else if k = sample_post then sample_post_meta else empty_meta)"

definition sample_rv :: "(stmt \<times> pyval list) list run_env" where
  "sample_rv = \<lparr> orm = sample_env\<lparr>metas := solo_metas\<rparr>, call_default = (\<lambda>_. Inr VNone), await_default = (\<lambda>_. Inr VNone),
     db_native = (\<lambda>t. t = PyInt \<or> t = PyStr), connection_name = ''default'',
     caps = \<lparr> requires_limit = True, support_for_update = False, support_index_hint = False,
       support_update_limit_order_by = False \<rparr>, postgres = False,
     send = (\<lambda>q vals d. (Ret (RowId (int (length d))), d @ [(q, vals)])) \<rparr>"

definition new_user :: "string \<Rightarrow> bool \<Rightarrow> inst" where
  "new_user n custom = \<lparr> i_model = sample_user,
     i_dict = [(''id'', APy (if custom then VInt 7 else VNone)), (''name'', APy (VStr n))],
     i_partial = False, i_saved = False, i_custom_pk = custom, i_await = 0 \<rparr>"

definition sample_session :: "(stmt \<times> pyval list) list session" where
  "sample_session = \<lparr> objs = (\<lambda>a. if a = 0 then new_user ''ann'' False else new_user ''bob'' True),
     next_obj = 2, awaits = (\<lambda>_. []), next_await = 1, exec_cache = [], update_cache = (\<lambda>_. []),
     containers = (\<lambda>_. relation_init sample_user [] 0 [] None), next_container = 0, qstore = empty_store, sdb = [] \<rparr>"

definition user_entry :: exec_entry where
  "user_entry = (case make_entry sample_rv sample_user of Inr e \<Rightarrow> e | Inl x \<Rightarrow> undefined)"

lemma sample_rv_simps [simp]:
  "metas (orm sample_rv) = solo_metas" "connection_name sample_rv = ''default''"
  "solo_metas sample_user = sample_meta" "solo_metas sample_post = sample_post_meta"
  by (simp_all add: sample_rv_def solo_metas_def sample_user_def sample_post_def)

lemma user_entry: "make_entry sample_rv sample_user = Inr user_entry"
proof -
  have "(case make_entry sample_rv sample_user of Inr e \<Rightarrow> True | Inl x \<Rightarrow> False)" by code_simp
  then show ?thesis by (auto simp: user_entry_def split: sum.splits)
qed

lemma sample_meta_columns: "columns_ok sample_meta"
proof -
  have "meta_wf sample_meta"
    by (auto simp: meta_wf_def kind_sets_ok_def sample_meta_def empty_meta_def id_field_def name_field_def pk_field_def
        plain_field_def dict_has_def has_db_field_def)
  then show "columns_ok sample_meta"
    by (auto simp: columns_ok_def plain_col_def sample_meta_def empty_meta_def dict_has_def id_field_def pk_field_def
        split: if_splits)
qed

lemma user_columns [simp]: "columns_ok (model_of sample_rv sample_user)"
  by (simp_all add: sample_meta_columns)

section \<open>INSERT\<close>

definition insert_for :: "exec_entry \<Rightarrow> inst \<Rightarrow> stmt" where
  "insert_for e i = (if i_custom_pk i then insert_query_all e else insert_query e)"

definition row_of :: "'d run_env \<Rightarrow> mid \<Rightarrow> inst \<Rightarrow> (string \<times> term) list res" where
  "row_of rv mo i = inst_row rv (model_of rv mo) i (entry_cols (model_of rv mo) (i_custom_pk i))"

text \<open>The objects outside \<open>C\<close>, and the database, are the same.\<close>

definition same_outside :: "nat set \<Rightarrow> 'd session \<Rightarrow> 'd session \<Rightarrow> bool" where
  "same_outside C s s' \<longleftrightarrow> (\<forall>b. b \<notin> C \<longrightarrow> objs s' b = objs s b)"

lemma same_outside_trans: "same_outside C s t \<Longrightarrow> same_outside D t u \<Longrightarrow> same_outside (C \<union> D) s u"
  by (simp add: same_outside_def)

text \<open>The values of one instance, for the insert that is its.\<close>

lemma insert_values:
  assumes "columns_ok (model_of rv mo)" and "make_entry rv mo = Inr e" and "i_model (objs s a) = mo"
    and "column_values rv a (column_map e) (if i_custom_pk (objs s a) then regular_columns_all e else regular_columns e) s = (Ret vals, s')"
  shows "row_of rv mo (objs s a) = Inr (bound_row vals (insert_for e (objs s a)))"
    and "stmt_params (insert_for e (objs s a)) = [0..<length vals] \<and> is_insert_of (model_of rv mo) (insert_for e (objs s a))"
    and "same_outside {a} s s'" "sdb s' = sdb s"
proof -
  let ?m = "model_of rv mo" and ?b = "i_custom_pk (objs s a)"
  obtain columns columns_all ret ret_all where e: "regular_columns e = entry_cols ?m False"
    "regular_columns_all e = entry_cols ?m True"
    "rmap (dict_at (fields_db_projection ?m)) (regular_columns e) = Inr columns"
    "rmap (dict_at (fields_db_projection ?m)) (regular_columns_all e) = Inr columns_all"
    "insert_query e = InsertInto (basetable ?m) columns (map TParam [0..<length columns]) ret False"
    "insert_query_all e = InsertInto (basetable ?m) columns_all (map TParam [0..<length columns_all]) ret_all False"
    by (rule make_entry_spec [OF assms(2)]) blast
  define cols where "cols = (if ?b then columns_all else columns)"
  have cols: "rmap (dict_at (fields_db_projection ?m)) (entry_cols ?m ?b) = Inr cols"
    using e(1-4) by (auto simp: cols_def)
  have q: "\<exists>ret. insert_for e (objs s a) = InsertInto (basetable ?m) cols (map TParam [0..<length cols]) ret False"
    using e(5,6) by (auto simp: insert_for_def cols_def)
  from assms(4) e(1,2) have v: "column_values rv a (column_map e) (entry_cols ?m ?b) s = (Ret vals, s')"
    by (auto split: if_splits)
  note ev = entry_values [OF assms(1,2,3) v cols]
  show "row_of rv mo (objs s a) = Inr (bound_row vals (insert_for e (objs s a)))"
    using q ev(1,2) bind_all [of vals] by (auto simp: row_of_def)
  show "stmt_params (insert_for e (objs s a)) = [0..<length vals] \<and> is_insert_of ?m (insert_for e (objs s a))"
    using q ev(2) by auto
  show "same_outside {a} s s'" "sdb s' = sdb s"
    using ev(3) by (simp_all add: same_but_def same_outside_def)
qed

text \<open>The stages of an insert.\<close>

lemma execute_insert_stages:
  assumes "execute_insert rv e mo a s = (Ret (), s')"
  obtains vals t r u where
    "column_values rv a (column_map e) (if i_custom_pk (objs s a) then regular_columns_all e else regular_columns e) s = (Ret vals, t)"
    "send_db rv (insert_for e (objs s a)) vals t = (Ret r, u)" "sdb s' = sdb u"
proof (cases "i_custom_pk (objs s a)")
  case True
  with assms have "ibind (column_values rv a (column_map e) (regular_columns_all e)) (\<lambda>vals.
      ibind (send_db rv (insert_for e (objs s a)) vals) (\<lambda>_. iret ())) s = (Ret (), s')"
    by (simp add: execute_insert_def insert_for_def)
  with that True show thesis unfolding ibind_Ret by (auto simp: iret_def)
next
  case False
  with assms have "ibind (column_values rv a (column_map e) (regular_columns e)) (\<lambda>vals.
      ibind (send_db rv (insert_for e (objs s a)) vals) (process_insert_result rv mo a)) s = (Ret (), s')"
    by (simp add: execute_insert_def insert_for_def)
  then obtain vals t r u where *: "column_values rv a (column_map e) (regular_columns e) s = (Ret vals, t)"
    "send_db rv (insert_for e (objs s a)) vals t = (Ret r, u)" "process_insert_result rv mo a r u = (Ret (), s')"
    unfolding ibind_Ret by blast
  have "keeps (\<lambda>s. sdb s = sdb u) (process_insert_result rv mo a r)"
    by (rule keeps_process_insert_result) simp
  then have "sdb (snd (process_insert_result rv mo a r u)) = sdb u" by (simp add: keeps_def)
  with * that False show thesis by auto
qed

text \<open>
  An insert writes the instance: the row that the statement and its values stand for is the
  converted value of every column of the model (without the keys the database generates, unless
  the instance was given one), and the placeholders stand in the order of the values, so that
  numbered and positional placeholders mean the same.
\<close>

lemma insert_row_sent:
  assumes "columns_ok (model_of rv mo)" and "make_entry rv mo = Inr e" and "i_model (objs s a) = mo"
    and "execute_insert rv e mo a s = (Ret (), s')"
  shows "\<exists>q vals r. send rv q vals (sdb s) = (Ret r, sdb s') \<and> is_insert_of (model_of rv mo) q \<and>
     stmt_params q = [0..<length vals] \<and>
     inst_row rv (model_of rv mo) (objs s a) (entry_cols (model_of rv mo) (i_custom_pk (objs s a))) = Inr (bound_row vals q)"
proof -
  let ?b = "i_custom_pk (objs s a)" and ?q = "insert_for e (objs s a)"
  obtain vals t r u where v: "column_values rv a (column_map e) (if ?b then regular_columns_all e else regular_columns e) s = (Ret vals, t)"
    and r: "send_db rv ?q vals t = (Ret r, u)" and s': "sdb s' = sdb u"
    by (rule execute_insert_stages [OF assms(4)])
  note iv = insert_values [OF assms(1-3) v]
  from r iv(4) have "send rv ?q vals (sdb s) = (Ret r, sdb s')" by (auto simp: send_db_Ret s')
  with iv(1,2) show ?thesis unfolding row_of_def by blast
qed

section \<open>UPDATE\<close>

text \<open>The fields an update sets, and what it sets a field to.\<close>

definition set_names :: "meta \<Rightarrow> string list \<Rightarrow> string list" where
  "set_names m names = filter (\<lambda>n. \<not> pk (the (map_of (fields_map m) n))) names"

definition set_clause :: "'d run_env \<Rightarrow> meta \<Rightarrow> inst \<Rightarrow> string \<Rightarrow> (string \<times> term) res" where
  "set_clause rv m i n =
     rbind (dict_at (fields_db_projection m) n) (\<lambda>col.
     rbind (attr_at i n) (\<lambda>v.
     case is_expression v of
       Some x \<Rightarrow> rbind (resolver_arithmetic_expression (orm rv) m x) (\<lambda>(y, _). Inr (col, y))
     | None \<Rightarrow> rbind (col_value rv (fields_map m) i n) (\<lambda>w. Inr (col, TWrap w))))"

lemma set_names_simps [simp]:
  "set_names m [] = []"
  "map_of (fields_map m) n = Some f \<Longrightarrow> set_names m (n # ns) = (if pk f then set_names m ns else n # set_names m ns)"
  by (simp_all add: set_names_def)

lemma set_names_Cons: "set_names m (n # ns) = set_names m [n] @ set_names m ns"
  by (simp add: set_names_def)

lemma expression_no_param:
  assumes "is_expression v = Some x" "resolver_arithmetic_expression env m x = Inr (y, fo)"
  shows "bind_param vals y = y" "params_of [y] = []"
proof -
  from assms(1) consider op l r where "x = TArith op l r" | f xs where "x = TFunc f xs"
    by (cases v rule: is_expression.cases) auto
  then have "(\<exists>op l r. y = TArith op l r) \<or> (\<exists>f xs. y = TFunc f xs)"
    using assms(2) by cases (auto simp: rbind_eq_Inr)
  then show "bind_param vals y = y" "params_of [y] = []" by (auto simp: params_of_def)
qed

text \<open>The SET clauses against the values that were collected for them.\<close>

lemma update_sets_bound:
  assumes "update_sets (orm rv) m arith names n = Inr (sets, k)"
    and "\<forall>x\<in>set (set_names m names). \<exists>v. attr_at i x = Inr v \<and> map_of arith x = is_expression v"
    and "list_all2 (\<lambda>x w. col_value rv (fields_map m) i x = Inr w)
           (filter (\<lambda>x. map_of arith x = None) (set_names m names)) vs"
    and "\<forall>j<length vs. vals ! (n + j) = vs ! j"
  shows "rmap (set_clause rv m i) (set_names m names) = Inr (map (\<lambda>(c, t). (c, bind_param vals t)) sets) \<and>
     params_of (map snd sets) = [n..<n + length vs] \<and> k = n + length vs"
  using assms
proof (induction names arbitrary: n sets vs)
  case (Cons fld rest)
  from Cons.prems(1) obtain col f where col: "map_of (fields_db_projection m) fld = Some col"
    and f: "map_of (fields_map m) fld = Some f"
    by (auto simp: rbind_eq_Inr)
  show ?case
  proof (cases "pk f")
    case True
    with Cons.prems(1) col f have "update_sets (orm rv) m arith rest n = Inr (sets, k)"
      by (simp add: rbind_eq_Inr)
    from Cons.IH [OF this _ _ Cons.prems(4)] Cons.prems(2,3) True f show ?thesis by simp
  next
    case False
    with Cons.prems(1) col f obtain t n' sets' where
      t: "(case map_of arith fld of None \<Rightarrow> Inr (TParam n, Suc n)
           | Some x \<Rightarrow> rbind (resolver_arithmetic_expression (orm rv) m x) (\<lambda>(y, _). Inr (y, n))) = Inr (t, n')"
      and r: "update_sets (orm rv) m arith rest n' = Inr (sets', k)" and sets: "sets = (col, t) # sets'"
      by (auto simp: rbind_eq_Inr)
    from Cons.prems(2) False f obtain v where v: "attr_at i fld = Inr v" "map_of arith fld = is_expression v" by auto
    show ?thesis
    proof (cases "is_expression v")
      case None
      with Cons.prems(3) False f v obtain w ws where ws: "vs = w # ws" "col_value rv (fields_map m) i fld = Inr w"
        "list_all2 (\<lambda>x w. col_value rv (fields_map m) i x = Inr w) (filter (\<lambda>x. map_of arith x = None) (set_names m rest)) ws"
        by (auto simp: list_all2_Cons1)
      have *: "\<forall>j<length ws. vals ! (Suc n + j) = ws ! j"
      proof (intro allI impI)
        fix j assume "j < length ws"
        with Cons.prems(4) ws(1) show "vals ! (Suc n + j) = ws ! j" by (auto dest: spec [of _ "Suc j"])
      qed
      from t v None have tn: "t = TParam n" "n' = Suc n" by simp_all
      have "rmap (set_clause rv m i) (set_names m rest) = Inr (map (\<lambda>(c, t). (c, bind_param vals t)) sets') \<and>
          params_of (map snd sets') = [Suc n..<Suc n + length ws] \<and> k = Suc n + length ws"
        by (rule Cons.IH [OF r [unfolded tn(2)] _ ws(3) *]) (use Cons.prems(2) False f in simp)
      moreover from Cons.prems(4) ws(1) have "vals ! n = w" by (auto dest: spec [of _ 0])
      moreover have c: "set_clause rv m i fld = Inr (col, TWrap w)"
        by (simp add: set_clause_def dict_at_def col v None ws(2))
      moreover have "[n..<Suc n + length ws] = n # [Suc n..<Suc n + length ws]" by (rule upt_conv_Cons) simp
      moreover have "params_of (TParam n # ts) = n # params_of ts" for ts by (simp add: params_of_def)
      ultimately show ?thesis
        using False f ws(1) c by (simp add: sets tn upt_conv_Cons del: upt_Suc)
    next
      case (Some x)
      with t v obtain fo where y: "resolver_arithmetic_expression (orm rv) m x = Inr (t, fo)" and n: "n' = n"
        by (auto simp: rbind_eq_Inr)
      note np = expression_no_param [OF Some y]
      from np(2) have ps: "params_of (t # ts) = params_of ts" for ts by (simp add: params_of_def)
      have "rmap (set_clause rv m i) (set_names m rest) = Inr (map (\<lambda>(c, t). (c, bind_param vals t)) sets') \<and>
          params_of (map snd sets') = [n..<n + length vs] \<and> k = n + length vs"
        by (rule Cons.IH [OF r [unfolded n] _ _ Cons.prems(4)]) (use Cons.prems(2,3) False f v Some in simp_all)
      moreover have "set_clause rv m i fld = Inr (col, t)"
        by (simp add: set_clause_def dict_at_def col v Some y)
      ultimately show ?thesis
        using False f by (simp add: sets np(1) ps)
    qed
  qed
qed simp

text \<open>The values and expressions \<^verbatim>\<open>execute_update\<close> collects.\<close>

definition collected :: "'d run_env \<Rightarrow> meta \<Rightarrow> inst \<Rightarrow> string list \<Rightarrow> pyval list \<Rightarrow> (string, term) dict \<Rightarrow> bool" where
  "collected rv m i ns vs arith \<longleftrightarrow>
     (\<forall>x\<in>set ns. \<exists>v. attr_at i x = Inr v \<and> map_of arith x = is_expression v) \<and>
     list_all2 (\<lambda>x w. col_value rv (fields_map m) i x = Inr w) (filter (\<lambda>x. map_of arith x = None) ns) vs"

lemma collected_frame:
  assumes "collected rv m i ns vs arith" "\<forall>x\<in>set ns. map_of (i_dict i) x = map_of (i_dict j) x" "meta_wf m"
  shows "collected rv m j ns vs arith"
proof -
  have "col_value rv (fields_map m) i x = col_value rv (fields_map m) j x" if "x \<in> set ns" for x
    using assms(2,3) that by (intro col_value_cong) (auto simp: meta_wf_def)
  moreover have "attr_at i x = attr_at j x" if "x \<in> set ns" for x
    using assms(2) that by (simp add: attr_at_def)
  ultimately show ?thesis
    using assms(1) unfolding collected_def by (auto elim!: list.rel_mono_strong)
qed

lemma update_step_cases:
  assumes "update_step rv m e a fld (vals, arith) s = (Ret acc, t)" and "m = model_of rv (i_model (objs s a))"
    and "meta_wf m" and "set (set_names m [fld]) \<subseteq> Collect (plain_col m)"
    and "map_of (column_map e) fld \<in> {None, map_of (fields_map m) fld}"
  obtains f where "map_of (fields_map m) fld = Some f" "pk f" "acc = (vals, arith)" "t = s"
  | f v x where "map_of (fields_map m) fld = Some f" "\<not> pk f" "attr_at (objs s a) fld = Inr v" "is_expression v = Some x"
      "acc = (vals, AList.update fld x arith)" "t = s"
  | f v w where "map_of (fields_map m) fld = Some f" "\<not> pk f" "attr_at (objs s a) fld = Inr v" "is_expression v = None"
      "col_value rv (fields_map m) (objs s a) fld = Inr w" "acc = (vals @ [w], arith)" "same_but {fld} a s t"
proof -
  from assms(1) obtain f where f: "map_of (fields_map m) fld = Some f"
    and r: "(if pk f then iret (vals, arith)
        else ibind (py_getattr rv a fld) (\<lambda>v.
          case is_expression v of
            Some x \<Rightarrow> iret (vals, AList.update fld x arith)
          | None \<Rightarrow> ibind (ilift (dict_at (column_map e) fld)) (\<lambda>g.
              ibind (conv_on rv a g v) (\<lambda>w. iret (vals @ [w], arith))))) s = (Ret acc, t)"
    unfolding update_step_def case_prod_conv ibind_Ret by auto
  show thesis
  proof (cases "pk f")
    case True
    with r have "acc = (vals, arith)" "t = s" by (simp_all add: iret_def)
    with that(1) f True show thesis by blast
  next
    case False
    with assms(4) f have pc: "plain_col m fld" by simp
    with assms(2,3) have g: "py_getattr rv a fld s = ilift (attr_at (objs s a) fld) s"
      by (intro py_getattr_plain) simp_all
    define k where "k = (\<lambda>v. case is_expression v of
            Some x \<Rightarrow> iret (vals, AList.update fld x arith)
          | None \<Rightarrow> ibind (ilift (dict_at (column_map e) fld)) (\<lambda>g.
              ibind (conv_on rv a g v) (\<lambda>w. iret (vals @ [w], arith))))"
    from r False have "ibind (py_getattr rv a fld) k s = (Ret acc, t)" by (simp add: k_def)
    then obtain v u where vu: "py_getattr rv a fld s = (Ret v, u)" "k v u = (Ret acc, t)"
      unfolding ibind_Ret by blast
    from vu(1) [unfolded g ilift_Ret] vu(2) have v: "attr_at (objs s a) fld = Inr v"
      and r2: "(case is_expression v of
            Some x \<Rightarrow> iret (vals, AList.update fld x arith)
          | None \<Rightarrow> ibind (ilift (dict_at (column_map e) fld)) (\<lambda>g.
              ibind (conv_on rv a g v) (\<lambda>w. iret (vals @ [w], arith)))) s = (Ret acc, t)"
      by (simp_all add: k_def)
    show thesis
    proof (cases "is_expression v")
      case (Some x)
      with r2 have "acc = (vals, AList.update fld x arith)" "t = s" by (simp_all add: iret_def)
      from that(2) [OF f False v Some this] show thesis .
    next
      case None
      with r2 have "ibind (ilift (dict_at (column_map e) fld)) (\<lambda>g.
          ibind (conv_on rv a g v) (\<lambda>w. iret (vals @ [w], arith))) s = (Ret acc, t)" by simp
      then obtain g w where g: "map_of (column_map e) fld = Some g" and w: "conv_on rv a g v s = (Ret w, t)"
        and acc: "acc = (vals @ [w], arith)"
        unfolding ibind_Ret ilift_Ret dict_at_Inr iret_def prod.inject outcome.inject by blast
      from g f assms(5) have [simp]: "g = f" by simp
      from f assms(3) have n: "model_field_name f = fld" by (simp add: meta_wf_def)
      have "conv_value rv (objs s a) f v = Inr w \<and> same_but {fld} a s t"
        using conv_on_spec [OF w] assms(2,3) pc n by simp
      then have "col_value rv (fields_map m) (objs s a) fld = Inr w" "same_but {fld} a s t"
        by (simp_all add: col_value_def dict_at_def f v)
      from that(3) [OF f False v None this(1) acc this(2)] show thesis .
    qed
  qed
qed

lemma update_loop:
  assumes "ifold (update_step rv m e a) names (vals0, arith0) s = (Ret (vals, arith), s')"
    and "m = model_of rv (i_model (objs s a))" and "meta_wf m"
    and "set (set_names m names) \<subseteq> Collect (plain_col m)" and "distinct names"
    and "\<forall>n\<in>set names. map_of arith0 n = None"
    and "\<forall>n. map_of (column_map e) n \<in> {None, map_of (fields_map m) n}"
  shows "\<exists>vs. vals = vals0 @ vs \<and> collected rv m (objs s a) (set_names m names) vs arith \<and>
     (\<forall>x. x \<notin> set names \<longrightarrow> map_of arith x = map_of arith0 x) \<and> same_but (set (set_names m names)) a s s'"
  using assms
proof (induction names arbitrary: vals0 arith0 s)
  case Nil
  then show ?case by (simp add: iret_def collected_def)
next
  case (Cons fld names)
  from Cons.prems(1) obtain acc t where st: "update_step rv m e a fld (vals0, arith0) s = (Ret acc, t)"
    and r: "ifold (update_step rv m e a) names acc t = (Ret (vals, arith), s')"
    unfolding ifold.simps ibind_Ret by blast
  have sub: "set (set_names m [fld]) \<subseteq> Collect (plain_col m)" "set (set_names m names) \<subseteq> Collect (plain_col m)"
    using Cons.prems(4) unfolding set_names_Cons [of m fld names] by simp_all
  from st Cons.prems(2,3) sub(1) Cons.prems(7) [rule_format] show ?case
  proof (cases rule: update_step_cases)
    case (1 f)
    from Cons.IH [OF r [unfolded 1(3,4)] Cons.prems(2,3) sub(2) _ _ Cons.prems(7)] Cons.prems(5,6)
    show ?thesis using 1(1,2) by auto
  next
    case (2 f v x)
    have "\<forall>n\<in>set names. map_of (AList.update fld x arith0) n = None"
      using Cons.prems(5,6) by (auto simp: map_of_update)
    from Cons.IH [OF r [unfolded 2(5,6)] Cons.prems(2,3) sub(2) _ this Cons.prems(7)] Cons.prems(5)
    obtain vs where vs: "vals = vals0 @ vs" "collected rv m (objs s a) (set_names m names) vs arith"
      "\<forall>y. y \<notin> set names \<longrightarrow> map_of arith y = map_of (AList.update fld x arith0) y"
      "same_but (set (set_names m names)) a s s'" by auto
    from vs(3) Cons.prems(5) have "map_of arith fld = Some x" by (simp add: map_of_update)
    with vs 2(1-4) have "collected rv m (objs s a) (set_names m (fld # names)) vs arith"
      by (auto simp: collected_def)
    moreover have "\<forall>y. y \<notin> set (fld # names) \<longrightarrow> map_of arith y = map_of arith0 y"
      using vs(3) by (simp add: map_of_update)
    moreover have "same_but (set (set_names m (fld # names))) a s s'"
      using vs(4) 2(1,2) by (auto intro: same_but_mono)
    ultimately show ?thesis using vs(1) by blast
  next
    case (3 f v w)
    from 3(7) have tm: "i_model (objs t a) = i_model (objs s a)" by (simp add: same_but_def)
    have "\<forall>n\<in>set names. map_of arith0 n = None" using Cons.prems(6) by simp
    from Cons.IH [OF r [unfolded 3(6)] _ Cons.prems(3) sub(2) _ this Cons.prems(7)] Cons.prems(2,5) tm
    obtain vs where vs: "vals = vals0 @ w # vs" "collected rv m (objs t a) (set_names m names) vs arith"
      "\<forall>y. y \<notin> set names \<longrightarrow> map_of arith y = map_of arith0 y"
      "same_but (set (set_names m names)) a t s'" by auto
    have "map_of (i_dict (objs t a)) x = map_of (i_dict (objs s a)) x" if "x \<in> set (set_names m names)" for x
      using 3(7) that Cons.prems(5) by (auto simp: same_but_def set_names_def)
    then have c: "collected rv m (objs s a) (set_names m names) vs arith"
      using collected_frame [OF vs(2)] Cons.prems(3) by simp
    from vs(3) Cons.prems(5,6) have "map_of arith fld = None" by simp
    with c 3(1-5) have "collected rv m (objs s a) (set_names m (fld # names)) (w # vs) arith"
      by (auto simp: collected_def)
    moreover have "same_but (set (set_names m (fld # names))) a s s'"
      using same_but_trans [OF 3(7) vs(4)] 3(1,2) by simp
    ultimately show ?thesis using vs(1,3) by auto
  qed
qed

section \<open>The caches\<close>

text \<open>
  The executors' caches are keyed by connection, schema and table, not by model. They are
  consistent when what they hold was prepared for some model with that key.
\<close>

definition caches_ok :: "'d run_env \<Rightarrow> 'd session \<Rightarrow> bool" where
  "caches_ok rv s \<longleftrightarrow>
     (\<forall>key e. map_of (exec_cache s) key = Some e \<longrightarrow> (\<exists>mo. exec_key_of rv mo = key \<and> make_entry rv mo = Inr e)) \<and>
     (\<forall>key k q. map_of (update_cache s key) k = Some q \<longrightarrow>
        (\<exists>mo fs. exec_key_of rv mo = key \<and> k = join_str '','' fs \<and> update_stmt (orm rv) (model_of rv mo) [] fs = Inr q))"

definition owns_key :: "'d run_env \<Rightarrow> mid \<Rightarrow> bool" where
  "owns_key rv mo \<longleftrightarrow> (\<forall>mo'. exec_key_of rv mo' = exec_key_of rv mo \<longrightarrow> mo' = mo)"

text \<open>Names of fields are names of Python.\<close>

definition names_ok :: "meta \<Rightarrow> bool" where
  "names_ok m \<longleftrightarrow> (\<forall>c\<in>fst ` set (fields_map m). c \<noteq> [] \<and> CHR '','' \<notin> set c)"

lemma split_join_str:
  "xs \<noteq> [] \<Longrightarrow> \<forall>x\<in>set xs. c \<notin> set x \<Longrightarrow> split_chr c (join_str [c] xs) = xs"
proof (induction xs rule: induct_list012)
  case (2 x)
  have "c \<notin> set x \<Longrightarrow> split_chr c x = [x]" for x by (induction x) auto
  with 2 show ?case by simp
next
  case (3 x y zs)
  have "c \<notin> set x \<Longrightarrow> split_chr c (x @ c # t) = x # split_chr c t" for x t by (induction x) auto
  with 3 show ?case by simp
qed simp

lemma join_comma_inj:
  assumes "join_str '','' xs = join_str '','' ys" "\<forall>x\<in>set xs \<union> set ys. x \<noteq> [] \<and> CHR '','' \<notin> set x"
  shows "xs = ys"
proof -
  have nil: "zs = []" if "join_str '','' zs = []" "\<forall>x\<in>set zs. x \<noteq> []" for zs
  proof (cases zs)
    case (Cons x rest)
    have "join_str '','' (x # rest) = [] \<Longrightarrow> x = []" by (cases rest) simp_all
    with that Cons show ?thesis by auto
  qed simp
  show ?thesis
  proof (cases "xs = [] \<or> ys = []")
    case True
    then have "join_str '','' xs = [] \<and> join_str '','' ys = []" using assms(1) by (metis join_str.simps(1))
    then have j: "join_str '','' xs = []" "join_str '','' ys = []" by blast+
    have "xs = []" by (rule nil [OF j(1)]) (use assms(2) in blast)
    moreover have "ys = []" by (rule nil [OF j(2)]) (use assms(2) in blast)
    ultimately show ?thesis by simp
  next
    case False
    have "xs \<noteq> []" "ys \<noteq> []" "\<forall>x\<in>set xs. CHR '','' \<notin> set x" "\<forall>x\<in>set ys. CHR '','' \<notin> set x"
      using False assms(2) by blast+
    then show ?thesis using split_join_str [of xs "CHR '',''"] split_join_str [of ys "CHR '',''"] assms(1) by metis
  qed
qed

lemma update_sets_names: "update_sets env m arith names n = Inr r \<Longrightarrow> \<forall>x\<in>set names. dict_has (fields_db_projection m) x"
proof (induction names arbitrary: n r)
  case (Cons fld rest)
  from Cons.prems obtain col f where col: "map_of (fields_db_projection m) fld = Some col"
    and f: "map_of (fields_map m) fld = Some f"
    by (auto simp: rbind_eq_Inr)
  have "\<exists>n' r'. update_sets env m arith rest n' = Inr r'"
  proof (cases "pk f")
    case True
    with Cons.prems col f show ?thesis by (auto simp: rbind_eq_Inr intro: exI [of _ n] exI [of _ r])
  next
    case False
    with Cons.prems col f show ?thesis by (auto simp: rbind_eq_Inr)
  qed
  with Cons.IH col show ?case by (auto simp: dict_has_def)
qed simp

lemma update_stmt_names: "update_stmt env m arith fs = Inr q \<Longrightarrow> \<forall>x\<in>set (update_names m fs). dict_has (fields_db_projection m) x"
  by (auto simp: update_stmt_def rbind_eq_Inr dest!: update_sets_names)

lemma caches_ok_entry: "caches_ok rv s \<Longrightarrow> map_of (exec_cache s) key = Some e \<Longrightarrow> \<exists>mo. exec_key_of rv mo = key \<and> make_entry rv mo = Inr e"
  unfolding caches_ok_def by blast

lemma caches_ok_stmt:
  "caches_ok rv s \<Longrightarrow> map_of (update_cache s key) k = Some q \<Longrightarrow>
     \<exists>mo fs. exec_key_of rv mo = key \<and> k = join_str '','' fs \<and> update_stmt (orm rv) (model_of rv mo) [] fs = Inr q"
  unfolding caches_ok_def by blast

lemma caches_okI:
  assumes "\<And>key e. map_of (exec_cache s) key = Some e \<Longrightarrow> \<exists>mo. exec_key_of rv mo = key \<and> make_entry rv mo = Inr e"
    and "\<And>key k q. map_of (update_cache s key) k = Some q \<Longrightarrow>
      \<exists>mo fs. exec_key_of rv mo = key \<and> k = join_str '','' fs \<and> update_stmt (orm rv) (model_of rv mo) [] fs = Inr q"
  shows "caches_ok rv s"
  using assms unfolding caches_ok_def by blast

lemma caches_ok_add_stmt:
  assumes "caches_ok rv s" and "update_stmt (orm rv) (model_of rv mo) [] fs = Inr q"
  shows "caches_ok rv (s\<lparr>update_cache := (update_cache s)(exec_key_of rv mo :=
            AList.update (join_str '','' fs) q (update_cache s (exec_key_of rv mo)))\<rparr>)"
proof (rule caches_okI)
  fix key k r assume *: "map_of (update_cache (s\<lparr>update_cache := (update_cache s)(exec_key_of rv mo :=
      AList.update (join_str '','' fs) q (update_cache s (exec_key_of rv mo)))\<rparr>) key) k = Some r"
  show "\<exists>mo fs. exec_key_of rv mo = key \<and> k = join_str '','' fs \<and> update_stmt (orm rv) (model_of rv mo) [] fs = Inr r"
  proof (cases "key = exec_key_of rv mo \<and> k = join_str '','' fs")
    case True
    with * have "r = q" by (simp add: map_of_update)
    with True assms(2) show ?thesis by blast
  next
    case False
    with * have "map_of (update_cache s key) k = Some r" by (auto simp: map_of_update split: if_splits)
    then show ?thesis by (rule caches_ok_stmt [OF assms(1)])
  qed
qed (use caches_ok_entry [OF assms(1)] in simp)

text \<open>A cached statement is the one that would be made.\<close>

lemma get_update_sql_spec:
  assumes "get_update_sql rv (exec_key_of rv mo) mo fs arith s = (Ret q, s')"
    and "caches_ok rv s" and "owns_key rv mo" and "names_ok (model_of rv mo)" and "meta_wf (model_of rv mo)"
    and "\<forall>x\<in>set fs. map_of (fields_map (model_of rv mo)) x \<noteq> None"
  shows "update_stmt (orm rv) (model_of rv mo) arith fs = Inr q \<and> sdb s' = sdb s \<and> caches_ok rv s'"
proof (cases "arith = [] \<and> map_of (update_cache s (exec_key_of rv mo)) (join_str '','' fs) \<noteq> None")
  case True
  with assms(1) have c: "map_of (update_cache s (exec_key_of rv mo)) (join_str '','' fs) = Some q" and [simp]: "s' = s" "arith = []"
    by (auto simp: get_update_sql_def Let_def)
  from assms(2) c obtain mo' fs' where m': "exec_key_of rv mo' = exec_key_of rv mo"
    and fs': "join_str '','' fs = join_str '','' fs'" "update_stmt (orm rv) (model_of rv mo') [] fs' = Inr q"
    using caches_ok_stmt [OF assms(2) c] by metis
  from m' assms(3) have [simp]: "mo' = mo" unfolding owns_key_def by blast
  have "x \<noteq> [] \<and> CHR '','' \<notin> set x" if "x \<in> set fs \<union> set fs'" for x
  proof -
    have "map_of (fields_map (model_of rv mo)) x \<noteq> None"
    proof (cases "x \<in> set fs")
      case False
      with that have "x \<in> set (update_names (model_of rv mo) fs')" by (auto simp: update_names_def)
      with update_stmt_names [OF fs'(2)] assms(5) show ?thesis by (force simp: meta_wf_def)
    qed (use assms(6) in simp)
    then show ?thesis using assms(4) by (auto simp: names_ok_def dest!: map_of_SomeD) 
  qed
  with join_comma_inj [OF fs'(1)] fs'(2) assms(2) show ?thesis by auto
next
  case False
  then have "get_update_sql rv (exec_key_of rv mo) mo fs arith s =
      ibind (ilift (update_stmt (orm rv) (model_of rv mo) arith fs)) (\<lambda>q.
        iseq (iwhen (arith = []) (imodify (\<lambda>s. s\<lparr>update_cache := (update_cache s)(exec_key_of rv mo :=
            AList.update (join_str '','' fs) q (update_cache s (exec_key_of rv mo)))\<rparr>))) (iret q)) s"
    by (cases "arith = []") (auto simp: get_update_sql_def Let_def)
  with assms(1) have q: "update_stmt (orm rv) (model_of rv mo) arith fs = Inr q"
    and s': "s' = (if arith = [] then s\<lparr>update_cache := (update_cache s)(exec_key_of rv mo :=
            AList.update (join_str '','' fs) q (update_cache s (exec_key_of rv mo)))\<rparr> else s)"
    by (auto simp: ibind_Ret iseq_def iwhen_def iret_def imodify_def split: if_splits)
  show ?thesis
  proof (cases "arith = []")
    case True
    with q s' caches_ok_add_stmt [OF assms(2), of mo fs q] show ?thesis by simp
  qed (use q s' assms(2) in simp)
qed

text \<open>
  What the computations of values keep: reading an attribute may store a relation container or
  a query set, writing one may clear a pending default.
\<close>

definition inert :: "('d session \<Rightarrow> bool) \<Rightarrow> bool" where
  "inert P \<longleftrightarrow> (\<forall>s. P s \<longrightarrow> (\<forall>a n v. P (put_state a n v s)) \<and>
     (\<forall>c k. P (s\<lparr>containers := c, next_container := k\<rparr>)) \<and> (\<forall>h. P (s\<lparr>qstore := h\<rparr>)))"

lemma inert_put: "inert P \<Longrightarrow> P s \<Longrightarrow> P (put_state a n v s)"
  unfolding inert_def by blast

lemma keeps_on_sets: "inert P \<Longrightarrow> keeps P (on_sets c)"
  by (simp add: keeps_def on_sets_def inert_def split: prod.split)

lemma keeps_new_container: "inert P \<Longrightarrow> keeps P (new_container c)"
  by (simp add: keeps_def new_container_def inert_def)

lemma keeps_getters:
  assumes "inert P"
  shows "keeps P (filter_first rv mo kw)" "keeps P (container_getter a key c)"
proof -
  show "keeps P (filter_first rv mo kw)"
    unfolding filter_first_def model_filter_def by (intro keeps_ibind keeps_on_sets assms)
  have "keeps P (ibind (new_container c) (\<lambda>n. iseq (put_raw a key (ARelation n)) (iret (ARelation n))))"
    unfolding iseq_def by (intro keeps_ibind keeps_new_container keeps_put_raw keeps_simple assms inert_put [OF assms])
  then show "keeps P (container_getter a key c)"
    by (auto simp: keeps_def container_getter_def split: option.split)
qed

lemma keeps_icatch: "keeps P c \<Longrightarrow> (\<And>e. keeps P (h e)) \<Longrightarrow> keeps P (icatch c h)"
  by (auto simp: keeps_def icatch_def split: outcome.splits prod.splits)

lemma keeps_py_getattr:
  assumes "inert P"
  shows "keeps P (py_getattr rv a n)"
proof -
  note g = keeps_getters [OF assms]
  have plain: "keeps P (plain_getattr rv a n)" for n by (simp add: plain_getattr_def)
  have "keeps P (fk_getter rv a n f)" for f
    unfolding fk_getter_def by (auto intro!: keeps_ibind keeps_icatch g)
  moreover have "keeps P (rfk_getter rv a n f)" "keeps P (m2m_getter rv a n f)" for f
    unfolding rfk_getter_def m2m_getter_def by (intro keeps_ibind keeps_simple g)+
  moreover have "keeps P (ro2o_getter rv a n f)" for f
  proof -
    have "keeps P (ibind (ilift (to_field_obj (metas (orm rv)) f)) (\<lambda>tf.
          ibind (ilift (opt_attr (related_model (rel f)))) (\<lambda>rm.
          ibind (plain_getattr rv a (model_field_name tf)) (\<lambda>v.
          ibind (filter_first rv rm [(relation_field (rel f), plain v)]) (\<lambda>q.
          iseq (put_raw a (''_'' @ n) (AQuery q)) (iret (AQuery q)))))))"
      unfolding iseq_def by (intro keeps_ibind keeps_simple plain g keeps_put_raw inert_put [OF assms])
    then show ?thesis by (auto simp: keeps_def ro2o_getter_def split: option.split)
  qed
  ultimately have "keeps P (relation_getter rv a n m f)" for m f by (simp add: relation_getter_def)
  then have "keeps P (ibind (ilift r) (relation_getter rv a n m))" for r m by (intro keeps_ibind keeps_simple)
  then show ?thesis using plain by (auto simp: keeps_def py_getattr_def Let_def)
qed

lemma keeps_conv_on:
  assumes "inert P"
  shows "keeps P (conv_on rv a f v)"
  unfolding keeps_def
proof (intro allI impI)
  fix s assume s: "P s"
  have "keeps P (case wb of None \<Rightarrow> iret () | Some x \<Rightarrow> py_setattr rv a (model_field_name f) (APy x))" for wb
    by (cases wb) (auto intro!: keeps_py_setattr inert_put [OF assms])
  then have "keeps P (ibind (ilift r) (\<lambda>(w, wb). iseq (case wb of None \<Rightarrow> iret () | Some x \<Rightarrow>
      py_setattr rv a (model_field_name f) (APy x)) (iret w)))" for r
    by (auto simp: iseq_def intro!: keeps_ibind split: prod.split)
  from keepsD [OF this s] show "P (snd (conv_on rv a f v s))" by (simp add: conv_on_def Let_def)
qed

lemma keeps_column_values: "inert P \<Longrightarrow> keeps P (column_values rv a cm cols)"
  unfolding column_values_def by (intro keeps_imap keeps_ibind keeps_simple keeps_py_getattr keeps_conv_on)

lemma keeps_update_step: "inert P \<Longrightarrow> keeps P (update_step rv m e a fld acc)"
  unfolding update_step_def
  by (cases acc) (auto intro!: keeps_ibind keeps_conv_on keeps_py_getattr split: option.split)

lemma keeps_pk_value:
  assumes "inert P"
  shows "keeps P (pk_value rv m a)"
proof -
  have "keeps P (case wb of None \<Rightarrow> iret () | Some x \<Rightarrow> py_setattr rv a n (APy x))" for wb n
    by (cases wb) (auto intro!: keeps_py_setattr inert_put [OF assms])
  then show ?thesis
    unfolding pk_value_def iseq_def by (auto intro!: keeps_ibind split: prod.split)
qed

lemma caches_ok_cong: "exec_cache s = exec_cache t \<Longrightarrow> update_cache s = update_cache t \<Longrightarrow> caches_ok rv s = caches_ok rv t"
  by (simp add: caches_ok_def)

lemma caches_ok_put [simp]: "caches_ok rv (put_state a n v s) = caches_ok rv s"
  by (rule caches_ok_cong) simp_all

lemma caches_ok_relations [simp]:
  "caches_ok rv (s\<lparr>containers := c, next_container := k\<rparr>) = caches_ok rv s"
  "caches_ok rv (s\<lparr>qstore := h\<rparr>) = caches_ok rv s"
  by (rule caches_ok_cong; simp)+

lemma caches_ok_sdb [simp]: "caches_ok rv (s\<lparr>sdb := d\<rparr>) = caches_ok rv s"
  by (rule caches_ok_cong) simp_all

lemma update_loop_names:
  "ifold (update_step rv m e a) names acc s = (Ret r, t) \<Longrightarrow> \<forall>n\<in>set names. map_of (fields_map m) n \<noteq> None"
proof (induction names arbitrary: acc s)
  case (Cons fld rest)
  then obtain acc' u where 1: "update_step rv m e a fld acc s = (Ret acc', u)"
    and 2: "ifold (update_step rv m e a) rest acc' u = (Ret r, t)"
    unfolding ifold.simps ibind_Ret by blast
  obtain vals arith where "acc = (vals, arith)" by fastforce
  with 1 have "\<exists>f. map_of (fields_map m) fld = Some f"
    unfolding update_step_def by (simp add: ibind_Ret) blast
  with Cons.IH [OF 2] show ?case by auto
qed simp

text \<open>The stages of an update that was sent.\<close>

lemma execute_update_stages:
  assumes "execute_update rv e mo a fs s = (Ret n, s')"
  obtains vals arith t k u q v r where
    "ifold (update_step rv (model_of rv mo) e a) (update_names (model_of rv mo) fs) ([], []) s = (Ret (vals, arith), t)"
    "pk_value rv (model_of rv mo) a t = (Ret k, u)"
    "get_update_sql rv (exec_key_of rv mo) mo fs arith u = (Ret q, v)"
    "send_db rv q (vals @ [k]) v = (Ret r, s')" "n = row_count r"
proof -
  from assms obtain acc t where l: "ifold (update_step rv (model_of rv mo) e a) (update_names (model_of rv mo) fs) ([], []) s = (Ret acc, t)"
    and *: "(case acc of (vals, arith) \<Rightarrow> ibind (pk_value rv (model_of rv mo) a) (\<lambda>k.
        ibind (get_update_sql rv (exec_key_of rv mo) mo fs arith) (\<lambda>q.
        ibind (send_db rv q (vals @ [k])) (\<lambda>r. iret (row_count r))))) t = (Ret n, s')"
    unfolding execute_update_def Let_def ibind_Ret by blast
  obtain vals arith where acc: "acc = (vals, arith)" by (cases acc)
  from * [unfolded acc case_prod_conv ibind_Ret iret_def prod.inject outcome.inject]
  obtain k u q v r where "pk_value rv (model_of rv mo) a t = (Ret k, u)"
    "get_update_sql rv (exec_key_of rv mo) mo fs arith u = (Ret q, v)"
    "send_db rv q (vals @ [k]) v = (Ret r, s')" "n = row_count r" by blast
  from that [OF l [unfolded acc] this] show thesis .
qed

text \<open>The key that an UPDATE or a DELETE compares with.\<close>

definition bound_key :: "pyval list \<Rightarrow> stmt \<Rightarrow> term" where
  "bound_key vals q = (case q of UpdateSet t sets c x \<Rightarrow> bind_param vals x | DeleteFrom t c x \<Rightarrow> bind_param vals x
     | InsertInto t cols ts ret ig \<Rightarrow> TWrap VNone)"

definition pk_db_value :: "'d run_env \<Rightarrow> meta \<Rightarrow> inst \<Rightarrow> pyval res" where
  "pk_db_value rv m i =
     (let v = (case map_of (i_dict i) (pk_attr m) of None \<Rightarrow> VNone | Some w \<Rightarrow> plain w) in
      rbind (get_pk m) (\<lambda>f. rbind (to_db_value (lib (orm rv)) (ce (orm rv)) f v (Instance v)) (\<lambda>(w, wb). Inr w)))"

lemma pk_value_spec:
  assumes "pk_value rv (model_of rv (i_model (objs s a))) a s = (Ret k, s')"
  shows "pk_db_value rv (model_of rv (i_model (objs s a))) (objs s a) = Inr k"
proof -
  let ?m = "model_of rv (i_model (objs s a))"
  have g: "get_pk_val rv a s = (Ret (case map_of (i_dict (objs s a)) (pk_attr ?m) of None \<Rightarrow> APy VNone | Some v \<Rightarrow> v), s)"
    by (simp add: get_pk_val_def iget_def)
  have p: "plain (case map_of (i_dict (objs s a)) (pk_attr ?m) of None \<Rightarrow> APy VNone | Some v \<Rightarrow> v) =
      (case map_of (i_dict (objs s a)) (pk_attr ?m) of None \<Rightarrow> VNone | Some w \<Rightarrow> plain w)"
    by (simp split: option.split)
  from assms [unfolded pk_value_def ibind_Ret ilift_Ret]
  obtain f v u wwb where f: "get_pk ?m = Inr f" and v: "get_pk_val rv a s = (Ret v, u)"
    and c: "to_db_value (lib (orm rv)) (ce (orm rv)) f (plain v) (Instance (plain v)) = Inr wwb"
    and *: "(case wwb of (w, wb) \<Rightarrow> iseq (case wb of None \<Rightarrow> iret () | Some x \<Rightarrow>
      py_setattr rv a (model_field_name f) (APy x)) (iret w)) u = (Ret k, s')"
    by blast
  obtain w wb where wwb: "wwb = (w, wb)" by (cases wwb)
  from * have "w = k" unfolding wwb case_prod_conv iseq_def ibind_Ret iret_def by auto
  moreover from v [unfolded g] p have "plain v = (case map_of (i_dict (objs s a)) (pk_attr ?m) of None \<Rightarrow> VNone | Some w \<Rightarrow> plain w)"
    by auto
  ultimately show ?thesis using f c unfolding pk_db_value_def Let_def by (simp add: wwb)
qed

text \<open>
  An update writes the instance: the SET clauses of the statement sent, with the values bound to
  their placeholders, give the column of every field asked for (all, when none is named; the
  primary key never) the converted value of the attribute, or the expression it holds, and the
  row is the one whose key is the instance's, although the statement may come from the cache.
\<close>

lemma update_row_sent:
  assumes "columns_ok (model_of rv mo)" and "names_ok (model_of rv mo)" and "owns_key rv mo" and "caches_ok rv s"
    and "make_entry rv mo = Inr e" and "i_model (objs s a) = mo" and "distinct fs"
    and "execute_update rv e mo a fs s = (Ret n, s')"
  shows "\<exists>q vals r. send rv q vals (sdb s) = (Ret r, sdb s') \<and> n = row_count r \<and> is_update_of (model_of rv mo) q \<and>
     stmt_params q = [0..<length vals] \<and>
     rmap (set_clause rv (model_of rv mo) (objs s a))
       (set_names (model_of rv mo) (update_names (model_of rv mo) fs)) = Inr (bound_row vals q) \<and>
     (\<exists>k. pk_db_value rv (model_of rv mo) (objs s a) = Inr k \<and> bound_key vals q = TWrap k)"
proof -
  let ?m = "model_of rv mo"
  let ?names = "update_names ?m fs"
  from assms(1) have m: "meta_wf ?m" by (simp add: columns_ok_def)
  obtain vals arith t k u q v r where l: "ifold (update_step rv ?m e a) ?names ([], []) s = (Ret (vals, arith), t)"
    and k: "pk_value rv ?m a t = (Ret k, u)" and q: "get_update_sql rv (exec_key_of rv mo) mo fs arith u = (Ret q, v)"
    and r: "send_db rv q (vals @ [k]) v = (Ret r, s')" "n = row_count r"
    by (rule execute_update_stages [OF assms(8)])
  let ?P = "\<lambda>x. caches_ok rv x \<and> sdb x = sdb s"
  have "?P u"
  proof -
    have "keeps ?P (ifold (update_step rv ?m e a) ?names ([], []))"
      by (intro keeps_ifold keeps_update_step) (simp add: inert_def)
    moreover have "?P s" using assms(4) by simp
    ultimately have "?P (snd (ifold (update_step rv ?m e a) ?names ([], []) s))" by (rule keepsD)
    with l have "?P t" by simp
    moreover have "keeps ?P (pk_value rv ?m a)" by (rule keeps_pk_value) (simp add: inert_def)
    ultimately show ?thesis using keepsD [of ?P "pk_value rv ?m a" t] k by simp
  qed
  moreover have "\<forall>x\<in>set fs. map_of (fields_map ?m) x \<noteq> None"
    using update_loop_names [OF l] by (auto simp: update_names_def split: if_splits)
  ultimately have st: "update_stmt (orm rv) ?m arith fs = Inr q" and v: "sdb v = sdb s"
    using get_update_sql_spec [OF q _ assms(3,2) m] by auto
  from st obtain sets j where sets: "update_sets (orm rv) ?m arith ?names 0 = Inr (sets, j)"
    and q': "q = UpdateSet (basetable ?m) sets (db_pk_column ?m) (TParam j)"
    by (auto simp: update_stmt_def rbind_eq_Inr)
  have cols: "plain_col ?m x" if "x \<in> set ?names" for x
    using update_stmt_names [OF st] assms(1) that by (auto simp: columns_ok_def)
  have d: "distinct ?names" using assms(7) m by (simp add: update_names_def meta_wf_def)
  obtain "regular_columns_all e = entry_cols ?m True"
    and cm: "column_map e = map (\<lambda>c. (c, the (map_of (fields_map ?m) c))) (regular_columns_all e)"
      "\<forall>c\<in>set (regular_columns_all e). map_of (fields_map ?m) c \<noteq> None"
    by (rule make_entry_spec [OF assms(5)])
  then have cm': "\<forall>c. map_of (column_map e) c \<in> {None, map_of (fields_map ?m) c}"
    by (auto simp: map_of_pairs)
  have "set (set_names ?m ?names) \<subseteq> Collect (plain_col ?m)" using cols by (auto simp: set_names_def)
  from update_loop [OF l _ m this d _ cm'] assms(6)
  have c: "collected rv ?m (objs s a) (set_names ?m ?names) vals arith"
    and sb: "same_but (set (set_names ?m ?names)) a s t" by simp_all
  have b: "rmap (set_clause rv ?m (objs s a)) (set_names ?m ?names) = Inr (map (\<lambda>(c, t). (c, bind_param (vals @ [k]) t)) sets) \<and>
     params_of (map snd sets) = [0..<0 + length vals] \<and> j = 0 + length vals"
    by (rule update_sets_bound [OF sets]) (use c in \<open>auto simp: collected_def nth_append\<close>)
  have "pk_attr ?m \<notin> set (set_names ?m ?names)"
    using assms(1) update_loop_names [OF l] by (force simp: columns_ok_def set_names_def)
  with sb have "map_of (i_dict (objs t a)) (pk_attr ?m) = map_of (i_dict (objs s a)) (pk_attr ?m)"
    and tm: "i_model (objs t a) = mo" using assms(6) by (simp_all add: same_but_def)
  then have "pk_db_value rv ?m (objs s a) = Inr k"
    using pk_value_spec [of rv t a k u] k by (simp add: pk_db_value_def)
  moreover have "bound_key (vals @ [k]) q = TWrap k" using b by (simp add: q' bound_key_def)
  moreover from r v have "send rv q (vals @ [k]) (sdb s) = (Ret r, sdb s')" by (auto simp: send_db_Ret)
  ultimately show ?thesis using b r(2) by (intro exI [of _ q] exI [of _ "vals @ [k]"] exI [of _ r]) (simp add: q')
qed

lemma user_owns_key: "owns_key sample_rv sample_user" "names_ok (model_of sample_rv sample_user)"
proof -
  have "db_table (solo_metas k) = ''user'' \<Longrightarrow> k = sample_user" for k
    by (simp add: solo_metas_def sample_meta_def sample_post_meta_def empty_meta_def split: if_splits)
  moreover have "db_table (solo_metas sample_user) = ''user''" by (simp add: sample_meta_def)
  ultimately show "owns_key sample_rv sample_user" by (simp add: owns_key_def exec_key_of_def)
  show "names_ok (model_of sample_rv sample_user)" by (simp add: names_ok_def sample_meta_def)
qed

lemma sample_caches: "caches_ok sample_rv sample_session"
  by (simp add: caches_ok_def sample_session_def)

section \<open>Bulk inserts\<close>

text \<open>The rows of a chunk, each with its instance's statement.\<close>

definition bulk_rows :: "'d run_env \<Rightarrow> mid \<Rightarrow> exec_entry \<Rightarrow> 'd session \<Rightarrow> nat list \<Rightarrow> pyval list list \<Rightarrow> bool" where
  "bulk_rows rv mo e s = list_all2 (\<lambda>a v. row_of rv mo (objs s a) = Inr (bound_row v (insert_for e (objs s a))))"

definition rows_where :: "(inst \<Rightarrow> bool) \<Rightarrow> 'd session \<Rightarrow> nat list \<Rightarrow> pyval list list \<Rightarrow> pyval list list" where
  "rows_where p s as vs = map snd (filter (\<lambda>(a, v). p (objs s a)) (zip as vs))"

lemma bulk_rows_cong:
  assumes "\<forall>a\<in>set as. objs t a = objs s a"
  shows "bulk_rows rv mo e t as vs = bulk_rows rv mo e s as vs" "rows_where p t as vs = rows_where p s as vs"
proof -
  show "bulk_rows rv mo e t as vs = bulk_rows rv mo e s as vs"
    unfolding bulk_rows_def by (rule list.rel_cong) (use assms in auto)
  have "filter (\<lambda>(a, v). p (objs t a)) (zip as vs) = filter (\<lambda>(a, v). p (objs s a)) (zip as vs)"
    using assms by (intro filter_cong) (auto dest: set_zip_leftD)
  then show "rows_where p t as vs = rows_where p s as vs" by (simp add: rows_where_def)
qed

lemma bulk_collect:
  assumes "columns_ok (model_of rv mo)" and "make_entry rv mo = Inr e"
    and "ifold (bulk_row rv e) as (A, R) s = (Ret (A', R'), s')" and "distinct as" and "\<forall>a\<in>set as. i_model (objs s a) = mo"
  shows "\<exists>vs. bulk_rows rv mo e s as vs \<and> A' = A @ rows_where i_custom_pk s as vs \<and>
     R' = R @ rows_where (\<lambda>i. \<not> i_custom_pk i) s as vs \<and> same_outside (set as) s s' \<and> sdb s' = sdb s"
  using assms(3-5)
proof (induction as arbitrary: A R s)
  case Nil
  then show ?case by (simp add: iret_def bulk_rows_def rows_where_def same_outside_def)
next
  case (Cons a as)
  let ?c = "i_custom_pk (objs s a)"
  from Cons.prems(1) obtain acc t where r: "bulk_row rv e a (A, R) s = (Ret acc, t)"
    and rest: "ifold (bulk_row rv e) as acc t = (Ret (A', R'), s')"
    unfolding ifold.simps ibind_Ret by blast
  obtain v where v: "column_values rv a (column_map e) (if ?c then regular_columns_all e else regular_columns e) s = (Ret v, t)"
    and acc: "acc = (if ?c then (A @ [v], R) else (A, R @ [v]))"
    using r unfolding bulk_row_def case_prod_conv by (cases ?c) (auto simp: ibind_Ret iret_def)
  note iv = insert_values [OF assms(1,2) _ v]
  have o: "\<forall>b\<in>set as. objs t b = objs s b" using iv(3) Cons.prems(2,3) by (auto simp: same_outside_def)
  have mt: "\<forall>b\<in>set as. i_model (objs t b) = mo" using o Cons.prems(3) by simp
  obtain A1 R1 where AR: "acc = (A1, R1)" by (cases acc)
  from Cons.IH [OF rest [unfolded AR] _ mt] Cons.prems(2) obtain vs where
    vs: "bulk_rows rv mo e s as vs" "A' = A1 @ rows_where i_custom_pk s as vs"
    "R' = R1 @ rows_where (\<lambda>i. \<not> i_custom_pk i) s as vs" "same_outside (set as) t s'" "sdb s' = sdb t"
    by (auto simp: bulk_rows_cong [OF o])
  have "bulk_rows rv mo e s (a # as) (v # vs)" using iv(1) vs(1) Cons.prems(3) by (simp add: bulk_rows_def)
  moreover have "A' = A @ rows_where i_custom_pk s (a # as) (v # vs)"
    "R' = R @ rows_where (\<lambda>i. \<not> i_custom_pk i) s (a # as) (v # vs)"
    using vs(2,3) AR acc by (auto simp: rows_where_def split: if_splits)
  moreover have "same_outside (set (a # as)) s s'" using same_outside_trans [OF iv(3) vs(4)] Cons.prems(3) by simp
  moreover have "sdb s' = sdb s" using vs(5) iv(4) Cons.prems(3) by simp
  ultimately show ?case by blast
qed


text \<open>A driver that takes every statement: what it does with one is \<open>ap\<close>.\<close>

definition takes_all :: "'d run_env \<Rightarrow> (stmt \<times> pyval list \<Rightarrow> 'd \<Rightarrow> 'd) \<Rightarrow> bool" where
  "takes_all rv ap \<longleftrightarrow> (\<forall>q vals d. \<exists>r. send rv q vals d = (Ret r, ap (q, vals) d))"

lemma send_many_takes:
  assumes "takes_all rv ap"
  shows "send_many rv q rows s = (Ret (), s\<lparr>sdb := fold ap (map (Pair q) rows) (sdb s)\<rparr>)"
  unfolding send_many_def
proof (induction rows arbitrary: s)
  case (Cons vals rows)
  from assms obtain r where "send rv q vals (sdb s) = (Ret r, ap (q, vals) (sdb s))"
    unfolding takes_all_def by blast
  then have 1: "ibind (send_db rv q vals) (\<lambda>_. iret ()) s = (Ret (), s\<lparr>sdb := ap (q, vals) (sdb s)\<rparr>)"
    by (simp add: ibind_Ret send_db_Ret iret_def)
  show ?case
    unfolding ifold.simps ibind_simps(1) [where c = "ibind (send_db rv q vals) (\<lambda>_. iret ())" and s = s, OF 1] Cons.IH
    by simp
qed (simp add: iret_def)

lemma iwhen_send_many:
  "takes_all rv ap \<Longrightarrow> iwhen (rows \<noteq> []) (send_many rv q rows) s = (Ret (), s\<lparr>sdb := fold ap (map (Pair q) rows) (sdb s)\<rparr>)"
  by (cases "rows = []") (simp_all add: send_many_takes iwhen_def iret_def)

definition sent_for :: "exec_entry \<Rightarrow> 'd session \<Rightarrow> nat list \<Rightarrow> pyval list list \<Rightarrow> (stmt \<times> pyval list) list" where
  "sent_for e s as vs = map2 (\<lambda>a v. (insert_for e (objs s a), v)) as vs"

lemma mset_sent:
  assumes "length as = length vs"
  shows "mset (map (Pair (insert_query_all e)) (rows_where i_custom_pk s as vs) @
      map (Pair (insert_query e)) (rows_where (\<lambda>i. \<not> i_custom_pk i) s as vs)) = mset (sent_for e s as vs)"
  using assms
proof (induction as vs rule: list_induct2)
  case (Cons a as v vs)
  then show ?case by (auto simp: rows_where_def sent_for_def insert_for_def)
qed (simp add: rows_where_def sent_for_def)

lemma bulk_chunk_sends:
  assumes "columns_ok (model_of rv mo)" and "make_entry rv mo = Inr e" and "takes_all rv ap"
    and "bulk_chunk rv e as s = (Ret (), s')" and "distinct as" and "\<forall>a\<in>set as. i_model (objs s a) = mo"
  shows "\<exists>vs sent. bulk_rows rv mo e s as vs \<and> mset sent = mset (sent_for e s as vs) \<and>
     sdb s' = fold ap sent (sdb s) \<and> same_outside (set as) s s'"
proof -
  from assms(4) obtain A R t where c: "ifold (bulk_row rv e) as ([], []) s = (Ret (A, R), t)"
    and r: "iseq (iwhen (A \<noteq> []) (send_many rv (insert_query_all e) A))
       (iwhen (R \<noteq> []) (send_many rv (insert_query e) R)) t = (Ret (), s')"
    unfolding bulk_chunk_def ibind_Ret by auto
  from bulk_collect [OF assms(1,2) c assms(5,6)] obtain vs where vs: "bulk_rows rv mo e s as vs"
    "A = rows_where i_custom_pk s as vs" "R = rows_where (\<lambda>i. \<not> i_custom_pk i) s as vs"
    "same_outside (set as) s t" "sdb t = sdb s" by auto
  define sent where "sent = map (Pair (insert_query_all e)) A @ map (Pair (insert_query e)) R"
  from r have "s' = t\<lparr>sdb := fold ap sent (sdb t)\<rparr>"
    unfolding iseq_def sent_def by (simp add: iwhen_send_many [OF assms(3)])
  with vs have "sdb s' = fold ap sent (sdb s)" "same_outside (set as) s s'"
    by (simp_all add: same_outside_def)
  moreover have "length as = length vs" using vs(1) by (auto simp: bulk_rows_def dest: list_all2_lengthD)
  then have "mset sent = mset (sent_for e s as vs)" unfolding sent_def vs(2,3) by (rule mset_sent)
  ultimately show ?thesis using vs(1) by blast
qed

lemma sent_for_cong: "\<forall>a\<in>set as. objs t a = objs s a \<Longrightarrow> sent_for e t as vs = sent_for e s as vs"
  by (auto simp: sent_for_def dest: set_zip_leftD)

lemma bulk_chunks_send:
  assumes "columns_ok (model_of rv mo)" and "make_entry rv mo = Inr e" and "takes_all rv ap"
    and "ifold (\<lambda>c _. bulk_chunk rv e c) cs () s = (Ret (), s')" and "distinct (concat cs)"
    and "\<forall>a\<in>set (concat cs). i_model (objs s a) = mo"
  shows "\<exists>vs sent. bulk_rows rv mo e s (concat cs) vs \<and> mset sent = mset (sent_for e s (concat cs) vs) \<and>
     sdb s' = fold ap sent (sdb s)"
  using assms(4-6)
proof (induction cs arbitrary: s)
  case Nil
  then show ?case by (simp add: iret_def bulk_rows_def sent_for_def)
next
  case (Cons c cs)
  from Cons.prems(1) obtain t where c: "bulk_chunk rv e c s = (Ret (), t)"
    and r: "ifold (\<lambda>c _. bulk_chunk rv e c) cs () t = (Ret (), s')"
    unfolding ifold.simps ibind_Ret by auto
  from bulk_chunk_sends [OF assms(1-3) c] Cons.prems(2,3) obtain vs sent where 1: "bulk_rows rv mo e s c vs"
    "mset sent = mset (sent_for e s c vs)" "sdb t = fold ap sent (sdb s)" "same_outside (set c) s t" by auto
  have o: "\<forall>a\<in>set (concat cs). objs t a = objs s a"
    using 1(4) Cons.prems(2) by (auto simp: same_outside_def)
  from Cons.IH [OF r] Cons.prems(2,3) o obtain vs' sent' where 2: "bulk_rows rv mo e t (concat cs) vs'"
    "mset sent' = mset (sent_for e t (concat cs) vs')" "sdb s' = fold ap sent' (sdb t)" by auto
  have len: "length c = length vs" using 1(1) by (auto simp: bulk_rows_def dest: list_all2_lengthD)
  have "bulk_rows rv mo e s (concat (c # cs)) (vs @ vs')"
    using 1(1) 2(1) len unfolding bulk_rows_cong [OF o] by (simp add: bulk_rows_def list_all2_append)
  moreover have "mset (sent @ sent') = mset (sent_for e s (concat (c # cs)) (vs @ vs'))"
    using 1(2) 2(2) len by (simp add: sent_for_def sent_for_cong [OF o, unfolded sent_for_def])
  moreover have "sdb s' = fold ap (sent @ sent') (sdb s)" using 1(3) 2(3) by simp
  ultimately show ?case by blast
qed

text \<open>
  C13. A bulk insert sends every instance once, whatever the batch size and whichever instances
  have keys of their own: the statements sent are, up to their order, the insert of each instance
  with values that make up its row.
\<close>

theorem bulk_insert_complete:
  assumes "columns_ok (model_of rv mo)" and "make_entry rv mo = Inr e" and "takes_all rv ap"
    and "execute_bulk_insert rv e as batch_size s = (Ret (), s')" and "distinct as"
    and "\<forall>a\<in>set as. i_model (objs s a) = mo"
  shows "\<exists>sent vs. sdb s' = fold ap sent (sdb s) \<and>
     mset sent = mset (map2 (\<lambda>a v. (insert_for e (objs s a), v)) as vs) \<and>
     list_all2 (\<lambda>a v. row_of rv mo (objs s a) = Inr (bound_row v (insert_for e (objs s a)))) as vs"
proof -
  from assms(4) obtain cs where cs: "chunk as batch_size = Inr cs"
    and r: "ifold (\<lambda>c _. bulk_chunk rv e c) cs () s = (Ret (), s')"
    unfolding execute_bulk_insert_def ibind_Ret by auto
  have conc: "concat cs = as"
    using cs concat_batched [of "nat (the batch_size)" as] by (auto simp: chunk_def split: option.splits if_splits)
  from bulk_chunks_send [OF assms(1-3) r, unfolded conc, OF assms(5,6)] show ?thesis
    unfolding bulk_rows_def sent_for_def by blast
qed

theorem bulk_insert_complete_witness:
  "\<exists>s' sent. execute_bulk_insert sample_rv user_entry [0, 1] (Some 1) sample_session = (Ret (), s') \<and>
     sdb s' = fold (\<lambda>x d. d @ [x]) sent [] \<and> length sent = 2"
proof -
  have m: "\<forall>a\<in>set [0, 1]. i_model (objs sample_session a) = sample_user"
    by (simp add: sample_session_def new_user_def)
  have t: "takes_all sample_rv (\<lambda>x d. d @ [x])" by (simp add: takes_all_def sample_rv_def)
  have "fst (execute_bulk_insert sample_rv user_entry [0, 1] (Some 1) sample_session) = Ret ()" by code_simp
  then obtain s' where x: "execute_bulk_insert sample_rv user_entry [0, 1] (Some 1) sample_session = (Ret (), s')"
    by (metis prod.collapse)
  from bulk_insert_complete [OF user_columns user_entry t x _ m] obtain sent vs where
    1: "sdb s' = fold (\<lambda>x d. d @ [x]) sent (sdb sample_session)"
    "mset sent = mset (map2 (\<lambda>a v. (insert_for user_entry (objs sample_session a), v)) [0, 1] vs)"
    "list_all2 (\<lambda>a v. row_of sample_rv sample_user (objs sample_session a) =
       Inr (bound_row v (insert_for user_entry (objs sample_session a)))) [0, 1] vs" by auto
  from 1(3) have "length vs = 2" by (auto dest: list_all2_lengthD)
  with arg_cong [OF 1(2), of size] have "length sent = 2" by simp
  with 1(1) x show ?thesis by (auto simp: sample_session_def)
qed

section \<open>Sequences of operations\<close>

text \<open>
  How instances use executors: an executor for the instance's model is made, from the cache or
  afresh, and one of its operations runs. An exception goes to the caller, who may go on.
\<close>

datatype exec_op =
    OpInsert mid nat | OpBulkInsert mid "nat list" "int option"
  | OpUpdate mid nat "string list" | OpDelete mid nat

fun run_op :: "'d run_env \<Rightarrow> exec_op \<Rightarrow> ('d, unit) sio" where
  "run_op rv (OpInsert mo a) = ibind (executor_init rv mo) (\<lambda>e. execute_insert rv e mo a)"
| "run_op rv (OpBulkInsert mo insts n) = ibind (executor_init rv mo) (\<lambda>e. execute_bulk_insert rv e insts n)"
| "run_op rv (OpUpdate mo a fs) = ibind (executor_init rv mo) (\<lambda>e. iseq (execute_update rv e mo a fs) (iret ()))"
| "run_op rv (OpDelete mo a) = ibind (executor_init rv mo) (\<lambda>e. iseq (execute_delete rv e mo a) (iret ()))"

definition run_ops :: "'d run_env \<Rightarrow> exec_op list \<Rightarrow> 'd session \<Rightarrow> 'd session" where
  "run_ops rv ops s = foldl (\<lambda>s op. snd (run_op rv op s)) s ops"

lemma keeps_send_db: "(\<And>s d. P s \<Longrightarrow> P (s\<lparr>sdb := d\<rparr>)) \<Longrightarrow> keeps P (send_db rv q vals)"
  by (auto simp: keeps_def send_db_def split: prod.split)

lemma executor_init_caches: "keeps (caches_ok rv) (executor_init rv mo)"
  unfolding keeps_def
proof (intro allI impI)
  fix s assume s: "caches_ok rv s"
  show "caches_ok rv (snd (executor_init rv mo s))"
  proof (cases "map_of (exec_cache s) (exec_key_of rv mo)")
    case (Some e)
    with s show ?thesis by (simp add: executor_init_def Let_def)
  next
    case None
    show ?thesis
    proof (cases "make_entry rv mo")
      case (Inl x)
      with None s show ?thesis by (simp add: executor_init_def Let_def)
    next
      case (Inr e)
      let ?t = "s\<lparr>exec_cache := AList.update (exec_key_of rv mo) e (exec_cache s),
                  update_cache := (update_cache s)(exec_key_of rv mo := [])\<rparr>"
      have "caches_ok rv ?t"
      proof (rule caches_okI)
        fix key x assume *: "map_of (exec_cache ?t) key = Some x"
        show "\<exists>mo. exec_key_of rv mo = key \<and> make_entry rv mo = Inr x"
        proof (cases "key = exec_key_of rv mo")
          case True
          with * have "x = e" by (simp add: map_of_update)
          with True Inr show ?thesis by blast
        next
          case False
          with * have "map_of (exec_cache s) key = Some x" by (simp add: map_of_update)
          then show ?thesis by (rule caches_ok_entry [OF s])
        qed
      next
        fix key k q assume *: "map_of (update_cache ?t key) k = Some q"
        then have "map_of (update_cache s key) k = Some q" by (simp split: if_splits)
        then show "\<exists>mo fs. exec_key_of rv mo = key \<and> k = join_str '','' fs \<and> update_stmt (orm rv) (model_of rv mo) [] fs = Inr q"
          by (rule caches_ok_stmt [OF s])
      qed
      with None Inr show ?thesis by (simp add: executor_init_def Let_def iseq_def)
    qed
  qed
qed

text \<open>An executor of a model that owns its table has the model's own entry.\<close>

lemma executor_init_spec:
  assumes "executor_init rv mo s = (Ret e, s')" and "caches_ok rv s" and "owns_key rv mo"
  shows "make_entry rv mo = Inr e" "objs s' = objs s" "sdb s' = sdb s" "caches_ok rv s'"
proof -
  show "caches_ok rv s'" using keepsD [OF executor_init_caches assms(2), of mo] assms(1) by simp
  have "make_entry rv mo = Inr e \<and> objs s' = objs s \<and> sdb s' = sdb s"
  proof (cases "map_of (exec_cache s) (exec_key_of rv mo)")
    case (Some x)
    with assms(1) have "x = e" "s' = s" by (simp_all add: executor_init_def Let_def)
    with caches_ok_entry [OF assms(2) Some] assms(3) show ?thesis unfolding owns_key_def by metis
  next
    case None
    with assms(1) show ?thesis
      by (auto simp: executor_init_def Let_def ibind_Ret iseq_def iret_def imodify_def)
  qed
  then show "make_entry rv mo = Inr e" "objs s' = objs s" "sdb s' = sdb s" by simp_all
qed

lemma get_update_sql_caches: "keeps (caches_ok rv) (get_update_sql rv (exec_key_of rv mo) mo fs arith)"
  unfolding keeps_def
proof (intro allI impI)
  fix s assume s: "caches_ok rv s"
  show "caches_ok rv (snd (get_update_sql rv (exec_key_of rv mo) mo fs arith s))"
  proof (cases "arith = [] \<and> map_of (update_cache s (exec_key_of rv mo)) (join_str '','' fs) \<noteq> None")
    case True
    then obtain q where "map_of (update_cache s (exec_key_of rv mo)) (join_str '','' fs) = Some q" by auto
    with s True show ?thesis by (simp add: get_update_sql_def Let_def)
  next
    case False
    show ?thesis
    proof (cases "update_stmt (orm rv) (model_of rv mo) arith fs")
      case (Inl x)
      with False s show ?thesis by (cases "arith = []") (simp_all add: get_update_sql_def Let_def)
    next
      case (Inr q)
      with False s caches_ok_add_stmt [OF s, of mo fs q] show ?thesis
        by (cases "arith = []") (simp_all add: get_update_sql_def Let_def iseq_def)
    qed
  qed
qed

text \<open>What every operation of an executor keeps: attributes are written, statements sent and cached.\<close>

lemma keeps_execute:
  assumes inert: "inert P" and sdb: "\<And>s d. P s \<Longrightarrow> P (s\<lparr>sdb := d\<rparr>)"
    and sql: "\<And>arith. keeps P (get_update_sql rv (exec_key_of rv mo) mo fs arith)"
  shows "keeps P (execute_insert rv e mo a)" "keeps P (execute_bulk_insert rv e insts n)"
    "keeps P (execute_update rv e mo a fs)" "keeps P (execute_delete rv e mo a)"
proof -
  have send: "keeps P (send_db rv q vals)" for q vals by (rule keeps_send_db) (rule sdb)
  have cv: "keeps P (column_values rv a cm cols)" for a cm cols by (rule keeps_column_values) (rule inert)
  have pr: "keeps P (process_insert_result rv mo a r)" for r by (rule keeps_process_insert_result) (rule inert_put [OF inert])
  have pk: "keeps P (pk_value rv (model_of rv mo) a)" by (rule keeps_pk_value) (rule inert)
  have 1: "keeps P (ibind (column_values rv a cm cols) (\<lambda>vals. ibind (send_db rv q vals) (process_insert_result rv mo a)))"
    "keeps P (ibind (column_values rv a cm cols) (\<lambda>vals. ibind (send_db rv q vals) (\<lambda>_. iret ())))" for cm cols q
    by (intro keeps_ibind cv send pr keeps_simple)+
  show "keeps P (execute_insert rv e mo a)"
    unfolding keeps_def execute_insert_def by (intro allI impI) (simp add: keepsD [OF 1(1)] keepsD [OF 1(2)])
  have 2: "keeps P (ibind (column_values rv a cm cols) (\<lambda>vals. iret (g vals)))" for a cm cols and g :: "pyval list \<Rightarrow> pyval list list \<times> pyval list list"
    by (intro keeps_ibind cv keeps_simple)
  have row: "keeps P (bulk_row rv e a acc)" for a acc
    unfolding keeps_def bulk_row_def by (intro allI impI, cases acc) (simp add: keepsD [OF 2])
  have many: "keeps P (send_many rv q rows)" for q rows
    unfolding send_many_def by (intro keeps_ifold keeps_ibind send keeps_simple)
  have "keeps P (bulk_chunk rv e c)" for c
    unfolding bulk_chunk_def iseq_def
    by (intro keeps_ibind keeps_ifold row) (auto intro!: keeps_ibind keeps_iwhen many split: prod.split)
  then show "keeps P (execute_bulk_insert rv e insts n)"
    unfolding execute_bulk_insert_def by (intro keeps_ibind keeps_ifold keeps_simple)
  have "keeps P (update_step rv (model_of rv mo) e a fld acc)" for fld acc
    by (rule keeps_update_step) (rule inert)
  then show "keeps P (execute_update rv e mo a fs)"
    unfolding execute_update_def Let_def
    by (auto intro!: keeps_ibind keeps_ifold pk sql send split: prod.split)
  show "keeps P (execute_delete rv e mo a)"
    unfolding execute_delete_def by (intro keeps_ibind pk send keeps_simple)
qed

lemma run_op_caches: "keeps (caches_ok rv) (run_op rv op)"
  by (cases op) (auto simp: iseq_def inert_def intro!: keeps_ibind executor_init_caches keeps_execute get_update_sql_caches)

lemma run_ops_caches: "caches_ok rv s \<Longrightarrow> caches_ok rv (run_ops rv ops s)"
  unfolding run_ops_def by (induction ops arbitrary: s) (simp_all add: keepsD [OF run_op_caches])

text \<open>
  C25. Whatever inserts, bulk inserts, updates and deletes a process has run, successful or not, an
  executor of a model that shares its table with no other has the statements that would be
  prepared for it afresh, and the caches stay consistent.
\<close>

theorem executor_prepared:
  assumes "exec_cache s = []" and "update_cache s = (\<lambda>_. [])" and "owns_key rv mo"
    and "executor_init rv mo (run_ops rv ops s) = (Ret e, s')"
  shows "make_entry rv mo = Inr e \<and> caches_ok rv s'"
proof -
  let ?t = "run_ops rv ops s"
  have "caches_ok rv s" using assms(1,2) by (simp add: caches_ok_def)
  then have t: "caches_ok rv ?t" by (rule run_ops_caches)
  have "make_entry rv mo = Inr e"
  proof (cases "map_of (exec_cache ?t) (exec_key_of rv mo)")
    case (Some x)
    with assms(4) have "x = e" by (simp add: executor_init_def Let_def)
    with caches_ok_entry [OF t Some] assms(3) show ?thesis unfolding owns_key_def by metis
  next
    case None
    with assms(4) show ?thesis by (auto simp: executor_init_def Let_def ibind_Ret iseq_def iret_def)
  qed
  with keepsD [OF executor_init_caches t, of mo] assms(4) show ?thesis by simp
qed

theorem executor_prepared_witness:
  "\<exists>s'. executor_init sample_rv sample_user (run_ops sample_rv [OpUpdate sample_user 1 [], OpInsert sample_user 0] sample_session)
     = (Ret user_entry, s') \<and> caches_ok sample_rv s'"
proof -
  let ?s = "run_ops sample_rv [OpUpdate sample_user 1 [], OpInsert sample_user 0] sample_session"
  have "(case fst (executor_init sample_rv sample_user ?s) of Ret e \<Rightarrow> True | _ \<Rightarrow> False)" by code_simp
  then obtain e s' where x: "executor_init sample_rv sample_user ?s = (Ret e, s')"
    by (cases "executor_init sample_rv sample_user ?s") (auto split: outcome.splits)
  have "exec_cache sample_session = []" "update_cache sample_session = (\<lambda>_. [])"
    by (simp_all add: sample_session_def)
  from executor_prepared [OF this user_owns_key(1) x] x user_entry show ?thesis by auto
qed

text \<open>
  Two models of one connection with the same table share the cache: once an executor of the
  first was made, the executor of the second has the first's statements and columns, whatever
  fields the second has.
\<close>

theorem shared_table_statements:
  assumes "exec_key_of rv mo' = exec_key_of rv mo" and "executor_init rv mo s = (Ret e, s')"
  shows "executor_init rv mo' s' = (Ret e, s')"
proof (cases "map_of (exec_cache s) (exec_key_of rv mo)")
  case (Some x)
  with assms show ?thesis by (simp add: executor_init_def Let_def)
next
  case None
  with assms(2) have "s' = s\<lparr>exec_cache := AList.update (exec_key_of rv mo) e (exec_cache s),
      update_cache := (update_cache s)(exec_key_of rv mo := [])\<rparr>"
    by (auto simp: executor_init_def Let_def ibind_Ret iseq_def iret_def imodify_def)
  with assms(1) show ?thesis by (simp add: executor_init_def Let_def map_of_update)
qed

text \<open>A model of the same table with a further column, which inserts of it then leave out.\<close>

definition view_meta :: meta where
  "view_meta = sample_meta\<lparr>fields_db_projection := fields_db_projection sample_meta @ [(''age'', ''age'')],
     fields_map := fields_map sample_meta @ [(''age'', id_field\<lparr>pk := False, generated := False, model_field_name := ''age''\<rparr>)]\<rparr>"

definition shared_rv :: "(stmt \<times> pyval list) list run_env" where
  "shared_rv = sample_rv\<lparr>orm := (orm sample_rv)\<lparr>metas := solo_metas((''app'', ''View'') := view_meta)\<rparr>\<rparr>"

theorem shared_table_statements_witness:
  "\<exists>e s'. executor_init shared_rv (''app'', ''View'') s' = (Ret e, s') \<and> regular_columns e = [''name''] \<and>
     make_entry shared_rv (''app'', ''View'') \<noteq> Inr e"
proof -
  have k: "exec_key_of shared_rv (''app'', ''View'') = exec_key_of shared_rv sample_user"
    by (simp add: exec_key_of_def shared_rv_def view_meta_def sample_user_def solo_metas_def)
  have "(case fst (executor_init shared_rv sample_user sample_session) of Ret e \<Rightarrow> regular_columns e = [''name''] | _ \<Rightarrow> False)"
    by code_simp
  then obtain e s' where x: "executor_init shared_rv sample_user sample_session = (Ret e, s')" and c: "regular_columns e = [''name'']"
    by (cases "executor_init shared_rv sample_user sample_session") (auto split: outcome.splits)
  have "(case make_entry shared_rv (''app'', ''View'') of Inr e \<Rightarrow> regular_columns e = [''name'', ''age''] | Inl x \<Rightarrow> True)"
    by code_simp
  with c have "make_entry shared_rv (''app'', ''View'') \<noteq> Inr e" by auto
  with shared_table_statements [OF k x] c show ?thesis by blast
qed

end
