(* ===== verification/Saving.thy ===== *)
theory Saving
  imports ExecutorProofs
begin

text \<open>
  Saving, deleting and refreshing instances (\<^verbatim>\<open>Model.save\<close>, \<^verbatim>\<open>delete\<close>, \<^verbatim>\<open>create\<close>,
  \<^verbatim>\<open>refresh_from_db\<close> of \<^verbatim>\<open>models.py\<close>), with the listeners of \<^verbatim>\<open>signals.py\<close>.
\<close>

section \<open>Listeners\<close>

datatype signal = PreSave | PostSave | PreDelete | PostDelete

type_synonym listeners = "(signal \<times> mid, nat list) dict"

record 'd save_env =
  run :: "'d run_env"
  registry :: listeners                     \<comment> \<open>\<^verbatim>\<open>Model._listeners\<close>\<close>
  listen :: "nat \<Rightarrow> nat \<Rightarrow> ('d, unit) sio"  \<comment> \<open>what a listener does with the instance\<close>

definition listeners_of :: "listeners \<Rightarrow> signal \<Rightarrow> mid \<Rightarrow> nat list" where
  "listeners_of ls sg mo = (case map_of ls (sg, mo) of None \<Rightarrow> [] | Some xs \<Rightarrow> xs)"

text \<open>\<^verbatim>\<open>register_listener\<close>; an argument that is not callable is \<open>None\<close>.\<close>

definition register_listener :: "signal \<Rightarrow> mid \<Rightarrow> nat option \<Rightarrow> listeners \<Rightarrow> listeners res" where
  "register_listener sg mo l ls =
     (case l of None \<Rightarrow> Inl ConfigurationError
      | Some f \<Rightarrow> Inr (AList.update (sg, mo) (set_add f (listeners_of ls sg mo)) ls))"

text \<open>The decorators \<^verbatim>\<open>pre_save\<close>, \<^verbatim>\<open>post_save\<close>, \<^verbatim>\<open>pre_delete\<close> and \<^verbatim>\<open>post_delete\<close>, applied to a listener.\<close>

definition register_for :: "signal \<Rightarrow> mid list \<Rightarrow> nat option \<Rightarrow> listeners \<Rightarrow> listeners res" where
  "register_for sg senders l = rfold (\<lambda>mo. register_listener sg mo l) senders"

text \<open>
  \<^verbatim>\<open>asyncio.gather\<close> of coroutines that do not suspend: every one runs, in order, and the first
  exception is raised when they have.
\<close>

fun igather :: "('s, 'a) io list \<Rightarrow> ('s, 'a list) io" where
  "igather [] s = (Ret [], s)"
| "igather (c # cs) s =
     (case c s of
        (r, t) \<Rightarrow> (case igather cs t of
          (rs, u) \<Rightarrow>
            (case r of
               Ret x \<Rightarrow> (case rs of Ret xs \<Rightarrow> Ret (x # xs) | Raise e \<Rightarrow> Raise e | Wait \<Rightarrow> Wait)
             | Raise e \<Rightarrow> Raise e
             | Wait \<Rightarrow> Wait, u)))"

definition wait_for_listeners :: "'d save_env \<Rightarrow> signal \<Rightarrow> nat \<Rightarrow> ('d, unit) sio" where
  "wait_for_listeners sv sg a s =
     iseq (igather (map (\<lambda>l. listen sv l a) (listeners_of (registry sv) sg (i_model (objs s a))))) (iret ()) s"

section \<open>Saving\<close>

text \<open>\<^verbatim>\<open>_set_async_default_field\<close>\<close>

definition set_async_defaults :: "'d run_env \<Rightarrow> nat \<Rightarrow> ('d, unit) sio" where
  "set_async_defaults rv a s =
     iseq (ifold (\<lambda>(k, n) _. ibind (ilift (await_default rv n)) (\<lambda>v. py_setattr rv a k (APy v)))
            (awaits s (i_await (objs s a))) ())
       (ibind new_await (\<lambda>w. update_obj a (\<lambda>i. i\<lparr>i_await := w\<rparr>))) s"

definition has_attr :: "'d run_env \<Rightarrow> nat \<Rightarrow> string \<Rightarrow> 'd session \<Rightarrow> bool" where
  "has_attr rv a n s = (case fst (py_getattr rv a n s) of Ret v \<Rightarrow> True | _ \<Rightarrow> False)"

text \<open>The checks on instances that were loaded in part.\<close>

definition partial_check :: "'d run_env \<Rightarrow> nat \<Rightarrow> string list \<Rightarrow> ('d, unit) sio" where
  "partial_check rv a update_fields s =
     (if \<not> i_partial (objs s a) then (Ret (), s)
      else if update_fields = [] then (Raise IncompleteInstanceError, s)
      else if has_attr rv a (pk_attr (model_of rv (i_model (objs s a)))) s \<and>
              list_all (\<lambda>n. has_attr rv a n s) update_fields then (Ret (), s)
      else (Raise IncompleteInstanceError, s))"

text \<open>The statement of \<^verbatim>\<open>save\<close>: whether the row was created.\<close>

definition save_row :: "'d run_env \<Rightarrow> exec_entry \<Rightarrow> nat \<Rightarrow> string list \<Rightarrow> bool \<Rightarrow> bool \<Rightarrow> ('d, bool) sio" where
  "save_row rv e a update_fields force_create force_update s =
     (let mo = i_model (objs s a) in
      if force_create then iseq (execute_insert rv e mo a) (iret True)
      else if force_update then
        ibind (execute_update rv e mo a update_fields) (\<lambda>rows.
        if rows = 0 then iraise IntegrityError else iret False)
      else if i_saved (objs s a) \<or> update_fields \<noteq> [] then
        ibind (get_pk_val rv a) (\<lambda>k.
        if k = APy VNone then iseq (execute_insert rv e mo a) (iret True)
        else iseq (execute_update rv e mo a update_fields) (iret False))
      else iseq (execute_insert rv e mo a) (iret True)) s"

definition save :: "'d save_env \<Rightarrow> nat \<Rightarrow> string list \<Rightarrow> bool \<Rightarrow> bool \<Rightarrow> ('d, unit) sio" where
  "save sv a update_fields force_create force_update =
     (let rv = run sv in
      iseq (set_async_defaults rv a)
      (ibind (\<lambda>s. executor_init rv (i_model (objs s a)) s) (\<lambda>e.
       iseq (partial_check rv a update_fields)
       (iseq (wait_for_listeners sv PreSave a)
       (iseq (save_row rv e a update_fields force_create force_update)
       (iseq (update_obj a (\<lambda>i. i\<lparr>i_saved := True\<rparr>))
       (wait_for_listeners sv PostSave a)))))))"

definition delete :: "'d save_env \<Rightarrow> nat \<Rightarrow> ('d, unit) sio" where
  "delete sv a s =
     (if \<not> i_saved (objs s a) then (Raise OperationalError, s)
      else
        iseq (wait_for_listeners sv PreDelete a)
        (iseq (\<lambda>s. ibind (executor_init (run sv) (i_model (objs s a))) (\<lambda>e.
             execute_delete (run sv) e (i_model (objs s a)) a) s)
        (wait_for_listeners sv PostDelete a)) s)"

definition create :: "'d save_env \<Rightarrow> mid \<Rightarrow> (string, attr) dict \<Rightarrow> ('d, nat) sio" where
  "create sv mo kw =
     ibind (model_init (run sv) mo kw) (\<lambda>a.
     iseq (update_obj a (\<lambda>i. i\<lparr>i_saved := False\<rparr>))
     (iseq (save sv a [] True False) (iret a)))"

text \<open>\<^verbatim>\<open>setattr(self, name, getattr(obj, name, None))\<close>\<close>

definition refresh_attr :: "'d run_env \<Rightarrow> nat \<Rightarrow> nat \<Rightarrow> string \<Rightarrow> ('d, unit) sio" where
  "refresh_attr rv a b n =
     ibind (icatch (py_getattr rv b n) (\<lambda>e. if exn_isa e PyAttributeError then iret (APy VNone) else iraise e))
       (py_setattr rv a n)"

text \<open>\<^verbatim>\<open>refresh_from_db\<close>; \<open>fetch\<close> is \<^verbatim>\<open>QuerySet(...).only(*fields).get(pk=self.pk)\<close>.\<close>

definition refresh_from_db :: "'d run_env \<Rightarrow> (string list \<Rightarrow> attr \<Rightarrow> ('d, nat) sio) \<Rightarrow> nat \<Rightarrow> string list \<Rightarrow> ('d, unit) sio" where
  "refresh_from_db rv fetch a names s =
     (if \<not> i_saved (objs s a) then (Raise OperationalError, s)
      else
        ibind (get_pk_val rv a) (\<lambda>k. ibind (fetch names k) (\<lambda>b.
        ifold (\<lambda>n _. refresh_attr rv a b n)
          (if names \<noteq> [] then names else db_fields (model_of rv (i_model (objs s a)))) ())) s)"

section \<open>What a save sends\<close>

lemma put_state_inst [simp]:
  "i_model (objs (put_state a n v s) b) = i_model (objs s b)"
  "i_saved (objs (put_state a n v s) b) = i_saved (objs s b)"
  "i_custom_pk (objs (put_state a n v s) b) = i_custom_pk (objs s b)"
  "i_partial (objs (put_state a n v s) b) = i_partial (objs s b)"
  by (simp_all add: put_state_def Let_def)

text \<open>Setting the awaited defaults writes attributes and gives the instance a new dictionary.\<close>

lemma keeps_set_async_defaults:
  assumes put: "\<And>n v s. P s \<Longrightarrow> P (put_state a n v s)"
    and await: "\<And>w s d. P s \<Longrightarrow> P (s\<lparr>awaits := d, next_await := w, objs := (objs s)(a := (objs s a)\<lparr>i_await := next_await s\<rparr>)\<rparr>)"
  shows "keeps P (set_async_defaults rv a)"
  unfolding keeps_def
proof (intro allI impI)
  fix s assume s: "P s"
  have 1: "keeps P (ifold (\<lambda>(k, n) _. ibind (ilift (await_default rv n)) (\<lambda>v. py_setattr rv a k (APy v))) kns ())" for kns
    by (intro keeps_ifold) (auto intro!: keeps_ibind keeps_py_setattr put split: prod.split)
  have 2: "keeps P (ibind new_await (\<lambda>w. update_obj a (\<lambda>i. i\<lparr>i_await := w\<rparr>)))"
    unfolding keeps_def
  proof (intro allI impI)
    fix s assume "P s"
    from await [OF this, where d = "(awaits s)(next_await s := [])" and w = "Suc (next_await s)"]
    show "P (snd (ibind new_await (\<lambda>w. update_obj a (\<lambda>i. i\<lparr>i_await := w\<rparr>)) s))"
      by (simp add: new_await_def update_obj_def)
  qed
  have "keeps P (iseq (ifold (\<lambda>(k, n) _. ibind (ilift (await_default rv n)) (\<lambda>v. py_setattr rv a k (APy v))) kns ())
      (ibind new_await (\<lambda>w. update_obj a (\<lambda>i. i\<lparr>i_await := w\<rparr>))))" for kns
    unfolding iseq_def by (intro keeps_ibind 1 2)
  from keepsD [OF this s] show "P (snd (set_async_defaults rv a s))" by (simp add: set_async_defaults_def)
qed

lemma caches_ok_objs [simp]:
  "caches_ok rv (s\<lparr>awaits := d, next_await := w\<rparr>) = caches_ok rv s"
  "caches_ok rv (s\<lparr>objs := ob\<rparr>) = caches_ok rv s"
  by (rule caches_ok_cong; simp)+

definition inst_like :: "'d run_env \<Rightarrow> nat \<Rightarrow> 'd session \<Rightarrow> 'd session \<Rightarrow> bool" where
  "inst_like rv a s t \<longleftrightarrow> sdb t = sdb s \<and> (caches_ok rv s \<longrightarrow> caches_ok rv t) \<and> i_model (objs t a) = i_model (objs s a) \<and>
     i_saved (objs t a) = i_saved (objs s a) \<and> i_partial (objs t a) = i_partial (objs s a) \<and>
     i_custom_pk (objs t a) = i_custom_pk (objs s a)"

lemma set_async_defaults_like: "inst_like rv a s (snd (set_async_defaults rv a s))"
proof -
  have "keeps (inst_like rv a s) (set_async_defaults rv a)"
    by (rule keeps_set_async_defaults) (simp_all add: inst_like_def)
  then show ?thesis by (rule keepsD) (simp add: inst_like_def)
qed

lemma no_listeners:
  "listeners_of (registry sv) sg (i_model (objs s a)) = [] \<Longrightarrow> wait_for_listeners sv sg a s = (Ret (), s)"
  by (simp add: wait_for_listeners_def iseq_def)

lemma get_update_sql_objs: "objs (snd (get_update_sql rv key mo fs arith s)) = objs s"
  by (cases "update_stmt (orm rv) (model_of rv mo) arith fs"; cases "map_of (update_cache s key) (join_str '','' fs)"; cases "arith = []")
    (simp_all add: get_update_sql_def Let_def iseq_def)

lemma save_row_keeps_model:
  fixes rv :: "'d run_env"
  shows "keeps (\<lambda>t. i_model (objs t a) = mo) (save_row rv e a fs fc fu)"
  unfolding keeps_def
proof (intro allI impI)
  fix s :: "'d session" assume s: "i_model (objs s a) = mo"
  let ?P = "\<lambda>t :: 'd session. i_model (objs t a) = mo"
  have sql: "keeps ?P (get_update_sql rv (exec_key_of rv mo) mo fs arith)" for arith
    by (simp add: keeps_def get_update_sql_objs)
  have k: "keeps ?P (execute_insert rv e mo a)" by (rule keeps_execute(1) [where fs = fs]) (simp_all add: sql inert_def)
  have u: "keeps ?P (execute_update rv e mo a fs)" by (rule keeps_execute(3)) (simp_all add: sql inert_def)
  have "keeps ?P (iseq (execute_insert rv e mo a) (iret True))" "keeps ?P (iseq (execute_update rv e mo a fs) (iret False))"
    "keeps ?P (ibind (execute_update rv e mo a fs) (\<lambda>rows. if rows = 0 then iraise IntegrityError else iret False))"
    "keeps ?P (ibind (get_pk_val rv a) (\<lambda>k. if k = APy VNone then iseq (execute_insert rv e mo a) (iret True)
        else iseq (execute_update rv e mo a fs) (iret False)))"
    by (auto simp: iseq_def intro!: keeps_ibind k u)
  then show "?P (snd (save_row rv e a fs fc fu s))"
    using s by (auto simp: save_row_def Let_def dest!: keepsD [where s = s])
qed

text \<open>The stages of a save that returns, when nobody listens.\<close>

lemma save_stages:
  assumes "save sv a fs fc fu s = (Ret (), s')"
    and "\<And>sg. listeners_of (registry sv) sg (i_model (objs s a)) = []"
    and "caches_ok (run sv) s" and "owns_key (run sv) (i_model (objs s a))"
  obtains s1 e s2 created s3 where "set_async_defaults (run sv) a s = (Ret (), s1)"
    "make_entry (run sv) (i_model (objs s a)) = Inr e" "objs s2 = objs s1" "sdb s2 = sdb s" "caches_ok (run sv) s2"
    "i_model (objs s1 a) = i_model (objs s a)" "i_saved (objs s1 a) = i_saved (objs s a)"
    "partial_check (run sv) a fs s2 = (Ret (), s2)" "save_row (run sv) e a fs fc fu s2 = (Ret created, s3)"
    "s' = s3\<lparr>objs := (objs s3)(a := (objs s3 a)\<lparr>i_saved := True\<rparr>)\<rparr>"
proof -
  let ?rv = "run sv" and ?mo = "i_model (objs s a)"
  from assms(1) obtain s1 e s2 s2' s2'' created s3 s4 where d: "set_async_defaults ?rv a s = (Ret (), s1)"
    and e: "executor_init ?rv (i_model (objs s1 a)) s1 = (Ret e, s2)"
    and p: "partial_check ?rv a fs s2 = (Ret (), s2')" and l1: "wait_for_listeners sv PreSave a s2' = (Ret (), s2'')"
    and r: "save_row ?rv e a fs fc fu s2'' = (Ret created, s3)"
    and u: "update_obj a (\<lambda>i. i\<lparr>i_saved := True\<rparr>) s3 = (Ret (), s4)" and l2: "wait_for_listeners sv PostSave a s4 = (Ret (), s')"
    unfolding save_def Let_def iseq_def ibind_Ret by auto
  from set_async_defaults_like [of ?rv a s] d have like: "inst_like ?rv a s s1" by simp
  then have m1: "i_model (objs s1 a) = ?mo" "caches_ok ?rv s1" "sdb s1 = sdb s" "i_saved (objs s1 a) = i_saved (objs s a)"
    using assms(3) by (simp_all add: inst_like_def)
  note ei = executor_init_spec [OF e [unfolded m1(1)] m1(2) assms(4)]
  from p have [simp]: "s2' = s2" by (auto simp: partial_check_def split: if_splits)
  from l1 no_listeners [of sv PreSave s2 a] assms(2) ei(2) m1(1) have [simp]: "s2'' = s2" by simp
  have "keeps (\<lambda>t. i_model (objs t a) = ?mo) (save_row ?rv e a fs fc fu)"
    by (rule save_row_keeps_model)
  from keepsD [OF this, of s2] r ei(2) m1(1) have m3: "i_model (objs s3 a) = ?mo" by simp
  from u have s4: "s4 = s3\<lparr>objs := (objs s3)(a := (objs s3 a)\<lparr>i_saved := True\<rparr>)\<rparr>" by (simp add: update_obj_def imodify_def)
  with l2 no_listeners [of sv PostSave s4 a] assms(2) m3 have "s' = s4" by simp
  with s4 that [OF d ei(1,2) _ ei(4) m1(1) m1(4)] p r ei(3) m1(3) show thesis by simp
qed

text \<open>When \<^verbatim>\<open>save\<close> creates a row, by the instance as it is when its awaited defaults are set.\<close>

definition save_creates :: "'d run_env \<Rightarrow> inst \<Rightarrow> string list \<Rightarrow> bool \<Rightarrow> bool \<Rightarrow> bool" where
  "save_creates rv i fs force_create force_update \<longleftrightarrow>
     force_create \<or> \<not> force_update \<and>
       (\<not> i_saved i \<and> fs = [] \<or> (case map_of (i_dict i) (pk_attr (model_of rv (i_model i))) of None \<Rightarrow> APy VNone | Some v \<Rightarrow> v) = APy VNone)"

lemma save_row_cases:
  assumes "save_row rv e a fs fc fu s = (Ret created, s')"
  shows "if save_creates rv (objs s a) fs fc fu then execute_insert rv e (i_model (objs s a)) a s = (Ret (), s')
     else \<exists>n. execute_update rv e (i_model (objs s a)) a fs s = (Ret n, s') \<and> (fu \<longrightarrow> n \<noteq> 0)"
proof -
  let ?mo = "i_model (objs s a)"
  let ?k = "case map_of (i_dict (objs s a)) (pk_attr (model_of rv ?mo)) of None \<Rightarrow> APy VNone | Some v \<Rightarrow> v"
  have k: "ibind (get_pk_val rv a) g s = g ?k s" for g :: "attr \<Rightarrow> ('a, bool) sio"
    by (rule ibind_simps(1)) (simp add: get_pk_val_def iget_def)
  have ins: "execute_insert rv e ?mo a s = (Ret (), s')" if "iseq (execute_insert rv e ?mo a) (iret True) s = (Ret created, s')"
    using that unfolding iseq_def ibind_Ret by (auto simp: iret_def)
  have upd: "\<exists>n. execute_update rv e ?mo a fs s = (Ret n, s')" if "iseq (execute_update rv e ?mo a fs) (iret False) s = (Ret created, s')"
    using that unfolding iseq_def ibind_Ret by (auto simp: iret_def)
  show ?thesis
  proof (cases "fc \<or> fu")
    case True
    show ?thesis
    proof (cases fc)
      case True
      with assms ins show ?thesis by (simp add: save_row_def Let_def save_creates_def)
    next
      case False
      with True assms have "ibind (execute_update rv e ?mo a fs) (\<lambda>rows. if rows = 0 then iraise IntegrityError else iret False) s = (Ret created, s')"
        by (simp add: save_row_def Let_def)
      then obtain n t where "execute_update rv e ?mo a fs s = (Ret n, t)"
        "(if n = 0 then iraise IntegrityError else iret False) t = (Ret created, s')" unfolding ibind_Ret by blast
      with False True show ?thesis by (auto simp: save_creates_def iret_def iraise_def split: if_splits)
    qed
  next
    case False
    then show ?thesis
      using assms ins upd by (auto simp: save_row_def Let_def save_creates_def k split: if_splits)
  qed
qed

text \<open>
  C6. A save that returns has sent one statement, and the instance counts as saved. The
  statement is an INSERT of the instance's row when the save was forced to create, or was not
  forced to update and the instance has no key, or is not saved and no fields are named;
  otherwise it is an UPDATE of the fields named (all, if none), for the row with the instance's
  key.
\<close>

theorem save_sends_one:
  assumes "save sv a fs fc fu s = (Ret (), s')" and "\<And>sg. listeners_of (registry sv) sg mo = []"
    and "i_model (objs s a) = mo" and "caches_ok (run sv) s" and "owns_key (run sv) mo"
    and "columns_ok (model_of (run sv) mo)" and "names_ok (model_of (run sv) mo)" and "distinct fs"
  shows "i_saved (objs s' a) \<and>
     (\<exists>s1 q vals r. set_async_defaults (run sv) a s = (Ret (), s1) \<and> send (run sv) q vals (sdb s) = (Ret r, sdb s') \<and>
       stmt_params q = [0..<length vals] \<and>
       (if save_creates (run sv) (objs s1 a) fs fc fu
        then is_insert_of (model_of (run sv) mo) q \<and> inst_row (run sv) (model_of (run sv) mo) (objs s1 a)
          (entry_cols (model_of (run sv) mo) (i_custom_pk (objs s1 a))) = Inr (bound_row vals q)
        else is_update_of (model_of (run sv) mo) q \<and> rmap (set_clause (run sv) (model_of (run sv) mo) (objs s1 a))
            (set_names (model_of (run sv) mo) (update_names (model_of (run sv) mo) fs)) = Inr (bound_row vals q) \<and>
          (\<exists>k. pk_db_value (run sv) (model_of (run sv) mo) (objs s1 a) = Inr k \<and> bound_key vals q = TWrap k)))"
proof -
  let ?rv = "run sv"
  have own: "owns_key ?rv (i_model (objs s a))" using assms(3,5) by simp
  obtain s1 e s2 created s3 where d: "set_async_defaults ?rv a s = (Ret (), s1)"
    and e: "make_entry ?rv (i_model (objs s a)) = Inr e" and o: "objs s2 = objs s1" "sdb s2 = sdb s" "caches_ok ?rv s2"
    and m: "i_model (objs s1 a) = i_model (objs s a)"
    and r: "save_row ?rv e a fs fc fu s2 = (Ret created, s3)"
    and s': "s' = s3\<lparr>objs := (objs s3)(a := (objs s3 a)\<lparr>i_saved := True\<rparr>)\<rparr>"
    by (rule save_stages [OF assms(1) _ assms(4) own]) (use assms(2,3) in simp)
  have m2: "i_model (objs s2 a) = mo" using o m assms(3) by simp
  have e': "make_entry ?rv mo = Inr e" using e assms(3) by simp
  have "\<exists>q vals r. send ?rv q vals (sdb s) = (Ret r, sdb s') \<and> stmt_params q = [0..<length vals] \<and>
       (if save_creates ?rv (objs s1 a) fs fc fu
        then is_insert_of (model_of ?rv mo) q \<and> inst_row ?rv (model_of ?rv mo) (objs s1 a)
          (entry_cols (model_of ?rv mo) (i_custom_pk (objs s1 a))) = Inr (bound_row vals q)
        else is_update_of (model_of ?rv mo) q \<and> rmap (set_clause ?rv (model_of ?rv mo) (objs s1 a))
            (set_names (model_of ?rv mo) (update_names (model_of ?rv mo) fs)) = Inr (bound_row vals q) \<and>
          (\<exists>k. pk_db_value ?rv (model_of ?rv mo) (objs s1 a) = Inr k \<and> bound_key vals q = TWrap k))"
  proof (cases "save_creates ?rv (objs s1 a) fs fc fu")
    case True
    with save_row_cases [OF r] o m2 have "execute_insert ?rv e mo a s2 = (Ret (), s3)" by simp
    from insert_row_sent [OF assms(6) e' m2 this] o s' True show ?thesis by auto
  next
    case False
    with save_row_cases [OF r] o m2 obtain n where "execute_update ?rv e mo a fs s2 = (Ret n, s3)" by auto
    from update_row_sent [OF assms(6,7,5) o(3) e' m2 assms(8) this] o s' False show ?thesis by auto
  qed
  with d show ?thesis by (auto simp: s')
qed

definition sample_sv :: "(stmt \<times> pyval list) list save_env" where
  "sample_sv = \<lparr> run = sample_rv, registry = [], listen = (\<lambda>l a. iret ()) \<rparr>"

lemma sample_sv_simps [simp]: "run sample_sv = sample_rv" "listeners_of (registry sample_sv) sg mo = []"
  by (simp_all add: sample_sv_def listeners_of_def)

lemma sample_models [simp]: "i_model (objs sample_session a) = sample_user"
  by (simp add: sample_session_def new_user_def)

lemma Ret_ex: "(case fst p of Ret x \<Rightarrow> True | _ \<Rightarrow> False) \<Longrightarrow> \<exists>x t. p = (Ret x, t)"
  by (cases p) (auto split: outcome.splits)

theorem save_sends_one_witness:
  "\<exists>s' q vals r. save sample_sv 0 [] False False sample_session = (Ret (), s') \<and> i_saved (objs s' 0) \<and>
     send sample_rv q vals [] = (Ret r, sdb s') \<and> bound_row vals q = [(''name'', TWrap (VStr ''ann''))]"
proof -
  have "(case fst (save sample_sv 0 [] False False sample_session) of Ret x \<Rightarrow> True | _ \<Rightarrow> False)" by code_simp
  from Ret_ex [OF this] obtain s' where x: "save sample_sv 0 [] False False sample_session = (Ret (), s')" by auto
  have prems: "caches_ok (run sample_sv) sample_session" "owns_key (run sample_sv) sample_user"
    "columns_ok (model_of (run sample_sv) sample_user)" "names_ok (model_of (run sample_sv) sample_user)" "distinct []"
    using sample_caches user_owns_key user_columns by simp_all
  from save_sends_one [OF x sample_sv_simps(2) sample_models prems] obtain t q vals r where
    *: "i_saved (objs s' 0)" "set_async_defaults sample_rv 0 sample_session = (Ret (), t)"
    "send sample_rv q vals (sdb sample_session) = (Ret r, sdb s')"
    "if save_creates sample_rv (objs t 0) [] False False
     then inst_row sample_rv sample_meta (objs t 0) (entry_cols sample_meta (i_custom_pk (objs t 0))) = Inr (bound_row vals q) else True"
    by (auto split: if_splits)
  have "(case set_async_defaults sample_rv 0 sample_session of (r, t) \<Rightarrow> save_creates sample_rv (objs t 0) [] False False \<and>
      inst_row sample_rv sample_meta (objs t 0) (entry_cols sample_meta (i_custom_pk (objs t 0))) = Inr [(''name'', TWrap (VStr ''ann''))])"
    by code_simp
  with *(2,4) have "bound_row vals q = [(''name'', TWrap (VStr ''ann''))]" by simp
  moreover have "sdb sample_session = []" by (simp add: sample_session_def)
  ultimately show ?thesis using x *(1,3) by metis
qed

text \<open>A save of an instance with a key and no pending defaults, that is not forced.\<close>

lemma set_async_none:
  "awaits s (i_await (objs s a)) = [] \<Longrightarrow> set_async_defaults rv a s = (Ret (), t) \<Longrightarrow>
     i_dict (objs t a) = i_dict (objs s a) \<and> i_saved (objs t a) = i_saved (objs s a) \<and>
     i_model (objs t a) = i_model (objs s a) \<and> i_custom_pk (objs t a) = i_custom_pk (objs s a)"
  by (auto simp: set_async_defaults_def iseq_def new_await_def update_obj_def)

lemma save_creates_cong:
  "i_dict i = i_dict j \<Longrightarrow> i_saved i = i_saved j \<Longrightarrow> i_model i = i_model j \<Longrightarrow> save_creates rv i = save_creates rv j"
  by (intro ext) (simp add: save_creates_def)

lemma delete_keeps:
  assumes "delete sv a s = (Ret (), s')" and "\<And>sg. listeners_of (registry sv) sg mo = []"
    and "i_model (objs s a) = mo" and "caches_ok (run sv) s" and "owns_key (run sv) mo"
  shows "i_saved (objs s' a)" "i_model (objs s' a) = mo" "caches_ok (run sv) s'"
proof -
  let ?P = "\<lambda>t. i_saved (objs t a) \<and> i_model (objs t a) = mo \<and> caches_ok (run sv) t"
  from assms(1) have saved: "i_saved (objs s a)" by (auto simp: delete_def split: if_splits)
  have l1: "wait_for_listeners sv PreDelete a s = (Ret (), s)" using no_listeners assms(2,3) by metis
  from assms(1) saved obtain e t n u where e: "executor_init (run sv) mo s = (Ret e, t)"
    and d: "execute_delete (run sv) e mo a t = (Ret n, u)" and l2: "wait_for_listeners sv PostDelete a u = (Ret (), s')"
    by (auto simp: delete_def iseq_def l1 assms(3) ibind_Ret)
  note ei = executor_init_spec [OF e assms(4,5)]
  have "keeps ?P (execute_delete (run sv) e mo a)"
    by (rule keeps_execute(4) [where fs = "[]"])
      (use get_update_sql_caches [of "run sv" mo "[]"] in \<open>simp_all add: keeps_def get_update_sql_objs inert_def\<close>)
  moreover have "?P t" using ei saved assms(3) by simp
  ultimately have "?P (snd (execute_delete (run sv) e mo a t))" by (rule keepsD)
  with d have u: "?P u" by simp
  with no_listeners [of sv PostDelete u a] assms(2) l2 have "s' = u" by simp
  with u show "i_saved (objs s' a)" "i_model (objs s' a) = mo" "caches_ok (run sv) s'" by simp_all
qed

text \<open>
  Deleting does not make an instance unsaved: a later save sends an UPDATE for the row that is
  gone, and returns whatever number of rows the database says it has changed.
\<close>

theorem delete_then_save_updates:
  assumes "delete sv a s = (Ret (), s1)" and "save sv a [] False False s1 = (Ret (), s2)"
    and "\<And>sg. listeners_of (registry sv) sg mo = []"
    and "i_model (objs s a) = mo" and "caches_ok (run sv) s" and "owns_key (run sv) mo"
    and "columns_ok (model_of (run sv) mo)" and "names_ok (model_of (run sv) mo)"
    and "awaits s1 (i_await (objs s1 a)) = []"
    and "map_of (i_dict (objs s1 a)) (pk_attr (model_of (run sv) mo)) = Some k" and "k \<noteq> APy VNone"
  shows "i_saved (objs s2 a) \<and>
     (\<exists>q vals r. send (run sv) q vals (sdb s1) = (Ret r, sdb s2) \<and> is_update_of (model_of (run sv) mo) q)"
proof -
  note d = delete_keeps [OF assms(1,3-6)]
  from save_sends_one [OF assms(2,3) d(2,3) assms(6-8)]
  obtain t q vals r where "i_saved (objs s2 a)" and t: "set_async_defaults (run sv) a s1 = (Ret (), t)"
    and q: "send (run sv) q vals (sdb s1) = (Ret r, sdb s2)"
    and c: "if save_creates (run sv) (objs t a) [] False False then is_insert_of (model_of (run sv) mo) q else is_update_of (model_of (run sv) mo) q"
    by (auto split: if_splits)
  have "\<not> save_creates (run sv) (objs t a) [] False False"
    using set_async_none [OF assms(9) t] d(1,2) assms(10,11) by (simp add: save_creates_def)
  with c q \<open>i_saved (objs s2 a)\<close> show ?thesis by auto
qed

text \<open>A database whose statements change no row.\<close>

definition empty_sv :: "(stmt \<times> pyval list) list save_env" where
  "empty_sv = sample_sv\<lparr>run := sample_rv\<lparr>send := (\<lambda>q vals d. (Ret (RowCount 0), d @ [(q, vals)]))\<rparr>\<rparr>"

definition saved_session :: "(stmt \<times> pyval list) list session" where
  "saved_session = sample_session\<lparr>objs := (\<lambda>_. (new_user ''bob'' True)\<lparr>i_saved := True\<rparr>)\<rparr>"

theorem delete_then_save_updates_witness:
  "\<exists>s1 s2 q vals r. delete empty_sv 0 saved_session = (Ret (), s1) \<and> save empty_sv 0 [] False False s1 = (Ret (), s2) \<and>
     send (run empty_sv) q vals (sdb s1) = (Ret r, sdb s2) \<and> row_count r = 0 \<and> is_update_of sample_meta q"
proof -
  have "(case delete empty_sv 0 saved_session of (r, s1) \<Rightarrow>
      r = Ret () \<and> fst (save empty_sv 0 [] False False s1) = Ret () \<and> awaits s1 (i_await (objs s1 0)) = [] \<and>
      map_of (i_dict (objs s1 0)) ''id'' = Some (APy (VInt 7)))"
    by code_simp
  then obtain s1 s2 where d: "delete empty_sv 0 saved_session = (Ret (), s1)"
    and sv: "save empty_sv 0 [] False False s1 = (Ret (), s2)"
    and aw: "awaits s1 (i_await (objs s1 0)) = []" and k: "map_of (i_dict (objs s1 0)) ''id'' = Some (APy (VInt 7))"
    by (auto split: prod.splits) (metis prod.collapse)
  have e: "orm (run empty_sv) = orm sample_rv" "connection_name (run empty_sv) = connection_name sample_rv"
    by (simp_all add: empty_sv_def)
  have l: "listeners_of (registry empty_sv) sg sample_user = []" for sg by (simp add: empty_sv_def)
  have m: "i_model (objs saved_session 0) = sample_user" by (simp add: saved_session_def new_user_def)
  have c: "caches_ok (run empty_sv) saved_session" by (simp add: caches_ok_def saved_session_def sample_session_def)
  have o: "owns_key (run empty_sv) sample_user"
    using user_owns_key(1) by (simp add: owns_key_def exec_key_of_def e)
  have w: "columns_ok (model_of (run empty_sv) sample_user)" "names_ok (model_of (run empty_sv) sample_user)"
    using user_columns user_owns_key(2) by (simp_all add: e)
  have mm: "model_of (run empty_sv) sample_user = sample_meta" by (simp add: e)
  have k': "map_of (i_dict (objs s1 0)) (pk_attr (model_of (run empty_sv) sample_user)) = Some (APy (VInt 7))"
    using k by (simp add: mm sample_meta_def)
  have "APy (VInt 7) \<noteq> APy VNone" by simp
  from delete_then_save_updates [OF d sv l m c o w aw k' this] obtain q vals r where
    q: "send (run empty_sv) q vals (sdb s1) = (Ret r, sdb s2)" "is_update_of sample_meta q" by (auto simp: mm)
  from q(1) have "row_count r = 0" by (auto simp: empty_sv_def)
  with d sv q show ?thesis by blast
qed

text \<open>
  \<^verbatim>\<open>clone(pk=v)\<close> of an instance whose key the database generates: the clone has the key \<^verbatim>\<open>v\<close>, but
  saving it inserts a row without the key column, since the clone takes over that the instance
  was not made with a key of its own.
\<close>

theorem clone_key_ignored:
  assumes "clone_instance (run sv) a (Some v) s = (Ret b, s1)" and "save sv b [] False False s1 = (Ret (), s2)"
    and "i_model (objs s a) = mo" and "\<not> i_custom_pk (objs s a)"
    and "\<And>sg. listeners_of (registry sv) sg mo = []" and "caches_ok (run sv) s" and "owns_key (run sv) mo"
    and "columns_ok (model_of (run sv) mo)" and "names_ok (model_of (run sv) mo)"
    and "''pk'' \<notin> set (fetch_fields (model_of (run sv) mo))"
    and "map_of (fields_map (model_of (run sv) mo)) (pk_attr (model_of (run sv) mo)) = Some f" and "generated f"
  shows "map_of (i_dict (objs s1 b)) (pk_attr (model_of (run sv) mo)) = Some (APy v) \<and>
     (\<exists>t q vals r cols. set_async_defaults (run sv) b s1 = (Ret (), t) \<and> send (run sv) q vals (sdb s1) = (Ret r, sdb s2) \<and> is_insert_of (model_of (run sv) mo) q \<and>
       inst_row (run sv) (model_of (run sv) mo) (objs t b) cols = Inr (bound_row vals q) \<and>
       pk_attr (model_of (run sv) mo) \<notin> set cols)"
proof -
  let ?m = "model_of (run sv) mo"
  let ?s0 = "s\<lparr>objs := (objs s)(next_obj s := objs s a), next_obj := Suc (next_obj s)\<rparr>"
  have m0: "i_model (objs ?s0 (next_obj s)) = mo" using assms(3) by simp
  have np: "''pk'' \<notin> set (fk_fields ?m) \<union> set (o2o_fields ?m) \<union> set (backward_fk_fields ?m) \<union>
      set (backward_o2o_fields ?m) \<union> set (m2m_fields ?m)"
    using assms(8,10) unfolding columns_ok_def meta_wf_def by blast
  have "py_setattr (run sv) (next_obj s) ''pk'' (APy v) ?s0 = (Ret (), put_state (next_obj s) (pk_attr ?m) (APy v) ?s0)"
    using np m0 by (simp add: py_setattr_def Let_def put_raw_def imodify_def)
  with assms(1) have b: "b = next_obj s"
    and s1: "s1 = (let t = put_state (next_obj s) (pk_attr ?m) (APy v) ?s0 in
      t\<lparr>objs := (objs t)(next_obj s := (objs t (next_obj s))\<lparr>i_saved := False\<rparr>)\<rparr>)"
    by (auto simp: clone_instance_def alloc_obj_def iseq_def update_obj_def imodify_def Let_def)
  from s1 b have k: "map_of (i_dict (objs s1 b)) (pk_attr ?m) = Some (APy v)"
    by (simp add: put_state_def Let_def map_of_update)
  have i1: "i_model (objs s1 b) = mo" "\<not> i_saved (objs s1 b)" "\<not> i_custom_pk (objs s1 b)"
    using s1 b assms(3,4) by (simp_all add: Let_def)
  have "caches_ok (run sv) s1"
    using assms(6) s1 caches_ok_cong [of s1 s "run sv"] by (simp add: Let_def)
  from save_sends_one [OF assms(2,5) i1(1) this assms(7,8,9)] obtain t q vals r where
    t: "set_async_defaults (run sv) b s1 = (Ret (), t)" and q: "send (run sv) q vals (sdb s1) = (Ret r, sdb s2)"
    and c: "save_creates (run sv) (objs t b) [] False False \<longrightarrow> is_insert_of ?m q \<and>
      inst_row (run sv) ?m (objs t b) (entry_cols ?m (i_custom_pk (objs t b))) = Inr (bound_row vals q)"
    by (auto split: if_splits)
  have like: "\<not> i_saved (objs t b)" "\<not> i_custom_pk (objs t b)"
    using set_async_defaults_like [of "run sv" b s1] t i1(2,3) by (simp_all add: inst_like_def)
  then have "save_creates (run sv) (objs t b) [] False False" by (simp add: save_creates_def)
  with c like(2) have "is_insert_of ?m q" "inst_row (run sv) ?m (objs t b) (entry_cols ?m False) = Inr (bound_row vals q)"
    by simp_all
  moreover have "pk_attr ?m \<notin> set (entry_cols ?m False)"
    using assms(11,12) by (simp add: entry_cols_def insert_cols_def)
  ultimately show ?thesis using k q t by blast
qed

theorem clone_key_ignored_witness:
  "\<exists>b s1 s2 q vals r. clone_instance sample_rv 0 (Some (VInt 9)) sample_session = (Ret b, s1) \<and>
     map_of (i_dict (objs s1 b)) ''id'' = Some (APy (VInt 9)) \<and> save sample_sv b [] False False s1 = (Ret (), s2) \<and>
     send sample_rv q vals (sdb s1) = (Ret r, sdb s2) \<and> is_insert_of sample_meta q"
proof -
  have "(case clone_instance sample_rv 0 (Some (VInt 9)) sample_session of (Ret b, s1) \<Rightarrow>
      fst (save sample_sv b [] False False s1) = Ret () | _ \<Rightarrow> False)"
    by code_simp
  then obtain b s1 s2 where c: "clone_instance sample_rv 0 (Some (VInt 9)) sample_session = (Ret b, s1)"
    and sv: "save sample_sv b [] False False s1 = (Ret (), s2)"
    by (auto split: prod.splits outcome.splits) (metis prod.collapse)
  have c': "clone_instance (run sample_sv) 0 (Some (VInt 9)) sample_session = (Ret b, s1)" using c by simp
  have n: "\<not> i_custom_pk (objs sample_session 0)" by (simp add: sample_session_def new_user_def)
  have prems: "caches_ok (run sample_sv) sample_session" "owns_key (run sample_sv) sample_user"
    "columns_ok (model_of (run sample_sv) sample_user)" "names_ok (model_of (run sample_sv) sample_user)"
    "''pk'' \<notin> set (fetch_fields (model_of (run sample_sv) sample_user))"
    "map_of (fields_map (model_of (run sample_sv) sample_user)) (pk_attr (model_of (run sample_sv) sample_user)) = Some id_field"
    "generated id_field"
    using sample_caches user_owns_key user_columns
    by (simp_all add: sample_meta_def empty_meta_def id_field_def pk_field_def)
  from clone_key_ignored [OF c' sv sample_models n sample_sv_simps(2) prems] obtain q vals r where
    "map_of (i_dict (objs s1 b)) ''id'' = Some (APy (VInt 9))" "send sample_rv q vals (sdb s1) = (Ret r, sdb s2)" "is_insert_of sample_meta q"
    by (auto simp: sample_meta_def)
  with c sv show ?thesis by blast
qed

lemma executor_init_objs: "objs (snd (executor_init rv mo s)) = objs s \<and> sdb (snd (executor_init rv mo s)) = sdb s"
  by (cases "map_of (exec_cache s) (exec_key_of rv mo)"; cases "make_entry rv mo")
    (simp_all add: executor_init_def Let_def iseq_def)

text \<open>
  An instance that was loaded in part is never saved as a whole: \<^verbatim>\<open>save()\<close> without fields
  raises, forced or not, and sends nothing.
\<close>

theorem partial_save_refused:
  assumes "i_partial (objs s a)"
  shows "fst (save sv a [] fc fu s) \<noteq> Ret () \<and> sdb (snd (save sv a [] fc fu s)) = sdb s"
proof -
  let ?rv = "run sv"
  define rest where "rest = (\<lambda>e. iseq (partial_check ?rv a []) (iseq (wait_for_listeners sv PreSave a)
       (iseq (save_row ?rv e a [] fc fu) (iseq (update_obj a (\<lambda>i. i\<lparr>i_saved := True\<rparr>)) (wait_for_listeners sv PostSave a)))))"
  have sv: "save sv a [] fc fu = iseq (set_async_defaults ?rv a)
      (ibind (\<lambda>s. executor_init ?rv (i_model (objs s a)) s) rest)"
    by (simp add: save_def Let_def rest_def)
  have rest: "rest e u = (Raise IncompleteInstanceError, u)" if "i_partial (objs u a)" for e u
    using that by (simp add: rest_def iseq_def partial_check_def)
  obtain r t where d: "set_async_defaults ?rv a s = (r, t)" by fastforce
  from set_async_defaults_like [of ?rv a s] d assms have t: "i_partial (objs t a)" "sdb t = sdb s"
    by (simp_all add: inst_like_def)
  obtain r' u where e: "executor_init ?rv (i_model (objs t a)) t = (r', u)" by fastforce
  from executor_init_objs [of ?rv "i_model (objs t a)" t] e t have u: "i_partial (objs u a)" "sdb u = sdb s" by simp_all
  show ?thesis
    using d e t u rest [OF u(1)] by (cases r; cases r') (simp_all add: sv iseq_def ibind_def)
qed

theorem partial_save_refused_witness:
  "fst (save sample_sv 0 [] False True (sample_session\<lparr>objs := (\<lambda>_. (new_user ''ann'' False)\<lparr>i_partial := True\<rparr>)\<rparr>)) \<noteq> Ret ()"
  using partial_save_refused [of "sample_session\<lparr>objs := (\<lambda>_. (new_user ''ann'' False)\<lparr>i_partial := True\<rparr>)\<rparr>" 0 sample_sv False True]
  by simp

lemma refresh_attr_plain:
  assumes "plain_col (model_of rv mo) c" "meta_wf (model_of rv mo)" "i_model (objs t a) = mo" "i_model (objs t b) = mo"
  shows "refresh_attr rv a b c t =
     (Ret (), put_state a c (case map_of (i_dict (objs t b)) c of None \<Rightarrow> APy VNone | Some v \<Rightarrow> v) t)"
proof -
  let ?v = "case map_of (i_dict (objs t b)) c of None \<Rightarrow> APy VNone | Some v \<Rightarrow> v"
  have "icatch (py_getattr rv b c) (\<lambda>e. if exn_isa e PyAttributeError then iret (APy VNone) else iraise e) t = (Ret ?v, t)"
    using assms(1,2,4) by (cases "map_of (i_dict (objs t b)) c") (simp_all add: icatch_def py_getattr_plain attr_at_def)
  moreover have "py_setattr rv a c ?v t = (Ret (), put_state a c ?v t)"
    by (rule py_setattr_plain) (use assms in simp_all)
  ultimately show ?thesis by (simp add: refresh_attr_def ibind_def)
qed

lemma refresh_loop:
  assumes "ifold (\<lambda>n _. refresh_attr rv a b n) cs () t = (Ret (), s')"
    and "\<forall>c\<in>set cs. plain_col (model_of rv mo) c" "meta_wf (model_of rv mo)"
    and "i_model (objs t a) = mo" "i_model (objs t b) = mo" "map_of (i_dict (objs t b)) col = None" "b \<noteq> a" "n \<notin> set cs"
  shows "map_of (i_dict (objs s' a)) n = map_of (i_dict (objs t a)) n \<and>
     (col \<in> set cs \<or> map_of (i_dict (objs t a)) col = Some (APy VNone) \<longrightarrow> map_of (i_dict (objs s' a)) col = Some (APy VNone))"
  using assms(1,2,4-8)
proof (induction cs arbitrary: t)
  case (Cons c cs)
  let ?v = "case map_of (i_dict (objs t b)) c of None \<Rightarrow> APy VNone | Some v \<Rightarrow> v"
  let ?t = "put_state a c ?v t"
  have "refresh_attr rv a b c t = (Ret (), ?t)"
    by (rule refresh_attr_plain) (use Cons.prems assms(3) in simp_all)
  with Cons.prems(1) have l: "ifold (\<lambda>n _. refresh_attr rv a b n) cs () ?t = (Ret (), s')" by simp
  have o: "objs ?t b = objs t b" "i_model (objs ?t a) = mo" using Cons.prems(3,6) by (simp_all add: put_state_def Let_def)
  have d: "map_of (i_dict (objs ?t a)) = (map_of (i_dict (objs t a)))(c \<mapsto> ?v)"
    by (simp add: put_state_def Let_def update_conv')
  from Cons.IH [OF l] Cons.prems(2,4-7) o show ?case unfolding d by (auto split: if_splits)
qed (simp add: iret_def)

text \<open>
  \<^verbatim>\<open>refresh_from_db()\<close> sets attributes by the names of columns: a field whose column has another
  name keeps the value it had, and the instance gets \<^verbatim>\<open>None\<close> under the column's name.
\<close>

theorem refresh_misses_renamed:
  assumes "refresh_from_db rv fetch a [] s = (Ret (), s')" and "i_model (objs s a) = mo"
    and "columns_ok (model_of rv mo)" and "\<forall>c\<in>set (db_fields (model_of rv mo)). plain_col (model_of rv mo) c"
    and "\<And>k b t. fetch [] k s = (Ret b, t) \<Longrightarrow> objs t a = objs s a \<and> b \<noteq> a \<and> i_model (objs t b) = mo \<and>
      map_of (i_dict (objs t b)) col = None"
    and "map_of (fields_db_projection (model_of rv mo)) n = Some col"
    and "n \<notin> set (db_fields (model_of rv mo))"
  shows "map_of (i_dict (objs s' a)) n = map_of (i_dict (objs s a)) n \<and>
     map_of (i_dict (objs s' a)) col = Some (APy VNone)"
proof -
  let ?m = "model_of rv mo"
  have wf: "meta_wf ?m" using assms(3) by (simp add: columns_ok_def)
  with assms(6) have col: "col \<in> set (db_fields ?m)"
    unfolding meta_wf_def using map_of_SomeD [OF assms(6)] by (metis image_eqI snd_conv)
  obtain k where k: "get_pk_val rv a s = (Ret k, s)" by (simp add: get_pk_val_def iget_def)
  from assms(1) obtain b t where f: "fetch [] k s = (Ret b, t)"
    and l: "ifold (\<lambda>n _. refresh_attr rv a b n) (db_fields ?m) () t = (Ret (), s')"
    by (auto simp: refresh_from_db_def assms(2) ibind_Ret k split: if_splits)
  note ft = assms(5) [OF f]
  from refresh_loop [OF l assms(4) wf] ft assms(2,7) col show ?thesis by auto
qed

text \<open>A user whose name is in the column \<open>nm\<close>; the row has another name now.\<close>

definition renamed_meta :: meta where
  "renamed_meta = sample_meta\<lparr>db_fields := [''id'', ''nm''], fields_db_projection := [(''id'', ''id''), (''name'', ''nm'')]\<rparr>"

definition renamed_rv :: "(stmt \<times> pyval list) list run_env" where
  "renamed_rv = sample_rv\<lparr>orm := (orm sample_rv)\<lparr>metas := (\<lambda>_. renamed_meta)\<rparr>\<rparr>"

definition fetch_new :: "string list \<Rightarrow> attr \<Rightarrow> ((stmt \<times> pyval list) list, nat) sio" where
  "fetch_new names k = alloc_obj (new_user ''new'' True)"

theorem refresh_misses_renamed_witness:
  "\<exists>s'. refresh_from_db renamed_rv fetch_new 0 [] saved_session = (Ret (), s') \<and>
     map_of (i_dict (objs s' 0)) ''name'' = Some (APy (VStr ''bob'')) \<and> map_of (i_dict (objs s' 0)) ''nm'' = Some (APy VNone)"
proof -
  have "(case fst (refresh_from_db renamed_rv fetch_new 0 [] saved_session) of Ret x \<Rightarrow> True | _ \<Rightarrow> False)" by code_simp
  from Ret_ex [OF this] obtain s' where x: "refresh_from_db renamed_rv fetch_new 0 [] saved_session = (Ret (), s')" by auto
  have m: "i_model (objs saved_session 0) = sample_user" by (simp add: saved_session_def new_user_def)
  have mm: "model_of renamed_rv k = renamed_meta" for k by (simp add: renamed_rv_def)
  have "meta_wf renamed_meta"
    by (auto simp: meta_wf_def kind_sets_ok_def renamed_meta_def sample_meta_def empty_meta_def id_field_def name_field_def
        pk_field_def plain_field_def dict_has_def has_db_field_def)
  then have w: "columns_ok (model_of renamed_rv sample_user)"
    unfolding mm by (auto simp: columns_ok_def plain_col_def renamed_meta_def sample_meta_def empty_meta_def dict_has_def
        id_field_def pk_field_def split: if_splits)
  have c: "\<forall>c\<in>set (db_fields (model_of renamed_rv sample_user)). plain_col (model_of renamed_rv sample_user) c"
    unfolding mm by (simp add: plain_col_def renamed_meta_def sample_meta_def empty_meta_def)
  have f: "objs t 0 = objs saved_session 0 \<and> b \<noteq> 0 \<and> i_model (objs t b) = sample_user \<and> map_of (i_dict (objs t b)) ''nm'' = None"
    if "fetch_new [] k saved_session = (Ret b, t)" for k b t
    using that by (auto simp: fetch_new_def alloc_obj_def saved_session_def sample_session_def new_user_def)
  have p: "map_of (fields_db_projection (model_of renamed_rv sample_user)) ''name'' = Some ''nm''"
    "''name'' \<notin> set (db_fields (model_of renamed_rv sample_user))"
    unfolding mm by (simp_all add: renamed_meta_def)
  from refresh_misses_renamed [OF x m w c f p] x show ?thesis
    by (auto simp: saved_session_def new_user_def)
qed

end
