(* ===== verification/ValueQueries.thy ===== *)
theory ValueQueries
  imports QuerySets Objects
begin

text \<open>
  The queries behind \<^verbatim>\<open>values()\<close> and \<^verbatim>\<open>values_list()\<close> (\<^verbatim>\<open>FieldSelectQuery\<close>, \<^verbatim>\<open>ValuesListQuery\<close>,
  \<^verbatim>\<open>ValuesQuery\<close> of \<^verbatim>\<open>queryset.py\<close>): which names are asked for, the columns they select along
  the relations a name goes through, and how the values of a row are converted back.
\<close>

section \<open>The names asked for\<close>

record values_query = pending +
  vq_fields :: "(string, string) dict"        \<comment> \<open>the name in the result, the name asked for\<close>
  vq_flat :: bool
  vq_single :: bool
  vq_raise_does_not_exist :: bool
  vq_distinct :: bool
  vq_group_bys :: "string list"

definition to_values_query :: "(string, string) dict \<Rightarrow> bool \<Rightarrow> qset \<Rightarrow> values_query" where
  "to_values_query fs flat qs =
     pending.extend (to_pending qs) \<lparr> vq_fields = fs, vq_flat = flat, vq_single = qs_single qs,
       vq_raise_does_not_exist = qs_raise_does_not_exist qs, vq_distinct = qs_distinct qs,
       vq_group_bys = qs_group_bys qs \<rparr>"

text \<open>\<^verbatim>\<open>values_list\<close> numbers its columns; without names it takes the fields whose name is a column's.\<close>

definition values_list_names :: "meta \<Rightarrow> qset \<Rightarrow> string list \<Rightarrow> string list" where
  "values_list_names m qs names =
     (if names \<noteq> [] then names
      else filter (\<lambda>n. n \<in> set (db_fields m)) (map fst (fields_map m)) @ map fst (qs_annotations qs))"

definition numbered :: "string list \<Rightarrow> (string, string) dict" where
  "numbered names = map (\<lambda>i. (str_int (int i), names ! i)) [0..<length names]"

definition values_list :: "orm_env \<Rightarrow> string list \<Rightarrow> bool \<Rightarrow> qset \<Rightarrow> values_query res" where
  "values_list env names flat qs =
     (let ns = values_list_names (metas env (qs_model qs)) qs names in
      if flat \<and> length ns \<noteq> 1 then Inl PyTypeError
      else Inr (to_values_query (numbered ns) flat qs))"

text \<open>\<^verbatim>\<open>values(*args, **kwargs)\<close>\<close>

definition add_value_name :: "string \<times> string \<Rightarrow> (string, string) dict \<Rightarrow> (string, string) dict res" where
  "add_value_name kv fs = (case kv of (k, n) \<Rightarrow> if dict_has fs k then Inl FieldError else Inr (fs @ [(k, n)]))"

definition values_names :: "meta \<Rightarrow> qset \<Rightarrow> string list \<Rightarrow> (string, string) dict \<Rightarrow> (string, string) dict res" where
  "values_names m qs args kw =
     (if args \<noteq> [] \<or> kw \<noteq> [] then rfold add_value_name (map (\<lambda>n. (n, n)) args @ kw) []
      else
        Inr (dict_update [] (map (\<lambda>n. (n, n))
          (filter (dict_has (fields_db_projection m)) (map fst (fields_map m)) @ map fst (qs_annotations qs)))))"

definition qs_values :: "orm_env \<Rightarrow> string list \<Rightarrow> (string, string) dict \<Rightarrow> qset \<Rightarrow> values_query res" where
  "qs_values env args kw qs =
     rbind (values_names (metas env (qs_model qs)) qs args kw) (\<lambda>fs.
     Inr (to_values_query fs False qs))"

text \<open>
  Without names \<^verbatim>\<open>values_list\<close> compares names of fields with names of columns, so it leaves out
  a field whose column is called otherwise; \<^verbatim>\<open>values\<close> has it.
\<close>

lemma dict_update_self: "map_of (dict_update d (map (\<lambda>n. (n, n)) ns)) n = (if n \<in> set ns then Some n else map_of d n)"
  by (induction ns arbitrary: d) (auto simp: map_of_update)

lemma values_list_omits_renamed:
  assumes "n \<in> set (map fst (fields_map m))" and "dict_has (fields_db_projection m) n"
    and "n \<notin> set (db_fields m)" and "n \<notin> set (map fst (qs_annotations qs))"
  shows "n \<notin> set (values_list_names m qs [])"
    and "\<exists>fs. values_names m qs [] [] = Inr fs \<and> map_of fs n = Some n"
proof -
  show "n \<notin> set (values_list_names m qs [])" using assms(3,4) by (simp add: values_list_names_def)
  let ?ns = "filter (dict_has (fields_db_projection m)) (map fst (fields_map m)) @ map fst (qs_annotations qs)"
  from assms(1,2) have "map_of (dict_update [] (map (\<lambda>n. (n, n)) ?ns)) n = Some n"
    unfolding dict_update_self by auto
  moreover have "values_names m qs [] [] = Inr (dict_update [] (map (\<lambda>n. (n, n)) ?ns))"
    by (simp only: values_names_def) simp
  ultimately show "\<exists>fs. values_names m qs [] [] = Inr fs \<and> map_of fs n = Some n" by blast
qed

section \<open>Selecting\<close>

text \<open>
  \<^verbatim>\<open>_join_table_with_forwarded_fields\<close>: \<open>self\<close> is the model of the query, \<open>mo\<close> the model the
  name belongs to. Python's recursion limit is \<open>lim\<close>.
\<close>

fun join_forwarded ::
    "orm_env \<Rightarrow> nat \<Rightarrow> mid \<Rightarrow> mid \<Rightarrow> table \<Rightarrow> string \<Rightarrow> string \<Rightarrow> aq \<Rightarrow> ((table \<times> string) \<times> aq) res" where
  "join_forwarded env 0 self mo t fld fwd st = Inl PyRecursionError"
| "join_forwarded env (Suc lim) self mo t fld fwd st =
     (let m = metas env mo in
      case (map_of (fields_db_projection m) fld, fwd) of
        (Some c, []) \<Rightarrow> Inr ((t, c), st)
      | (Some c, _ # _) \<Rightarrow> Inl FieldError
      | (None, _) \<Rightarrow>
          if fld \<in> set (fetch_fields (metas env self)) \<and> fwd = [] then Inl PyValueError
          else case map_of (fields_map m) fld of
            None \<Rightarrow> Inl FieldError
          | Some f \<Rightarrow>
              rbind (join_table_by_field env t fld f st) (\<lambda>(rt, st1).
              rbind (opt_attr (related_model (rel f))) (\<lambda>rm.
              case partition2 fwd of (nxt, fwd') \<Rightarrow> join_forwarded env lim self rm rt nxt fwd' st1)))"

text \<open>\<^verbatim>\<open>add_field_to_select_query\<close>; the first component are the query's own annotations.\<close>

definition add_field_to_select ::
    "orm_env \<Rightarrow> nat \<Rightarrow> mid \<Rightarrow> annotations \<Rightarrow> string \<times> string \<Rightarrow> annotations \<times> aq \<Rightarrow> (annotations \<times> aq) res" where
  "add_field_to_select env lim mo anns kn s =
     (case (kn, s) of ((return_as, fld), (own, st)) \<Rightarrow>
        let m = metas env mo in
        case map_of anns fld of
          Some a \<Rightarrow> Inr (AList.update return_as a own, st)
        | None \<Rightarrow>
          (case map_of (fields_db_projection m) fld of
             Some c \<Rightarrow> Inr (own, add_select (TAs (TField (basetable m) c) return_as) st)
           | None \<Rightarrow>
             if fld \<in> set (fetch_fields m) then Inl PyValueError
             else
               (case partition2 fld of (hd_fld, fwd) \<Rightarrow>
                  if hd_fld \<in> set (fetch_fields m) then
                    rbind (join_forwarded env lim mo mo (basetable m) hd_fld fwd st) (\<lambda>((t, c), st1).
                    Inr (own, add_select (TAs (TField t c) return_as) st1))
                  else Inl FieldError)))"

definition resolve_group_by ::
    "orm_env \<Rightarrow> nat \<Rightarrow> mid \<Rightarrow> annotations \<Rightarrow> string \<Rightarrow> term list \<times> aq \<Rightarrow> (term list \<times> aq) res" where
  "resolve_group_by env lim mo own name s =
     (case s of (gs, st) \<Rightarrow>
        if dict_has own name then Inr (gs @ [TAlias name], st)
        else case partition2 name of (fld, fwd) \<Rightarrow>
          rbind (join_forwarded env lim mo mo (basetable (metas env mo)) fld fwd st) (\<lambda>((t, c), st1).
          Inr (gs @ [TAs (TField t c) name], st1)))"

definition set_limits_truthy :: "values_query \<Rightarrow> sqlq \<Rightarrow> sqlq" where
  "set_limits_truthy q s =
     s\<lparr>sq_limit := (case pd_limit q of Some n \<Rightarrow> if n \<noteq> 0 then Some n else sq_limit s | None \<Rightarrow> sq_limit s),
       sq_offset := (case pd_offset q of Some n \<Rightarrow> if n \<noteq> 0 then Some n else sq_offset s | None \<Rightarrow> sq_offset s),
       sq_distinct := (sq_distinct s \<or> vq_distinct q)\<rparr>"

text \<open>
  \<^verbatim>\<open>_make_query\<close> of both classes; \<open>own\<close> are the annotations an earlier call has left in
  \<^verbatim>\<open>self._annotations\<close>, none at first.
\<close>

definition make_values_query ::
    "orm_env \<Rightarrow> nat \<Rightarrow> set_store \<Rightarrow> values_query \<Rightarrow> annotations \<Rightarrow> (annotations \<times> aq) res" where
  "make_values_query env lim h q own0 =
     (let mo = pd_model q; t = basetable (metas env mo) in
      rbind (rfold (add_field_to_select env lim mo (pd_annotations q)) (vq_fields q) (own0, pending_init)) (\<lambda>(own, st1).
      rbind (resolve_ordering env lim mo mo t (pd_orderings q) (pd_annotations q) st1) (\<lambda>st2.
      rbind (resolve_filters env lim mo own (pd_q_objects q) (pd_annotations q) (pd_custom_filters q) st2) (\<lambda>st3.
      let st4 = on_query (set_limits_truthy q) st3 in
      rbind (if vq_group_bys q \<noteq> [] then
               rbind (rfold (resolve_group_by env lim mo own) (vq_group_bys q) ([], st4)) (\<lambda>(gs, st).
               Inr (on_query (\<lambda>s. s\<lparr>sq_groupbys := gs\<rparr>) st))
             else Inr st4) (\<lambda>st5.
      Inr (own, hint_indexes (cells h (pd_force_indexes q)) (cells h (pd_use_indexes q)) st5))))))"

section \<open>Reading rows\<close>

text \<open>\<^verbatim>\<open>lambda x: x\<close> or the \<^verbatim>\<open>to_python_value\<close> of a field.\<close>

datatype decoder = AsIs | Via field

definition native_names :: "'d run_env \<Rightarrow> meta \<Rightarrow> string list" where
  "native_names rv m =
     (case db_field_table rv m of
        Inl e \<Rightarrow> []   \<comment> \<open>the models have been finalised\<close>
      | Inr tab \<Rightarrow> map (\<lambda>(key, n, f). n) (filter (\<lambda>(key, n, f). from_db_kind rv f = Native) tab))"

text \<open>\<^verbatim>\<open>getattr(annotation, "field_object", None)\<close> after the query has been made.\<close>

definition ann_field_object :: "orm_env \<Rightarrow> nat \<Rightarrow> mid \<Rightarrow> annotation \<Rightarrow> field option" where
  "ann_field_object env lim mo a =
     (case a of
        AnnFn g \<Rightarrow> (case fn_resolve env lim mo (basetable (metas env mo)) g of
                     Inr (js, x, fo) \<Rightarrow> fo | Inl e \<Rightarrow> None)
      | _ \<Rightarrow> None)"

text \<open>\<^verbatim>\<open>resolve_to_python_value\<close>: it looks at the annotations on every step of a path.\<close>

function resolve_to_python ::
    "'d run_env \<Rightarrow> nat \<Rightarrow> mid \<Rightarrow> annotations \<Rightarrow> mid \<Rightarrow> string \<Rightarrow> decoder res" where
  "resolve_to_python rv lim self anns mo fld =
     (if fld \<in> set (fetch_fields (model_of rv mo)) then Inr AsIs
      else if fld \<in> set (native_names rv (model_of rv mo)) then Inr AsIs
      else case map_of anns fld of
        Some a \<Rightarrow> Inr (case ann_field_object (orm rv) lim self a of Some f \<Rightarrow> Via f | None \<Rightarrow> AsIs)
      | None \<Rightarrow>
        (case map_of (fields_map (model_of rv mo)) fld of
           Some f \<Rightarrow> Inr (Via f)
         | None \<Rightarrow>
           if fst (partition2 fld) \<in> set (fetch_fields (model_of rv mo)) then
             (case map_of (fields_map (model_of rv mo)) (fst (partition2 fld)) of
                None \<Rightarrow> Inl PyKeyError
              | Some f \<Rightarrow>
                  (case related_model (rel f) of
                     None \<Rightarrow> Inl PyAttributeError
                   | Some rm \<Rightarrow> resolve_to_python rv lim self anns rm (snd (partition2 fld))))
           else Inl FieldError))"
  by pat_completeness auto
termination
  by (relation "measure (\<lambda>(rv, lim, self, anns, mo, fld). length fld)") (auto intro: forwarded_shorter)

declare resolve_to_python.simps [simp del]

definition decode :: "'d run_env \<Rightarrow> decoder \<Rightarrow> pyval \<Rightarrow> pyval res" where
  "decode rv d v = (case d of AsIs \<Rightarrow> Inr v | Via f \<Rightarrow> to_python_value (lib (orm rv)) (ce (orm rv)) f v)"

definition value_columns :: "'d run_env \<Rightarrow> nat \<Rightarrow> values_query \<Rightarrow> (string \<times> decoder) list res" where
  "value_columns rv lim q =
     rmap (\<lambda>(k, n). rbind (resolve_to_python rv lim (pd_model q) (pd_annotations q) (pd_model q) n) (\<lambda>d. Inr (k, d)))
       (vq_fields q)"

text \<open>The end of \<^verbatim>\<open>ValuesListQuery._execute\<close> and of \<^verbatim>\<open>ValuesQuery._execute\<close> on the rows of the result.\<close>

definition list_row :: "'d run_env \<Rightarrow> (string \<times> decoder) list \<Rightarrow> (string, pyval) dict \<Rightarrow> pyval list res" where
  "list_row rv cols row = rmap (\<lambda>(k, d). rbind (dict_at row k) (decode rv d)) cols"

definition flat_row :: "'d run_env \<Rightarrow> (string \<times> decoder) list \<Rightarrow> (string, pyval) dict \<Rightarrow> pyval list res" where
  "flat_row rv cols row =
     (case cols of [] \<Rightarrow> Inl PyIndexError
      | (_, d) # _ \<Rightarrow> rbind (dict_at row ''0'') (\<lambda>v. rbind (decode rv d v) (\<lambda>w. Inr [w])))"

definition values_list_execute ::
    "'d run_env \<Rightarrow> nat \<Rightarrow> values_query \<Rightarrow> (string, pyval) dict list \<Rightarrow> pyval list answer res" where
  "values_list_execute rv lim q rows =
     rbind (value_columns rv lim q) (\<lambda>cols.
     rbind (rmap (if vq_flat q then flat_row rv cols else list_row rv cols) rows) (\<lambda>vals.
     pick (vq_single q) (vq_raise_does_not_exist q) vals))"

definition dict_row :: "'d run_env \<Rightarrow> (string \<times> decoder) list \<Rightarrow> (string, pyval) dict \<Rightarrow> (string, pyval) dict res" where
  "dict_row rv cols row =
     rfold (\<lambda>(k, d) r. rbind (dict_at r k) (\<lambda>v. rbind (decode rv d v) (\<lambda>w. Inr (AList.update k w r))))
       (filter (\<lambda>(k, d). d \<noteq> AsIs) cols) row"

definition values_execute ::
    "'d run_env \<Rightarrow> nat \<Rightarrow> values_query \<Rightarrow> (string, pyval) dict list \<Rightarrow> (string, pyval) dict answer res" where
  "values_execute rv lim q rows =
     rbind (value_columns rv lim q) (\<lambda>cols.
     rbind (rmap (dict_row rv cols) rows) (\<lambda>vals.
     pick (vq_single q) (vq_raise_does_not_exist q) vals))"


section \<open>Later steps keep what is selected and joined\<close>

definition aq_le :: "pypika \<Rightarrow> aq \<Rightarrow> aq \<Rightarrow> bool" where
  "aq_le p st u \<longleftrightarrow> set (sq_selects (query st)) \<subseteq> set (sq_selects (query u)) \<and> covers p st u"

lemma aq_le_refl [simp]: "aq_le p st st"
  by (simp add: aq_le_def)

lemma aq_le_trans: "aq_le p a b \<Longrightarrow> aq_le p b c \<Longrightarrow> aq_le p a c"
  by (auto simp: aq_le_def intro: covers_trans)

lemma aq_le_on_query: "(\<And>s. sq_selects (g s) = sq_selects s) \<Longrightarrow> aq_le p st (on_query g st)"
  by (simp add: aq_le_def covers_def)

lemma aq_le_add [simp]: "aq_le p st (add_select x st)" "aq_le p st (add_orderby x d st)"
  by (auto simp: aq_le_def covers_def add_select_def add_orderby_def)

lemma add_join_selects: "sq_selects (query (add_joins p js st)) = sq_selects (query st)"
  unfolding add_joins_def by (induction js arbitrary: st) (simp_all add: add_join_def)

lemma aq_le_add_joins [simp]: "aq_le p st (add_joins p js st)"
  by (simp add: aq_le_def add_join_selects add_joins_covers)

lemma aq_le_join_table: "join_table_by_field env t n f st = Inr (rt, st') \<Longrightarrow> aq_le (pp env) st st'"
  by (auto simp: join_table_by_field_def rbind_eq_Inr)

lemma aq_le_rfold:
  assumes "rfold f xs s = Inr s'" and "\<And>x u v. f x u = Inr v \<Longrightarrow> aq_le p (g u) (g v)"
  shows "aq_le p (g s) (g s')"
  by (rule rfold_invariant [where P = "\<lambda>u. aq_le p (g s) (g u)", OF assms(1)]) (auto intro: aq_le_trans assms(2))

lemma aq_le_closed: "step_closed p (aq_le p st)"
proof -
  have "aq_le p st (on_query g u)" if "aq_le p st u" "\<And>s. sq_selects (g s) = sq_selects s" for g u
    using that(1) aq_le_on_query [OF that(2)] by (rule aq_le_trans)
  then show ?thesis by (auto simp: step_closed_def quiet_closed_def intro: aq_le_trans)
qed

lemmas aq_le_ordering = resolve_ordering_keeps [OF _ aq_le_closed aq_le_refl]
lemmas aq_le_join_steps = join_steps_keeps [OF _ aq_le_closed aq_le_refl]
lemmas aq_le_annotate = resolve_annotate_keeps [OF _ aq_le_closed aq_le_refl]

lemma aq_le_filters:
  assumes "resolve_filters env lim mo own qs anns cf st = Inr st'"
  obtains b st1 where "resolve_annotate env lim mo own anns st = Inr (b, st1)" "aq_le (pp env) st1 st'"
proof -
  obtain b st1 where a: "resolve_annotate env lim mo own anns st = Inr (b, st1)"
    and P: "\<forall>P. quiet_closed (pp env) P \<longrightarrow> P st1 \<longrightarrow> P st'"
    by (rule resolve_filters_stages [OF assms(1)])
  with that [OF a] step_quiet [OF aq_le_closed] aq_le_refl show thesis by blast
qed

lemma join_forwarded_step:
  assumes "join_forwarded env (Suc lim) self mo t fld fwd st = Inr (tc, st')"
  obtains (column) c where "map_of (fields_db_projection (metas env mo)) fld = Some c" "fwd = []" "tc = (t, c)" "st' = st"
  | (relation) f rt st1 rm where "map_of (fields_db_projection (metas env mo)) fld = None"
      "map_of (fields_map (metas env mo)) fld = Some f" "join_table_by_field env t fld f st = Inr (rt, st1)"
      "related_model (rel f) = Some rm"
      "join_forwarded env lim self rm rt (fst (partition2 fwd)) (snd (partition2 fwd)) st1 = Inr (tc, st')"
proof (cases "map_of (fields_db_projection (metas env mo)) fld")
  case None
  obtain nxt fwd' where p: "partition2 fwd = (nxt, fwd')" by fastforce
  from assms None p show thesis
    by (auto simp: rbind_eq_Inr Let_def split: if_splits option.splits intro: relation)
next
  case (Some c)
  with assms show thesis by (cases fwd) (auto simp: Let_def intro: column)
qed

lemma aq_le_join_forwarded:
  "join_forwarded env lim self mo t fld fwd st = Inr (tc, st') \<Longrightarrow> aq_le (pp env) st st'"
proof (induction lim arbitrary: mo t fld fwd st)
  case (Suc lim)
  from Suc.prems show ?case
  proof (cases rule: join_forwarded_step)
    case (relation f rt st1 rm)
    from aq_le_join_table [OF relation(3)] Suc.IH [OF relation(5)] show ?thesis by (rule aq_le_trans)
  qed simp
qed simp

section \<open>What is selected under a name\<close>

text \<open>The parts of a name, and the column it leads to: the specification of the selected columns.\<close>

function path_names :: "string \<Rightarrow> string list" where
  "path_names s = (if snd (partition2 s) = [] then [fst (partition2 s)]
                   else fst (partition2 s) # path_names (snd (partition2 s)))"
  by pat_completeness auto
termination
proof (relation "measure length")
  fix s assume "snd (partition2 s) \<noteq> []"
  then have "s \<noteq> []" by auto
  then show "(snd (partition2 s), s) \<in> measure length" by (simp add: partition2_length)
qed simp

declare path_names.simps [simp del]

fun path_column :: "orm_env \<Rightarrow> mid \<Rightarrow> table \<Rightarrow> string list \<Rightarrow> (table \<times> string) option" where
  "path_column env mo t [] = None"
| "path_column env mo t [n] = map_option (Pair t) (map_of (fields_db_projection (metas env mo)) n)"
| "path_column env mo t (n # k # ns) =
     (case map_of (fields_map (metas env mo)) n of
        None \<Rightarrow> None
      | Some f \<Rightarrow>
          (case (get_joins_for_related_field (metas env) (pp env) t f n, related_model (rel f)) of
             (Inr js, Some rm) \<Rightarrow> path_column env rm (fst (last js)) (k # ns)
           | _ \<Rightarrow> None))"

text \<open>No field has the empty name.\<close>

definition fields_named :: "orm_env \<Rightarrow> bool" where
  "fields_named env \<longleftrightarrow> (\<forall>mo. map_of (fields_map (metas env mo)) [] = None \<and> map_of (fields_db_projection (metas env mo)) [] = None)"

lemma fields_namedD:
  assumes "fields_named env"
  shows "map_of (fields_map (metas env mo)) [] = None" "map_of (fields_db_projection (metas env mo)) [] = None"
  using assms unfolding fields_named_def by blast+

lemma join_table_joined:
  assumes "\<And>t. tbl_eq (pp env) t t" and "join_table_by_field env t n f st = Inr (rt, st')"
  obtains js where "get_joins_for_related_field (metas env) (pp env) t f n = Inr js" "rt = fst (last js)"
    "tbl_in (pp env) rt (joined_tables st')"
proof -
  from assms(2) obtain js where js: "get_joins_for_related_field (metas env) (pp env) t f n = Inr js"
    "rt = fst (last js)" "st' = add_joins (pp env) js st"
    by (auto simp: join_table_by_field_def rbind_eq_Inr)
  from add_joins_has [OF assms(1), of "last js" js st] get_joins_not_Nil [OF js(1)] js
  have "tbl_in (pp env) rt (joined_tables st')" by simp
  with js(1,2) that show thesis by blast
qed

lemma join_forwarded_column:
  assumes "fields_named env" and refl: "\<And>t. tbl_eq (pp env) t t"
  shows "join_forwarded env lim self mo t fld fwd st = Inr ((t', c), st') \<Longrightarrow>
    path_column env mo t (fld # (if fwd = [] then [] else path_names fwd)) = Some (t', c) \<and>
    (t' = t \<and> fwd = [] \<or> tbl_in (pp env) t' (joined_tables st'))"
proof (induction lim arbitrary: mo t fld fwd st)
  case (Suc lim)
  from Suc.prems show ?case
  proof (cases rule: join_forwarded_step)
    case (relation f rt st1 rm)
    have ne: "fwd \<noteq> []"
    proof
      assume "fwd = []"
      with relation(5) have "join_forwarded env lim self rm rt [] [] st1 = Inr ((t', c), st')" by simp
      then show False
        by (cases lim) (simp_all add: fields_namedD [OF assms(1)] Let_def split: if_splits)
    qed
    define nxt fwd' where "nxt = fst (partition2 fwd)" and "fwd' = snd (partition2 fwd)"
    from path_names.simps [of fwd] have pn: "path_names fwd = nxt # (if fwd' = [] then [] else path_names fwd')"
      by (simp add: nxt_def fwd'_def)
    from Suc.IH [OF relation(5)] have ih: "path_column env rm rt (path_names fwd) = Some (t', c)"
      "t' = rt \<or> tbl_in (pp env) t' (joined_tables st')"
      by (auto simp: pn nxt_def fwd'_def)
    obtain js where js: "get_joins_for_related_field (metas env) (pp env) t f fld = Inr js" "rt = fst (last js)"
      "tbl_in (pp env) rt (joined_tables st1)"
      by (rule join_table_joined [OF refl relation(3)])
    from aq_le_join_forwarded [OF relation(5)] js(3) have "tbl_in (pp env) rt (joined_tables st')"
      by (simp add: aq_le_def covers_def)
    with ih ne js relation(2,4) show ?thesis by (auto simp: pn)
  qed simp
qed simp

text \<open>The term a name is selected as, once its step has run.\<close>

definition selected_as :: "orm_env \<Rightarrow> mid \<Rightarrow> string \<Rightarrow> string \<Rightarrow> aq \<Rightarrow> bool" where
  "selected_as env mo k n st \<longleftrightarrow>
     (\<exists>t c. path_column env mo (basetable (metas env mo)) (path_names n) = Some (t, c) \<and>
        TAs (TField t c) k \<in> set (sq_selects (query st)) \<and>
        (t = basetable (metas env mo) \<or> tbl_in (pp env) t (joined_tables st)))"

lemma selected_as_le: "selected_as env mo k n st \<Longrightarrow> aq_le (pp env) st u \<Longrightarrow> selected_as env mo k n u"
  unfolding selected_as_def aq_le_def covers_def by blast

text \<open>A field's name holds no double underscore (\<^verbatim>\<open>__\<close> separates the parts of a path).\<close>

definition plain_names :: "orm_env \<Rightarrow> bool" where
  "plain_names env \<longleftrightarrow> fields_named env \<and>
     (\<forall>mo n. dict_has (fields_db_projection (metas env mo)) n \<longrightarrow> partition2 n = (n, []))"

lemma plain_namesD:
  assumes "plain_names env" and "map_of (fields_db_projection (metas env mo)) n = Some c"
  shows "partition2 n = (n, [])"
  using assms unfolding plain_names_def dict_has_def by blast

lemma add_field_selects:
  assumes "plain_names env" and refl: "\<And>t. tbl_eq (pp env) t t"
    and "add_field_to_select env lim mo anns (k, n) (own, st) = Inr (own', st')"
  shows "aq_le (pp env) st st'"
    and "case map_of anns n of Some a \<Rightarrow> own' = AList.update k a own | None \<Rightarrow> own' = own \<and> selected_as env mo k n st'"
proof -
  let ?m = "metas env mo"
  have "aq_le (pp env) st st' \<and> (case map_of anns n of Some a \<Rightarrow> own' = AList.update k a own
      | None \<Rightarrow> own' = own \<and> selected_as env mo k n st')"
  proof (cases "map_of anns n")
    case None
    show ?thesis
    proof (cases "map_of (fields_db_projection ?m) n")
      case (Some c)
      from plain_namesD [OF assms(1) Some] have "path_names n = [n]"
        by (simp add: path_names.simps [of n])
      with None Some assms(3) show ?thesis
        by (auto simp: add_field_to_select_def Let_def selected_as_def add_select_def on_query_def aq_le_def covers_def)
    next
      case np: None
      obtain hd_fld fwd where p: "partition2 n = (hd_fld, fwd)" by fastforce
      from None np p assms(3) obtain t c st1 where j: "join_forwarded env lim mo mo (basetable ?m) hd_fld fwd st = Inr ((t, c), st1)"
        and st': "own' = own" "st' = add_select (TAs (TField t c) k) st1"
        by (auto simp: add_field_to_select_def Let_def rbind_eq_Inr split: if_splits)
      from join_forwarded_column [OF _ refl j] assms(1)
      have "path_column env mo (basetable ?m) (path_names n) = Some (t, c)"
        "t = basetable ?m \<or> tbl_in (pp env) t (joined_tables st1)"
        by (auto simp: plain_names_def path_names.simps [of n] p)
      moreover have "TAs (TField t c) k \<in> set (sq_selects (query st'))" by (simp add: st'(2) add_select_def)
      ultimately have "selected_as env mo k n st'" unfolding selected_as_def st'(2) by auto
      moreover have "aq_le (pp env) st st'"
        using aq_le_join_forwarded [OF j] aq_le_add(1) unfolding st'(2) by (rule aq_le_trans)
      ultimately show ?thesis using None st'(1) by simp
    qed
  qed (use assms(3) in \<open>auto simp: add_field_to_select_def Let_def\<close>)
  then show "aq_le (pp env) st st'" "case map_of anns n of Some a \<Rightarrow> own' = AList.update k a own
      | None \<Rightarrow> own' = own \<and> selected_as env mo k n st'" by simp_all
qed

lemma add_fields_select:
  assumes "plain_names env" and refl: "\<And>t. tbl_eq (pp env) t t"
  shows "rfold (add_field_to_select env lim mo anns) fs (own, st) = Inr (own', st') \<Longrightarrow> distinct (map fst fs) \<Longrightarrow>
    aq_le (pp env) st st' \<and> (\<forall>k. k \<notin> fst ` set fs \<longrightarrow> map_of own' k = map_of own k) \<and>
    (\<forall>(k, n) \<in> set fs. case map_of anns n of Some a \<Rightarrow> map_of own' k = Some a | None \<Rightarrow> selected_as env mo k n st')"
proof (induction fs arbitrary: own st)
  case (Cons f fs)
  obtain k n where f: "f = (k, n)" by fastforce
  from Cons.prems(1) f obtain own1 st1 where 1: "add_field_to_select env lim mo anns (k, n) (own, st) = Inr (own1, st1)"
    and 2: "rfold (add_field_to_select env lim mo anns) fs (own1, st1) = Inr (own', st')"
    by (auto simp: rbind_eq_Inr)
  note a = add_field_selects [OF assms 1]
  from Cons.prems(2) f have k: "k \<notin> fst ` set fs" and d: "distinct (map fst fs)" by auto
  note ih = Cons.IH [OF 2 d]
  from a(1) ih have "aq_le (pp env) st st'" by (blast intro: aq_le_trans)
  moreover have "map_of own' j = map_of own j" if "j \<notin> fst ` set (f # fs)" for j
    using that ih a(2) f by (auto simp: map_of_update split: option.splits)
  moreover have "case map_of anns n of Some a \<Rightarrow> map_of own' k = Some a | None \<Rightarrow> selected_as env mo k n st'"
    using a(2) ih k by (auto simp: map_of_update split: option.splits intro: selected_as_le)
  ultimately show ?case using ih f by simp
qed simp

lemma resolve_annotate_selects:
  assumes "resolve_annotate env lim mo own extra st = Inr (b, st')" and "dict_has own k"
    and "map_of (dict_update own extra) k = Some a"
  shows "\<exists>js x. ann_resolve env lim mo (basetable (metas env mo)) a = Inr (js, x) \<and>
    TAs x k \<in> set (sq_selects (query st'))"
proof -
  let ?res = "\<lambda>(k, a). rbind (ann_resolve env lim mo (basetable (metas env mo)) a) (\<lambda>i. Inr (k, i))"
  let ?step = "\<lambda>(k, js, x) s. rbind (join_steps env js s) (\<lambda>s'.
      Inr (if dict_has own k then add_select (TAs x k) s' else s'))"
  from assms(2) have "own \<noteq> []" by (auto simp: dict_has_def)
  with assms(1) obtain infos where i: "rmap ?res (dict_update own extra) = Inr infos" "rfold ?step infos st = Inr st'"
    by (auto simp: resolve_annotate_def rbind_eq_Inr)
  from assms(3) obtain j where j: "j < length (dict_update own extra)" "dict_update own extra ! j = (k, a)"
    by (auto dest!: map_of_SomeD simp: in_set_conv_nth)
  from rmap_nth [OF i(1) j(1)] j(2) obtain js x where x: "ann_resolve env lim mo (basetable (metas env mo)) a = Inr (js, x)"
    "infos ! j = (k, js, x)" by (auto simp: rbind_eq_Inr)
  from rmap_length [OF i(1)] j(1) x(2) have mem: "(k, js, x) \<in> set infos" by (metis nth_mem)
  have step_le: "aq_le (pp env) u v" if "?step y u = Inr v" for y u v
  proof -
    from that obtain k' js' x' u' where jj: "join_steps env js' u = Inr u'"
      and v: "v = (if dict_has own k' then add_select (TAs x' k') u' else u')"
      by (auto simp: rbind_eq_Inr split: prod.splits)
    have "aq_le (pp env) u' v" by (simp add: v)
    with aq_le_join_steps [OF jj] show ?thesis by (rule aq_le_trans)
  qed
  from split_list [OF mem] obtain pre post where ps: "infos = pre @ (k, js, x) # post" by blast
  from i(2) obtain u v where "?step (k, js, x) u = Inr v" and rest: "rfold ?step post v = Inr st'"
    unfolding ps by (auto simp: rfold_append rbind_eq_Inr)
  then have "TAs x k \<in> set (sq_selects (query v))"
    using assms(2) by (auto simp: rbind_eq_Inr add_select_def)
  moreover have "aq_le (pp env) v st'"
    by (rule aq_le_rfold [where g = id, simplified, OF rest]) (rule step_le)
  ultimately have "TAs x k \<in> set (sq_selects (query st'))" by (auto simp: aq_le_def)
  with x(1) show ?thesis by blast
qed

lemma group_by_le:
  "resolve_group_by env lim mo own n u = Inr v \<Longrightarrow> aq_le (pp env) (snd u) (snd v)"
  by (cases u) (auto simp: resolve_group_by_def rbind_eq_Inr split: if_splits prod.splits intro: aq_le_join_forwarded)

lemma make_values_stages:
  assumes "make_values_query env lim h q own0 = Inr (own, st)"
  obtains st1 st2 b st3 where
    "rfold (add_field_to_select env lim (pd_model q) (pd_annotations q)) (vq_fields q) (own0, pending_init) = Inr (own, st1)"
    "aq_le (pp env) st1 st2"
    "resolve_annotate env lim (pd_model q) own (pd_annotations q) st2 = Inr (b, st3)" "aq_le (pp env) st3 st"
proof -
  let ?mo = "pd_model q"
  from assms obtain st1 st2 st4 st5 where 1: "rfold (add_field_to_select env lim ?mo (pd_annotations q)) (vq_fields q) (own0, pending_init) = Inr (own, st1)"
    and 2: "resolve_ordering env lim ?mo ?mo (basetable (metas env ?mo)) (pd_orderings q) (pd_annotations q) st1 = Inr st2"
    and 3: "resolve_filters env lim ?mo own (pd_q_objects q) (pd_annotations q) (pd_custom_filters q) st2 = Inr st4"
    and 4: "(if vq_group_bys q \<noteq> [] then
               rbind (rfold (resolve_group_by env lim ?mo own) (vq_group_bys q) ([], on_query (set_limits_truthy q) st4)) (\<lambda>(gs, st).
               Inr (on_query (\<lambda>s. s\<lparr>sq_groupbys := gs\<rparr>) st))
             else Inr (on_query (set_limits_truthy q) st4)) = Inr st5"
    and 5: "st = hint_indexes (cells h (pd_force_indexes q)) (cells h (pd_use_indexes q)) st5"
    by (auto simp: make_values_query_def Let_def rbind_eq_Inr)
  obtain b st3 where ann: "resolve_annotate env lim ?mo own (pd_annotations q) st2 = Inr (b, st3)" "aq_le (pp env) st3 st4"
    by (rule aq_le_filters [OF 3])
  have "aq_le (pp env) st4 (on_query (set_limits_truthy q) st4)"
    by (rule aq_le_on_query) (simp add: set_limits_truthy_def)
  moreover have "aq_le (pp env) (on_query (set_limits_truthy q) st4) st5"
  proof (cases "vq_group_bys q = []")
    case False
    with 4 obtain gs u where u: "rfold (resolve_group_by env lim ?mo own) (vq_group_bys q) ([], on_query (set_limits_truthy q) st4) = Inr (gs, u)"
      and st5: "st5 = on_query (\<lambda>s. s\<lparr>sq_groupbys := gs\<rparr>) u" by (auto simp: rbind_eq_Inr)
    from aq_le_rfold [where g = snd, OF u, of "pp env"] have "aq_le (pp env) (on_query (set_limits_truthy q) st4) u"
      by (auto intro: group_by_le)
    moreover have "aq_le (pp env) u st5" unfolding st5 by (rule aq_le_on_query) simp
    ultimately show ?thesis by (rule aq_le_trans)
  qed (use 4 in simp)
  moreover have "aq_le (pp env) st5 st" unfolding 5 hint_indexes_def by (rule aq_le_on_query) simp
  ultimately have "aq_le (pp env) st3 st" using ann(2) by (blast intro: aq_le_trans)
  from that [OF 1 aq_le_ordering [OF 2] ann(1) this] show thesis .
qed


definition sample_values :: values_query where
  "sample_values = to_values_query [(''id'', ''id''), (''by'', ''author__name''), (''n'', ''top'')] False
     (sample_qs\<lparr>qs_annotations := [(''top'', AnnFn (Max_fn (FPath ''id'') False None))]\<rparr>)"

lemma ordered_plain: "plain_names ordered_env"
proof -
  have p: "metas ordered_env mo = metas ordered_env sample_post \<or> metas ordered_env mo = metas ordered_env sample_user" for mo
    by (simp add: ordered_env_def sample_env_def sample_metas_def sample_user_def sample_post_def)
  have "map_of (fields_map m) [] = None \<and> map_of (fields_db_projection m) [] = None \<and>
      (\<forall>n. dict_has (fields_db_projection m) n \<longrightarrow> partition2 n = (n, []))"
    if "m = metas ordered_env sample_post \<or> m = metas ordered_env sample_user" for m
    using that by (auto simp: ordered_env_def sample_env_def sample_metas_def sample_post_meta_def sample_meta_def
        sample_post_def sample_user_def dict_has_def split: if_splits)
  with p show ?thesis unfolding plain_names_def fields_named_def by metis
qed


end
