(* ===== verification/WriteQueries.thy ===== *)
theory WriteQueries
  imports QuerySets ExecutorProofs
begin

text \<open>
  \<^verbatim>\<open>UpdateQuery\<close>, \<^verbatim>\<open>BulkUpdateQuery\<close> and \<^verbatim>\<open>BulkCreateQuery\<close> of \<^verbatim>\<open>queryset.py\<close>: the assignments of
  an UPDATE and the values bound to it, the CASE expressions of a bulk update, and the
  INSERT statements of a bulk creation.
\<close>

section \<open>UPDATE\<close>

text \<open>A keyword argument of \<^verbatim>\<open>update()\<close>: a value or term, or a call of the ORM's functions.\<close>

datatype update_arg = UpAttr attr | UpFn fn

text \<open>\<^verbatim>\<open>executor.column_map[name](value, None)\<close>: without an instance nothing is written back.\<close>

definition column_conv :: "'d run_env \<Rightarrow> exec_entry \<Rightarrow> string \<Rightarrow> pyval \<Rightarrow> pyval res" where
  "column_conv rv e name v =
     rbind (dict_at (column_map e) name) (\<lambda>f. rbind (field_to_db (orm rv) f v ModelClass) (\<lambda>(w, wb). Inr w))"

text \<open>The column and the value of one keyword argument.\<close>

definition update_fk_arg ::
    "'d run_env \<Rightarrow> exec_entry \<Rightarrow> meta \<Rightarrow> field \<Rightarrow> update_arg \<Rightarrow> ('d, string option \<times> pyval) sio" where
  "update_fk_arg rv e m f v =
     ibind (ilift (case source_field f of None \<Rightarrow> Inl PyKeyError | Some n \<Rightarrow> Inr n)) (\<lambda>fk_field.
     ibind (ilift (dict_at (fields_map m) fk_field)) (\<lambda>kf.
     ibind (ilift (to_field_obj (metas (orm rv)) f)) (\<lambda>tf.
     ibind (case v of UpAttr w \<Rightarrow> attr_of w (model_field_name tf) | UpFn g \<Rightarrow> iraise PyAttributeError) (\<lambda>x.
     ibind (ilift (column_conv rv e fk_field (plain x))) (\<lambda>y.
     iret (source_field kf, y))))))"

definition update_plain_arg ::
    "'d run_env \<Rightarrow> nat \<Rightarrow> exec_entry \<Rightarrow> mid \<Rightarrow> string \<Rightarrow> update_arg \<Rightarrow> (string option \<times> pyval) res" where
  "update_plain_arg rv lim e mo key v =
     (let m = model_of rv mo in
      case map_of (fields_db_projection m) key of
        None \<Rightarrow> Inl FieldError
      | Some col \<Rightarrow>
          (case v of
             UpFn g \<Rightarrow> rbind (fn_resolve (orm rv) lim mo (basetable m) g) (\<lambda>(js, x, fo). Inr (Some col, VTerm x))
           | UpAttr (APy (VTerm x)) \<Rightarrow>
               rbind (resolver_arithmetic_expression (orm rv) m x) (\<lambda>(y, fo). Inr (Some col, VTerm y))
           | UpAttr w \<Rightarrow> rbind (column_conv rv e key (plain w)) (\<lambda>y. Inr (Some col, y))))"

definition update_assignment ::
    "'d run_env \<Rightarrow> nat \<Rightarrow> exec_entry \<Rightarrow> mid \<Rightarrow> string \<times> update_arg \<Rightarrow> ('d, string option \<times> pyval) sio" where
  "update_assignment rv lim e mo kv =
     (case kv of (key, v) \<Rightarrow>
        let m = model_of rv mo in
        case map_of (fields_map m) key of
          None \<Rightarrow> iraise FieldError
        | Some f \<Rightarrow>
            if pk f then iraise IntegrityError
            else if is_fk (fclass f) then update_fk_arg rv e m f v
            else ilift (update_plain_arg rv lim e mo key v))"

text \<open>\<^verbatim>\<open>self.query.set(...)\<close>: a term as it is, any other value at the next placeholder.\<close>

definition place_value :: "string option \<times> pyval \<Rightarrow> (string option \<times> term) list \<times> pyval list \<times> nat \<Rightarrow>
    (string option \<times> term) list \<times> pyval list \<times> nat" where
  "place_value cw s =
     (case (cw, s) of ((col, w), (sets, vals, n)) \<Rightarrow>
        case w of VTerm x \<Rightarrow> (sets @ [(col, x)], vals, n) | _ \<Rightarrow> (sets @ [(col, TParam n)], vals @ [w], Suc n))"

definition update_statement :: "aq \<Rightarrow> aq" where
  "update_statement st = st\<lparr>query := base_query\<lparr>sq_kind := UpdateStatement\<rparr>\<rparr>"

text \<open>
  \<^verbatim>\<open>UpdateQuery._make_query\<close>; \<open>st\<close> and \<open>vals\<close> are what an earlier call has left of
  \<^verbatim>\<open>_joined_tables\<close> and \<^verbatim>\<open>values\<close>.
\<close>

definition make_update_query ::
    "'d run_env \<Rightarrow> nat \<Rightarrow> pending \<Rightarrow> (string, update_arg) dict \<Rightarrow> aq \<times> pyval list \<Rightarrow> ('d, aq \<times> pyval list) sio" where
  "make_update_query rv lim p kw prev =
     (let env = orm rv; mo = pd_model p in
      ibind (ilift (limit_order env lim p (update_statement (fst prev)))) (\<lambda>st1.
      ibind (ilift (pending_filters env lim p st1)) (\<lambda>st2.
      ibind (executor_init rv mo) (\<lambda>e.
      ibind (ifold (\<lambda>kv s. ibind (update_assignment rv lim e mo kv) (\<lambda>cw. iret (place_value cw s))) kw
               ([], snd prev, 0)) (\<lambda>(sets, vals, n).
      iret (on_query (\<lambda>s. s\<lparr>sq_sets := sets\<rparr>) st2, vals))))))"

definition update_execute ::
    "'d run_env \<Rightarrow> nat \<Rightarrow> pending \<Rightarrow> (string, update_arg) dict \<Rightarrow> aq \<times> pyval list \<Rightarrow> ('d, int) sio" where
  "update_execute rv lim p kw prev =
     ibind (make_update_query rv lim p kw prev) (\<lambda>(st, vals).
     ibind (send_db rv (Built (query st)) vals) (\<lambda>r. iret (row_count r)))"

section \<open>Bulk update\<close>

text \<open>\<^verbatim>\<open>bulk_update\<close>'s check on the primary keys.\<close>

definition bulk_update_check :: "'d run_env \<Rightarrow> nat list \<Rightarrow> ('d, unit) sio" where
  "bulk_update_check rv as s =
     (if list_ex (\<lambda>a. fst (get_pk_val rv a s) = Ret (APy VNone)) as then (Raise PyValueError, s) else (Ret (), s))"

text \<open>
  The branch of an object in the CASE of a field, and the object's key. The value is converted
  by the field, not by the executor.
\<close>

definition bulk_term :: "'d run_env \<Rightarrow> field \<Rightarrow> pyval \<Rightarrow> term" where
  "bulk_term rv f w =
     (if dialect (orm rv) = ''postgres''
      then TFunc ''CAST'' [VTerm (TWrap w), VStr (case get_for_dialect f ''postgres'' ''SQL_TYPE'' of DStr ty \<Rightarrow> ty | _ \<Rightarrow> [])]
      else TWrap w)"

definition bulk_when ::
    "'d run_env \<Rightarrow> exec_entry \<Rightarrow> mid \<Rightarrow> string \<Rightarrow> string \<Rightarrow> nat \<Rightarrow> ('d, (crit \<times> term) \<times> pyval) sio" where
  "bulk_when rv e mo pkcol fld a s =
     ibind (get_pk_val rv a) (\<lambda>k.
     ibind (ilift (column_conv rv e (pk_attr (model_of rv mo)) (plain k))) (\<lambda>kv.
     ibind (ilift (dict_at (fields_map (model_of rv (i_model (objs s a)))) fld)) (\<lambda>f.
     ibind (py_getattr rv a fld) (\<lambda>v.
     ibind (ilift (to_db_value (lib (orm rv)) (ce (orm rv)) f (plain v) (Instance (plain v)))) (\<lambda>(w, wb).
     iseq (case wb of None \<Rightarrow> iret () | Some x \<Rightarrow> py_setattr rv a (model_field_name f) (APy x))
       (iret ((CCmp CmpEq (TBare pkcol) kv, bulk_term rv f w), kv))))))) s"

text \<open>\<^verbatim>\<open>query.set(field, case)\<close> with the field's name, and \<^verbatim>\<open>query.where(pk.isin(pk_list))\<close>.\<close>

definition bulk_field ::
    "'d run_env \<Rightarrow> exec_entry \<Rightarrow> mid \<Rightarrow> string \<Rightarrow> nat list \<Rightarrow> string \<Rightarrow> sqlq \<Rightarrow> ('d, sqlq) sio" where
  "bulk_field rv e mo pkcol as fld q =
     ibind (imap (bulk_when rv e mo pkcol fld) as) (\<lambda>bs.
     iret (q\<lparr>sq_sets := sq_sets q @ [(Some fld, TCase (map fst bs) None)],
             sq_wheres := and_crit (sq_wheres q) (CIsIn (TBare pkcol) (VList (map snd bs)))\<rparr>))"

definition make_bulk_update ::
    "'d run_env \<Rightarrow> nat \<Rightarrow> pending \<Rightarrow> nat list \<Rightarrow> string list \<Rightarrow> int option \<Rightarrow> aq \<times> sqlq list \<Rightarrow>
     ('d, aq \<times> sqlq list) sio" where
  "make_bulk_update rv lim p as flds batch prev =
     (let env = orm rv; mo = pd_model p; m = model_of rv mo in
      ibind (ilift (limit_order env lim p (update_statement (fst prev)))) (\<lambda>st1.
      ibind (ilift (pending_filters env lim p st1)) (\<lambda>st2.
      ibind (executor_init rv mo) (\<lambda>e.
      ibind (ilift (dict_at (fields_map m) (pk_attr m))) (\<lambda>pf.
      ibind (ilift (chunk as batch)) (\<lambda>cs.
      ibind (ifold (\<lambda>c qs. ibind (ifold (bulk_field rv e mo (source_or pf (pk_attr m)) c) flds (query st2)) (\<lambda>q.
                iret (qs @ [q]))) cs (snd prev)) (\<lambda>qs.
      iret (st2, qs))))))))"

definition bulk_update_execute ::
    "'d run_env \<Rightarrow> nat \<Rightarrow> pending \<Rightarrow> nat list \<Rightarrow> string list \<Rightarrow> int option \<Rightarrow> aq \<times> sqlq list \<Rightarrow> ('d, int) sio" where
  "bulk_update_execute rv lim p as flds batch prev =
     ibind (make_bulk_update rv lim p as flds batch prev) (\<lambda>(st, qs).
     ifold (\<lambda>q n. ibind (send_db rv (Built q) []) (\<lambda>r. iret (n + row_count r))) qs 0)"

section \<open>Bulk creation\<close>

text \<open>The checks of \<^verbatim>\<open>bulk_create\<close> on its options.\<close>

definition bulk_create_check :: "bool \<Rightarrow> string list \<Rightarrow> string list \<Rightarrow> unit res" where
  "bulk_create_check ignore_conflicts update_fields on_conflict =
     (if ignore_conflicts \<and> update_fields \<noteq> [] then Inl PyValueError
      else if \<not> ignore_conflicts \<and> (update_fields \<noteq> [] \<and> on_conflict = [] \<or> on_conflict \<noteq> [] \<and> update_fields = [])
      then Inl PyValueError else Inr ())"

fun with_update :: "string \<Rightarrow> string list \<Rightarrow> string list \<Rightarrow> stmt \<Rightarrow> stmt" where
  "with_update tab on_conflict update_fields (InsertInto t cols ts ret ig) =
     InsertUpdate t cols ts ret (''new_'' @ tab) on_conflict update_fields"
| "with_update tab on_conflict update_fields q = q"

text \<open>The statements without and with the generated columns.\<close>

definition bulk_create_queries ::
    "'d run_env \<Rightarrow> mid \<Rightarrow> exec_entry \<Rightarrow> bool \<Rightarrow> string list \<Rightarrow> string list \<Rightarrow> (stmt \<times> stmt) res" where
  "bulk_create_queries rv mo e ignore_conflicts update_fields on_conflict =
     (let m = model_of rv mo in
      if ignore_conflicts \<or> update_fields \<noteq> [] then
        rbind (prepare_insert_columns m False) (\<lambda>(reg, columns).
        let ins = prepare_insert_statement rv m columns True ignore_conflicts in
        rbind (if generated_db_fields m \<noteq> [] then
                 rbind (prepare_insert_columns m True) (\<lambda>(reg_all, columns_all).
                 Inr (prepare_insert_statement rv m columns_all False ignore_conflicts))
               else Inr ins) (\<lambda>ins_all.
        Inr (if update_fields \<noteq> []
             then (with_update (db_table m) on_conflict update_fields ins, with_update (db_table m) on_conflict update_fields ins_all)
             else (ins, ins_all))))
      else Inr (insert_query e, insert_query_all e))"

definition bulk_create_chunk :: "'d run_env \<Rightarrow> exec_entry \<Rightarrow> stmt \<times> stmt \<Rightarrow> nat list \<Rightarrow> ('d, unit) sio" where
  "bulk_create_chunk rv e qs insts =
     ibind (ifold (bulk_row rv e) insts ([], [])) (\<lambda>(all_rows, reg_rows).
     iseq (iwhen (all_rows \<noteq> []) (send_many rv (snd qs) all_rows))
       (iwhen (reg_rows \<noteq> []) (send_many rv (fst qs) reg_rows)))"

definition bulk_create_execute ::
    "'d run_env \<Rightarrow> mid \<Rightarrow> nat list \<Rightarrow> int option \<Rightarrow> bool \<Rightarrow> string list \<Rightarrow> string list \<Rightarrow> ('d, unit) sio" where
  "bulk_create_execute rv mo as batch ignore_conflicts update_fields on_conflict =
     ibind (executor_init rv mo) (\<lambda>e.
     ibind (ilift (bulk_create_queries rv mo e ignore_conflicts update_fields on_conflict)) (\<lambda>qs.
     ibind (ilift (chunk as batch)) (\<lambda>cs. ifold (\<lambda>c _. bulk_create_chunk rv e qs c) cs ())))"

text \<open>Without options a bulk creation sends what the executor's bulk insert sends.\<close>

lemma ibind_ilift: "ibind (ilift (Inr x)) k = k x"
  by (rule ext) simp

lemma bulk_create_plain:
  "bulk_create_execute rv mo as batch False [] oc =
     ibind (executor_init rv mo) (\<lambda>e. execute_bulk_insert rv e as batch)"
proof -
  have "bulk_create_chunk rv e (insert_query e, insert_query_all e) = bulk_chunk rv e" for e
    by (intro ext) (simp add: bulk_create_chunk_def bulk_chunk_def)
  then show ?thesis
    by (simp add: ibind_ilift bulk_create_execute_def bulk_create_queries_def Let_def execute_bulk_insert_def)
qed

section \<open>What an UPDATE assigns\<close>

text \<open>The term a value is assigned as.\<close>

fun assigned_term :: "pyval \<Rightarrow> term" where
  "assigned_term (VTerm x) = x"
| "assigned_term w = TWrap w"

definition no_placeholder :: "string option \<times> pyval \<Rightarrow> bool" where
  "no_placeholder cw = (case snd cw of VTerm x \<Rightarrow> params_of [x] = [] | _ \<Rightarrow> True)"

lemma params_of_Nil: "params_of [x] = [] \<Longrightarrow> bind_param vals x = x"
  by (cases x) (auto simp: params_of_def)

lemma bind_param_append: "k < length vals \<Longrightarrow> bind_param (vals @ ws) (TParam k) = bind_param vals (TParam k)"
  by (simp add: nth_append)

text \<open>
  Placing values one after the other: the placeholders count from \<open>n\<close>, and bound to the values
  from there on the assignments are the ones asked for.
\<close>

lemma place_values:
  assumes "\<forall>cw \<in> set cws. no_placeholder cw"
    and "foldl (\<lambda>s cw. place_value cw s) (sets, vals, n) cws = (sets', vals', n')"
  shows "\<exists>more new. sets' = sets @ more \<and> vals' = vals @ new \<and> n' = n + length new \<and>
    params_of (map snd more) = [n..<n'] \<and>
    (\<forall>bound. (\<forall>i < length new. bound ! (n + i) = new ! i) \<longrightarrow>
       map (\<lambda>(c, t). (c, bind_param bound t)) more = map (\<lambda>(c, w). (c, assigned_term w)) cws)"
  using assms
proof (induction cws arbitrary: sets vals n)
  case (Cons cw cws)
  obtain col w where cw: "cw = (col, w)" by fastforce
  show ?case
  proof (cases "\<exists>x. w = VTerm x")
    case True
    then obtain x where w: "w = VTerm x" by blast
    with Cons.prems cw have "foldl (\<lambda>s cw. place_value cw s) (sets @ [(col, x)], vals, n) cws = (sets', vals', n')"
      "\<forall>cw \<in> set cws. no_placeholder cw" and np: "params_of [x] = []"
      by (simp_all add: place_value_def no_placeholder_def)
    from Cons.IH [OF this(2,1)] obtain more new where m: "sets' = (sets @ [(col, x)]) @ more" "vals' = vals @ new"
      "n' = n + length new" "params_of (map snd more) = [n..<n']"
      "\<forall>bound. (\<forall>i < length new. bound ! (n + i) = new ! i) \<longrightarrow>
         map (\<lambda>(c, t). (c, bind_param bound t)) more = map (\<lambda>(c, w). (c, assigned_term w)) cws" by blast
    have "params_of (map snd ((col, x) # more)) = [n..<n']"
      using m(4) np params_of_simps(2) [of "[x]" "map snd more"] by simp
    with m show ?thesis
      by (intro exI [of _ "(col, x) # more"] exI [of _ new]) (simp add: cw w params_of_Nil [OF np])
  next
    case False
    then have pv: "place_value cw (sets, vals, n) = (sets @ [(col, TParam n)], vals @ [w], Suc n)"
      and at: "assigned_term w = TWrap w"
      by (cases w; simp add: cw place_value_def)+
    with Cons.prems have "foldl (\<lambda>s cw. place_value cw s) (sets @ [(col, TParam n)], vals @ [w], Suc n) cws = (sets', vals', n')"
      "\<forall>cw \<in> set cws. no_placeholder cw" by simp_all
    from Cons.IH [OF this(2,1)] obtain more new where m: "sets' = (sets @ [(col, TParam n)]) @ more" "vals' = (vals @ [w]) @ new"
      "n' = Suc n + length new" "params_of (map snd more) = [Suc n..<n']"
      and b: "\<And>bound. (\<forall>i < length new. bound ! (Suc n + i) = new ! i) \<Longrightarrow>
         map (\<lambda>(c, t). (c, bind_param bound t)) more = map (\<lambda>(c, w). (c, assigned_term w)) cws" by blast
    have "[n..<n'] = n # [Suc n..<n']" using m(3) by (simp add: upt_conv_Cons del: upt_Suc)
    then have "params_of (map snd ((col, TParam n) # more)) = [n..<n']"
      using m(4) params_of_simps(2) [of "[TParam n]" "map snd more"] by (simp del: upt_Suc)
    moreover have "map (\<lambda>(c, t). (c, bind_param bound t)) ((col, TParam n) # more) = map (\<lambda>(c, w). (c, assigned_term w)) (cw # cws)"
      if h: "\<forall>i < length (w # new). bound ! (n + i) = (w # new) ! i" for bound
    proof -
      from h have "bound ! n = w" by (metis add_0_right length_Cons nth_Cons_0 zero_less_Suc)
      moreover from h have "\<forall>i < length new. bound ! (Suc n + i) = new ! i" by fastforce
      from b [OF this] have "map (\<lambda>(c, t). (c, bind_param bound t)) more = map (\<lambda>(c, w). (c, assigned_term w)) cws" .
      ultimately show ?thesis by (simp add: cw at)
    qed
    ultimately show ?thesis using m(1-3)
      by (intro exI [of _ "(col, TParam n) # more"] exI [of _ "w # new"]) simp
  qed
qed (simp add: params_of_def)

text \<open>Finding the assignments only reads.\<close>

lemma update_assignment_reads: "snd (update_assignment rv lim e mo kv s) = s"
proof -
  obtain key v where kv: "kv = (key, v)" by fastforce
  have "keeps (\<lambda>t. t = s) (update_fk_arg rv e m f v)" for m f
    unfolding update_fk_arg_def by (intro keeps_ibind) (auto split: update_arg.split)
  then have "keeps (\<lambda>t. t = s) (update_assignment rv lim e mo kv)"
    by (simp add: update_assignment_def kv Let_def split: option.split)
  then show ?thesis by (simp add: keeps_def)
qed

lemma update_loop_places:
  "ifold (\<lambda>kv s. ibind (update_assignment rv lim e mo kv) (\<lambda>cw. iret (place_value cw s))) kw acc s = (Ret acc', s') \<Longrightarrow>
     \<exists>cws. imap (update_assignment rv lim e mo) kw s = (Ret cws, s) \<and> acc' = foldl (\<lambda>s cw. place_value cw s) acc cws \<and> s' = s"
proof (induction kw arbitrary: acc)
  case (Cons kv kw)
  from Cons.prems obtain cw t where a: "update_assignment rv lim e mo kv s = (Ret cw, t)"
    and r: "ifold (\<lambda>kv s. ibind (update_assignment rv lim e mo kv) (\<lambda>cw. iret (place_value cw s))) kw (place_value cw acc) t = (Ret acc', s')"
    unfolding ifold.simps ibind_Ret by (auto simp: ibind_Ret)
  from a update_assignment_reads [of rv lim e mo kv s] have t: "t = s" by simp
  from Cons.IH [OF r [unfolded t]] a t show ?case by (fastforce simp: ibind_def)
qed (simp add: iret_def)


definition user_pending :: pending where
  "user_pending = (to_pending sample_qs)\<lparr>pd_model := sample_user, pd_orderings := [], pd_q_objects := []\<rparr>"


section \<open>The rows a bulk update changes\<close>

text \<open>The value of an object's field and its key, as the database gets them.\<close>

definition bulk_value :: "'d run_env \<Rightarrow> inst \<Rightarrow> string \<Rightarrow> pyval res" where
  "bulk_value rv i fld =
     rbind (dict_at (fields_map (model_of rv (i_model i))) fld) (\<lambda>f.
     rbind (attr_at i fld) (\<lambda>v.
     rbind (to_db_value (lib (orm rv)) (ce (orm rv)) f (plain v) (Instance (plain v))) (\<lambda>(w, wb). Inr w)))"

definition bulk_key :: "'d run_env \<Rightarrow> exec_entry \<Rightarrow> inst \<Rightarrow> pyval res" where
  "bulk_key rv e i =
     (let n = pk_attr (model_of rv (i_model i)) in
      column_conv rv e n (case map_of (i_dict i) n of None \<Rightarrow> VNone | Some v \<Rightarrow> plain v))"

text \<open>Only the attributes \<open>N\<close> of the objects \<open>A\<close> differ.\<close>

definition differ_in :: "nat set \<Rightarrow> string set \<Rightarrow> 'd session \<Rightarrow> 'd session \<Rightarrow> bool" where
  "differ_in A N s t \<longleftrightarrow> (\<forall>a. a \<notin> A \<longrightarrow> objs t a = objs s a) \<and> (\<forall>a. i_model (objs t a) = i_model (objs s a)) \<and>
     (\<forall>a n. n \<notin> N \<longrightarrow> map_of (i_dict (objs t a)) n = map_of (i_dict (objs s a)) n)"

lemma differ_in_refl [simp]: "differ_in A N s s"
  by (simp add: differ_in_def)

lemma differ_in_trans: "differ_in A N s t \<Longrightarrow> differ_in B M t u \<Longrightarrow> differ_in (A \<union> B) (N \<union> M) s u"
  by (auto simp: differ_in_def)

lemma differ_in_put: "differ_in {a} {n} s (put_state a n v s)"
  by (auto simp: differ_in_def put_state_def Let_def map_of_update)

lemma differ_in_mono: "differ_in A N s t \<Longrightarrow> A \<subseteq> B \<Longrightarrow> N \<subseteq> M \<Longrightarrow> differ_in B M s t"
  unfolding differ_in_def by blast

text \<open>A column that is no key may be updated in bulk.\<close>

definition bulk_col :: "meta \<Rightarrow> string \<Rightarrow> bool" where
  "bulk_col m n \<longleftrightarrow> columns_ok m \<and> dict_has (fields_db_projection m) n \<and> n \<noteq> pk_attr m"

text \<open>The branch of an object depends on its key and on the one attribute.\<close>

definition branch_of :: "'d run_env \<Rightarrow> exec_entry \<Rightarrow> string \<Rightarrow> inst \<Rightarrow> string \<Rightarrow> (crit \<times> term) \<times> pyval \<Rightarrow> bool" where
  "branch_of rv e pkcol i fld b \<longleftrightarrow>
     (\<exists>f w k. map_of (fields_map (model_of rv (i_model i))) fld = Some f \<and> bulk_value rv i fld = Inr w \<and>
        bulk_key rv e i = Inr k \<and> b = ((CCmp CmpEq (TBare pkcol) k, bulk_term rv f w), k))"

lemma branch_of_cong:
  assumes "i_model j = i_model i" and "map_of (i_dict j) fld = map_of (i_dict i) fld"
    and "map_of (i_dict j) (pk_attr (model_of rv (i_model i))) = map_of (i_dict i) (pk_attr (model_of rv (i_model i)))"
  shows "branch_of rv e pkcol j fld b = branch_of rv e pkcol i fld b"
  using assms by (simp add: branch_of_def bulk_value_def bulk_key_def attr_at_def Let_def)

lemma branch_of_differ:
  assumes "differ_in A N s t" and "fld \<notin> N" and "pk_attr (model_of rv (i_model (objs s a))) \<notin> N"
  shows "branch_of rv e pkcol (objs t a) fld b = branch_of rv e pkcol (objs s a) fld b"
  by (rule branch_of_cong) (use assms in \<open>auto simp: differ_in_def\<close>)

lemma bulk_when_spec:
  assumes "bulk_when rv e mo pkcol fld a s = (Ret b, s')" and "i_model (objs s a) = mo" and "bulk_col (model_of rv mo) fld"
  shows "branch_of rv e pkcol (objs s a) fld b \<and> differ_in {a} {fld} s s'"
proof -
  let ?m = "model_of rv mo"
  from assms(3) have cols: "columns_ok ?m" "dict_has (fields_db_projection ?m) fld" by (simp_all add: bulk_col_def)
  then have pc: "plain_col ?m fld" and wf: "meta_wf ?m" by (auto simp: columns_ok_def)
  obtain f0 where f0: "map_of (fields_map ?m) fld = Some f0" "model_field_name f0 = fld"
    by (rule columns_ok_field [OF cols])
  let ?k = "case map_of (i_dict (objs s a)) (pk_attr ?m) of None \<Rightarrow> APy VNone | Some v \<Rightarrow> v"
  have g: "get_pk_val rv a s = (Ret ?k, s)" by (simp add: get_pk_val_def iget_def assms(2))
  from assms(1) obtain kv v w wb u where kv: "column_conv rv e (pk_attr ?m) (plain ?k) = Inr kv"
    and v: "py_getattr rv a fld s = (Ret v, u)"
    and c: "to_db_value (lib (orm rv)) (ce (orm rv)) f0 (plain v) (Instance (plain v)) = Inr (w, wb)"
    and r: "iseq (case wb of None \<Rightarrow> iret () | Some x \<Rightarrow> py_setattr rv a (model_field_name f0) (APy x))
       (iret ((CCmp CmpEq (TBare pkcol) kv, bulk_term rv f0 w), kv)) u = (Ret b, s')"
    unfolding bulk_when_def ibind_Ret ilift_Ret g assms(2) dict_at_Inr f0(1) by auto
  from v have av: "attr_at (objs s a) fld = Inr v" and [simp]: "u = s"
    using pc wf assms(2) by (auto simp: py_getattr_plain)
  from kv have key: "bulk_key rv e (objs s a) = Inr kv"
    by (simp add: bulk_key_def assms(2) Let_def split: option.splits)
  have val: "bulk_value rv (objs s a) fld = Inr w" by (simp add: bulk_value_def assms(2) dict_at_def f0(1) av c)
  from r have b: "b = ((CCmp CmpEq (TBare pkcol) kv, bulk_term rv f0 w), kv)"
    by (auto simp: iseq_def ibind_Ret)
  have "differ_in {a} {fld} s s'"
  proof (cases wb)
    case None
    with r show ?thesis by (simp add: iseq_def)
  next
    case (Some x)
    with r have "s' = put_state a fld (APy x) s"
      using pc wf assms(2) by (simp add: iseq_def f0(2) py_setattr_plain)
    then show ?thesis by (simp add: differ_in_put)
  qed
  with b key val f0(1) assms(2) show ?thesis by (auto simp: branch_of_def)
qed

lemma bulk_branches:
  "imap (bulk_when rv e mo pkcol fld) as s = (Ret brs, s') \<Longrightarrow> distinct as \<Longrightarrow> \<forall>a\<in>set as. i_model (objs s a) = mo \<Longrightarrow>
     bulk_col (model_of rv mo) fld \<Longrightarrow>
     list_all2 (\<lambda>a. branch_of rv e pkcol (objs s a) fld) as brs \<and> differ_in (set as) {fld} s s'"
proof (induction as arbitrary: brs s)
  case (Cons a as)
  from Cons.prems(1) obtain b t brs' where b: "bulk_when rv e mo pkcol fld a s = (Ret b, t)"
    and r: "imap (bulk_when rv e mo pkcol fld) as t = (Ret brs', s')" and brs: "brs = b # brs'"
    unfolding imap.simps ibind_Ret by (auto simp: ibind_Ret)
  from Cons.prems(2-4) have p: "a \<notin> set as" "distinct as" "i_model (objs s a) = mo" "\<forall>a\<in>set as. i_model (objs s a) = mo" by auto
  from bulk_when_spec [OF b p(3) Cons.prems(4)] have 1: "branch_of rv e pkcol (objs s a) fld b" "differ_in {a} {fld} s t" by auto
  from 1(2) p(1) have o: "objs t c = objs s c" if "c \<in> set as" for c using that by (auto simp: differ_in_def)
  with p(4) have "\<forall>a\<in>set as. i_model (objs t a) = mo" by simp
  from Cons.IH [OF r p(2) this Cons.prems(4)] have 2: "list_all2 (\<lambda>a. branch_of rv e pkcol (objs t a) fld) as brs'"
    "differ_in (set as) {fld} t s'" by auto
  from 2(1) o have "list_all2 (\<lambda>a. branch_of rv e pkcol (objs s a) fld) as brs'"
    by (auto elim!: list.rel_mono_strong)
  with 1 brs differ_in_trans [OF 1(2) 2(2)] show ?case by simp
qed simp

text \<open>
  The statement of a chunk: one assignment for each field, whose CASE has the branches of the
  chunk's objects, and a condition on the keys for each of them.
\<close>

definition chunk_field :: "'d run_env \<Rightarrow> exec_entry \<Rightarrow> string \<Rightarrow> 'd session \<Rightarrow> nat list \<Rightarrow> string \<Rightarrow>
    ((crit \<times> term) \<times> pyval) list \<Rightarrow> bool" where
  "chunk_field rv e pkcol s as fld brs \<longleftrightarrow> list_all2 (\<lambda>a. branch_of rv e pkcol (objs s a) fld) as brs"

definition chunk_query :: "'d run_env \<Rightarrow> exec_entry \<Rightarrow> string \<Rightarrow> 'd session \<Rightarrow> string list \<Rightarrow> sqlq \<Rightarrow> nat list \<Rightarrow> sqlq \<Rightarrow> bool" where
  "chunk_query rv e pkcol s flds q0 as q \<longleftrightarrow>
     (\<exists>bss. list_all2 (chunk_field rv e pkcol s as) flds bss \<and>
        sq_sets q = sq_sets q0 @ map2 (\<lambda>fld brs. (Some fld, TCase (map fst brs) None)) flds bss \<and>
        sq_wheres q = foldl (\<lambda>c brs. and_crit c (CIsIn (TBare pkcol) (VList (map snd brs)))) (sq_wheres q0) bss)"

lemma bulk_fields:
  "ifold (bulk_field rv e mo pkcol as) flds q0 s = (Ret q, s') \<Longrightarrow> distinct as \<Longrightarrow> distinct flds \<Longrightarrow>
     \<forall>a\<in>set as. i_model (objs s a) = mo \<Longrightarrow> \<forall>n\<in>set flds. bulk_col (model_of rv mo) n \<Longrightarrow>
     chunk_query rv e pkcol s flds q0 as q \<and> differ_in (set as) (set flds) s s'"
proof (induction flds arbitrary: q0 s)
  case (Cons fld flds)
  from Cons.prems(1) obtain q1 t where b: "bulk_field rv e mo pkcol as fld q0 s = (Ret q1, t)"
    and r: "ifold (bulk_field rv e mo pkcol as) flds q1 t = (Ret q, s')"
    unfolding ifold.simps ibind_Ret by auto
  from b obtain brs where brs: "imap (bulk_when rv e mo pkcol fld) as s = (Ret brs, t)"
    and q1: "q1 = q0\<lparr>sq_sets := sq_sets q0 @ [(Some fld, TCase (map fst brs) None)],
             sq_wheres := and_crit (sq_wheres q0) (CIsIn (TBare pkcol) (VList (map snd brs)))\<rparr>"
    unfolding bulk_field_def ibind_Ret by auto
  from Cons.prems(3,5) have p: "fld \<notin> set flds" "distinct flds" "bulk_col (model_of rv mo) fld"
    "\<forall>n\<in>set flds. bulk_col (model_of rv mo) n" by auto
  from bulk_branches [OF brs Cons.prems(2,4) p(3)] have 1: "chunk_field rv e pkcol s as fld brs" "differ_in (set as) {fld} s t"
    by (auto simp: chunk_field_def)
  from 1(2) Cons.prems(4) have mt: "\<forall>a\<in>set as. i_model (objs t a) = mo" by (simp add: differ_in_def)
  from Cons.IH [OF r Cons.prems(2) p(2) mt p(4)] obtain bss where bss: "list_all2 (chunk_field rv e pkcol t as) flds bss"
    "sq_sets q = sq_sets q1 @ map2 (\<lambda>fld brs. (Some fld, TCase (map fst brs) None)) flds bss"
    "sq_wheres q = foldl (\<lambda>c brs. and_crit c (CIsIn (TBare pkcol) (VList (map snd brs)))) (sq_wheres q1) bss"
    and d: "differ_in (set as) (set flds) t s'"
    unfolding chunk_query_def by blast
  have "chunk_field rv e pkcol t as n b = chunk_field rv e pkcol s as n b" if "n \<in> set flds" for n b
  proof -
    have "branch_of rv e pkcol (objs t a) n = branch_of rv e pkcol (objs s a) n" if "a \<in> set as" for a
      using branch_of_differ [OF 1(2), of n rv a e pkcol] p(1,3) \<open>n \<in> set flds\<close> Cons.prems(4) that
      by (auto simp: bulk_col_def fun_eq_iff)
    then show ?thesis unfolding chunk_field_def by (intro list.rel_cong refl) simp
  qed
  with bss(1) have "list_all2 (chunk_field rv e pkcol s as) flds bss" by (auto elim!: list.rel_mono_strong)
  with 1(1) bss(2,3) q1 have "chunk_query rv e pkcol s (fld # flds) q0 as q"
    unfolding chunk_query_def by (intro exI [of _ "brs # bss"]) simp
  with differ_in_trans [OF 1(2) d] show ?case by simp
qed (simp add: chunk_query_def)

lemma bulk_chunks:
  "ifold (\<lambda>c qs. ibind (ifold (bulk_field rv e mo pkcol c) flds q0) (\<lambda>q. iret (qs @ [q]))) cs qs0 s = (Ret qs, s') \<Longrightarrow>
     distinct (concat cs) \<Longrightarrow> distinct flds \<Longrightarrow> \<forall>a\<in>set (concat cs). i_model (objs s a) = mo \<Longrightarrow>
     \<forall>n\<in>set flds. bulk_col (model_of rv mo) n \<Longrightarrow>
     \<exists>new. qs = qs0 @ new \<and> list_all2 (chunk_query rv e pkcol s flds q0) cs new"
proof (induction cs arbitrary: qs0 s)
  case (Cons c cs)
  from Cons.prems(1) obtain q t where b: "ifold (bulk_field rv e mo pkcol c) flds q0 s = (Ret q, t)"
    and r: "ifold (\<lambda>c qs. ibind (ifold (bulk_field rv e mo pkcol c) flds q0) (\<lambda>q. iret (qs @ [q]))) cs (qs0 @ [q]) t = (Ret qs, s')"
    unfolding ifold.simps ibind_Ret by (auto simp: ibind_Ret)
  from Cons.prems(2,4) have p: "distinct c" "distinct (concat cs)" "set c \<inter> set (concat cs) = {}"
    "\<forall>a\<in>set c. i_model (objs s a) = mo" by auto
  from bulk_fields [OF b p(1) Cons.prems(3) p(4) Cons.prems(5)]
  have 1: "chunk_query rv e pkcol s flds q0 c q" "differ_in (set c) (set flds) s t" by auto
  from 1(2) have o: "objs t a = objs s a" if "a \<in> set (concat cs)" for a using that p(3) by (auto simp: differ_in_def)
  with Cons.prems(4) have "\<forall>a\<in>set (concat cs). i_model (objs t a) = mo" by auto
  from Cons.IH [OF r p(2) Cons.prems(3) this Cons.prems(5)] obtain new where
    new: "qs = (qs0 @ [q]) @ new" "list_all2 (chunk_query rv e pkcol t flds q0) cs new" by blast
  have "chunk_query rv e pkcol t flds q0 d u = chunk_query rv e pkcol s flds q0 d u" if "d \<in> set cs" for d u
  proof -
    from o that have "objs t a = objs s a" if "a \<in> set d" for a using that by auto
    then have "chunk_field rv e pkcol t d = chunk_field rv e pkcol s d"
      unfolding chunk_field_def by (intro ext list.rel_cong) auto
    then show ?thesis by (simp add: chunk_query_def)
  qed
  with new(2) have "list_all2 (chunk_query rv e pkcol s flds q0) cs new" by (auto elim!: list.rel_mono_strong)
  with new(1) 1(1) show ?case by (intro exI [of _ "q # new"]) simp
qed simp

text \<open>
  How a database evaluates the statement on a row whose key is \<open>k\<close>: a CASE gives the term of its
  first branch that is true, and the row is changed when the condition is true or missing.
\<close>

fun case_value :: "(crit \<Rightarrow> tv) \<Rightarrow> (crit \<times> term) list \<Rightarrow> term option" where
  "case_value ev [] = None"
| "case_value ev ((c, t) # bs') = (if ev c = Some True then Some t else case_value ev bs')"

definition hits :: "(crit \<Rightarrow> tv) \<Rightarrow> sqlq \<Rightarrow> bool" where
  "hits ev q \<longleftrightarrow> crit_sem ev (sq_wheres q) = None \<or> crit_sem ev (sq_wheres q) = Some (Some True)"

definition row_with_key :: "(crit \<Rightarrow> tv) \<Rightarrow> string \<Rightarrow> pyval \<Rightarrow> bool" where
  "row_with_key ev pkcol k \<longleftrightarrow> sql_laws ev \<and> (\<forall>v. ev (CCmp CmpEq (TBare pkcol) v) = Some (v = k)) \<and>
     (\<forall>vs. ev (CIsIn (TBare pkcol) (VList vs)) = Some (k \<in> set vs))"

lemma and3_true: "and3 a (Some b) = Some True \<longleftrightarrow> a = Some True \<and> b"
  by (rule tv_exhaust [of a]; cases b; simp)

lemma hits_and_key:
  assumes "row_with_key ev pkcol k"
  shows "hits ev (q\<lparr>sq_wheres := and_crit c (CIsIn (TBare pkcol) (VList vs))\<rparr>) \<longleftrightarrow> hits ev (q\<lparr>sq_wheres := c\<rparr>) \<and> k \<in> set vs"
proof -
  from assms have "sql_laws ev" and i: "crit_sem ev (CIsIn (TBare pkcol) (VList vs)) = Some (Some (k \<in> set vs))"
    by (simp_all add: row_with_key_def crit_sem_def crit_bool_def)
  then have *: "crit_sem ev (and_crit c (CIsIn (TBare pkcol) (VList vs))) = opt2 and3 (crit_sem ev c) (Some (Some (k \<in> set vs)))"
    by (simp add: crit_sem_and_crit)
  then show ?thesis
  proof (cases "crit_sem ev c")
    case (Some tv)
    with * show ?thesis by (simp add: hits_def and3_true)
  qed (simp add: hits_def)
qed

lemma chunk_hits:
  assumes "row_with_key ev pkcol k" and "chunk_query rv e pkcol s flds q0 as q" and "flds \<noteq> []"
    and "\<forall>a\<in>set as. bulk_key rv e (objs s a) = Inr (key a)"
  shows "hits ev q \<longleftrightarrow> hits ev q0 \<and> k \<in> key ` set as"
proof -
  from assms(2) obtain bss where bss: "list_all2 (chunk_field rv e pkcol s as) flds bss"
    and w: "sq_wheres q = foldl (\<lambda>c b. and_crit c (CIsIn (TBare pkcol) (VList (map snd b)))) (sq_wheres q0) bss"
    unfolding chunk_query_def by blast
  have keys: "map snd b = map key as" if "chunk_field rv e pkcol s as n b" for n b
    using that assms(4) unfolding chunk_field_def
    by (induction as b rule: list_all2_induct) (auto simp: branch_of_def)
  have all: "\<forall>b\<in>set bss. map snd b = map key as"
    using bss keys by (induction flds bss rule: list_all2_induct) auto
  have "hits ev (u\<lparr>sq_wheres := foldl (\<lambda>c b. and_crit c (CIsIn (TBare pkcol) (VList (map snd b)))) c bss\<rparr>) \<longleftrightarrow>
      hits ev (u\<lparr>sq_wheres := c\<rparr>) \<and> (bss \<noteq> [] \<longrightarrow> k \<in> key ` set as)" for u c
    using all
  proof (induction bss arbitrary: c)
    case (Cons b bss)
    then show ?case by (auto simp: hits_and_key [OF assms(1)])
  qed simp
  from this [where u = q and c = "sq_wheres q0"] have "hits ev q \<longleftrightarrow> hits ev (q\<lparr>sq_wheres := sq_wheres q0\<rparr>) \<and> (bss \<noteq> [] \<longrightarrow> k \<in> key ` set as)"
    by (simp add: w [symmetric])
  moreover have "bss \<noteq> []" using bss assms(3) by auto
  ultimately show ?thesis by (simp add: hits_def)
qed

text \<open>What the statement of an object's chunk assigns in the object's row.\<close>

lemma chunk_assigns:
  assumes "row_with_key ev pkcol (key a)" and "chunk_query rv e pkcol s flds q0 as q" and "sq_sets q0 = []"
    and "\<forall>a\<in>set as. bulk_key rv e (objs s a) = Inr (key a)" and "inj_on key (set as)" and "a \<in> set as"
  shows "map fst (sq_sets q) = map Some flds"
    and "n \<in> set flds \<Longrightarrow> \<exists>f w whens. map_of (fields_map (model_of rv (i_model (objs s a)))) n = Some f \<and>
      bulk_value rv (objs s a) n = Inr w \<and> (Some n, TCase whens None) \<in> set (sq_sets q) \<and>
      case_value ev whens = Some (bulk_term rv f w)"
proof -
  from assms(2,3) obtain bss where bss: "list_all2 (chunk_field rv e pkcol s as) flds bss"
    and q: "sq_sets q = map2 (\<lambda>fld b. (Some fld, TCase (map fst b) None)) flds bss"
    unfolding chunk_query_def by auto
  have len: "length bss = length flds" using bss by (simp add: list_all2_lengthD)
  then show "map fst (sq_sets q) = map Some flds"
    unfolding q by (induction flds bss rule: list_induct2') auto
  assume "n \<in> set flds"
  then obtain i where i: "i < length flds" "flds ! i = n" by (auto simp: in_set_conv_nth)
  with bss have cf: "chunk_field rv e pkcol s as n (bss ! i)" by (auto simp: list_all2_conv_all_nth)
  have mem: "(Some n, TCase (map fst (bss ! i)) None) \<in> set (sq_sets q)"
    unfolding q using i len by (force simp: in_set_conv_nth)
  have "\<exists>f w. map_of (fields_map (model_of rv (i_model (objs s a)))) n = Some f \<and> bulk_value rv (objs s a) n = Inr w \<and>
      case_value ev (map fst b) = Some (bulk_term rv f w)" if "chunk_field rv e pkcol s as n b" for b
    using that assms(4-6) unfolding chunk_field_def
  proof (induction as b rule: list_all2_induct)
    case (Cons c cs b brs)
    from Cons.hyps(1) Cons.prems(1) obtain f w where b: "map_of (fields_map (model_of rv (i_model (objs s c)))) n = Some f"
      "bulk_value rv (objs s c) n = Inr w" "fst b = (CCmp CmpEq (TBare pkcol) (key c), bulk_term rv f w)"
      unfolding branch_of_def by fastforce
    show ?case
    proof (cases "c = a")
      case True
      with b assms(1) show ?thesis by (auto simp: row_with_key_def)
    next
      case False
      with Cons.prems have "a \<in> set cs" "key c \<noteq> key a" "inj_on key (set cs)" by (auto simp: inj_on_def)
      with Cons.IH Cons.prems(1) b assms(1) show ?thesis by (auto simp: row_with_key_def)
    qed
  qed simp
  from this [OF cf] mem show "\<exists>f w whens. map_of (fields_map (model_of rv (i_model (objs s a)))) n = Some f \<and>
      bulk_value rv (objs s a) n = Inr w \<and> (Some n, TCase whens None) \<in> set (sq_sets q) \<and>
      case_value ev whens = Some (bulk_term rv f w)" by blast
qed

lemma list_all2_right: "list_all2 R xs ys \<Longrightarrow> y \<in> set ys \<Longrightarrow> \<exists>x\<in>set xs. R x y"
  by (induction rule: list_all2_induct) auto

lemma one_chunk:
  assumes "list_all2 R cs qs" and "distinct (concat cs)" and "a \<in> set (concat cs)" and "P"
    and "\<And>c q. R c q \<Longrightarrow> c \<in> set cs \<Longrightarrow> hit q \<longleftrightarrow> P \<and> a \<in> set c"
  shows "\<exists>c q. R c q \<and> c \<in> set cs \<and> a \<in> set c \<and> filter hit qs = [q]"
  using assms
proof (induction cs qs rule: list_all2_induct)
  case (Cons c cs q qs)
  show ?case
  proof (cases "a \<in> set c")
    case True
    with Cons.prems(1) have no: "a \<notin> set d" if "d \<in> set cs" for d using that by auto
    have "\<not> hit u" if "u \<in> set qs" for u
    proof -
      from list_all2_right [OF Cons.hyps(2) that] obtain d where "d \<in> set cs" "R d u" by blast
      with Cons.prems(4) [of d u] no show ?thesis by auto
    qed
    then have "filter hit qs = []" by simp
    moreover have "hit q" using Cons.prems(3,4) Cons.hyps(1) True by auto
    ultimately show ?thesis using True Cons.hyps(1) by (intro exI [of _ c] exI [of _ q]) simp
  next
    case False
    with Cons.prems(4) [OF Cons.hyps(1)] have "\<not> hit q" by simp
    moreover from Cons.IH [OF _ _ Cons.prems(3)] Cons.prems(1,2,4) False
    obtain d u where "R d u" "d \<in> set cs" "a \<in> set d" "filter hit qs = [u]" by auto
    ultimately show ?thesis by auto
  qed
qed simp

lemma sets_closed: "step_closed p (\<lambda>st. sq_sets (query st) = ss)"
proof -
  have "sq_sets (query (add_joins p js st)) = sq_sets (query st)" for js st
    unfolding add_joins_def by (induction js arbitrary: st) (simp_all add: add_join_def)
  then show ?thesis by (simp add: step_closed_def quiet_closed_def add_select_def add_orderby_def)
qed

lemma update_base:
  assumes "limit_order env lim p (update_statement st0) = Inr st1" and "pending_filters env lim p st1 = Inr st2"
  shows "sq_sets (query st2) = []"
proof -
  have s0: "sq_sets (query (on_query (\<lambda>s. s\<lparr>sq_limit := l\<rparr>) (update_statement st0))) = []"
    "sq_sets (query (update_statement st0)) = []" for l
    by (simp_all add: update_statement_def base_query_def on_query_def)
  from assms(1) s0 have "sq_sets (query st1) = []"
    by (auto simp: limit_order_def split: option.splits if_splits
        dest!: resolve_ordering_keeps [where P = "\<lambda>st. sq_sets (query st) = []", OF _ sets_closed])
  with assms(2) show ?thesis
    unfolding pending_filters_def by (rule resolve_filters_keeps [OF _ sets_closed])
qed

text \<open>
  C14. A bulk update gives every object's row the object's values and leaves other rows alone,
  whatever the batch size: of all the statements made, exactly one changes the row that has an
  object's key (when the query set's conditions let it), and in that row it assigns to every
  field named the object's own value, converted by the field; a row with another key is changed by
  none. It is the field's name that is assigned to, not its column.
\<close>

theorem bulk_update_rows:
  assumes "make_bulk_update rv lim p as flds batch (st0, []) s = (Ret (st, qs), s')"
    and "caches_ok rv s" and "owns_key rv (pd_model p)" and "make_entry rv (pd_model p) = Inr e"
    and "distinct as" and "distinct flds" and "flds \<noteq> []"
    and "\<forall>a\<in>set as. i_model (objs s a) = pd_model p" and "\<forall>n\<in>set flds. bulk_col (model_of rv (pd_model p)) n"
    and "\<forall>a\<in>set as. bulk_key rv e (objs s a) = Inr (key a)" and "inj_on key (set as)"
    and "map_of (fields_map (model_of rv (pd_model p))) (pk_attr (model_of rv (pd_model p))) = Some pf"
    and "row_with_key ev (source_or pf (pk_attr (model_of rv (pd_model p)))) k"
  shows "if k \<in> key ` set as \<and> hits ev (query st)
    then \<exists>a q. a \<in> set as \<and> key a = k \<and> filter (hits ev) qs = [q] \<and> map fst (sq_sets q) = map Some flds \<and>
      (\<forall>n\<in>set flds. \<exists>f w whens. map_of (fields_map (model_of rv (pd_model p))) n = Some f \<and> bulk_value rv (objs s a) n = Inr w \<and>
         (Some n, TCase whens None) \<in> set (sq_sets q) \<and> case_value ev whens = Some (bulk_term rv f w))
    else filter (hits ev) qs = []"
proof -
  let ?mo = "pd_model p"
  let ?pkcol = "source_or pf (pk_attr (model_of rv ?mo))"
  from assms(1) obtain st1 e' s1 cs where u: "limit_order (orm rv) lim p (update_statement st0) = Inr st1"
    "pending_filters (orm rv) lim p st1 = Inr st"
    and ei: "executor_init rv ?mo s = (Ret e', s1)" and cs: "chunk as batch = Inr cs"
    and l: "ifold (\<lambda>c qs. ibind (ifold (bulk_field rv e' ?mo ?pkcol c) flds (query st)) (\<lambda>q. iret (qs @ [q]))) cs [] s1 = (Ret qs, s')"
    unfolding make_bulk_update_def Let_def ibind_Ret ilift_Ret dict_at_Inr assms(12) by auto
  note ex = executor_init_spec [OF ei assms(2,3)]
  from ex(1) assms(4) have [simp]: "e' = e" by simp
  from chunk_partition [OF cs] have cc: "concat cs = as" by simp
  from bulk_chunks [OF l] assms(5,6,8,9) ex(2) cc
  have R: "list_all2 (chunk_query rv e ?pkcol s1 flds (query st)) cs qs" by simp
  have cq: "chunk_query rv e pkc s1 = chunk_query rv e pkc s" for pkc
  proof -
    have "chunk_field rv e pkc s1 = chunk_field rv e pkc s" by (intro ext) (simp add: chunk_field_def ex(2))
    then show ?thesis by (intro ext) (simp add: chunk_query_def)
  qed
  note base = update_base [OF u]
  have sub: "set c \<subseteq> set as" if "c \<in> set cs" for c using that cc by auto
  have hit: "hits ev q \<longleftrightarrow> hits ev (query st) \<and> k \<in> key ` set c"
    if "chunk_query rv e ?pkcol s flds (query st) c q" "c \<in> set cs" for c q
    by (rule chunk_hits [OF assms(13) that(1) assms(7)]) (use assms(10) sub [OF that(2)] in auto)
  show ?thesis
  proof (cases "k \<in> key ` set as \<and> hits ev (query st)")
    case True
    then obtain a where a: "a \<in> set as" "key a = k" by auto
    have "hits ev q \<longleftrightarrow> True \<and> a \<in> set c" if "chunk_query rv e ?pkcol s flds (query st) c q" "c \<in> set cs" for c q
      using hit [OF that] True a sub [OF that(2)] assms(11) by (auto simp: inj_on_def)
    from one_chunk [where a = a and hit = "hits ev", OF R [unfolded cq] _ _ TrueI this] cc assms(5) a(1)
    obtain c q where c: "chunk_query rv e ?pkcol s flds (query st) c q" "c \<in> set cs" "a \<in> set c" "filter (hits ev) qs = [q]"
      by auto
    note ca = chunk_assigns [where key = key and a = a, OF assms(13) [folded a(2)] c(1) base]
    have k: "\<forall>a\<in>set c. bulk_key rv e (objs s a) = Inr (key a)" "inj_on key (set c)"
      using assms(10,11) sub [OF c(2)] by (auto intro: inj_on_subset)
    from ca [OF k c(3)] assms(8) a True c(4) show ?thesis by auto
  next
    case False
    have "\<not> hits ev q" if "q \<in> set qs" for q
    proof -
      from list_all2_right [OF R [unfolded cq] that]
      obtain c where "c \<in> set cs" "chunk_query rv e ?pkcol s flds (query st) c q" by blast
      with hit [of c q] False sub [of c] show ?thesis by auto
    qed
    then have "filter (hits ev) qs = []" by simp
    with False show ?thesis by auto
  qed
qed

definition keyed_session :: "(stmt \<times> pyval list) list session" where
  "keyed_session = sample_session\<lparr>objs := (\<lambda>a. (new_user (if a = 0 then ''ann'' else ''bob'') True)
     \<lparr>i_dict := [(''id'', APy (VInt (int a))), (''name'', APy (VStr (if a = 0 then ''ann'' else ''bob'')))]\<rparr>)\<rparr>"

fun key_leaf :: "pyval \<Rightarrow> crit \<Rightarrow> tv" where
  "key_leaf k (CCmp CmpEq (TBare n) v) = Some (v = k)"
| "key_leaf k (CIsIn (TBare n) (VList vs)) = Some (k \<in> set vs)"
| "key_leaf k c = None"

lemma key_row: "row_with_key (eval_crit (key_leaf k)) n k"
  by (simp add: row_with_key_def eval_crit_laws)

theorem bulk_update_rows_witness:
  "\<exists>st qs q whens. fst (make_bulk_update sample_rv 9 user_pending [0, 1] [''name''] (Some 1) (pending_init, []) keyed_session) = Ret (st, qs) \<and>
     filter (hits (eval_crit (key_leaf (VInt 1)))) qs = [q] \<and> (Some ''name'', TCase whens None) \<in> set (sq_sets q) \<and>
     case_value (eval_crit (key_leaf (VInt 1))) whens = Some (TWrap (VStr ''bob''))"
proof -
  let ?r = "make_bulk_update sample_rv 9 user_pending [0, 1] [''name''] (Some 1) (pending_init, []) keyed_session"
  let ?ev = "eval_crit (key_leaf (VInt 1))"
  have "case fst ?r of Ret x \<Rightarrow> True | _ \<Rightarrow> False" by code_simp
  then obtain st qs s' where r: "?r = (Ret (st, qs), s')" by (cases ?r; cases "fst ?r") auto
  have "(case fst ?r of Ret (st, qs) \<Rightarrow> sq_wheres (query st) = EmptyCriterion | _ \<Rightarrow> False)" by code_simp
  with r have h: "hits ?ev (query st)" by (simp add: hits_def)
  have mo: "pd_model user_pending = sample_user" by (simp add: user_pending_def)
  have c: "caches_ok sample_rv keyed_session" by (simp add: caches_ok_def keyed_session_def sample_session_def)
  have i: "i_model (objs keyed_session a) = sample_user" for a by (simp add: keyed_session_def new_user_def)
  have col: "bulk_col (model_of sample_rv sample_user) ''name''"
    using user_columns by (simp add: bulk_col_def sample_meta_def dict_has_def)
  have "bulk_key sample_rv user_entry (objs keyed_session 0) = Inr (VInt 0)"
    "bulk_key sample_rv user_entry (objs keyed_session 1) = Inr (VInt 1)" by code_simp+
  then have k: "\<forall>a\<in>set [0, 1]. bulk_key sample_rv user_entry (objs keyed_session a) = Inr (VInt (int a))" by simp
  have pf: "map_of (fields_map (model_of sample_rv sample_user)) (pk_attr (model_of sample_rv sample_user)) = Some id_field"
    "source_or id_field (pk_attr (model_of sample_rv sample_user)) = ''id''"
    by (simp_all add: sample_meta_def id_field_def pk_field_def plain_field_def source_or_def)
  have v: "bulk_value sample_rv (objs keyed_session 1) ''name'' = Inr (VStr ''bob'')" by code_simp
  have t: "bulk_term sample_rv f w = TWrap w" for f w by (simp add: bulk_term_def sample_rv_def sample_env_def)
  from bulk_update_rows [OF r c, unfolded mo, OF user_owns_key(1) user_entry _ _ _ _ _ k _ pf(1), of ?ev "VInt 1"]
    key_row h i col v t pf(2) r
  show ?thesis by (auto simp: inj_on_def)
qed

end
