(* ===== verification/Selecting.thy ===== *)
theory Selecting
  imports Executor
begin

text \<open>
  Reading what a query set selects (\<^verbatim>\<open>execute_select\<close> of \<^verbatim>\<open>backends/base/executor.py\<close>,
  \<^verbatim>\<open>QuerySet._execute\<close> and \<^verbatim>\<open>RawSQLQuery\<close> of \<^verbatim>\<open>queryset.py\<close>): a row is cut into the columns of the
  model and of the models that \<^verbatim>\<open>select_related\<close> joined, by position.
\<close>

section \<open>Rows\<close>

type_synonym row = "(string, pyval) dict"

fun fetched_rows :: "reply \<Rightarrow> row list" where
  "fetched_rows (Fetched n rows) = rows"
| "fetched_rows r = []"

text \<open>The items of a row, cut at the indexes of \<^verbatim>\<open>select_related_idx\<close>.\<close>

fun cut_row :: "related_idx \<Rightarrow> row \<Rightarrow> ((mid \<times> nat \<times> string \<times> mid \<times> string option list) \<times> row) list" where
  "cut_row [] items = []"
| "cut_row (e # idx) items = (case e of (m, n, fld, mo, path) \<Rightarrow> (e, take n items) # cut_row idx (drop n items))"

text \<open>\<^verbatim>\<open>k.split(".")[1]\<close>\<close>

definition after_dot :: "string \<Rightarrow> string res" where
  "after_dot k = (case split_chr CHR ''.'' k of x # y # ys \<Rightarrow> Inr y | _ \<Rightarrow> Inl PyIndexError)"

definition related_object :: "'d run_env \<Rightarrow> mid \<Rightarrow> row \<Rightarrow> ('d, nat option) sio" where
  "related_object rv m items =
     (if \<not> list_ex (\<lambda>(k, v). truthy v) items then iret None
      else
        ibind (ilift (rmap (\<lambda>(k, v). rbind (after_dot k) (\<lambda>c. Inr (c, v))) items)) (\<lambda>kvs.
        ibind (init_from_db rv m (dict_update [] kvs)) (\<lambda>b. iret (Some b))))"

text \<open>One step of the loop; \<open>insts\<close> is \<^verbatim>\<open>instances\<close>.\<close>

definition related_step ::
    "'d run_env \<Rightarrow> (mid \<times> nat \<times> string \<times> mid \<times> string option list) \<times> row \<Rightarrow> (string option list, nat) dict \<Rightarrow>
     ('d, (string option list, nat) dict) sio" where
  "related_step rv eis insts =
     (case eis of ((m, n, fld, mo, full), items) \<Rightarrow>
        let path = butlast full; attr = (case last full of Some x \<Rightarrow> x | None \<Rightarrow> ''None'') in
        ibind (related_object rv m items) (\<lambda>ob.
        iseq (case map_of insts path of
                None \<Rightarrow> iret ()
              | Some target \<Rightarrow> py_setattr rv target (''_'' @ attr)
                  (case ob of None \<Rightarrow> APy VNone | Some b \<Rightarrow> AInst b))
          (iret (case ob of None \<Rightarrow> insts | Some b \<Rightarrow> AList.update full b insts))))"

definition row_instance :: "'d run_env \<Rightarrow> mid \<Rightarrow> related_idx \<Rightarrow> row \<Rightarrow> ('d, nat) sio" where
  "row_instance rv mo idx row =
     (case cut_row idx (dict_update [] row) of
        [] \<Rightarrow> init_from_db rv mo row
      | ((m, n, fld, mo', path), items) # rest \<Rightarrow>
          ibind (init_from_db rv mo items) (\<lambda>a.
          ibind (ifold (related_step rv) rest [(path, a)]) (\<lambda>_. iret a)))"

text \<open>The annotations, \<^verbatim>\<open>custom_fields\<close>.\<close>

definition set_custom :: "'d run_env \<Rightarrow> row \<Rightarrow> nat \<Rightarrow> string list \<Rightarrow> ('d, unit) sio" where
  "set_custom rv row a names =
     ifold (\<lambda>n _. ibind (ilift (dict_at row n)) (\<lambda>v. py_setattr rv a n (APy v))) names ()"

definition decode_row :: "'d run_env \<Rightarrow> mid \<Rightarrow> related_idx \<Rightarrow> string list \<Rightarrow> row \<Rightarrow> ('d, nat) sio" where
  "decode_row rv mo idx customs row =
     ibind (row_instance rv mo idx row) (\<lambda>a. iseq (set_custom rv row a customs) (iret a))"

text \<open>\<open>pre\<close> is the executor's \<^verbatim>\<open>_execute_prefetch_queries\<close>.\<close>

definition execute_select ::
    "'d run_env \<Rightarrow> (nat list \<Rightarrow> ('d, unit) sio) \<Rightarrow> mid \<Rightarrow> related_idx \<Rightarrow> string list \<Rightarrow> stmt \<Rightarrow> ('d, nat list) sio" where
  "execute_select rv pre mo idx customs q =
     ibind (send_db rv q []) (\<lambda>r.
     ibind (imap (decode_row rv mo idx customs) (fetched_rows r)) (\<lambda>as. iseq (pre as) (iret as)))"

text \<open>\<^verbatim>\<open>RawSQLQuery\<close>: its executor has nothing to prefetch.\<close>

definition raw_execute :: "'d run_env \<Rightarrow> mid \<Rightarrow> string \<Rightarrow> ('d, nat list) sio" where
  "raw_execute rv mo sql =
     ibind (executor_init rv mo) (\<lambda>e. execute_select rv (\<lambda>as. iret ()) mo [] [] (RawSql sql))"

text \<open>\<^verbatim>\<open>QuerySet.__await__\<close>\<close>

definition queryset_execute ::
    "'d run_env \<Rightarrow> nat \<Rightarrow> (nat list \<Rightarrow> ('d, unit) sio) \<Rightarrow> qset \<Rightarrow> ('d, nat answer) sio" where
  "queryset_execute rv lim pre qs =
     ibind (iget qstore) (\<lambda>h.
     ibind (ilift (make_query (orm rv) lim h qs)) (\<lambda>(idx, st).
     ibind (executor_init rv (qs_model qs)) (\<lambda>e.
     ibind (execute_select rv pre (qs_model qs) idx (map fst (qs_annotations qs)) (Built (query st))) (\<lambda>as.
     ilift (pick (qs_single qs) (qs_raise_does_not_exist qs) as)))))"

section \<open>The cuts are where the models' columns are\<close>

text \<open>The name a column of the result has.\<close>

fun select_key :: "term \<Rightarrow> string" where
  "select_key (TAs x k) = k"
| "select_key (TField t c) = c"
| "select_key x = []"

text \<open>The model and the table a path of relations leads to.\<close>

fun related_table :: "orm_env \<Rightarrow> mid \<Rightarrow> table \<Rightarrow> string list \<Rightarrow> (mid \<times> table) option" where
  "related_table env mo t [] = Some (mo, t)"
| "related_table env mo t (n # ns) =
     (case map_of (fields_map (metas env mo)) n of
        None \<Rightarrow> None
      | Some f \<Rightarrow>
          (case (get_joins_for_related_field (metas env) (pp env) t f n, related_model (rel f)) of
             (Inr js, Some rm) \<Rightarrow> related_table env rm (fst (last js)) ns
           | _ \<Rightarrow> None))"

definition path_keys :: "orm_env \<Rightarrow> mid \<Rightarrow> table \<Rightarrow> string list \<Rightarrow> string list" where
  "path_keys env mo t ns =
     (case related_table env mo t ns of
        None \<Rightarrow> [] | Some (rm, rt) \<Rightarrow> map (\<lambda>c. tbl_name (pp env) rt @ ''.'' @ c) (db_fields (metas env rm)))"

text \<open>The names of the columns that belong to an entry of \<^verbatim>\<open>_select_related_idx\<close>.\<close>

definition entry_keys :: "orm_env \<Rightarrow> mid \<Rightarrow> table \<Rightarrow> mid \<times> nat \<times> string \<times> mid \<times> string option list \<Rightarrow> string list" where
  "entry_keys env mo t e = (case e of (m, n, fld, mo', path) \<Rightarrow> path_keys env mo t (map the (tl path)))"


lemma related_table_append:
  "related_table env mo t (ns @ ms) =
     (case related_table env mo t ns of None \<Rightarrow> None | Some (m, u) \<Rightarrow> related_table env m u ms)"
  by (induction env mo t ns rule: related_table.induct) (auto split: option.split sum.split)

definition visit :: "'e list \<Rightarrow> 'e list \<Rightarrow> 'e list" where
  "visit vs xs = foldl (\<lambda>acc e. set_add e acc) xs vs"

lemma visit_simps [simp]: "visit [] xs = xs" "visit (v # vs) xs = visit vs (set_add v xs)"
  "visit (us @ vs) xs = visit vs (visit us xs)"
  by (simp_all add: visit_def)

lemma visit_head: "h \<notin> set vs \<Longrightarrow> visit vs (h # xs) = h # visit vs xs"
  by (induction vs arbitrary: xs) (auto simp: set_add_def)

lemma visit_known: "set ks \<subseteq> set xs \<Longrightarrow> visit ks xs = xs"
  by (induction ks) (auto simp: set_add_def)

lemma visit_new: "distinct (xs @ ks) \<Longrightarrow> visit ks xs = xs @ ks"
  by (induction ks arbitrary: xs) (auto simp: set_add_def)

lemma visit_set: "set (visit vs xs) \<subseteq> set vs \<union> set xs"
proof (induction vs arbitrary: xs)
  case (Cons v vs)
  from Cons [of "set_add v xs"] show ?case by (auto simp: set_add_def split: if_splits)
qed simp

lemma visit_extends: "\<exists>more. visit vs xs = xs @ more"
proof (induction vs arbitrary: xs)
  case (Cons v vs)
  from Cons [of "set_add v xs"] show ?case by (auto simp: set_add_def split: if_splits)
qed simp

text \<open>Keys that come in blocks, each block in the place of its first occurrence.\<close>

lemma visit_blocks:
  assumes "distinct (base @ concat (map ek (visit vs us)))"
  shows "visit (concat (map ek vs)) (base @ concat (map ek us)) = base @ concat (map ek (visit vs us))"
  using assms
proof (induction vs arbitrary: us)
  case (Cons v vs)
  show ?case
  proof (cases "v \<in> set us")
    case True
    then have "set (ek v) \<subseteq> set (base @ concat (map ek us))" by auto
    with True Cons show ?thesis by (simp add: set_add_def visit_known)
  next
    case False
    from visit_extends [of vs "us @ [v]"] obtain more where "visit vs (us @ [v]) = us @ [v] @ more" by auto
    with Cons.prems False have "distinct ((base @ concat (map ek us)) @ ek v @ concat (map ek more))" by (simp add: set_add_def)
    then have "distinct ((base @ concat (map ek us)) @ ek v)" by auto
    from visit_new [OF this] False Cons.IH [of "us @ [v]"] Cons.prems show ?thesis by (simp add: set_add_def)
  qed
qed simp

lemma dict_update_keys: "map fst (dict_update d e) = visit (map fst e) (map fst d)"
  by (induction d e rule: dict_update.induct) (auto simp: update_keys set_add_def)

text \<open>What \<^verbatim>\<open>_join_table_with_select_related\<close> adds: blocks of columns, and entries of the paths visited.\<close>

definition sr_entry :: "orm_env \<Rightarrow> mid \<Rightarrow> table \<Rightarrow> mid \<times> nat \<times> string \<times> mid \<times> string option list \<Rightarrow> bool" where
  "sr_entry env mo t e \<longleftrightarrow> (case e of (m, n, fld, mo', path) \<Rightarrow>
     length (entry_keys env mo t e) = n \<and> (\<exists>ns rt. ns \<noteq> [] \<and> path = None # map Some ns \<and>
       related_table env mo t ns = Some (m, rt)))"

lemma sr_entryD: "sr_entry env mo t e \<Longrightarrow> length (entry_keys env mo t e) = fst (snd e)"
  "\<not> sr_entry env mo t (m, n, fld, mo', [None])"
  by (auto simp: sr_entry_def split: prod.splits)

abbreviation sel_keys :: "aq \<Rightarrow> string list" where
  "sel_keys st \<equiv> map select_key (sq_selects (query st))"

lemma sel_keys_closed: "quiet_closed p (\<lambda>st. sel_keys st = ks)"
proof -
  have "sel_keys (add_joins p js st) = sel_keys st" for js st
    unfolding add_joins_def by (induction js arbitrary: st) (simp_all add: add_join_def)
  then show ?thesis by (simp add: quiet_closed_def add_orderby_def)
qed

lemma sel_keys_columns:
  "sel_keys (foldl (\<lambda>s c. add_select (TAs (TField rt c) (g c)) s) st cs) = sel_keys st @ map g cs"
  by (induction cs arbitrary: st) (simp_all add: add_select_def)

lemma join_select_related_keys:
  "join_select_related env lim mo t fld fwd (None # map Some (ns @ [fld])) (idx, st) = Inr (idx', st') \<Longrightarrow>
     related_table env mo0 t0 ns = Some (mo, t) \<Longrightarrow>
     \<exists>vs. idx' = visit vs idx \<and> sel_keys st' = sel_keys st @ concat (map (entry_keys env mo0 t0) vs) \<and>
       (\<forall>e\<in>set vs. sr_entry env mo0 t0 e)"
proof (induction lim arbitrary: mo t fld fwd ns idx st)
  case (Suc lim)
  from Suc.prems(1) obtain f rt st1 rm where f: "map_of (fields_map (metas env mo)) fld = Some f"
    and j: "join_table_by_field env t fld f st = Inr (rt, st1)" and rm: "related_model (rel f) = Some rm"
    by (auto simp: rbind_eq_Inr Let_def split: if_splits option.splits prod.splits)
  define e where "e = (rm, length (db_fields (metas env rm)), fld, mo, None # map Some (ns @ [fld]))"
  define st2 where "st2 = foldl (\<lambda>s c. add_select (TAs (TField rt c) (tbl_name (pp env) rt @ ''.'' @ c)) s) st1 (db_fields (metas env rm))"
  from j f rm have rt: "related_table env mo t [fld] = Some (rm, rt)"
    by (auto simp: join_table_by_field_def rbind_eq_Inr)
  have path: "related_table env mo0 t0 (ns @ [fld]) = Some (rm, rt)"
    using Suc.prems(2) rt by (simp add: related_table_append)
  then have ek: "entry_keys env mo0 t0 e = map (\<lambda>c. tbl_name (pp env) rt @ ''.'' @ c) (db_fields (metas env rm))"
    by (simp add: entry_keys_def e_def path_keys_def comp_def)
  have "sel_keys st1 = sel_keys st" by (rule join_table_quiet [OF j sel_keys_closed]) simp
  then have st2: "sel_keys st2 = sel_keys st @ entry_keys env mo0 t0 e"
    unfolding st2_def sel_keys_columns ek by simp
  have "length (entry_keys env mo0 t0 e) = length (db_fields (metas env rm))" by (simp add: ek)
  moreover have "\<exists>ns' rt'. ns' \<noteq> [] \<and> None # map Some (ns @ [fld]) = None # map Some ns' \<and>
      related_table env mo0 t0 ns' = Some (rm, rt')"
    using path by (intro exI [of _ "ns @ [fld]"] exI [of _ rt]) simp
  ultimately have good: "sr_entry env mo0 t0 e" by (simp add: sr_entry_def e_def)
  show ?case
  proof (cases "fwd = []")
    case True
    with Suc.prems(1) f j rm have "st' = st2" "idx' = set_add e idx"
      by (auto simp: Let_def st2_def e_def split: if_splits)
    with st2 good show ?thesis by (intro exI [of _ "[e]"]) simp
  next
    case False
    obtain nxt fwd' where p: "partition2 fwd = (nxt, fwd')" by (cases "partition2 fwd")
    with Suc.prems(1) f j rm False have
      "join_select_related env lim rm rt nxt fwd' (None # map Some ((ns @ [fld]) @ [nxt])) (set_add e idx, st2) = Inr (idx', st')"
      by (auto simp: Let_def st2_def e_def split: if_splits)
    from Suc.IH [OF this path] obtain vs where "idx' = visit vs (set_add e idx)"
      "sel_keys st' = sel_keys st2 @ concat (map (entry_keys env mo0 t0) vs)" "\<forall>e\<in>set vs. sr_entry env mo0 t0 e" by blast
    with st2 good show ?thesis by (intro exI [of _ "e # vs"]) simp
  qed
qed simp

lemma select_related_keys:
  "rfold (select_related_step env lim mo) names (idx, st) = Inr (idx', st') \<Longrightarrow>
     \<exists>vs. idx' = visit vs idx \<and> sel_keys st' = sel_keys st @ concat (map (entry_keys env mo (basetable (metas env mo))) vs) \<and>
       (\<forall>e\<in>set vs. sr_entry env mo (basetable (metas env mo)) e)"
proof (induction names arbitrary: idx st)
  case (Cons name names)
  let ?t = "basetable (metas env mo)"
  obtain fld fwd where p: "partition2 name = (fld, fwd)" by fastforce
  from Cons.prems obtain idx1 st1 where s: "select_related_step env lim mo name (idx, st) = Inr (idx1, st1)"
    and 2: "rfold (select_related_step env lim mo) names (idx1, st1) = Inr (idx', st')"
    by (auto simp: rbind_eq_Inr)
  from s p have 1: "join_select_related env lim mo ?t fld fwd (None # map Some ([] @ [fld])) (idx, st) = Inr (idx1, st1)"
    by (simp add: select_related_step_def)
  from join_select_related_keys [OF 1, of mo ?t] obtain us where u: "idx1 = visit us idx"
    "sel_keys st1 = sel_keys st @ concat (map (entry_keys env mo ?t) us)" "\<forall>e\<in>set us. sr_entry env mo ?t e" by auto
  from Cons.IH [OF 2] obtain vs where "idx' = visit vs idx1"
    "sel_keys st' = sel_keys st1 @ concat (map (entry_keys env mo ?t) vs)" "\<forall>e\<in>set vs. sr_entry env mo ?t e" by blast
  with u show ?case by (intro exI [of _ "us @ vs"]) auto
qed (auto intro!: exI [of _ "[]"])

text \<open>The annotations come after the model's columns.\<close>

lemma dict_update_same_keys: "map fst (dict_update d d) = map fst d"
  unfolding dict_update_keys by (rule visit_known) simp

lemma annotate_keys:
  assumes "resolve_annotate env lim mo own own st = Inr (b, st')"
  shows "sel_keys st' = sel_keys st @ map fst own"
proof (cases "own = []")
  case False
  let ?res = "\<lambda>(k, a). rbind (ann_resolve env lim mo (basetable (metas env mo)) a) (\<lambda>i. Inr (k, i))"
  let ?step = "\<lambda>(k, js, x) s. rbind (join_steps env js s) (\<lambda>s'. Inr (if dict_has own k then add_select (TAs x k) s' else s'))"
  from assms False obtain infos where i: "rmap ?res (dict_update own own) = Inr infos" "rfold ?step infos st = Inr st'"
    by (auto simp: resolve_annotate_def rbind_eq_Inr)
  have "map fst infos = map fst (dict_update own own)" if "rmap ?res d = Inr infos" "d = dict_update own own" for d
  proof -
    have "map fst is = map fst d" if "rmap ?res d = Inr is" for d "is"
      using that by (induction d arbitrary: "is") (auto simp: rbind_eq_Inr)
    with that show ?thesis by blast
  qed
  with i(1) have k: "map fst infos = map fst own" by (simp add: dict_update_same_keys)
  have "sel_keys v = sel_keys u @ map fst xs" if "rfold ?step xs u = Inr v" "\<forall>x\<in>set xs. dict_has own (fst x)" for xs u v
    using that
  proof (induction xs arbitrary: u)
    case (Cons x xs)
    obtain k js y where x: "x = (k, js, y)" by (cases x)
    from Cons.prems x obtain w where w: "join_steps env js u = Inr w" "rfold ?step xs (add_select (TAs y k) w) = Inr v"
      by (auto simp: rbind_eq_Inr)
    have "sel_keys w = sel_keys u" by (rule join_steps_quiet [OF w(1) sel_keys_closed]) simp
    with Cons.IH [OF w(2)] Cons.prems(2) x show ?case by (simp add: add_select_def)
  qed simp
  from this [OF i(2)] k show ?thesis
    by (metis (no_types, lifting) dict_has_iff image_eqI list.set_map)
qed (use assms in \<open>simp add: resolve_annotate_def\<close>)

lemma make_query_keys:
  assumes "make_query env lim h qs = Inr (idx, st)" and "qs_fields_for_select qs = []"
  shows "\<exists>vs. idx = visit vs [(qs_model qs, length (db_fields (metas env (qs_model qs))) + length (qs_annotations qs), [], qs_model qs, [None])] \<and>
    sel_keys st = (db_fields (metas env (qs_model qs)) @ map fst (qs_annotations qs)) @
      concat (map (entry_keys env (qs_model qs) (basetable (metas env (qs_model qs)))) vs) \<and>
    (\<forall>e\<in>set vs. sr_entry env (qs_model qs) (basetable (metas env (qs_model qs))) e)"
proof -
  let ?m = "metas env (qs_model qs)"
  obtain cols n0 st1 st2 st3 where
    b: "base_columns env qs = Inr (cols, n0)" and
    o: "resolve_ordering env lim (qs_model qs) (qs_model qs) (basetable ?m) (qs_orderings qs)
       (qs_annotations qs) \<lparr> joined_tables = [], query = base_query\<lparr>sq_selects := cols\<rparr> \<rparr> = Inr st1" and
    f: "resolve_filters env lim (qs_model qs) (qs_annotations qs) (qs_q_objects qs) (qs_annotations qs)
       (qs_custom_filters qs) st1 = Inr st2" and
    r: "rfold (select_related_step env lim (qs_model qs)) (cells h (qs_select_related qs))
       ([(qs_model qs, n0, [], qs_model qs, [None])], on_query (set_limits qs) st2) = Inr (idx, st3)" and
    st: "st = hint_indexes (cells h (qs_force_indexes qs)) (cells h (qs_use_indexes qs)) st3"
    by (rule make_query_stages [OF assms(1)])
  from b assms(2) have c: "cols = map (TField (basetable ?m)) (db_fields ?m)"
    and n0: "n0 = length (db_fields ?m) + length (qs_annotations qs)" by (auto simp: base_columns_def Let_def)
  have "sel_keys st1 = db_fields ?m"
    by (rule resolve_ordering_quiet [OF o sel_keys_closed]) (simp add: c comp_def)
  moreover obtain b st1' where a: "resolve_annotate env lim (qs_model qs) (qs_annotations qs) (qs_annotations qs) st1 = Inr (b, st1')"
    and P: "\<forall>P. quiet_closed (pp env) P \<longrightarrow> P st1' \<longrightarrow> P st2"
    by (rule resolve_filters_stages [OF f])
  moreover have "sel_keys st2 = sel_keys st1'" using P sel_keys_closed [of "pp env" "sel_keys st1'"] by blast
  ultimately have "sel_keys (on_query (set_limits qs) st2) = db_fields ?m @ map fst (qs_annotations qs)"
    using annotate_keys [OF a] by (simp add: set_limits_def)
  with select_related_keys [OF r] st n0 show ?thesis by (auto simp: hint_indexes_def)
qed

lemma cut_row_blocks:
  "\<forall>e\<in>set es. length (ek e) = fst (snd e) \<Longrightarrow> map fst items = concat (map ek es) \<Longrightarrow>
     map (\<lambda>(e, xs). (e, map fst xs)) (cut_row es items) = map (\<lambda>e. (e, ek e)) es"
proof (induction es arbitrary: items)
  case (Cons e es)
  obtain m n fld mo path where e: "e = (m, n, fld, mo, path)" by (cases e)
  from Cons.prems e have "map fst (take n items) = ek e" "map fst (drop n items) = concat (map ek es)"
    by (simp_all add: take_map [symmetric] drop_map [symmetric])
  with Cons e show ?case by simp
qed simp


definition related_store :: set_store where
  "related_store = empty_store\<lparr>cells := (\<lambda>a. if a = 0 then [''author''] else [])\<rparr>"

definition related_row :: row where
  "related_row = [(''id'', VInt 1), (''author_id'', VInt 7), (''post__author.id'', VInt 7), (''post__author.name'', VStr ''ann'')]"


text \<open>The prefix of a related column's name is taken off, unless a table's or a column's name has a dot.\<close>

lemma split_chr_plain: "c \<notin> set s \<Longrightarrow> split_chr c (s @ c # t) = s # split_chr c t"
  by (induction s) auto

lemma after_dot_column: "CHR ''.'' \<notin> set t \<Longrightarrow> CHR ''.'' \<notin> set c \<Longrightarrow> after_dot (t @ ''.'' @ c) = Inr c"
proof -
  have "split_chr x s = [s]" if "x \<notin> set s" for x and s :: string using that by (induction s) auto
  then show "CHR ''.'' \<notin> set t \<Longrightarrow> CHR ''.'' \<notin> set c \<Longrightarrow> after_dot (t @ ''.'' @ c) = Inr c"
    by (simp add: after_dot_def split_chr_plain)
qed

end
