(* ===== verification/Related.thy ===== *)
theory Related
  imports Selecting ExecutorProofs
begin

text \<open>
  The containers of \<^verbatim>\<open>fields/relational.py\<close>: \<^verbatim>\<open>ReverseRelation\<close> for backward foreign keys and
  \<^verbatim>\<open>ManyToManyRelation\<close>, whose \<open>add\<close>, \<open>remove\<close> and \<open>clear\<close> change the rows of the through table.
\<close>

section \<open>ReverseRelation\<close>

text \<open>\<^verbatim>\<open>_query\<close>\<close>

definition relation_query :: "'d run_env \<Rightarrow> nat \<Rightarrow> ('d, qset) sio" where
  "relation_query rv c s =
     (let ct = containers s c in
      if \<not> i_saved (objs s (ct_instance ct)) then (Raise OperationalError, s)
      else ibind (py_getattr rv (ct_instance ct) (ct_from ct)) (\<lambda>v. model_filter rv (ct_model ct) [(ct_field ct, plain v)]) s)"

definition raise_if_not_fetched :: "nat \<Rightarrow> ('d, unit) sio" where
  "raise_if_not_fetched c s = (if ct_fetched (containers s c) then Ret () else Raise NoValuesFetched, s)"

definition related_objects_of :: "nat \<Rightarrow> ('d, nat list) sio" where
  "related_objects_of c = iseq (raise_if_not_fetched c) (iget (\<lambda>s. ct_objects (containers s c)))"

text \<open>\<^verbatim>\<open>__contains__\<close> of an instance, \<^verbatim>\<open>__iter__\<close>, \<^verbatim>\<open>__len__\<close>, \<^verbatim>\<open>__bool__\<close> and \<^verbatim>\<open>__getitem__\<close>.\<close>

definition relation_contains :: "'d run_env \<Rightarrow> nat \<Rightarrow> nat \<Rightarrow> ('d, bool) sio" where
  "relation_contains rv c b =
     ibind (related_objects_of c) (\<lambda>xs. ifold (\<lambda>x found. if found \<or> x = b then iret True else inst_eq rv x b) xs False)"

definition relation_iter :: "nat \<Rightarrow> ('d, nat list) sio" where
  "relation_iter c = related_objects_of c"

definition relation_len :: "nat \<Rightarrow> ('d, nat) sio" where
  "relation_len c = ibind (related_objects_of c) (\<lambda>xs. iret (length xs))"

definition relation_bool :: "nat \<Rightarrow> ('d, bool) sio" where
  "relation_bool c = ibind (related_objects_of c) (\<lambda>xs. iret (xs \<noteq> []))"

definition py_index :: "'a list \<Rightarrow> int \<Rightarrow> 'a res" where
  "py_index xs i =
     (let n = int (length xs); j = (if i < 0 then i + n else i) in
      if 0 \<le> j \<and> j < n then Inr (xs ! nat j) else Inl PyIndexError)"

definition relation_getitem :: "nat \<Rightarrow> int \<Rightarrow> ('d, nat) sio" where
  "relation_getitem c i = ibind (related_objects_of c) (\<lambda>xs. ilift (py_index xs i))"

text \<open>\<^verbatim>\<open>_set_result_for_query\<close>\<close>

definition set_result :: "'d run_env \<Rightarrow> nat \<Rightarrow> nat list \<Rightarrow> string option \<Rightarrow> ('d, unit) sio" where
  "set_result rv c xs to_attr =
     iseq (imodify (\<lambda>s. s\<lparr>containers := (containers s)(c := (containers s c)\<lparr>ct_fetched := True, ct_objects := xs\<rparr>)\<rparr>))
       (case to_attr of
          None \<Rightarrow> iret ()
        | Some n \<Rightarrow> iwhen (n \<noteq> []) (\<lambda>s. py_setattr rv (ct_instance (containers s c)) n (AInsts xs) s))"

text \<open>\<^verbatim>\<open>await relation\<close> and \<^verbatim>\<open>async for\<close>; \<open>fetch\<close> awaits a query set.\<close>

definition relation_await :: "'d run_env \<Rightarrow> (qset \<Rightarrow> ('d, nat list) sio) \<Rightarrow> nat \<Rightarrow> ('d, nat list) sio" where
  "relation_await rv fetch c = ibind (relation_query rv c) fetch"

definition relation_aiter :: "'d run_env \<Rightarrow> (qset \<Rightarrow> ('d, nat list) sio) \<Rightarrow> nat \<Rightarrow> ('d, nat list) sio" where
  "relation_aiter rv fetch c s =
     iseq (iwhen (\<not> ct_fetched (containers s c)) (ibind (relation_await rv fetch c) (\<lambda>xs. set_result rv c xs None)))
       (iget (\<lambda>s. ct_objects (containers s c))) s"

definition relation_filter :: "'d run_env \<Rightarrow> q_arg list \<Rightarrow> kwargs \<Rightarrow> nat \<Rightarrow> ('d, qset) sio" where
  "relation_filter rv args kw c = ibind (relation_query rv c) (\<lambda>q. on_sets (filter_or_exclude False args kw q))"

definition relation_order_by :: "'d run_env \<Rightarrow> string list \<Rightarrow> nat \<Rightarrow> ('d, qset) sio" where
  "relation_order_by rv names c = ibind (relation_query rv c) (\<lambda>q. on_sets (order_by (orm rv) names q))"

definition relation_limit :: "'d run_env \<Rightarrow> int \<Rightarrow> nat \<Rightarrow> ('d, qset) sio" where
  "relation_limit rv n c = ibind (relation_query rv c) (\<lambda>q. on_sets (qs_set_limit n q))"

definition relation_offset :: "'d run_env \<Rightarrow> int \<Rightarrow> nat \<Rightarrow> ('d, qset) sio" where
  "relation_offset rv n c = ibind (relation_query rv c) (\<lambda>q. on_sets (qs_set_offset n q))"

section \<open>ManyToManyRelation\<close>

text \<open>\<^verbatim>\<open>field.to_db_value(v, instance)\<close>, as the field defines it.\<close>

definition convert_on :: "'d run_env \<Rightarrow> nat \<Rightarrow> field \<Rightarrow> pyval \<Rightarrow> ('d, pyval) sio" where
  "convert_on rv a f v s =
     (let cur = (case map_of (i_dict (objs s a)) (model_field_name f) of None \<Rightarrow> VNone | Some w \<Rightarrow> plain w) in
      ibind (ilift (to_db_value (lib (orm rv)) (ce (orm rv)) f v (Instance cur))) (\<lambda>(w, wb).
      iseq (case wb of None \<Rightarrow> iret () | Some x \<Rightarrow> py_setattr rv a (model_field_name f) (APy x)) (iret w)) s)"

text \<open>The key of an instance, formatted by the primary key of the model \<open>m\<close>.\<close>

definition m2m_key :: "'d run_env \<Rightarrow> meta \<Rightarrow> nat \<Rightarrow> ('d, pyval) sio" where
  "m2m_key rv m a = ibind (ilift (get_pk m)) (\<lambda>f. ibind (get_pk_val rv a) (\<lambda>v. convert_on rv a f (plain v)))"

definition saved_key :: "'d run_env \<Rightarrow> meta \<Rightarrow> nat \<Rightarrow> ('d, pyval) sio" where
  "saved_key rv m a s = (if \<not> i_saved (objs s a) then (Raise OperationalError, s) else m2m_key rv m a s)"

definition through_table :: "field \<Rightarrow> table" where
  "through_table f = Table (case through (rel f) of None \<Rightarrow> [] | Some t \<Rightarrow> t) None"

definition keys_crit :: "term \<Rightarrow> pyval list \<Rightarrow> crit" where
  "keys_crit x ks = (case ks of [k] \<Rightarrow> CCmp CmpEq x k | _ \<Rightarrow> CIsIn x (VList ks))"

definition link_crit :: "field \<Rightarrow> pyval \<Rightarrow> pyval list \<Rightarrow> crit" where
  "link_crit f b ks =
     CAnd (CCmp CmpEq (TField (through_table f) (backward_key (rel f))) b)
          (keys_crit (TField (through_table f) (forward_key (rel f))) ks)"

definition m2m_field :: "container \<Rightarrow> field res" where
  "m2m_field ct = opt_attr (ct_m2m ct)"

text \<open>The keys among \<open>ks\<close> that are linked already, as the database gives them back.\<close>

definition stored_key :: "'d run_env \<Rightarrow> string \<Rightarrow> meta \<Rightarrow> nat \<Rightarrow> row \<Rightarrow> ('d, pyval) sio" where
  "stored_key rv fk m a row =
     ibind (ilift (dict_at row fk)) (\<lambda>v. ibind (ilift (get_pk m)) (\<lambda>pf. convert_on rv a pf v))"

definition linked_keys :: "'d run_env \<Rightarrow> field \<Rightarrow> meta \<Rightarrow> nat \<Rightarrow> pyval \<Rightarrow> pyval list \<Rightarrow> ('d, pyval list) sio" where
  "linked_keys rv f m a b ks =
     ibind (send_db rv (SelectFrom (through_table f) [forward_key (rel f)] (link_crit f b ks)) []) (\<lambda>r.
     imap (stored_key rv (forward_key (rel f)) m a) (fetched_rows r))"

definition m2m_add :: "'d run_env \<Rightarrow> nat \<Rightarrow> nat list \<Rightarrow> ('d, unit) sio" where
  "m2m_add rv c insts s =
     (let ct = containers s c; a = ct_instance ct; m = model_of rv (i_model (objs s (hd insts))) in
      if insts = [] then (Ret (), s)
      else if \<not> i_saved (objs s a) then (Raise OperationalError, s)
      else
        ibind (m2m_key rv (model_of rv (i_model (objs s a))) a) (\<lambda>b.
        ibind (imap (saved_key rv m) insts) (\<lambda>ks.
        ibind (ilift (m2m_field ct)) (\<lambda>f.
        ibind (linked_keys rv f m a b ks) (\<lambda>old.
        let new = filter (\<lambda>k. k \<notin> set old) (remdups ks) in
        iwhen (new \<noteq> [])
          (ibind (send_db rv (InsertRows (through_table f) [forward_key (rel f), backward_key (rel f)]
             (map (\<lambda>k. [k, b]) new)) []) (\<lambda>_. iret ())))))) s)"

text \<open>\<^verbatim>\<open>_remove_or_clear\<close>: no instances means all.\<close>

definition remove_or_clear :: "'d run_env \<Rightarrow> nat \<Rightarrow> nat list \<Rightarrow> ('d, unit) sio" where
  "remove_or_clear rv c insts s =
     (let ct = containers s c; a = ct_instance ct; m = model_of rv (i_model (objs s (hd insts))) in
      ibind (ilift (m2m_field ct)) (\<lambda>f.
      ibind (m2m_key rv (model_of rv (i_model (objs s a))) a) (\<lambda>b.
      ibind (if insts = [] then iret (CCmp CmpEq (TField (through_table f) (backward_key (rel f))) b)
             else ibind (imap (m2m_key rv m) insts) (\<lambda>ks. iret (link_crit f b ks))) (\<lambda>c.
      ibind (send_db rv (DeleteWhere (through_table f) c) []) (\<lambda>_. iret ())))) s)"

definition m2m_clear :: "'d run_env \<Rightarrow> nat \<Rightarrow> ('d, unit) sio" where
  "m2m_clear rv c = remove_or_clear rv c []"

definition m2m_remove :: "'d run_env \<Rightarrow> nat \<Rightarrow> nat list \<Rightarrow> ('d, unit) sio" where
  "m2m_remove rv c insts = (if insts = [] then iraise OperationalError else remove_or_clear rv c insts)"


section \<open>What the managers do to the through table\<close>

text \<open>
  The rows of a through table, as pairs of a backward and a forward key. What is relied on of
  the database: selecting and deleting go by the condition, inserting adds the rows given.
\<close>

definition link_laws :: "'d run_env \<Rightarrow> field \<Rightarrow> ('d \<Rightarrow> (pyval \<times> pyval) list) \<Rightarrow> bool" where
  "link_laws rv f links \<longleftrightarrow>
     (\<forall>d b ks r d'. send rv (SelectFrom (through_table f) [forward_key (rel f)] (link_crit f b ks)) [] d = (Ret r, d') \<longrightarrow>
        d' = d \<and> (\<exists>n rows. r = Fetched n rows \<and>
          map (\<lambda>row. map_of row (forward_key (rel f))) rows = map (\<lambda>x. Some (snd x)) (filter (\<lambda>(x, k). x = b \<and> k \<in> set ks) (links d)))) \<and>
     (\<forall>d b ks r d'. send rv (InsertRows (through_table f) [forward_key (rel f), backward_key (rel f)] (map (\<lambda>k. [k, b]) ks)) [] d = (Ret r, d') \<longrightarrow>
        mset (links d') = mset (links d) + mset (map (Pair b) ks)) \<and>
     (\<forall>d b ks r d'. send rv (DeleteWhere (through_table f) (link_crit f b ks)) [] d = (Ret r, d') \<longrightarrow>
        links d' = filter (\<lambda>(x, k). \<not> (x = b \<and> k \<in> set ks)) (links d)) \<and>
     (\<forall>d b r d'. send rv (DeleteWhere (through_table f) (CCmp CmpEq (TField (through_table f) (backward_key (rel f))) b)) [] d = (Ret r, d') \<longrightarrow>
        links d' = filter (\<lambda>(x, k). x \<noteq> b) (links d))"

text \<open>The key a primary key field formats, for a field that does not write back (no \<^verbatim>\<open>auto_now\<close>).\<close>

definition steady :: "'d run_env \<Rightarrow> meta \<Rightarrow> bool" where
  "steady rv m \<longleftrightarrow> (\<forall>f v cur w wb. get_pk m = Inr f \<longrightarrow>
     to_db_value (lib (orm rv)) (ce (orm rv)) f v (Instance cur) = Inr (w, wb) \<longrightarrow> wb = None)"

definition format_key :: "'d run_env \<Rightarrow> meta \<Rightarrow> inst \<Rightarrow> pyval \<Rightarrow> pyval res" where
  "format_key rv m i v =
     rbind (get_pk m) (\<lambda>f.
     rbind (to_db_value (lib (orm rv)) (ce (orm rv)) f v
       (Instance (case map_of (i_dict i) (model_field_name f) of None \<Rightarrow> VNone | Some w \<Rightarrow> plain w))) (\<lambda>(w, wb). Inr w))"

definition key_value :: "'d run_env \<Rightarrow> meta \<Rightarrow> inst \<Rightarrow> pyval res" where
  "key_value rv m i =
     format_key rv m i (plain (case map_of (i_dict i) (pk_attr (model_of rv (i_model i))) of None \<Rightarrow> APy VNone | Some v \<Rightarrow> v))"

lemma convert_on_steady:
  assumes "convert_on rv a f v s = (Ret k, s')" and "steady rv m" and "get_pk m = Inr f"
  shows "s' = s" "format_key rv m (objs s a) v = Inr k"
proof -
  let ?cur = "case map_of (i_dict (objs s a)) (model_field_name f) of None \<Rightarrow> VNone | Some w \<Rightarrow> plain w"
  from assms(1) obtain w wb where c: "to_db_value (lib (orm rv)) (ce (orm rv)) f v (Instance ?cur) = Inr (w, wb)"
    and r: "iseq (case wb of None \<Rightarrow> iret () | Some x \<Rightarrow> py_setattr rv a (model_field_name f) (APy x)) (iret w) s = (Ret k, s')"
    unfolding convert_on_def Let_def ibind_Ret ilift_Ret by auto
  from assms(2,3) c have "wb = None" unfolding steady_def by blast
  with r c assms(3) show "s' = s" "format_key rv m (objs s a) v = Inr k"
    by (simp_all add: iseq_def ibind_def iret_def format_key_def)
qed

lemma m2m_key_spec:
  assumes "m2m_key rv m a s = (Ret k, s')" and "steady rv m"
  shows "s' = s" "key_value rv m (objs s a) = Inr k"
proof -
  from assms(1) obtain f v where f: "get_pk m = Inr f"
    and v: "v = (case map_of (i_dict (objs s a)) (pk_attr (model_of rv (i_model (objs s a)))) of None \<Rightarrow> APy VNone | Some v \<Rightarrow> v)"
    and c: "convert_on rv a f (plain v) s = (Ret k, s')"
    unfolding m2m_key_def ibind_Ret by (auto simp: get_pk_val_def)
  from convert_on_steady [OF c assms(2) f] v show "s' = s" "key_value rv m (objs s a) = Inr k"
    by (simp_all add: key_value_def)
qed

lemma m2m_keys_spec:
  assumes "imap (m2m_key rv m) as s = (Ret ks, s')" and "steady rv m"
  shows "s' = s \<and> list_all2 (\<lambda>a k. key_value rv m (objs s a) = Inr k) as ks"
  using assms
proof (induction as arbitrary: ks)
  case (Cons a as)
  then obtain k t ks' where k: "m2m_key rv m a s = (Ret k, t)" and r: "imap (m2m_key rv m) as t = (Ret ks', s')" and ks: "ks = k # ks'"
    unfolding imap.simps ibind_Ret by (auto simp: iret_def)
  from m2m_key_spec [OF k Cons.prems(2)] Cons.IH [of ks'] r Cons.prems(2) ks show ?case by simp
qed (simp add: iret_def)

lemma saved_keys_spec:
  assumes "imap (saved_key rv m) as s = (Ret ks, s')" and "steady rv m"
  shows "s' = s \<and> (\<forall>a\<in>set as. i_saved (objs s a)) \<and> list_all2 (\<lambda>a k. key_value rv m (objs s a) = Inr k) as ks"
  using assms
proof (induction as arbitrary: ks)
  case (Cons a as)
  then obtain k t ks' where k: "saved_key rv m a s = (Ret k, t)" and r: "imap (saved_key rv m) as t = (Ret ks', s')" and ks: "ks = k # ks'"
    unfolding imap.simps ibind_Ret by (auto simp: iret_def)
  from k have "i_saved (objs s a)" "m2m_key rv m a s = (Ret k, t)" by (auto simp: saved_key_def split: if_splits)
  with m2m_key_spec [OF this(2) Cons.prems(2)] Cons.IH [of ks'] r Cons.prems(2) ks show ?case by simp
qed (simp add: iret_def)

text \<open>Keys that the database gives back are formatted to themselves.\<close>

definition stored_as_is :: "'d run_env \<Rightarrow> meta \<Rightarrow> inst \<Rightarrow> pyval list \<Rightarrow> bool" where
  "stored_as_is rv m i ks \<longleftrightarrow> (\<forall>k\<in>set ks. \<forall>w. format_key rv m i k = Inr w \<longrightarrow> w = k)"

lemma decode_keys_spec:
  assumes "imap (stored_key rv fk m a) rows s = (Ret old, s')"
    and "steady rv m" and "stored_as_is rv m (objs s a) ks" and "map (\<lambda>row. map_of row fk) rows = map Some ls" and "set ls \<subseteq> set ks"
  shows "s' = s \<and> old = ls"
  using assms
proof (induction rows arbitrary: old ls)
  case (Cons row rows)
  then obtain l ls' where ls: "ls = l # ls'" and l: "map_of row fk = Some l" and "map (\<lambda>row. map_of row fk) rows = map Some ls'"
    by (cases ls) auto
  moreover from Cons.prems(1) l obtain k t old' where k0: "stored_key rv fk m a row s = (Ret k, t)"
    and r: "imap (stored_key rv fk m a) rows t = (Ret old', s')"
    and old: "old = k # old'"
    unfolding imap.simps ibind_Ret by (auto simp: iret_def)
  moreover from k0 l obtain pf where pf: "get_pk m = Inr pf" and k: "convert_on rv a pf l s = (Ret k, t)"
    unfolding stored_key_def ibind_Ret by auto
  moreover from convert_on_steady [OF k Cons.prems(2) pf] have t: "t = s" and fk: "format_key rv m (objs s a) l = Inr k" by simp_all
  moreover from fk Cons.prems(3,5) ls have "k = l" by (simp add: stored_as_is_def)
  ultimately show ?case using Cons.IH [of old' ls'] Cons.prems(2,3,5) by simp
qed (auto simp: iret_def)

lemma send_db_reply: "send_db rv q vals s = (Ret r, s') \<Longrightarrow> \<exists>d'. send rv q vals (sdb s) = (Ret r, d') \<and> s' = s\<lparr>sdb := d'\<rparr>"
  by (auto simp: send_db_def split: prod.splits)

lemma linked_keys_spec:
  assumes "linked_keys rv f m a b ks s = (Ret old, s')" and "link_laws rv f links" and "steady rv m"
    and "stored_as_is rv m (objs s a) ks"
  shows "s' = s \<and> old = map snd (filter (\<lambda>(x, k). x = b \<and> k \<in> set ks) (links (sdb s)))"
proof -
  let ?q = "SelectFrom (through_table f) [forward_key (rel f)] (link_crit f b ks)"
  let ?ls = "map snd (filter (\<lambda>(x, k). x = b \<and> k \<in> set ks) (links (sdb s)))"
  from assms(1) obtain r t where r: "send_db rv ?q [] s = (Ret r, t)"
    and d: "imap (stored_key rv (forward_key (rel f)) m a) (fetched_rows r) t = (Ret old, s')"
    unfolding linked_keys_def ibind_Ret by blast
  from send_db_reply [OF r] obtain d' where s: "send rv ?q [] (sdb s) = (Ret r, d')" and t: "t = s\<lparr>sdb := d'\<rparr>" by blast
  from assms(2) have "\<forall>d b ks r d'. send rv (SelectFrom (through_table f) [forward_key (rel f)] (link_crit f b ks)) [] d = (Ret r, d') \<longrightarrow>
        d' = d \<and> (\<exists>n rows. r = Fetched n rows \<and>
          map (\<lambda>row. map_of row (forward_key (rel f))) rows = map (\<lambda>x. Some (snd x)) (filter (\<lambda>(x, k). x = b \<and> k \<in> set ks) (links d)))"
    unfolding link_laws_def by blast
  with s obtain n rows where [simp]: "d' = sdb s" "r = Fetched n rows"
    and rows: "map (\<lambda>row. map_of row (forward_key (rel f))) rows = map Some ?ls" by (fastforce simp: comp_def)
  have [simp]: "t = s" using t by simp
  have "set ?ls \<subseteq> set ks" by auto
  with decode_keys_spec [of rv "forward_key (rel f)" m a "fetched_rows r" t old s' ks ?ls] d assms(3,4) rows show ?thesis by simp
qed


text \<open>A database with one through table, of users and their friends.\<close>

fun crit_keys :: "crit \<Rightarrow> pyval list" where
  "crit_keys (CCmp c x k) = [k]"
| "crit_keys (CIsIn x (VList ks)) = ks"
| "crit_keys c = []"

fun link_send :: "string \<Rightarrow> stmt \<Rightarrow> pyval list \<Rightarrow> ((pyval \<times> pyval) list, reply) io" where
  "link_send fk (SelectFrom t cols (CAnd (CCmp c x b) kc)) vals d =
     (Ret (Fetched 0 (map (\<lambda>(x, k). [(fk, k)]) (filter (\<lambda>(x, k). x = b \<and> k \<in> set (crit_keys kc)) d))), d)"
| "link_send fk (InsertRows t cols rows) vals d = (Ret RowNothing, d @ map (\<lambda>r. (r ! 1, r ! 0)) rows)"
| "link_send fk (DeleteWhere t (CAnd (CCmp c x b) kc)) vals d =
     (Ret RowNothing, filter (\<lambda>(x, k). \<not> (x = b \<and> k \<in> set (crit_keys kc))) d)"
| "link_send fk (DeleteWhere t (CCmp c x b)) vals d = (Ret RowNothing, filter (\<lambda>(x, k). x \<noteq> b) d)"
| "link_send fk q vals d = (Ret RowNothing, d)"

definition friends_field :: field where
  "friends_field = (plain_field ManyToManyFieldInstance)\<lparr>model_field_name := ''friends'', fmodel := Some sample_user,
     rel := no_relattrs\<lparr>related_model := Some sample_user, through := Some ''user_user'',
       backward_key := ''user_id'', forward_key := ''friend_id'', related_name := RelName ''friend_of''\<rparr>\<rparr>"

definition link_rv :: "(pyval \<times> pyval) list run_env" where
  "link_rv = \<lparr> orm = orm sample_rv, call_default = (\<lambda>_. Inr VNone), await_default = (\<lambda>_. Inr VNone),
     db_native = db_native sample_rv, connection_name = ''default'', caps = caps sample_rv, postgres = False,
     send = link_send ''friend_id'' \<rparr>"

definition stored_user :: "nat \<Rightarrow> inst" where
  "stored_user a = (new_user ''ann'' True)\<lparr>i_saved := True,
     i_dict := [(''id'', APy (VInt (int a))), (''name'', APy (VStr ''ann''))]\<rparr>"

definition link_session :: "(pyval \<times> pyval) list session" where
  "link_session = \<lparr> objs = stored_user, next_obj = 9, awaits = (\<lambda>_. []), next_await = 1, exec_cache = [],
     update_cache = (\<lambda>_. []), containers = (\<lambda>_. relation_init sample_user ''friend_of'' 1 ''pk'' (Some friends_field)),
     next_container = 1, qstore = empty_store, sdb = [(VInt 1, VInt 2), (VInt 3, VInt 2)] \<rparr>"

lemma keys_crit_keys: "crit_keys (keys_crit x ks) = ks"
  by (simp add: keys_crit_def split: list.split)

lemma link_rv_laws: "link_laws link_rv friends_field id"
  unfolding link_laws_def
  by (auto simp: link_rv_def link_crit_def friends_field_def no_relattrs_def plain_field_def keys_crit_keys comp_def
      case_prod_beta image_iff)

lemma user_steady: "steady link_rv (model_of link_rv sample_user)"
  "stored_as_is link_rv (model_of link_rv sample_user) (stored_user 1) [VInt 2, VInt 4]"
proof -
  have pk: "get_pk (model_of link_rv sample_user) = Inr id_field" by code_simp
  have cls: "fclass id_field = IntField" by (simp add: id_field_def pk_field_def plain_field_def)
  show "steady link_rv (model_of link_rv sample_user)"
    unfolding steady_def pk using cls by (auto simp: to_db_value_def rbind_eq_Inr pure_conv_def)
  show "stored_as_is link_rv (model_of link_rv sample_user) (stored_user 1) [VInt 2, VInt 4]"
  proof -
    have "format_key link_rv (model_of link_rv sample_user) (stored_user 1) k = Inr k" if "k = VInt 2 \<or> k = VInt 4" for k
      using that by (elim disjE; hypsubst) (code_simp, code_simp)
    then show ?thesis by (auto simp: stored_as_is_def)
  qed
qed





text \<open>
  A clone has the relation containers of the instance it was made from: what is added to,
  removed from or read through a relation of the clone that the original had used before is the
  original's.
\<close>

theorem clone_relation_original:
  assumes "clone_instance rv a k s = (Ret b, s')" and "m = model_of rv (i_model (objs s a))" and "meta_wf m"
    and "n \<in> set (m2m_fields m)" and "map_of (fields_map m) n = Some f" and "related_model (rel f) \<noteq> None"
    and "''pk'' \<notin> set (fetch_fields m)" and "''_'' @ n \<noteq> pk_attr m"
    and "map_of (i_dict (objs s a)) (''_'' @ n) = Some (ARelation c)" and "n \<notin> set (fk_fields m @ o2o_fields m)"
  shows "py_getattr rv b n s' = (Ret (ARelation c), s') \<and> containers s' c = containers s c \<and> b = next_obj s"
proof -
  let ?b = "next_obj s"
  let ?s0 = "s\<lparr>objs := (objs s)(?b := objs s a), next_obj := Suc ?b\<rparr>"
  have np: "''pk'' \<notin> set (fk_fields m) \<union> set (o2o_fields m) \<union> set (backward_fk_fields m) \<union>
      set (backward_o2o_fields m) \<union> set (m2m_fields m)"
    using assms(3,7) unfolding meta_wf_def by blast
  have set_pk: "py_setattr rv ?b ''pk'' v ?s0 = (Ret (), put_state ?b (pk_attr m) v ?s0)" for v
    using np assms(2) by (simp add: py_setattr_def Let_def put_raw_def imodify_def)
  let ?t = "\<lambda>v. put_state ?b (pk_attr m) v ?s0"
  have "b = ?b \<and> (\<exists>v. s' = (?t v)\<lparr>objs := (objs (?t v))(?b := (objs (?t v) ?b)\<lparr>i_saved := False\<rparr>)\<rparr>)"
    using assms(1,2) by (cases k) (auto simp: clone_instance_def alloc_obj_def iseq_def ibind_Ret update_obj_def imodify_def iret_def
        iraise_def set_pk split: if_splits)
  then obtain v where b: "b = ?b" and s': "s' = (?t v)\<lparr>objs := (objs (?t v))(?b := (objs (?t v) ?b)\<lparr>i_saved := False\<rparr>)\<rparr>"
    by blast
  have i: "i_model (objs s' b) = i_model (objs s a)" "map_of (i_dict (objs s' b)) (''_'' @ n) = Some (ARelation c)"
    "containers s' = containers s"
    using b s' assms(8,9) by (simp_all add: Let_def put_state_def map_of_update)
  have "py_getattr rv b n s' = ibind (ilift (dict_at (fields_map m) n)) (relation_getter rv b n m) s'"
    using i(1) assms(2,4) by (simp add: py_getattr_def Let_def)
  also have "\<dots> = m2m_getter rv b n f s'"
  proof -
    from assms(3-5) have "fclass f = ManyToManyFieldInstance" "n \<notin> set (backward_fk_fields m)" "n \<notin> set (backward_o2o_fields m)"
      unfolding meta_wf_def kind_sets_ok_def by auto
    then show ?thesis using assms(5,10) by (simp add: relation_getter_def dict_at_def)
  qed
  also have "\<dots> = (Ret (ARelation c), s')"
    using assms(6) i(2) by (auto simp: m2m_getter_def container_getter_def opt_attr_def)
  finally show ?thesis using i b by simp
qed

definition friends_meta :: meta where
  "friends_meta = sample_meta\<lparr>field_names := [''id'', ''name'', ''friends''], m2m_fields := [''friends''],
     fetch_fields := [''friends''], fields_map := [(''id'', id_field), (''name'', name_field), (''friends'', friends_field)]\<rparr>"

definition friends_rv :: "(pyval \<times> pyval) list run_env" where
  "friends_rv = link_rv\<lparr>orm := (orm link_rv)\<lparr>metas := (\<lambda>_. friends_meta)\<rparr>\<rparr>"

lemma friends_meta_wf: "meta_wf friends_meta"
  by (auto simp: meta_wf_def kind_sets_ok_def friends_meta_def sample_meta_def empty_meta_def id_field_def name_field_def
      pk_field_def plain_field_def dict_has_def has_db_field_def friends_field_def)

theorem clone_relation_original_witness:
  "\<exists>b s s'. clone_instance friends_rv 1 None s = (Ret b, s') \<and> b \<noteq> 1 \<and>
     (\<exists>c. py_getattr friends_rv b ''friends'' s' = (Ret (ARelation c), s') \<and> ct_instance (containers s' c) = 1)"
proof -
  let ?s = "snd (py_getattr friends_rv 1 ''friends'' link_session)"
  have "(case map_of (i_dict (objs ?s 1)) ''_friends'' of Some (ARelation c) \<Rightarrow> c = 1 | _ \<Rightarrow> False)" by code_simp
  then have d: "map_of (i_dict (objs ?s 1)) (''_'' @ ''friends'') = Some (ARelation 1)"
    by (auto split: option.splits attr.splits)
  have ci: "ct_instance (containers ?s 1) = 1" by code_simp
  have "fst (clone_instance friends_rv 1 None ?s) = Ret 9" by code_simp
  then obtain s' where c: "clone_instance friends_rv 1 None ?s = (Ret 9, s')" by (metis prod.collapse)
  have m: "friends_meta = model_of friends_rv (i_model (objs ?s 1))" by (simp add: friends_rv_def link_rv_def sample_rv_def)
  have f: "map_of (fields_map friends_meta) ''friends'' = Some friends_field" "related_model (rel friends_field) \<noteq> None"
    "''friends'' \<in> set (m2m_fields friends_meta)" "''pk'' \<notin> set (fetch_fields friends_meta)"
    "''_'' @ ''friends'' \<noteq> pk_attr friends_meta" "''friends'' \<notin> set (fk_fields friends_meta @ o2o_fields friends_meta)"
    by (simp_all add: friends_meta_def friends_field_def sample_meta_def empty_meta_def)
  from clone_relation_original [OF c m friends_meta_wf f(3,1,2,4,5) d f(6)] ci c show ?thesis
    by (intro exI [of _ 9] exI [of _ ?s] exI [of _ s']) auto
qed

end
