(* ===== verification/Prefetching.thy ===== *)
theory Prefetching
  imports Related
begin

text \<open>
  Prefetching (\<^verbatim>\<open>backends/base/executor.py\<close>): for every relation to prefetch one query for all
  instances, whose results are handed out to the instances they belong to. The tasks that
  \<^verbatim>\<open>asyncio.gather\<close> runs are run in order here. A Python dictionary keyed by attribute values
  is an association list.
\<close>

section \<open>Handing out\<close>

text \<open>\<^verbatim>\<open>related_query.resolve_ordering(model, table, [], {})\<close> on the query set at \<open>a\<close>, and its \<^verbatim>\<open>filter\<close>.\<close>

definition pq_order :: "'d run_env \<Rightarrow> nat \<Rightarrow> nat \<Rightarrow> ('d, unit) sio" where
  "pq_order rv lim a = on_sets (\<lambda>h.
     let q = pqueries h a; mo = qs_model (pq_set q) in
     case resolve_ordering (orm rv) lim mo mo (basetable (model_of rv mo)) [] [] (pq_aq q) of
       Inl e \<Rightarrow> (Raise e, h)
     | Inr st \<Rightarrow> (Ret (), h\<lparr>pqueries := (pqueries h)(a := q\<lparr>pq_aq := st\<rparr>)\<rparr>))"

definition pq_filter :: "nat \<Rightarrow> kwargs \<Rightarrow> ('d, qset) sio" where
  "pq_filter a kw = on_sets (\<lambda>h. filter_or_exclude False [] kw (pq_set (pqueries h a)) h)"

text \<open>\<^verbatim>\<open>_field_to_db(instance._meta.fields_map[n], getattr(instance, n), instance)\<close>\<close>

definition instance_db_value :: "'d run_env \<Rightarrow> string \<Rightarrow> nat \<Rightarrow> ('d, pyval) sio" where
  "instance_db_value rv n i s =
     ibind (ilift (dict_at (fields_map (model_of rv (i_model (objs s i)))) n)) (\<lambda>f.
     ibind (py_getattr rv i n) (conv_on rv i f)) s"

definition group_add :: "'k \<Rightarrow> 'v \<Rightarrow> ('k, 'v list) dict \<Rightarrow> ('k, 'v list) dict" where
  "group_add k x d = AList.update k ((case map_of d k of None \<Rightarrow> [] | Some xs \<Rightarrow> xs) @ [x]) d"

definition group_of :: "('k, 'v list) dict \<Rightarrow> 'k \<Rightarrow> 'v list" where
  "group_of d k = (case map_of d k of None \<Rightarrow> [] | Some xs \<Rightarrow> xs)"

definition set_container :: "'d run_env \<Rightarrow> attr \<Rightarrow> nat list \<Rightarrow> string option \<Rightarrow> ('d, unit) sio" where
  "set_container rv v xs to_attr = (case v of ARelation c \<Rightarrow> set_result rv c xs to_attr | _ \<Rightarrow> iraise PyAttributeError)"

text \<open>The relation \<open>fld\<close> of the instance is set to the group of its value of \<open>n\<close>.\<close>

definition attach_group :: "'d run_env \<Rightarrow> string \<Rightarrow> string \<Rightarrow> string option \<Rightarrow> (attr, nat list) dict \<Rightarrow> nat \<Rightarrow> ('d, unit) sio" where
  "attach_group rv fld n to_attr groups i =
     ibind (py_getattr rv i fld) (\<lambda>c.
     ibind (py_getattr rv i n) (\<lambda>v. set_container rv c (group_of groups v) to_attr))"

definition group_objects :: "'d run_env \<Rightarrow> string \<Rightarrow> nat list \<Rightarrow> ('d, (attr, nat list) dict) sio" where
  "group_objects rv k rs = ifold (\<lambda>r d. ibind (py_getattr rv r k) (\<lambda>v. iret (group_add v r d))) rs []"

definition attach_groups ::
    "'d run_env \<Rightarrow> string \<Rightarrow> string \<Rightarrow> string \<Rightarrow> string option \<Rightarrow> nat list \<Rightarrow> nat list \<Rightarrow> ('d, unit) sio" where
  "attach_groups rv fld n k to_attr rs insts =
     ibind (group_objects rv k rs) (\<lambda>groups. ifold (\<lambda>i _. attach_group rv fld n to_attr groups i) insts ())"

definition prefetch_reverse ::
    "'d run_env \<Rightarrow> nat \<Rightarrow> (qset \<Rightarrow> ('d, nat list) sio) \<Rightarrow> mid \<Rightarrow> nat list \<Rightarrow> string \<Rightarrow> string option \<times> nat \<Rightarrow> ('d, unit) sio" where
  "prefetch_reverse rv lim fetch mo insts fld rq =
     ibind (ilift (dict_at (fields_map (model_of rv mo)) fld)) (\<lambda>rf.
     ibind (ilift (to_field_obj (metas (orm rv)) rf)) (\<lambda>tf.
     ibind (imap (instance_db_value rv (model_field_name tf)) insts) (\<lambda>vals.
     iseq (pq_order rv lim (snd rq))
     (ibind (pq_filter (snd rq) (if insts = [] then [] else [(relation_field (rel rf) @ ''__in'', VList vals)])) (\<lambda>q.
     ibind (fetch q) (\<lambda>rs.
     attach_groups rv fld (model_field_name tf) (relation_field (rel rf)) (fst rq) rs insts))))))"

text \<open>One to one: the last object with the value; \<^verbatim>\<open>setattr(instance, "_" + field, obj)\<close>.\<close>

definition obj_attr :: "nat option \<Rightarrow> attr" where
  "obj_attr ob = (case ob of None \<Rightarrow> APy VNone | Some b \<Rightarrow> AInst b)"

definition index_objects :: "'d run_env \<Rightarrow> string \<Rightarrow> nat list \<Rightarrow> ('d, (attr, nat) dict) sio" where
  "index_objects rv k rs = ifold (\<lambda>r d. ibind (py_getattr rv r k) (\<lambda>v. iret (AList.update v r d))) rs []"

definition attach_object ::
    "'d run_env \<Rightarrow> string \<Rightarrow> string \<Rightarrow> string option \<Rightarrow> (attr, nat) dict \<Rightarrow> nat \<Rightarrow> ('d, unit) sio" where
  "attach_object rv name n to_attr d i =
     ibind (py_getattr rv i n) (\<lambda>v.
     let ob = obj_attr (map_of d v) in
     iseq (py_setattr rv i name ob)
       (case to_attr of None \<Rightarrow> iret () | Some t \<Rightarrow> iwhen (t \<noteq> []) (py_setattr rv i t ob)))"

definition prefetch_reverse_o2o ::
    "'d run_env \<Rightarrow> (qset \<Rightarrow> ('d, nat list) sio) \<Rightarrow> mid \<Rightarrow> nat list \<Rightarrow> string \<Rightarrow> string option \<times> nat \<Rightarrow> ('d, unit) sio" where
  "prefetch_reverse_o2o rv fetch mo insts fld rq =
     ibind (ilift (dict_at (fields_map (model_of rv mo)) fld)) (\<lambda>rf.
     ibind (ilift (to_field_obj (metas (orm rv)) rf)) (\<lambda>tf.
     ibind (imap (instance_db_value rv (model_field_name tf)) insts) (\<lambda>vals.
     ibind (pq_filter (snd rq) (if insts = [] then [] else [(relation_field (rel rf) @ ''__in'', VList vals)])) (\<lambda>q.
     ibind (fetch q) (\<lambda>rs.
     ibind (index_objects rv (relation_field (rel rf)) rs) (\<lambda>d.
     ifold (\<lambda>i _. attach_object rv (''_'' @ fld) (model_field_name tf) (fst rq) d i) insts ()))))))"

section \<open>Foreign keys\<close>

text \<open>
  The first loop of \<^verbatim>\<open>_prefetch_direct_relation\<close>: \<^verbatim>\<open>model_to_field\<close>, \<^verbatim>\<open>related_objects_for_fetch\<close> and
  the last \<^verbatim>\<open>key\<close>.
\<close>

type_synonym direct_state = "(mid, string) dict \<times> (string, attr list) dict \<times> string"

definition direct_step :: "'d run_env \<Rightarrow> string \<Rightarrow> nat \<Rightarrow> direct_state \<Rightarrow> ('d, direct_state) sio" where
  "direct_step rv fld i st s =
     (case st of (mtf, want, key) \<Rightarrow>
        ibind (py_getattr rv i (fld @ ''_id'')) (\<lambda>v.
        if v \<noteq> APy VNone then
          ibind (case map_of mtf (i_model (objs s i)) of
                   Some k \<Rightarrow> iret (mtf, want, k)
                 | None \<Rightarrow>
                     ibind (ilift (dict_at (fields_map (model_of rv (i_model (objs s i)))) fld)) (\<lambda>f.
                     ibind (ilift (opt_attr (to_field (rel f)))) (\<lambda>k.
                     iret (AList.update (i_model (objs s i)) k mtf, (if dict_has want k then want else AList.update k [] want), k))))
            (\<lambda>(mtf', want', k).
             ibind (ilift (dict_at want' k)) (\<lambda>vs.
             iret (mtf', (if v \<in> set vs then want' else AList.update k (vs @ [v]) want'), k)))
        else iseq (py_setattr rv i fld (APy VNone)) (iret (mtf, want, key))) s)"

definition direct_condition :: "string \<times> attr list \<Rightarrow> string \<times> pyval" where
  "direct_condition kvs = (case kvs of (k, vs) \<Rightarrow>
     case vs of [v] \<Rightarrow> (k, plain v) | _ \<Rightarrow> (k @ ''__in'', VList (map plain vs)))"

definition index_direct :: "'d run_env \<Rightarrow> (mid, string) dict \<Rightarrow> string \<Rightarrow> nat list \<Rightarrow> ('d, (attr, nat) dict) sio" where
  "index_direct rv mtf key rs =
     (if length mtf > 1 then
        ifold (\<lambda>r d s. ibind (ilift (dict_at mtf (i_model (objs s r)))) (\<lambda>k.
          ibind (py_getattr rv r k) (\<lambda>v. iret (AList.update v r d))) s) rs []
      else index_objects rv key rs)"

definition prefetch_direct ::
    "'d run_env \<Rightarrow> (qset \<Rightarrow> ('d, nat list) sio) \<Rightarrow> nat list \<Rightarrow> string \<Rightarrow> string option \<times> nat \<Rightarrow> ('d, unit) sio" where
  "prefetch_direct rv fetch insts fld rq =
     ibind (ifold (direct_step rv fld) insts ([], [], [])) (\<lambda>(mtf, want, key).
     iwhen (want \<noteq> [])
       (ibind (pq_filter (snd rq) (dict_update [] (map direct_condition want))) (\<lambda>q.
        ibind (fetch q) (\<lambda>rs.
        ibind (index_direct rv mtf key rs) (\<lambda>d.
        ifold (\<lambda>i _. attach_object rv fld (fld @ ''_id'') (fst rq) d i) insts ())))))"

section \<open>Many to many\<close>

text \<open>The query of \<^verbatim>\<open>_prefetch_m2m_relation\<close>, for the keys of the instances.\<close>

definition m2m_conditions :: "'d run_env \<Rightarrow> nat \<Rightarrow> qset \<Rightarrow> sqlq \<Rightarrow> sqlq res" where
  "m2m_conditions rv lim qs q =
     (if qs_q_objects qs = [] then Inr q
      else rbind (resolve_q_list (orm rv) lim (qs_model qs) (qs_annotations qs) (qs_custom_filters qs) (qs_q_objects qs)) (\<lambda>md.
        let q1 = query (add_joins (pp (orm rv)) (joins md) \<lparr> joined_tables = [], query = q \<rparr>)
        in Inr (q1\<lparr>sq_wheres := (if crit_bool (where_criterion md) then and_crit (sq_wheres q1) (where_criterion md) else sq_wheres q1),
                   sq_havings := (if crit_bool (having_criterion md) then and_crit (sq_havings q1) (having_criterion md) else sq_havings q1)\<rparr>)))"

definition m2m_statement :: "'d run_env \<Rightarrow> nat \<Rightarrow> field \<Rightarrow> pyval list \<Rightarrow> pquery \<Rightarrow> stmt res" where
  "m2m_statement rv lim f keys pq =
     (let m = model_of rv (qs_model (pq_set pq));
          q = query (pq_aq pq);
          q' = q\<lparr>sq_selects := sq_selects q @ map (\<lambda>c. TAs (TField (basetable m) c) c) (db_fields m)\<rparr>
      in rbind (m2m_conditions rv lim (pq_set pq) q') (\<lambda>q''.
         Inr (LinkedSelect (through_table f) (backward_key (rel f)) (forward_key (rel f)) keys (db_pk_column m) q'')))"

definition m2m_row :: "'d run_env \<Rightarrow> meta \<Rightarrow> mid \<Rightarrow> mid \<Rightarrow> string \<Rightarrow> row \<Rightarrow> ('d, (pyval \<times> pyval) \<times> nat) sio" where
  "m2m_row rv m rm qm pkcol row =
     ibind (ilift (get_pk m)) (\<lambda>pf.
     ibind (ilift (get_pk (model_of rv rm))) (\<lambda>rpf.
     ibind (ilift (rbind (dict_at row ''_backward_relation_key'') (to_python_value (lib (orm rv)) (ce (orm rv)) pf))) (\<lambda>x.
     ibind (ilift (rbind (dict_at row pkcol) (to_python_value (lib (orm rv)) (ce (orm rv)) rpf))) (\<lambda>y.
     ibind (init_from_db rv qm row) (\<lambda>b. iret ((x, y), b))))))"

text \<open>The rows are told apart by their keys: the last object with a key stands for all.\<close>

definition m2m_groups :: "'d run_env \<Rightarrow> ((pyval \<times> pyval) \<times> nat) list \<Rightarrow> ('d, (attr, nat list) dict) sio" where
  "m2m_groups rv rows =
     ibind (ifold (\<lambda>(xy, b) d. ibind (get_pk_val rv b) (\<lambda>k. iret (AList.update k b d))) rows []) (\<lambda>objs_by_key.
     ilift (rfold (\<lambda>((x, y), b) d. rbind (dict_at objs_by_key (APy y)) (\<lambda>r. Inr (group_add (APy x) r d))) rows []))"

definition prefetch_m2m ::
    "'d run_env \<Rightarrow> nat \<Rightarrow> (mid \<Rightarrow> (string, prefetch_arg list) dict \<Rightarrow> nat list \<Rightarrow> ('d, unit) sio) \<Rightarrow> mid \<Rightarrow> nat list \<Rightarrow>
     string \<Rightarrow> string option \<times> nat \<Rightarrow> ('d, unit) sio" where
  "prefetch_m2m rv lim nested mo insts fld rq =
     ibind (imap (\<lambda>i s. ibind (ilift (get_pk (model_of rv (i_model (objs s i))))) (\<lambda>f.
              ibind (get_pk_val rv i) (conv_on rv i f)) s) insts) (\<lambda>keys.
     ibind (ilift (dict_at (fields_map (model_of rv mo)) fld)) (\<lambda>f.
     iseq (pq_order rv lim (snd rq))
     (ibind (iget (\<lambda>s. pqueries (qstore s) (snd rq))) (\<lambda>pq.
     ibind (ilift (m2m_statement rv lim f (remdups keys) pq)) (\<lambda>q.
     ibind (send_db rv q []) (\<lambda>r.
     ibind (ilift (opt_attr (related_model (rel f)))) (\<lambda>rm.
     ibind (imap (m2m_row rv (model_of rv mo) rm (qs_model (pq_set pq)) (db_pk_column (model_of rv (qs_model (pq_set pq)))))
              (fetched_rows r)) (\<lambda>rows.
     iseq (nested (qs_model (pq_set pq)) (qs_prefetch_map (pq_set pq)) (map snd rows))
     (ibind (m2m_groups rv rows) (\<lambda>groups.
     ifold (\<lambda>i _. attach_group rv fld ''pk'' (fst rq) groups i) insts ()))))))))))"

section \<open>All relations\<close>

definition new_query_set :: "'d run_env \<Rightarrow> mid \<Rightarrow> ('d, nat) sio" where
  "new_query_set rv rm = on_sets (ibind (qset_init (caps rv) rm) (\<lambda>q. alloc_pquery \<lparr> pq_set = q, pq_aq = pending_init \<rparr>))"

definition clone_prefetching :: "'d run_env \<Rightarrow> prefetch_arg list \<Rightarrow> nat \<Rightarrow> ('d, nat) sio" where
  "clone_prefetching rv args a = on_sets (\<lambda>h.
     ibind (prefetch_related (orm rv) args (pq_set (pqueries h a))) (\<lambda>q.
       alloc_pquery \<lparr> pq_set = q, pq_aq = pq_aq (pqueries h a) \<rparr>) h)"

text \<open>\<^verbatim>\<open>_make_prefetch_queries\<close>, for one relation of the map; the connection is the run environment's.\<close>

definition make_prefetch_query ::
    "'d run_env \<Rightarrow> mid \<Rightarrow> string \<times> prefetch_arg list \<Rightarrow> (string, nat) dict \<Rightarrow> ('d, (string, nat) dict) sio" where
  "make_prefetch_query rv mo fp pqs =
     (case fp of (fld, forwarded) \<Rightarrow>
        ibind (case map_of pqs fld of
                 Some l \<Rightarrow> iget (\<lambda>s. hd (plists (qstore s) l))
               | None \<Rightarrow>
                   ibind (ilift (dict_at (fields_map (model_of rv mo)) fld)) (\<lambda>f.
                   ibind (ilift (opt_attr (related_model (rel f)))) (\<lambda>rm.
                   ibind (new_query_set rv rm) (\<lambda>a. iret (None, a))))) (\<lambda>(to_attr, a).
        ibind (if forwarded \<noteq> [] then clone_prefetching rv forwarded a else iret a) (\<lambda>a'.
        on_sets (plist_append fld (to_attr, a') pqs))))"

definition do_prefetch ::
    "'d run_env \<Rightarrow> nat \<Rightarrow> (qset \<Rightarrow> ('d, nat list) sio) \<Rightarrow> (mid \<Rightarrow> (string, prefetch_arg list) dict \<Rightarrow> nat list \<Rightarrow> ('d, unit) sio) \<Rightarrow>
     mid \<Rightarrow> nat list \<Rightarrow> string \<Rightarrow> string option \<times> nat \<Rightarrow> ('d, unit) sio" where
  "do_prefetch rv lim fetch nested mo insts fld rq =
     (let m = model_of rv mo in
      if fld \<in> set (backward_fk_fields m) then prefetch_reverse rv lim fetch mo insts fld rq
      else if fld \<in> set (backward_o2o_fields m) then prefetch_reverse_o2o rv fetch mo insts fld rq
      else if fld \<in> set (m2m_fields m) then prefetch_m2m rv lim nested mo insts fld rq
      else prefetch_direct rv fetch insts fld rq)"

text \<open>\<^verbatim>\<open>_execute_prefetch_queries\<close>; the result is the dictionary of prefetch queries, which it has extended.\<close>

definition run_prefetches ::
    "'d run_env \<Rightarrow> nat \<Rightarrow> (qset \<Rightarrow> ('d, nat list) sio) \<Rightarrow> (mid \<Rightarrow> (string, prefetch_arg list) dict \<Rightarrow> nat list \<Rightarrow> ('d, unit) sio) \<Rightarrow>
     mid \<Rightarrow> (string, prefetch_arg list) dict \<Rightarrow> (string, nat) dict \<Rightarrow> nat list \<Rightarrow> ('d, (string, nat) dict) sio" where
  "run_prefetches rv lim fetch nested mo pm pqs insts =
     (if insts \<noteq> [] \<and> (pm \<noteq> [] \<or> pqs \<noteq> []) then
        ibind (ifold (make_prefetch_query rv mo) pm pqs) (\<lambda>pqs'.
        ibind (iget (\<lambda>s. concat (map (\<lambda>(fld, l). map (Pair fld) (plists (qstore s) l)) pqs'))) (\<lambda>tasks.
        iseq (ifold (\<lambda>(fld, rq) _. do_prefetch rv lim fetch nested mo insts fld rq) tasks ()) (iret pqs')))
      else iret pqs)"

text \<open>A list of instances, where a query set that answers a single one has none to iterate over.\<close>

fun rows_of :: "nat answer \<Rightarrow> nat list res" where
  "rows_of (Rows xs) = Inr xs"
| "rows_of a = Inl PyTypeError"

text \<open>
  Awaiting query sets and prefetching call each other; \<open>lim\<close> is the depth of calls that is left
  (Python's recursion limit).
\<close>

fun await_queryset :: "'d run_env \<Rightarrow> nat \<Rightarrow> qset \<Rightarrow> ('d, nat answer) sio"
and execute_prefetch :: "'d run_env \<Rightarrow> nat \<Rightarrow> mid \<Rightarrow> (string, prefetch_arg list) dict \<Rightarrow> (string, nat) dict \<Rightarrow> nat list \<Rightarrow> ('d, unit) sio"
where
  "await_queryset rv 0 qs = iraise PyRecursionError"
| "await_queryset rv (Suc lim) qs =
     queryset_execute rv lim (\<lambda>as. execute_prefetch rv lim (qs_model qs) (qs_prefetch_map qs) (qs_prefetch_queries qs) as) qs"
| "execute_prefetch rv 0 mo pm pqs insts = iraise PyRecursionError"
| "execute_prefetch rv (Suc lim) mo pm pqs insts =
     ibind (run_prefetches rv lim (\<lambda>q. ibind (await_queryset rv lim q) (\<lambda>ans. ilift (rows_of ans)))
              (\<lambda>mo' pm' as. ibind (executor_init rv mo') (\<lambda>e. execute_prefetch rv lim mo' pm' [] as)) mo pm pqs insts) (\<lambda>_. iret ())"

text \<open>\<^verbatim>\<open>fetch_for_list\<close> and \<^verbatim>\<open>Model.fetch_related\<close>\<close>

definition fetch_map :: "meta \<Rightarrow> string list \<Rightarrow> (string, prefetch_arg list) dict res" where
  "fetch_map m names =
     rfold (\<lambda>name pm. case partition2 name of (fst_level, fwd) \<Rightarrow>
       if fst_level \<notin> set (fetch_fields m) then Inl OperationalError
       else
         let pm1 = (if dict_has pm fst_level then pm else AList.update fst_level [] pm)
         in Inr (if fwd \<noteq> [] then prefetch_add fst_level (PName fwd) pm1 else pm1)) names []"

definition fetch_for_list :: "'d run_env \<Rightarrow> nat \<Rightarrow> mid \<Rightarrow> nat list \<Rightarrow> string list \<Rightarrow> ('d, unit) sio" where
  "fetch_for_list rv lim mo insts names =
     ibind (executor_init rv mo) (\<lambda>e.
     ibind (ilift (fetch_map (model_of rv mo) names)) (\<lambda>pm. execute_prefetch rv lim mo pm [] insts))"

definition fetch_related :: "'d run_env \<Rightarrow> nat \<Rightarrow> nat \<Rightarrow> string list \<Rightarrow> ('d, unit) sio" where
  "fetch_related rv lim a names s = fetch_for_list rv lim (i_model (objs s a)) [a] names s"


section \<open>Every instance gets its own\<close>

lemma group_of_add: "group_of (group_add k x d) j = (if j = k then group_of d k @ [x] else group_of d j)"
  by (simp add: group_of_def group_add_def map_of_update)

text \<open>The attribute \<open>k\<close> of an object is read without a trace.\<close>

definition reads_attr :: "'d run_env \<Rightarrow> string \<Rightarrow> 'd session \<Rightarrow> nat \<Rightarrow> bool" where
  "reads_attr rv k s r \<longleftrightarrow> py_getattr rv r k s = ilift (attr_at (objs s r) k) s"

lemma group_objects_spec:
  assumes "group_objects rv k rs s = (Ret groups, s')" and "\<forall>r\<in>set rs. reads_attr rv k s r"
  shows "s' = s \<and> (\<forall>v. group_of groups v = filter (\<lambda>r. attr_at (objs s r) k = Inr v) rs)"
proof -
  have "s' = s \<and> (\<forall>v. group_of groups v = group_of d v @ filter (\<lambda>r. attr_at (objs s r) k = Inr v) rs)"
    if "ifold (\<lambda>r d. ibind (py_getattr rv r k) (\<lambda>v. iret (group_add v r d))) rs d s = (Ret groups, s')"
      "\<forall>r\<in>set rs. reads_attr rv k s r" for d rs
    using that
  proof (induction rs arbitrary: d)
    case (Cons r rs)
    from Cons.prems(2) have "py_getattr rv r k s = ilift (attr_at (objs s r) k) s" by (simp add: reads_attr_def)
    with Cons.prems(1) obtain v where v: "attr_at (objs s r) k = Inr v"
      and rest: "ifold (\<lambda>r d. ibind (py_getattr rv r k) (\<lambda>v. iret (group_add v r d))) rs (group_add v r d) s = (Ret groups, s')"
      unfolding ifold.simps ibind_Ret by (auto simp: iret_def)
    from Cons.IH [OF rest] Cons.prems(2) v show ?case by (auto simp: group_of_add)
  qed (simp add: iret_def)
  from this [of rs "[]"] assms show ?thesis by (simp add: group_objects_def group_of_def)
qed

text \<open>
  An instance whose relation \<open>fld\<close> has no container yet, or one of its own; the key \<open>n\<close> and
  \<^verbatim>\<open>to_attr\<close> are other attributes.
\<close>

definition own_container :: "'d session \<Rightarrow> string \<Rightarrow> nat \<Rightarrow> bool" where
  "own_container s fld i \<longleftrightarrow> (case map_of (i_dict (objs s i)) (''_'' @ fld) of
     None \<Rightarrow> True
   | Some v \<Rightarrow> v = APy VNone \<or> (\<exists>c. v = ARelation c \<and> c < next_container s \<and> ct_instance (containers s c) = i))"

definition relation_setup :: "'d run_env \<Rightarrow> mid \<Rightarrow> string \<Rightarrow> string \<Rightarrow> string option \<Rightarrow> bool" where
  "relation_setup rv mo fld n to_attr \<longleftrightarrow>
     (let m = model_of rv mo in
      meta_wf m \<and> fld \<in> set (backward_fk_fields m) \<and> fld \<notin> set (fk_fields m) \<union> set (o2o_fields m) \<and>
      (\<exists>f tf rm. map_of (fields_map m) fld = Some f \<and> to_field_obj (metas (orm rv)) f = Inr tf \<and> related_model (rel f) = Some rm) \<and>
      plain_col m n \<and> n \<noteq> ''_'' @ fld \<and>
      (\<forall>t. to_attr = Some t \<longrightarrow> plain_col m t \<and> t \<noteq> n \<and> t \<noteq> ''_'' @ fld))"

definition holds_objects :: "'d session \<Rightarrow> string \<Rightarrow> nat \<Rightarrow> nat list \<Rightarrow> bool" where
  "holds_objects s fld i xs \<longleftrightarrow> (\<exists>c. map_of (i_dict (objs s i)) (''_'' @ fld) = Some (ARelation c) \<and> c < next_container s \<and>
     ct_instance (containers s c) = i \<and> ct_fetched (containers s c) \<and> ct_objects (containers s c) = xs)"

definition beside :: "nat \<Rightarrow> 'd session \<Rightarrow> 'd session \<Rightarrow> bool" where
  "beside i s t \<longleftrightarrow> (\<forall>j. j \<noteq> i \<longrightarrow> objs t j = objs s j) \<and> next_container s \<le> next_container t \<and>
     (\<forall>c < next_container s. ct_instance (containers s c) \<noteq> i \<longrightarrow> containers t c = containers s c) \<and>
     i_model (objs t i) = i_model (objs s i)"

lemma beside_own: "beside i s t \<Longrightarrow> j \<noteq> i \<Longrightarrow> own_container s fld j \<Longrightarrow> own_container t fld j"
  by (fastforce simp: beside_def own_container_def split: option.splits)

lemma beside_holds: "beside i s t \<Longrightarrow> j \<noteq> i \<Longrightarrow> holds_objects s fld j xs \<Longrightarrow> holds_objects t fld j xs"
  by (fastforce simp: beside_def holds_objects_def)

lemma put_state_at:
  "map_of (i_dict (objs (put_state a n v s) b)) x =
     (if b = a \<and> x = n then Some v else map_of (i_dict (objs s b)) x)"
  "i_model (objs (put_state a n v s) b) = i_model (objs s b)"
  "containers (put_state a n v s) = containers s" "next_container (put_state a n v s) = next_container s"
  "b \<noteq> a \<Longrightarrow> objs (put_state a n v s) b = objs s b"
  by (simp_all add: put_state_def Let_def map_of_update)

text \<open>The container of a backward relation, made when there is none.\<close>

lemma reverse_container:
  assumes "relation_setup rv mo fld n ta" and "own_container s fld i" and "i_model (objs s i) = mo"
    and "py_getattr rv i fld s = (Ret v, t)"
  obtains c where "v = ARelation c" "map_of (i_dict (objs t i)) (''_'' @ fld) = Some (ARelation c)" "c < next_container t"
    "ct_instance (containers t c) = i" "beside i s t" "\<forall>x. x \<noteq> ''_'' @ fld \<longrightarrow> map_of (i_dict (objs t i)) x = map_of (i_dict (objs s i)) x"
proof -
  let ?m = "model_of rv mo"
  from assms(1) obtain f tf rm where f: "map_of (fields_map ?m) fld = Some f" "to_field_obj (metas (orm rv)) f = Inr tf"
    "related_model (rel f) = Some rm" and b: "fld \<in> set (backward_fk_fields ?m)" "fld \<notin> set (fk_fields ?m) \<union> set (o2o_fields ?m)"
    unfolding relation_setup_def Let_def by blast
  let ?c0 = "relation_init rm (relation_field (rel f)) i (model_field_name tf) None"
  have "py_getattr rv i fld s = rfk_getter rv i fld f s"
    using b f(1) assms(3) by (simp add: py_getattr_def relation_getter_def dict_at_def)
  also have "\<dots> = container_getter i (''_'' @ fld) ?c0 s"
    using f(2,3) by (simp add: rfk_getter_def opt_attr_def)
  finally have g: "container_getter i (''_'' @ fld) ?c0 s = (Ret v, t)" using assms(4) by simp
  show thesis
  proof (cases "\<exists>c. map_of (i_dict (objs s i)) (''_'' @ fld) = Some (ARelation c)")
    case True
    then obtain c where c: "map_of (i_dict (objs s i)) (''_'' @ fld) = Some (ARelation c)" by blast
    with g have "v = ARelation c" "t = s" by (simp_all add: container_getter_def)
    with that [of c] c assms(2) show thesis by (auto simp: own_container_def beside_def)
  next
    case False
    with assms(2) have none: "map_of (i_dict (objs s i)) (''_'' @ fld) \<in> {None, Some (APy VNone)}"
      by (auto simp: own_container_def split: option.splits)
    define u where "u = s\<lparr>containers := (containers s)(next_container s := ?c0), next_container := Suc (next_container s)\<rparr>"
    from none g have v: "v = ARelation (next_container s)" and t: "t = put_state i (''_'' @ fld) (ARelation (next_container s)) u"
      by (auto simp: container_getter_def new_container_def iseq_def put_raw_def imodify_def u_def ibind_def)
    have "beside i s t" by (auto simp: beside_def t put_state_at u_def)
    with that [OF v] show thesis by (simp add: t put_state_at u_def relation_init_def)
  qed
qed

lemma attach_group_spec:
  assumes "relation_setup rv mo fld n ta" and "own_container s fld i" and "i_model (objs s i) = mo"
    and "attach_group rv fld n ta groups i s = (Ret (), t)"
  shows "\<exists>v. attr_at (objs s i) n = Inr v \<and> holds_objects t fld i (group_of groups v) \<and> beside i s t"
proof -
  let ?m = "model_of rv mo"
  from assms(4) obtain cv t1 v t2 where 1: "py_getattr rv i fld s = (Ret cv, t1)" and 2: "py_getattr rv i n t1 = (Ret v, t2)"
    and 3: "set_container rv cv (group_of groups v) ta t2 = (Ret (), t)"
    unfolding attach_group_def ibind_Ret by blast
  obtain c where c: "cv = ARelation c" "map_of (i_dict (objs t1 i)) (''_'' @ fld) = Some (ARelation c)" "c < next_container t1"
    "ct_instance (containers t1 c) = i" "beside i s t1"
    "\<forall>x. x \<noteq> ''_'' @ fld \<longrightarrow> map_of (i_dict (objs t1 i)) x = map_of (i_dict (objs s i)) x"
    by (rule reverse_container [OF assms(1-3) 1])
  have wf: "meta_wf ?m" "plain_col ?m n" "n \<noteq> ''_'' @ fld" using assms(1) by (simp_all add: relation_setup_def Let_def)
  have m1: "i_model (objs t1 i) = mo" using c(5) assms(3) by (simp add: beside_def)
  with 2 wf(1,2) have "t2 = t1" and v: "attr_at (objs t1 i) n = Inr v" by (simp_all add: py_getattr_plain)
  define u where "u = t1\<lparr>containers := (containers t1)(c := (containers t1 c)\<lparr>ct_fetched := True, ct_objects := group_of groups v\<rparr>)\<rparr>"
  have t: "t = u \<or> (\<exists>x y. x \<noteq> ''_'' @ fld \<and> t = put_state i x y u)"
  proof (cases "ta = None \<or> ta = Some []")
    case True
    with 3 have "t = u" by (auto simp: c(1) \<open>t2 = t1\<close> set_container_def set_result_def iseq_def u_def iret_def)
    then show ?thesis by simp
  next
    case False
    then obtain x where x: "ta = Some x" "x \<noteq> []" by auto
    with assms(1) have px: "plain_col ?m x" "x \<noteq> ''_'' @ fld" by (simp_all add: relation_setup_def Let_def)
    from 3 x have "py_setattr rv (ct_instance (containers u c)) x (AInsts (group_of groups v)) u = (Ret (), t)"
      by (simp add: c(1) \<open>t2 = t1\<close> set_container_def set_result_def iseq_def u_def)
    moreover have "ct_instance (containers u c) = i" "i_model (objs u i) = mo" using c(4) m1 by (simp_all add: u_def)
    ultimately have "t = put_state i x (AInsts (group_of groups v)) u" using px(1) wf(1) by (simp add: py_setattr_plain)
    with px(2) show ?thesis by blast
  qed
  have ou: "objs u = objs t1" "next_container u = next_container t1" by (simp_all add: u_def)
  have h: "holds_objects u fld i (group_of groups v)"
    using c(2-4) by (simp add: holds_objects_def u_def)
  have bu: "beside i s u"
    using c(4,5) by (auto simp: beside_def u_def)
  from t h bu have "holds_objects t fld i (group_of groups v) \<and> beside i s t"
    by (auto simp: holds_objects_def beside_def put_state_at)
  moreover have "attr_at (objs s i) n = Inr v" using v c(6) wf(3) by (simp add: attr_at_def)
  ultimately show ?thesis by blast
qed

lemma attach_loop:
  assumes "relation_setup rv mo fld n ta"
  shows "ifold (\<lambda>i _. attach_group rv fld n ta groups i) insts () s = (Ret (), t) \<Longrightarrow> distinct insts \<Longrightarrow>
    \<forall>i\<in>set insts. own_container s fld i \<and> i_model (objs s i) = mo \<Longrightarrow>
    (\<forall>i\<in>set insts. \<exists>v. attr_at (objs s i) n = Inr v \<and> holds_objects t fld i (group_of groups v)) \<and>
    (\<forall>j. j \<notin> set insts \<longrightarrow> objs t j = objs s j \<and> (\<forall>xs. holds_objects s fld j xs \<longrightarrow> holds_objects t fld j xs))"
proof (induction insts arbitrary: s)
  case (Cons i insts)
  from Cons.prems(1) obtain u where 1: "attach_group rv fld n ta groups i s = (Ret (), u)"
    and 2: "ifold (\<lambda>i _. attach_group rv fld n ta groups i) insts () u = (Ret (), t)"
    unfolding ifold.simps ibind_Ret by auto
  from Cons.prems(3) have i: "own_container s fld i" "i_model (objs s i) = mo" by simp_all
  from attach_group_spec [OF assms i 1] obtain v where v: "attr_at (objs s i) n = Inr v"
    "holds_objects u fld i (group_of groups v)" and b: "beside i s u" by blast
  have u: "\<forall>j\<in>set insts. own_container u fld j \<and> i_model (objs u j) = mo"
  proof
    fix j assume "j \<in> set insts"
    with Cons.prems(2,3) have "j \<noteq> i" "own_container s fld j" "i_model (objs s j) = mo" by auto
    with beside_own [OF b] b show "own_container u fld j \<and> i_model (objs u j) = mo" by (simp add: beside_def)
  qed
  from Cons.prems(2) have d: "distinct insts" "i \<notin> set insts" by simp_all
  note ih = Cons.IH [OF 2 d(1) u]
  have o: "objs u j = objs s j" if "j \<noteq> i" for j using b that by (simp add: beside_def)
  have "\<exists>v. attr_at (objs s j) n = Inr v \<and> holds_objects t fld j (group_of groups v)" if "j \<in> set (i # insts)" for j
  proof (cases "j = i")
    case True
    with v ih d(2) show ?thesis by blast
  next
    case False
    with that ih o [OF False] show ?thesis by auto
  qed
  moreover have "objs t j = objs s j \<and> (\<forall>xs. holds_objects s fld j xs \<longrightarrow> holds_objects t fld j xs)" if "j \<notin> set (i # insts)" for j
    using that ih o [of j] beside_holds [OF b, of j] by auto
  ultimately show ?case by blast
qed (simp add: iret_def)

text \<open>
  C15. Prefetching a backward relation asks once for the objects that refer to any of the
  instances, under the conditions of the query set given, and hands them out: the relation of
  every instance counts as fetched and holds exactly those of the fetched objects whose key is
  the instance's, in the order they came; other instances are as they were.
\<close>

theorem prefetch_reverse_hands_out:
  assumes "prefetch_reverse rv lim fetch mo insts fld (ta, a) s = (Ret (), s')" and "insts \<noteq> []" and "distinct insts"
    and "map_of (fields_map (model_of rv mo)) fld = Some rf" and "to_field_obj (metas (orm rv)) rf = Inr tf"
    and "relation_setup rv mo fld (model_field_name tf) ta"
    and "\<forall>i\<in>set insts. instance_db_value rv (model_field_name tf) i s = (Ret (key i), s)"
    and "\<forall>q h rs t. fetch q (s\<lparr>qstore := h\<rparr>) = (Ret rs, t) \<longrightarrow>
       (\<forall>i\<in>set insts. own_container t fld i \<and> i_model (objs t i) = mo) \<and>
       (\<forall>r\<in>set rs. reads_attr rv (relation_field (rel rf)) t r)"
  shows "\<exists>q h rs t. fetch q (s\<lparr>qstore := h\<rparr>) = (Ret rs, t) \<and>
     qs_q_objects q = qs_q_objects (pq_set (pqueries (qstore s) a)) @
       [Q [] [(relation_field (rel rf) @ ''__in'', VList (map key insts))] AND False] \<and>
     (\<forall>i\<in>set insts. \<exists>v. attr_at (objs t i) (model_field_name tf) = Inr v \<and>
        holds_objects s' fld i (filter (\<lambda>r. attr_at (objs t r) (relation_field (rel rf)) = Inr v) rs)) \<and>
     (\<forall>j. j \<notin> set insts \<longrightarrow> objs s' j = objs t j)"
proof -
  let ?n = "model_field_name tf" and ?k = "relation_field (rel rf)"
  have keys: "imap (instance_db_value rv ?n) xs s = (Ret (map key xs), s)" if "set xs \<subseteq> set insts" for xs
    using that assms(7) by (induction xs) (auto simp: iret_def ibind_def)
  from assms(1,2,4,5) keys [of insts] obtain t2 q t3 rs t4 where
    o: "pq_order rv lim a s = (Ret (), t2)" and q: "pq_filter a [(?k @ ''__in'', VList (map key insts))] t2 = (Ret q, t3)"
    and f: "fetch q t3 = (Ret rs, t4)" and g: "attach_groups rv fld ?n ?k ta rs insts t4 = (Ret (), s')"
    unfolding prefetch_reverse_def ibind_Ret iseq_def by auto
  from o obtain h2 where t2: "t2 = s\<lparr>qstore := h2\<rparr>" and h2: "pq_set (pqueries h2 a) = pq_set (pqueries (qstore s) a)"
    by (auto simp: pq_order_def on_sets_def Let_def split: sum.splits)
  from q t2 h2 have q': "qs_q_objects q = qs_q_objects (pq_set (pqueries (qstore s) a)) @
      [Q [] [(?k @ ''__in'', VList (map key insts))] AND False]" and t3: "\<exists>h. t3 = s\<lparr>qstore := h\<rparr>"
    by (auto simp: pq_filter_def on_sets_def filter_or_exclude_def filter_args_def filter_kwargs_def q_init_def q_init_simple_def
        clone_def ibind_Ret iret_def split: prod.splits)
  then obtain h where t3: "t3 = s\<lparr>qstore := h\<rparr>" by blast
  from assms(8) f [unfolded t3] have ok: "\<forall>i\<in>set insts. own_container t4 fld i \<and> i_model (objs t4 i) = mo"
    "\<forall>r\<in>set rs. reads_attr rv ?k t4 r" by blast+
  from g obtain groups t5 where 5: "group_objects rv ?k rs t4 = (Ret groups, t5)"
    and 6: "ifold (\<lambda>i _. attach_group rv fld ?n ta groups i) insts () t5 = (Ret (), s')"
    unfolding attach_groups_def ibind_Ret by blast
  from group_objects_spec [OF 5 ok(2)] have [simp]: "t5 = t4"
    and gr: "group_of groups v = filter (\<lambda>r. attr_at (objs t4 r) ?k = Inr v) rs" for v by simp_all
  from attach_loop [OF assms(6) 6 assms(3)] ok(1) have
    "\<forall>i\<in>set insts. \<exists>v. attr_at (objs t4 i) ?n = Inr v \<and>
        holds_objects s' fld i (filter (\<lambda>r. attr_at (objs t4 r) ?k = Inr v) rs)"
    "\<forall>j. j \<notin> set insts \<longrightarrow> objs s' j = objs t4 j" unfolding gr by simp_all
  with q' f t3 show ?thesis by blast
qed

definition posts_field :: field where
  "posts_field = (plain_field BackwardFKRelation)\<lparr>model_field_name := ''posts'', fmodel := Some sample_user,
     rel := no_relattrs\<lparr>related_model := Some sample_post, to_field_instance := Some (sample_user, ''id''),
       relation_field := ''author_id'', relation_source_field := ''author_id''\<rparr>\<rparr>"

definition writer_meta :: meta where
  "writer_meta = sample_meta\<lparr>field_names := [''id'', ''name'', ''posts''], backward_fk_fields := [''posts''],
     fetch_fields := [''posts''], fields_map := [(''id'', id_field), (''name'', name_field), (''posts'', posts_field)]\<rparr>"

definition writer_post_meta :: meta where
  "writer_post_meta = sample_post_meta\<lparr>ordering_validated := True, fields_map :=
     [(''id'', id_field\<lparr>fmodel := Some sample_post\<rparr>), (''author'', author_field\<lparr>rel := (rel author_field)\<lparr>to_field := Some ''id''\<rparr>\<rparr>),
      (''author_id'', author_id_field)]\<rparr>"

definition writer_rv :: "(pyval \<times> pyval) list run_env" where
  "writer_rv = link_rv\<lparr>orm := (orm link_rv)\<lparr>metas := (\<lambda>m. if m = sample_user then writer_meta else writer_post_meta)\<rparr>\<rparr>"

definition stored_post :: "nat \<Rightarrow> nat \<Rightarrow> inst" where
  "stored_post a author = (stored_user a)\<lparr>i_model := sample_post,
     i_dict := [(''id'', APy (VInt (int a))), (''author_id'', APy (VInt (int author)))]\<rparr>"

definition writer_session :: "(pyval \<times> pyval) list session" where
  "writer_session = link_session\<lparr>
     objs := (\<lambda>a. if a < 4 then stored_user a else stored_post a (if a = 5 then 2 else 1)),
     qstore := empty_store\<lparr>pqueries := (\<lambda>_. \<lparr> pq_set = sample_qs\<lparr>qs_q_objects := []\<rparr>, pq_aq = pending_init \<rparr>)\<rparr>\<rparr>"

lemma writer_meta_wf: "meta_wf writer_meta"
  by (auto simp: meta_wf_def kind_sets_ok_def writer_meta_def sample_meta_def empty_meta_def id_field_def name_field_def
      pk_field_def plain_field_def dict_has_def has_db_field_def posts_field_def)

lemma posts_meta_wf: "meta_wf writer_post_meta"
  by (auto simp: writer_post_meta_def meta_wf_def kind_sets_ok_def sample_post_meta_def empty_meta_def id_field_def author_field_def author_id_field_def
      pk_field_def plain_field_def dict_has_def has_db_field_def)

lemma writer_setup: "relation_setup writer_rv sample_user ''posts'' ''id'' None"
proof -
  have m: "model_of writer_rv sample_user = writer_meta" by (simp add: writer_rv_def)
  have "to_field_obj (metas (orm writer_rv)) posts_field = Inr id_field" by code_simp
  then show ?thesis
    unfolding relation_setup_def m Let_def using writer_meta_wf
    by (auto simp: writer_meta_def posts_field_def sample_meta_def empty_meta_def plain_col_def no_relattrs_def)
qed

theorem prefetch_reverse_hands_out_witness:
  "\<exists>s'. prefetch_reverse writer_rv 9 (\<lambda>q s. (Ret [5, 6, 7], s)) sample_user [1, 2] ''posts'' (None, 0) writer_session = (Ret (), s') \<and>
     holds_objects s' ''posts'' 1 [6, 7] \<and> holds_objects s' ''posts'' 2 [5]"
proof -
  let ?fetch = "\<lambda>q s. (Ret [5, 6, 7], s)"
  let ?r = "prefetch_reverse writer_rv 9 ?fetch sample_user [1, 2] ''posts'' (None, 0) writer_session"
  have "fst ?r = Ret ()" by code_simp
  then obtain s' where r: "?r = (Ret (), s')" by (metis prod.collapse)
  have f: "map_of (fields_map (model_of writer_rv sample_user)) ''posts'' = Some posts_field"
    "to_field_obj (metas (orm writer_rv)) posts_field = Inr id_field" "relation_field (rel posts_field) = ''author_id''"
    "model_field_name id_field = ''id''"
    by code_simp+
  have w: "meta_wf (model_of writer_rv sample_user)" "meta_wf (model_of writer_rv sample_post)"
    "plain_col (model_of writer_rv sample_user) ''id''" "plain_col (model_of writer_rv sample_post) ''author_id''"
    using writer_meta_wf posts_meta_wf
    by (simp_all add: writer_rv_def plain_col_def writer_meta_def sample_meta_def writer_post_meta_def sample_post_meta_def empty_meta_def
        sample_post_def sample_user_def)
  have k: "instance_db_value writer_rv ''id'' i writer_session = (Ret (VInt (int i)), writer_session)" if "i = 1 \<or> i = 2" for i
  proof -
    have i: "i_model (objs writer_session i) = sample_user" "attr_at (objs writer_session i) ''id'' = Inr (APy (VInt (int i)))"
      "map_of (fields_map (model_of writer_rv sample_user)) ''id'' = Some id_field"
      using that by (elim disjE; hypsubst; code_simp)+
    have "field_to_db (orm writer_rv) id_field (VInt (int i)) (Instance c) = Inr (VInt (int i), None)" for c
      using that by (elim disjE; hypsubst; code_simp)
    with i w show ?thesis
      by (simp add: instance_db_value_def dict_at_def py_getattr_plain conv_on_def Let_def iseq_def ibind_def)
  qed
  have m: "i_model (objs writer_session 1) = sample_user" "i_model (objs writer_session 2) = sample_user" by code_simp+
  have own: "own_container (writer_session\<lparr>qstore := h\<rparr>) ''posts'' i" if "i = 1 \<or> i = 2" for i h
    using that by (auto simp: own_container_def writer_session_def stored_user_def)
  have rd: "reads_attr writer_rv ''author_id'' (writer_session\<lparr>qstore := h\<rparr>) r" if "r \<in> {5, 6, 7}" for r h
  proof -
    have "i_model (objs (writer_session\<lparr>qstore := h\<rparr>) r) = sample_post"
      using that by (auto simp: writer_session_def stored_post_def)
    with w show ?thesis by (simp add: reads_attr_def py_getattr_plain)
  qed
  have at: "attr_at (objs writer_session 1) ''id'' = Inr (APy (VInt 1))" "attr_at (objs writer_session 2) ''id'' = Inr (APy (VInt 2))"
    "attr_at (objs writer_session 5) ''author_id'' = Inr (APy (VInt 2))" "attr_at (objs writer_session 6) ''author_id'' = Inr (APy (VInt 1))"
    "attr_at (objs writer_session 7) ''author_id'' = Inr (APy (VInt 1))" by code_simp+
  from prefetch_reverse_hands_out [OF r _ _ f(1,2), where key = "\<lambda>i. VInt (int i)", unfolded f(3,4)] writer_setup k own rd m at r
  show ?thesis by auto
qed

section \<open>A foreign key that is not found\<close>

lemma direct_step_first:
  assumes gv: "py_getattr rv i (fld @ ''_id'') s = (Ret v, s)"
    and fm: "map_of (fields_map (model_of rv (i_model (objs s i)))) fld = Some f" and nn: "v \<noteq> APy VNone"
  shows "direct_step rv fld i ([], [], []) s = (case to_field (rel f) of None \<Rightarrow> (Raise PyAttributeError, s)
      | Some k \<Rightarrow> (Ret ([(i_model (objs s i), k)], [(k, [v])], k), s))"
  unfolding direct_step_def case_prod_conv ibind_simps(1) [of "py_getattr rv i (fld @ ''_id'')" s, OF gv]
  apply (simp only: nn not_False_eq_True if_True map_of.simps option.case fm)
  apply (cases "to_field (rel f)")
   apply (simp_all only: option.case fm dict_at_def opt_attr_def)
   apply (simp_all only: ibind_def ilift_def sum.case prod.case outcome.case iret_def)
  apply (simp_all add: dict_has_def)
  done

text \<open>
  Prefetching a foreign key whose row the query set given does not select (it was filtered
  out, or is gone) takes the key away from the instance: the relation and the key attribute are
  both \<^verbatim>\<open>None\<close> afterwards, so that a later save of the instance would write NULL.
\<close>

theorem prefetch_drops_key:
  assumes "prefetch_direct rv fetch [i] fld (None, a) s = (Ret (), s')"
    and "m = model_of rv (i_model (objs s i))" and "meta_wf m" and "fld \<in> set (fk_fields m)"
    and "map_of (fields_map m) fld = Some f" and "source_field f = Some (fld @ ''_id'')" and "plain_col m (fld @ ''_id'')"
    and "attr_at (objs s i) (fld @ ''_id'') = Inr v" and "v \<noteq> APy VNone" and "''_'' @ fld \<noteq> fld @ ''_id''"
    and "\<forall>q h rs t. fetch q (s\<lparr>qstore := h\<rparr>) = (Ret rs, t) \<longrightarrow> rs = [] \<and> objs t i = objs s i"
  shows "attr_at (objs s' i) (''_'' @ fld) = Inr (APy VNone) \<and> attr_at (objs s' i) (fld @ ''_id'') = Inr (APy VNone)"
proof -
  let ?key = "fld @ ''_id''"
  have g: "py_getattr rv i ?key t = ilift (attr_at (objs t i) ?key) t" if "i_model (objs t i) = i_model (objs s i)" for t :: "'a session"
    using assms(2,3,7) that by (simp add: py_getattr_plain)
  from assms(1) obtain st t1 where 1: "ifold (direct_step rv fld) [i] ([], [], []) s = (Ret st, t1)"
    and 2: "(case st of (mtf, want, key) \<Rightarrow> iwhen (want \<noteq> [])
       (ibind (pq_filter a (dict_update [] (map direct_condition want))) (\<lambda>q.
        ibind (fetch q) (\<lambda>rs.
        ibind (index_direct rv mtf key rs) (\<lambda>d.
        ifold (\<lambda>i _. attach_object rv fld ?key None d i) [i] ()))))) t1 = (Ret (), s')"
    unfolding prefetch_direct_def ibind_Ret by auto
  from g [of s] assms(8) have gv: "py_getattr rv i ?key s = (Ret v, s)" by simp
  have fm: "map_of (fields_map (model_of rv (i_model (objs s i)))) fld = Some f" using assms(2,5) by simp
  note step = direct_step_first [OF gv fm assms(9)]
  have "direct_step rv fld i ([], [], []) s = (Ret st, t1)"
    using 1 unfolding ifold.simps ibind_Ret iret_def by auto
  then have c: "(case to_field (rel f) of None \<Rightarrow> (Raise PyAttributeError, s)
      | Some k \<Rightarrow> (Ret ([(i_model (objs s i), k)], [(k, [v])], k), s)) = (Ret st, t1)" by (simp only: step)
  then have "to_field (rel f) \<noteq> None" by (intro notI) simp
  then obtain k where k: "to_field (rel f) = Some k" by blast
  from c [unfolded k option.case prod.inject outcome.inject]
  have st: "st = ([(i_model (objs s i), k)], [(k, [v])], k)" and "t1 = s" by blast+
  have "dict_update [] (map direct_condition [(k, [v])]) = [direct_condition (k, [v])]"
    by (simp add: direct_condition_def)
  with 2 have "ibind (pq_filter a [direct_condition (k, [v])]) (\<lambda>q. ibind (fetch q) (\<lambda>rs.
        ibind (index_direct rv [(i_model (objs s i), k)] k rs) (\<lambda>d.
        ifold (\<lambda>i _. attach_object rv fld ?key None d i) [i] ()))) s = (Ret (), s')"
    unfolding st case_prod_conv iwhen_def \<open>t1 = s\<close> by simp
  then obtain q t2 rs t3 d t4 where q: "pq_filter a [direct_condition (k, [v])] s = (Ret q, t2)"
    and f: "fetch q t2 = (Ret rs, t3)" and d: "index_direct rv [(i_model (objs s i), k)] k rs t3 = (Ret d, t4)"
    and at: "attach_object rv fld ?key None d i t4 = (Ret (), s')"
    unfolding ibind_Ret ifold.simps iret_def by blast
  from q obtain h where t2: "t2 = s\<lparr>qstore := h\<rparr>" by (auto simp: pq_filter_def on_sets_def split: prod.splits)
  from assms(11) f [unfolded t2] have rs: "rs = []" and o: "objs t3 i = objs s i" by blast+
  from d rs have d: "d = []" and [simp]: "t4 = t3" by (simp_all add: index_direct_def index_objects_def iret_def)
  from at g [of t3] o assms(8) have "py_setattr rv i fld (APy VNone) t3 = (Ret (), s')"
    by (auto simp: attach_object_def d obj_attr_def ibind_Ret iseq_def iret_def)
  moreover have "py_setattr rv i fld (APy VNone) t3 = (ibind (ilift (to_field_obj (metas (orm rv)) f)) (\<lambda>tf.
      fk_setter i (APy VNone) (''_'' @ fld) ?key (model_field_name tf))) t3"
    using o assms(2,4,5,6) by (simp add: py_setattr_def dict_at_def opt_attr_def ibind_def ilift_def split: sum.splits)
  ultimately have "s' = put_state i (''_'' @ fld) (APy VNone) (put_state i ?key (APy VNone) t3)"
    by (auto simp: ibind_Ret fk_setter_def attr_truthy_def iseq_def iret_def put_raw_def imodify_def)
  then show ?thesis using assms(10) by (simp add: attr_at_def put_state_at)
qed

theorem prefetch_drops_key_witness:
  "\<exists>s'. prefetch_direct writer_rv (\<lambda>q s. (Ret [], s)) [5] ''author'' (None, 0) writer_session = (Ret (), s') \<and>
     attr_at (objs s' 5) ''author_id'' = Inr (APy VNone)"
proof -
  let ?r = "prefetch_direct writer_rv (\<lambda>q s. (Ret [], s)) [5] ''author'' (None, 0) writer_session"
  have "fst ?r = Ret ()" by code_simp
  then obtain s' where r: "?r = (Ret (), s')" by (metis prod.collapse)
  have m: "writer_post_meta = model_of writer_rv (i_model (objs writer_session 5))" by (simp add: writer_rv_def writer_session_def stored_post_def sample_user_def sample_post_def)
  have f: "map_of (fields_map writer_post_meta) ''author'' = Some (author_field\<lparr>rel := (rel author_field)\<lparr>to_field := Some ''id''\<rparr>\<rparr>)"
    "source_field (author_field\<lparr>rel := (rel author_field)\<lparr>to_field := Some ''id''\<rparr>\<rparr>) = Some (''author'' @ ''_id'')"
    "''author'' \<in> set (fk_fields writer_post_meta)" "plain_col writer_post_meta (''author'' @ ''_id'')"
    by (simp_all add: writer_post_meta_def sample_post_meta_def author_field_def plain_col_def)
  have v: "attr_at (objs writer_session 5) (''author'' @ ''_id'') = Inr (APy (VInt 2))" by code_simp
  from prefetch_drops_key [OF r m posts_meta_wf f(3,1,2,4) v] r show ?thesis by auto
qed

end
