(* ===== verification/ModelApi.thy ===== *)
theory ModelApi
  imports Transactions Saving Prefetching
begin

text \<open>
  The class methods of \<^verbatim>\<open>Model\<close> (\<^verbatim>\<open>models.py\<close>) and \<^verbatim>\<open>manager.py\<close>: query sets of the default
  manager, and \<^verbatim>\<open>get_or_create\<close> and \<^verbatim>\<open>update_or_create\<close>, where saving, awaiting query sets and
  transactions meet. Here the database of a session is the process of \<open>Connections\<close>, so that a
  transaction block surrounds computations on instances; which statements go through which
  client is the function \<open>with_client\<close>.
\<close>

section \<open>Connections under a session\<close>

definition on_db :: "('d, 'a) io \<Rightarrow> ('d, 'a) sio" where
  "on_db c s = (case c (sdb s) of (r, d) \<Rightarrow> (r, s\<lparr>sdb := d\<rparr>))"

record 'd api_env =
  with_client :: "nat \<Rightarrow> 'd proc save_env"
  api_engines :: engines
  api_driver :: "'d driver_ops"
  api_task :: task
  api_read :: "router_method list"   \<comment> \<open>\<^verbatim>\<open>db_for_read\<close> of the routers\<close>
  api_write :: "router_method list"  \<comment> \<open>\<^verbatim>\<open>db_for_write\<close>\<close>
  api_depth :: nat                   \<comment> \<open>the calls left, for awaiting query sets\<close>

abbreviation client_rv :: "'d api_env \<Rightarrow> nat \<Rightarrow> 'd proc run_env" where
  "client_rv ap c \<equiv> run (with_client ap c)"

text \<open>\<^verbatim>\<open>async with in_transaction(connection_name)\<close>, as \<open>run_transaction\<close> has it, around a body on instances.\<close>

definition transaction_block :: "'d driver_ops \<Rightarrow> task \<Rightarrow> nat \<Rightarrow> (nat \<Rightarrow> ('d proc, 'a) sio) \<Rightarrow> ('d proc, 'a) sio" where
  "transaction_block ops t c body =
     ibind (iget (\<lambda>s. kind (clients (sdb s) c))) (\<lambda>k.
     case k of
       BaseClient \<Rightarrow>
         ibind (on_db (trx_wrapper c)) (\<lambda>w.
         with_block (on_db (trx_aenter ops t w)) (\<lambda>tok exc. on_db (trx_aexit ops t w tok exc)) (\<lambda>_. body w))
     | Transaction parent \<Rightarrow>
         with_block (iret c) (\<lambda>w exc. on_db (nested_aexit ops w exc)) body)"

definition in_transaction_block :: "'d api_env \<Rightarrow> string option \<Rightarrow> (nat \<Rightarrow> ('d proc, 'a) sio) \<Rightarrow> ('d proc, 'a) sio" where
  "in_transaction_block ap name body =
     ibind (on_db (get_connection (api_engines ap) (api_task ap) name)) (\<lambda>c.
     transaction_block (api_driver ap) (api_task ap) c body)"

text \<open>\<^verbatim>\<open>_choose_db\<close>: the router's connection, or the model's own, \<^verbatim>\<open>_meta.db\<close>.\<close>

definition choose_db :: "'d api_env \<Rightarrow> bool \<Rightarrow> mid \<Rightarrow> ('d proc, nat) io" where
  "choose_db ap for_write mo =
     ibind (db_route (api_engines ap) (api_task ap) (if for_write then api_write ap else api_read ap) mo) (\<lambda>r.
     case r of Some c \<Rightarrow> iret c
     | None \<Rightarrow> (case default_connection (model_of (client_rv ap 0) mo) of
           None \<Rightarrow> iraise ConfigurationError
         | Some a \<Rightarrow> conn_get (api_engines ap) (api_task ap) a))"

section \<open>Query sets of a model\<close>

text \<open>\<^verbatim>\<open>Manager.get_queryset\<close> and \<^verbatim>\<open>Model._db_queryset\<close>.\<close>

definition get_queryset :: "'d run_env \<Rightarrow> mid \<Rightarrow> qset qio" where
  "get_queryset rv mo = qset_init (caps rv) mo"

definition db_queryset :: "'d run_env \<Rightarrow> nat \<Rightarrow> mid \<Rightarrow> qset qio" where
  "db_queryset rv c mo = ibind (get_queryset rv mo) (using_db (Some c))"

definition model_select_for_update :: "'d run_env \<Rightarrow> nat \<Rightarrow> mid \<Rightarrow> bool \<Rightarrow> bool \<Rightarrow> string list \<Rightarrow> qset qio" where
  "model_select_for_update rv c mo nowait skip ofs = ibind (db_queryset rv c mo) (select_for_update nowait skip ofs)"

definition model_first :: "'d run_env \<Rightarrow> nat \<Rightarrow> mid \<Rightarrow> qset qio" where
  "model_first rv c mo = ibind (db_queryset rv c mo) qs_first"

definition model_filter_args :: "'d run_env \<Rightarrow> mid \<Rightarrow> q_arg list \<Rightarrow> kwargs \<Rightarrow> qset qio" where
  "model_filter_args rv mo args kw = ibind (get_queryset rv mo) (filter_or_exclude False args kw)"

definition model_exclude :: "'d run_env \<Rightarrow> mid \<Rightarrow> q_arg list \<Rightarrow> kwargs \<Rightarrow> qset qio" where
  "model_exclude rv mo args kw = ibind (get_queryset rv mo) (filter_or_exclude True args kw)"

definition model_annotate :: "'d run_env \<Rightarrow> mid \<Rightarrow> annotations \<Rightarrow> qset qio" where
  "model_annotate rv mo anns = ibind (get_queryset rv mo) (annotate (orm rv) anns)"

definition model_get :: "'d run_env \<Rightarrow> nat \<Rightarrow> mid \<Rightarrow> q_arg list \<Rightarrow> kwargs \<Rightarrow> qset qio" where
  "model_get rv c mo args kw = ibind (db_queryset rv c mo) (qs_get args kw)"

definition model_get_or_none :: "'d run_env \<Rightarrow> nat \<Rightarrow> mid \<Rightarrow> q_arg list \<Rightarrow> kwargs \<Rightarrow> qset qio" where
  "model_get_or_none rv c mo args kw = ibind (db_queryset rv c mo) (get_or_none args kw)"

text \<open>\<^verbatim>\<open>Model.exists\<close>, up to the query that asks.\<close>

definition model_exists :: "'d run_env \<Rightarrow> nat \<Rightarrow> mid \<Rightarrow> q_arg list \<Rightarrow> kwargs \<Rightarrow> qset qio" where
  "model_exists rv c mo args kw = ibind (db_queryset rv c mo) (filter_or_exclude False args kw)"

text \<open>The instance a query set for one answers; \<open>NoRow\<close> is \<^verbatim>\<open>None\<close>.\<close>

fun one_of :: "nat answer \<Rightarrow> nat option" where
  "one_of (One a) = Some a"
| "one_of _ = None"

definition await_one :: "'d api_env \<Rightarrow> nat \<Rightarrow> qset qio \<Rightarrow> ('d proc, nat option) sio" where
  "await_one ap c mk =
     ibind (on_sets mk) (\<lambda>q. ibind (await_queryset (client_rv ap c) (api_depth ap) q) (\<lambda>ans. iret (one_of ans)))"

text \<open>\<^verbatim>\<open>QuerySet.in_bulk\<close>: the objects by their value of the field.\<close>

definition in_bulk :: "'d run_env \<Rightarrow> nat \<Rightarrow> pyval list \<Rightarrow> string \<Rightarrow> qset \<Rightarrow> ('d, (attr, nat) dict) sio" where
  "in_bulk rv lim ids name q =
     ibind (on_sets (filter_or_exclude False [] [(name @ ''__in'', VList ids)] q)) (\<lambda>q.
     ibind (await_queryset rv lim q) (\<lambda>ans.
     ibind (ilift (rows_of ans)) (\<lambda>rs.
     ifold (\<lambda>r d. ibind (py_getattr rv r name) (\<lambda>v. iret (AList.update v r d))) rs [])))"

definition model_in_bulk :: "'d run_env \<Rightarrow> nat \<Rightarrow> nat \<Rightarrow> mid \<Rightarrow> pyval list \<Rightarrow> string \<Rightarrow> ('d, (attr, nat) dict) sio" where
  "model_in_bulk rv lim c mo ids name = ibind (on_sets (db_queryset rv c mo)) (in_bulk rv lim ids name)"

section \<open>get_or_create and update_or_create\<close>

text \<open>\<^verbatim>\<open>await cls.filter(**kwargs).using_db(db).get()\<close>; the query set raises when there is no row.\<close>

definition plain_kwargs :: "(string, attr) dict \<Rightarrow> kwargs" where
  "plain_kwargs kw = map (\<lambda>(k, v). (k, plain v)) kw"

definition fetch_existing :: "'d api_env \<Rightarrow> mid \<Rightarrow> nat \<Rightarrow> (string, attr) dict \<Rightarrow> ('d proc, nat) sio" where
  "fetch_existing ap mo c kw =
     ibind (await_one ap c (ibind (model_filter_args (client_rv ap c) mo [] (plain_kwargs kw)) (\<lambda>q.
              ibind (using_db (Some c) q) (qs_get [] []))))
       (\<lambda>r. case r of Some a \<Rightarrow> iret a | None \<Rightarrow> iraise DoesNotExist)"

text \<open>A default that differs from the keyword argument of the same name.\<close>

definition conflicting :: "(string, attr) dict \<Rightarrow> (string, attr) dict \<Rightarrow> bool" where
  "conflicting dflts kw =
     list_ex (\<lambda>(k, v). case map_of kw k of None \<Rightarrow> False | Some u \<Rightarrow> \<not> py_eq (plain v) (plain u)) dflts"

definition create_or_get ::
    "'d api_env \<Rightarrow> mid \<Rightarrow> nat \<Rightarrow> (string, attr) dict \<Rightarrow> (string, attr) dict \<Rightarrow> ('d proc, nat \<times> bool) sio" where
  "create_or_get ap mo c dflts kw =
     (if conflicting dflts kw then iraise ParamsError
      else
        ibind (iget (\<lambda>s. client.connection_name (clients (sdb s) c))) (\<lambda>name.
        icatch
          (in_transaction_block ap (Some name) (\<lambda>w.
             ibind (create (with_client ap w) mo (dict_update kw dflts)) (\<lambda>a. iret (a, True))))
          (\<lambda>e. if exn_isa e IntegrityError then
                icatch (ibind (fetch_existing ap mo c kw) (\<lambda>a. iret (a, False)))
                  (\<lambda>e'. if exn_isa e' DoesNotExist then iraise e else iraise e')
              else iraise e)))"

definition get_or_create ::
    "'d api_env \<Rightarrow> mid \<Rightarrow> nat \<Rightarrow> (string, attr) dict \<Rightarrow> (string, attr) dict \<Rightarrow> ('d proc, nat \<times> bool) sio" where
  "get_or_create ap mo c dflts kw =
     icatch (ibind (fetch_existing ap mo c kw) (\<lambda>a. iret (a, False)))
       (\<lambda>e. if exn_isa e DoesNotExist then create_or_get ap mo c dflts kw else iraise e)"

text \<open>The body of the transaction of \<^verbatim>\<open>update_or_create\<close>.\<close>

definition update_existing ::
    "'d api_env \<Rightarrow> mid \<Rightarrow> (string, attr) dict \<Rightarrow> (string, attr) dict \<Rightarrow> nat \<Rightarrow> ('d proc, nat option) sio" where
  "update_existing ap mo dflts kw w =
     ibind (on_db (choose_db ap True mo)) (\<lambda>c0.
     ibind (await_one ap w (ibind (model_select_for_update (client_rv ap w) c0 mo False False []) (\<lambda>q.
              ibind (using_db (Some w) q) (get_or_none [] (plain_kwargs kw))))) (\<lambda>r.
     case r of
       None \<Rightarrow> iret None
     | Some a \<Rightarrow>
         iseq (update_from_dict (client_rv ap w) a dflts)
         (iseq (save (with_client ap w) a [] False False) (iret (Some a)))))"

definition update_or_create ::
    "'d api_env \<Rightarrow> mid \<Rightarrow> nat \<Rightarrow> (string, attr) dict \<Rightarrow> (string, attr) dict \<Rightarrow> ('d proc, nat \<times> bool) sio" where
  "update_or_create ap mo c dflts kw =
     ibind (iget (\<lambda>s. client.connection_name (clients (sdb s) c))) (\<lambda>name.
     ibind (in_transaction_block ap (Some name) (update_existing ap mo dflts kw)) (\<lambda>r.
     case r of Some a \<Rightarrow> iret (a, False) | None \<Rightarrow> create_or_get ap mo c dflts kw))"

section \<open>A transaction around a body on instances\<close>

lemma on_db_run: "c (sdb s) = (r, p) \<Longrightarrow> on_db c s = (r, s\<lparr>sdb := p\<rparr>)"
  by (simp add: on_db_def)

text \<open>What it takes for a block to begin: a connected client out of a transaction, whose lock is free.\<close>

definition ready_client :: "('d \<Rightarrow> bool) \<Rightarrow> 'd proc \<Rightarrow> nat \<Rightarrow> nat \<Rightarrow> bool" where
  "ready_client in_trx p c d \<longleftrightarrow>
     kind (clients p c) = BaseClient \<and> driver (clients p c) = Some d \<and> \<not> locked p (own_lock (clients p c)) \<and>
     fresh_ok p c \<and> \<not> in_trx (drivers p d)"

text \<open>The alias of a client leads back to it.\<close>

definition known_client :: "task \<Rightarrow> 'd proc \<Rightarrow> nat \<Rightarrow> bool" where
  "known_client t p c \<longleftrightarrow>
     client.connection_name (clients p c) \<noteq> [] \<and> alias_of t (client.connection_name (clients p c)) p = Some c"

lemma in_transaction_known:
  assumes "known_client (api_task ap) (sdb s) c"
  shows "in_transaction_block ap (Some (client.connection_name (clients (sdb s) c))) body s =
    transaction_block (api_driver ap) (api_task ap) c body s"
  using assms unfolding known_client_def in_transaction_block_def
  by (simp add: on_db_def get_connection_def conn_get_def alias_of_def iget_def ibind_def iret_def)

text \<open>The state in which the body starts.\<close>

abbreviation begun :: "'d driver_ops \<Rightarrow> task \<Rightarrow> nat \<Rightarrow> 'd proc session \<Rightarrow> 'd proc session" where
  "begun ops t c s \<equiv> s\<lparr>sdb := entered ops t c (sdb s)\<rparr>"

lemma transaction_block_run:
  assumes "reliable ops" and "kind (clients (sdb s) c) = BaseClient" and "driver (clients (sdb s) c) = Some d"
    and "\<not> locked (sdb s) (own_lock (clients (sdb s) c))" and "fresh_ok (sdb s) c"
    and "body (next_client (sdb s)) (begun ops t c s) = (r, sb)" and "r \<noteq> Wait"
    and "inside t (next_client (sdb s)) d (own_lock (clients (sdb s) c)) (current (sdb s) t) (sdb sb)"
  shows "\<exists>p'. transaction_block ops t c body s = (r, sb\<lparr>sdb := p'\<rparr>) \<and> \<not> locked p' (own_lock (clients (sdb s) c)) \<and>
     drivers p' d = (case r of Ret a \<Rightarrow> snd (d_commit ops (drivers (sdb sb) d))
        | Raise e \<Rightarrow> if e = TransactionManagementError then drivers (sdb sb) d else snd (d_rollback ops (drivers (sdb sb) d))
        | Wait \<Rightarrow> drivers (sdb sb) d)"
proof -
  let ?p = "sdb s" and ?w = "next_client (sdb s)"
  let ?exc = "case r of Raise e \<Rightarrow> Some e | _ \<Rightarrow> None"
  from aexit_run [OF assms(1,8), of ?exc] obtain p' where
    p': "trx_aexit ops t ?w (current ?p t) ?exc (sdb sb) = (Ret (), p')" "\<not> locked p' (own_lock (clients ?p c))"
    and d: "drivers p' d = (case ?exc of None \<Rightarrow> snd (d_commit ops (drivers (sdb sb) d))
        | Some e \<Rightarrow> if e = TransactionManagementError then drivers (sdb sb) d else snd (d_rollback ops (drivers (sdb sb) d)))"
    by blast
  have w: "on_db (trx_wrapper c) s = (Ret ?w, s\<lparr>sdb := snd (trx_wrapper c ?p)\<rparr>)"
    by (rule on_db_run) (simp add: trx_wrapper_run)
  have enter: "on_db (trx_aenter ops t ?w) (s\<lparr>sdb := snd (trx_wrapper c ?p)\<rparr>) = (Ret (current ?p t), begun ops t c s)"
    using aenter_run [OF assms(1,3,4,5), of t] by (simp add: on_db_def)
  have "transaction_block ops t c body s = (r, sb\<lparr>sdb := p'\<rparr>)"
    using assms(2,6,7) w enter p'(1)
    by (cases r) (simp_all add: transaction_block_def with_block_def on_db_run)
  moreover have "drivers p' d = (case r of Ret a \<Rightarrow> snd (d_commit ops (drivers (sdb sb) d))
        | Raise e \<Rightarrow> if e = TransactionManagementError then drivers (sdb sb) d else snd (d_rollback ops (drivers (sdb sb) d))
        | Wait \<Rightarrow> drivers (sdb sb) d)"
    using d assms(7) by (cases r) simp_all
  ultimately show ?thesis using p'(2) by blast
qed

lemma transaction_block_durable:
  assumes "driver_laws ops durable visible in_trx" and "reliable ops" and "ready_client in_trx (sdb s) c d"
    and "body (next_client (sdb s)) (begun ops t c s) = (r, sb)" and "r \<noteq> Wait" and "r \<noteq> Raise TransactionManagementError"
    and "inside t (next_client (sdb s)) d (own_lock (clients (sdb s) c)) (current (sdb s) t) (sdb sb)"
    and "durable (drivers (sdb sb) d) = durable (drivers (entered ops t c (sdb s)) d)"
  shows "\<exists>p'. transaction_block ops t c body s = (r, sb\<lparr>sdb := p'\<rparr>) \<and> \<not> locked p' (own_lock (clients (sdb s) c)) \<and>
     durable (drivers p' d) = (case r of Ret a \<Rightarrow> visible (drivers (sdb sb) d) | _ \<Rightarrow> durable (drivers (sdb s) d))"
proof -
  from assms(3) have r: "kind (clients (sdb s) c) = BaseClient" "driver (clients (sdb s) c) = Some d"
    "\<not> locked (sdb s) (own_lock (clients (sdb s) c))" "fresh_ok (sdb s) c" "\<not> in_trx (drivers (sdb s) d)"
    by (simp_all add: ready_client_def)
  from transaction_block_run [where body = body and s = s, OF assms(2) r(1-4) assms(4,5,7)] block_durable [OF assms(1,2) r(2,4,5) assms(8)] assms(5,6)
  show ?thesis by (cases r) auto
qed

section \<open>get_or_create\<close>

text \<open>The answer after an \<^verbatim>\<open>IntegrityError\<close>: the row somebody else made, or the error.\<close>

definition second_look ::
    "'d api_env \<Rightarrow> mid \<Rightarrow> nat \<Rightarrow> (string, attr) dict \<Rightarrow> exn \<Rightarrow> ('d proc, nat \<times> bool) sio" where
  "second_look ap mo c kw e =
     icatch (ibind (fetch_existing ap mo c kw) (\<lambda>a. iret (a, False)))
       (\<lambda>e'. if exn_isa e' DoesNotExist then iraise e else iraise e')"

lemma get_or_create_missing:
  assumes "fetch_existing ap mo c kw s0 = (Raise e0, s)" and "exn_isa e0 DoesNotExist"
  shows "get_or_create ap mo c dflts kw s0 = create_or_get ap mo c dflts kw s"
  using assms by (simp add: get_or_create_def icatch_def ibind_def)

lemma create_or_get_block:
  assumes "\<not> conflicting dflts kw" and "known_client (api_task ap) (sdb s) c"
    and "transaction_block (api_driver ap) (api_task ap) c
       (\<lambda>w. ibind (create (with_client ap w) mo (dict_update kw dflts)) (\<lambda>a. iret (a, True))) s = (r, s1)"
  shows "create_or_get ap mo c dflts kw s =
     (case r of Raise e \<Rightarrow> if exn_isa e IntegrityError then second_look ap mo c kw e s1 else (Raise e, s1) | _ \<Rightarrow> (r, s1))"
  using assms(1,3)
  by (cases r) (simp_all add: create_or_get_def second_look_def ibind_def [of "iget _"] icatch_def
      in_transaction_known [OF assms(2)])

lemma creating_run:
  assumes "create sv mo kw s = (r, t)" and "r \<noteq> Wait"
  shows "ibind (create sv mo kw) (\<lambda>a. iret (a, True)) s =
    ((case r of Ret a \<Rightarrow> Ret (a, True) | Raise e \<Rightarrow> Raise e | Wait \<Rightarrow> Wait), t)"
  using assms by (cases r) simp_all


text \<open>
  A connection whose tables are one number: a SELECT finds nothing, an INSERT writes a five, or
  fails when \<open>ok\<close> is not set.
\<close>

definition number_send :: "bool \<Rightarrow> stmt \<Rightarrow> pyval list \<Rightarrow> (toy_db proc, reply) io" where
  "number_send ok q vals p =
     (case q of
        InsertInto t cols ts rets ign \<Rightarrow>
          if ok then (Ret (RowId 1), p\<lparr>drivers := (drivers p)(0 := (fst (drivers p 0), Some 5))\<rparr>) else (Raise IntegrityError, p)
      | _ \<Rightarrow> (Ret (Fetched 0 []), p))"

definition number_rv :: "bool \<Rightarrow> toy_db proc run_env" where
  "number_rv ok = \<lparr> orm = sample_env\<lparr>metas := (\<lambda>_. sample_meta\<lparr>ordering_validated := True\<rparr>)\<rparr>,
     call_default = (\<lambda>_. Inr VNone), await_default = (\<lambda>_. Inr VNone), db_native = (\<lambda>t. t = PyInt \<or> t = PyStr),
     connection_name = ''default'',
     caps = \<lparr> requires_limit = True, support_for_update = False, support_index_hint = False,
       support_update_limit_order_by = False \<rparr>, postgres = False, send = number_send ok \<rparr>"

definition number_api :: "bool \<Rightarrow> toy_db api_env" where
  "number_api ok = \<lparr> with_client = (\<lambda>_. \<lparr> run = number_rv ok, registry = [], listen = (\<lambda>_ _. iret ()) \<rparr>),
     api_engines = sample_engines, api_driver = toy_ops, api_task = 0, api_read = [], api_write = [], api_depth = 9 \<rparr>"

text \<open>The user that is made; before, the cells of the store hold it, too, but are not in use.\<close>

definition made_user :: inst where
  "made_user = \<lparr> i_model = sample_user, i_dict = [(''name'', APy (VStr ''x'')), (''id'', APy VNone)], i_partial = False,
     i_saved = False, i_custom_pk = False, i_await = 0 \<rparr>"

definition number_session :: "toy_db proc \<Rightarrow> toy_db proc session" where
  "number_session p = \<lparr> objs = (\<lambda>_. made_user), next_obj = 0, awaits = (\<lambda>_. []), next_await = 0,
     exec_cache = [], update_cache = (\<lambda>_. []), containers = (\<lambda>_. relation_init sample_user [] 0 [] None),
     next_container = 0, qstore = empty_store, sdb = p \<rparr>"

abbreviation number_kw :: "(string, attr) dict" where
  "number_kw \<equiv> [(''name'', APy (VStr ''x''))]"

lemma number_init:
  assumes "objs s = (\<lambda>_. made_user)" and "next_obj s = 0" and "awaits s = (\<lambda>_. [])" and "next_await s = 0"
  shows "model_init (number_rv ok) sample_user number_kw s = (Ret 0, s\<lparr>next_obj := 1, next_await := 1\<rparr>)"
proof -
  let ?m = "model_of (number_rv ok) sample_user"
  have m: "fk_fields ?m = []" "o2o_fields ?m = []" "backward_fk_fields ?m = []" "backward_o2o_fields ?m = []" "m2m_fields ?m = []"
    "fetch_fields ?m = []" "dict_has (fields_db_projection ?m) ''name''" "dict_at (fields_map ?m) ''name'' = Inr name_field"
    "dict_at (fields_map ?m) ''id'' = Inr id_field" "field_names ?m = [''id'', ''name'']" "pk name_field = False" "default id_field = VNone"
    "to_python_value (lib (orm (number_rv ok))) (ce (orm (number_rv ok))) name_field (VStr ''x'') = Inr (VStr ''x'')"
    by code_simp+
  show ?thesis using assms
    by (cases s) (simp add: model_init_def new_await_def alloc_obj_def set_kwargs_def set_kwarg_def set_default_def py_setattr_def
        put_raw_def put_state_def update_obj_def m Let_def iseq_def ibind_def iret_def ilift_def imodify_def iwhen_def set_union_def
        set_add_def made_user_def fun_eq_iff)
qed

text \<open>The session after a look for the user, over any store \<open>q\<close> of query sets and any cache \<open>u\<close> of updates.\<close>

definition number_missed :: "set_store \<Rightarrow> (exec_key \<Rightarrow> (string, stmt) dict) \<Rightarrow> toy_db proc \<Rightarrow> toy_db proc session" where
  "number_missed q u p = (number_session p)\<lparr>qstore := q, update_cache := u,
     exec_cache := (case make_entry (number_rv True) sample_user of Inl e \<Rightarrow> [] | Inr e \<Rightarrow> [((''default'', None, ''user''), e)])\<rparr>"

lemma number_fetch:
  "\<exists>q u. fetch_existing (number_api ok) sample_user c number_kw (number_session p) = (Raise DoesNotExist, number_missed q u p)"
proof -
  let ?f = "fetch_existing (number_api ok) sample_user c number_kw (number_session p)"
  let ?m = "number_missed (qstore (snd ?f)) (update_cache (snd ?f)) p"
  let ?x = "case make_entry (number_rv True) sample_user of Inl e \<Rightarrow> [] | Inr e \<Rightarrow> [((''default'', None, ''user''), e)]"
  have "P (case ?f of (r, s) \<Rightarrow> (r, objs s, next_obj s, awaits s, next_await s, exec_cache s, containers s, next_container s, sdb s)) \<longleftrightarrow>
      P (Raise DoesNotExist, \<lambda>_. made_user, 0, \<lambda>_. [], 0, ?x, \<lambda>_. relation_init sample_user [] 0 [] None, 0, p)" for P
    by code_simp
  from this [of "\<lambda>r. r = (Raise DoesNotExist, \<lambda>_. made_user, 0, \<lambda>_. [], 0, ?x, \<lambda>_. relation_init sample_user [] 0 [] None, 0, p)"]
  have "fst ?f = Raise DoesNotExist \<and> snd ?f = ?m"
    by (cases ?f) (simp add: number_missed_def number_session_def)
  then show ?thesis by (metis prod.collapse)
qed

abbreviation number_save :: "bool \<Rightarrow> nat \<Rightarrow> set_store \<Rightarrow> (exec_key \<Rightarrow> (string, stmt) dict) \<Rightarrow> toy_db proc \<Rightarrow> unit outcome \<times> toy_db proc session" where
  "number_save ok w q u p \<equiv> save (with_client (number_api ok) w) 0 [] True False ((number_missed q u p)\<lparr>next_obj := 1, next_await := 1\<rparr>)"

lemma number_saved:
  "fst (number_save ok w q u p) = (if ok then Ret () else Raise IntegrityError)"
  "clients (sdb (snd (number_save ok w q u p))) = clients p" "locked (sdb (snd (number_save ok w q u p))) = locked p"
  "drivers (sdb (snd (number_save ok w q u p))) 0 = (if ok then (fst (drivers p 0), Some 5) else drivers p 0)"
proof -
  have "fst (number_save True w q u p) = Ret ()" "fst (number_save False w q u p) = Raise IntegrityError" by code_simp+
  then show "fst (number_save ok w q u p) = (if ok then Ret () else Raise IntegrityError)" by simp
  obtain a b c d e f g h i k where p: "p = \<lparr>config = a, stores = b, next_store = c, current = d, clients = e, next_client = f,
      locked = g, next_lock = h, drivers = i, next_driver = k\<rparr>"
    by (cases p) blast
  have "P (clients (sdb (snd (number_save True w q u p)))) \<longleftrightarrow> P e" "P (clients (sdb (snd (number_save False w q u p)))) \<longleftrightarrow> P e" for P
    unfolding p by code_simp+
  from this(1) [of "\<lambda>r. r = e"] this(2) [of "\<lambda>r. r = e"]
  show "clients (sdb (snd (number_save ok w q u p))) = clients p" unfolding p by (cases ok) simp_all
  have "P (locked (sdb (snd (number_save True w q u p)))) \<longleftrightarrow> P g" "P (locked (sdb (snd (number_save False w q u p)))) \<longleftrightarrow> P g" for P
    unfolding p by code_simp+
  from this(1) [of "\<lambda>r. r = g"] this(2) [of "\<lambda>r. r = g"]
  show "locked (sdb (snd (number_save ok w q u p))) = locked p" unfolding p by (cases ok) simp_all
  have "P (drivers (sdb (snd (number_save True w q u p))) 0) \<longleftrightarrow> P (fst (i 0), Some 5)"
    "P (drivers (sdb (snd (number_save False w q u p))) 0) \<longleftrightarrow> P (i 0)" for P
    unfolding p by code_simp+
  from this(1) [of "\<lambda>r. r = (fst (i 0), Some 5)"] this(2) [of "\<lambda>r. r = i 0"]
  show "drivers (sdb (snd (number_save ok w q u p))) 0 = (if ok then (fst (drivers p 0), Some 5) else drivers p 0)"
    unfolding p by (cases ok) simp_all
qed

lemma number_create:
  "create (with_client (number_api ok) w) sample_user (dict_update number_kw []) (number_missed q u p) =
     ((if ok then Ret 0 else Raise IntegrityError), snd (number_save ok w q u p))"
proof -
  let ?s = "number_missed q u p" and ?t = "(number_missed q u p)\<lparr>next_obj := 1, next_await := 1\<rparr>" and ?sv = "with_client (number_api ok) w"
  have m: "model_init (run ?sv) sample_user (dict_update number_kw []) ?s = (Ret 0, ?t)"
    using number_init [of ?s] by (simp add: number_api_def number_missed_def number_session_def)
  have u: "update_obj 0 (\<lambda>i. i\<lparr>i_saved := False\<rparr>) ?t = (Ret (), ?t)"
    by (simp add: update_obj_def imodify_def number_missed_def number_session_def made_user_def fun_eq_iff)
  have "create ?sv sample_user (dict_update number_kw []) ?s = ibind (save ?sv 0 [] True False) (\<lambda>_. iret 0) ?t"
    unfolding create_def ibind_simps(1) [where c = "model_init (run ?sv) sample_user (dict_update number_kw [])", OF m] iseq_def
      ibind_simps(1) [where c = "update_obj 0 (\<lambda>i. i\<lparr>i_saved := False\<rparr>)", OF u] ..
  also have "\<dots> = ((if ok then Ret 0 else Raise IntegrityError), snd (number_save ok w q u p))"
    using number_saved(1) [of ok w q u p] by (cases ok; cases "number_save ok w q u p") (simp_all add: ibind_def)
  finally show ?thesis .
qed

lemma number_laws: "driver_laws (api_driver (number_api ok)) fst toy_visible (\<lambda>x. snd x \<noteq> None)" "reliable (api_driver (number_api ok))"
  using toy_laws toy_reliable by (simp_all add: number_api_def)


text \<open>
  Inside a transaction, \<^verbatim>\<open>get_or_create\<close> that meets an \<^verbatim>\<open>IntegrityError\<close> rolls back the
  \<^emph>\<open>surrounding\<close> transaction, for the block it opens is nested in it: the second look, which may
  well find the object and return it as if nothing had happened, sees the database without what
  the transaction did before, and the surrounding block then ends without committing and
  without an error.
\<close>

theorem get_or_create_ends_transaction:
  assumes "driver_laws (api_driver ap) durable visible in_trx" and "reliable (api_driver ap)"
    and "fetch_existing ap mo c kw s0 = (Raise e0, s)" and "exn_isa e0 DoesNotExist" and "\<not> conflicting dflts kw"
    and "known_client (api_task ap) (sdb s) c" and "kind (clients (sdb s) c) = Transaction parent"
    and "create (with_client ap c) mo (dict_update kw dflts) s = (Raise e, sb)" and "exn_isa e IntegrityError"
    and "inside (api_task ap) c d l token (sdb sb)" and "in_trx (drivers (sdb sb) d)"
  shows "\<exists>s1. get_or_create ap mo c dflts kw s0 = second_look ap mo c kw e s1 \<and> objs s1 = objs sb \<and>
     durable (drivers (sdb s1) d) = durable (drivers (sdb sb) d) \<and>
     visible (drivers (sdb s1) d) = durable (drivers (sdb sb) d) \<and>
     trx_end (api_driver ap) c None (sdb s1) = (Ret (), sdb s1)"
proof -
  let ?ops = "api_driver ap"
  obtain y where y: "d_rollback ?ops (drivers (sdb sb) d) = (None, y)"
    using assms(2) by (metis prod.collapse reliable_def)
  let ?p' = "set_client c (\<lambda>k. k\<lparr>finalized := True\<rparr>) ((sdb sb)\<lparr>drivers := (drivers (sdb sb))(d := y)\<rparr>)"
  have "\<not> exn_isa TransactionManagementError IntegrityError" by code_simp
  with assms(9) have "e \<noteq> TransactionManagementError" by blast
  then have "nested_aexit ?ops c (Some e) (sdb sb) = (Ret (), ?p')"
    using assms(10) y
    by (simp add: nested_aexit_def inside_def trx_rollback_def trx_finish_def iseq_def drv_call_ok)
  then have "transaction_block ?ops (api_task ap) c
       (\<lambda>w. ibind (create (with_client ap w) mo (dict_update kw dflts)) (\<lambda>a. iret (a, True))) s = (Raise e, sb\<lparr>sdb := ?p'\<rparr>)"
    using assms(7,8) by (simp add: transaction_block_def with_block_def on_db_def)
  from create_or_get_block [OF assms(5,6) this] get_or_create_missing [OF assms(3,4)] assms(9)
  have "get_or_create ap mo c dflts kw s0 = second_look ap mo c kw e (sb\<lparr>sdb := ?p'\<rparr>)" by simp
  moreover have "durable y = durable (drivers (sdb sb) d) \<and> visible y = durable (drivers (sdb sb) d)"
    using driver_lawsD(3) [OF assms(1) y] assms(11) by simp
  ultimately show ?thesis
    by (intro exI [of _ "sb\<lparr>sdb := ?p'\<rparr>"]) (simp add: trx_end_def)
qed

text \<open>The transaction has written a five, the object is missing, and its creation fails.\<close>

definition number_inside :: "toy_db proc" where
  "number_inside = snd (toy_body 1 (entered toy_ops 0 0 toy_proc))"

theorem get_or_create_ends_transaction_witness:
  "\<exists>s1. get_or_create (number_api False) sample_user 1 [] number_kw (number_session number_inside) =
       second_look (number_api False) sample_user 1 number_kw IntegrityError s1 \<and>
     toy_visible (drivers number_inside 0) = 5 \<and> toy_visible (drivers (sdb s1) 0) = 3"
proof -
  let ?ap = "number_api False"
  obtain q u where q: "fetch_existing ?ap sample_user 1 number_kw (number_session number_inside) = (Raise DoesNotExist, number_missed q u number_inside)"
    using number_fetch by blast
  let ?u = "snd (number_save False 1 q u number_inside)"
  have c: "create (with_client ?ap 1) sample_user (dict_update number_kw []) (number_missed q u number_inside) = (Raise IntegrityError, ?u)"
    using number_create [of False] by simp
  have db: "sdb (number_missed q u number_inside) = number_inside" "api_task ?ap = 0"
    by (simp_all add: number_missed_def number_session_def number_api_def)
  have e: "exn_isa DoesNotExist DoesNotExist" "\<not> conflicting [] number_kw" "known_client 0 number_inside 1"
    "kind (clients number_inside 1) = Transaction 0" "exn_isa IntegrityError IntegrityError"
    "inside 0 1 0 0 0 number_inside" "snd (drivers number_inside 0) \<noteq> None"
    "fst (drivers number_inside 0) = 3" "toy_visible (drivers number_inside 0) = 5"
    by code_simp+
  have i: "inside 0 1 0 0 0 (sdb ?u)" "drivers (sdb ?u) 0 = drivers number_inside 0"
    using e(6) by (simp_all add: inside_def number_saved del: One_nat_def)
  have k: "snd (drivers (sdb ?u) 0) \<noteq> None" using e(7) i(2) by simp
  from get_or_create_ends_transaction [OF number_laws q e(1,2) _ _ c e(5) _ k, unfolded db, OF e(3,4) i(1)] e(8,9) i(2)
  show ?thesis by auto
qed

end
