(* ===== verification/Setup.thy ===== *)
theory Setup
  imports Relations Connections
begin

text \<open>
  \<^verbatim>\<open>Tortoise.init\<close> and the rest of the class \<^verbatim>\<open>Tortoise\<close> (\<^verbatim>\<open>tortoise/__init__.py\<close>): configuration,
  discovery of models, apps, routers, shutdown. The state holds the registry of apps with the
  metadata of all models (\<open>world\<close>) and the process with its connections. Importing modules,
  reading files and what a client does to its database are parameters.
\<close>

section \<open>State and parameters\<close>

record 'd tortoise =
  t_world :: world                          \<comment> \<open>\<^verbatim>\<open>Tortoise.apps\<close> and every \<^verbatim>\<open>_meta\<close>\<close>
  t_proc :: "'d proc"
  t_inited :: bool
  t_routers :: "nat list"
  t_environ :: "(string, string) dict"      \<comment> \<open>\<^verbatim>\<open>os.environ\<close>\<close>

type_synonym ('d, 'a) tio = "('d tortoise, 'a) io"

text \<open>An attribute of a module: a subclass of \<^verbatim>\<open>Model\<close>, or anything else.\<close>

datatype mod_attr = AClass mid | AOther

record py_module =
  mod_models :: "mod_attr list option"      \<comment> \<open>\<^verbatim>\<open>__models__\<close>, when it can be iterated over\<close>
  mod_attrs :: "mod_attr list"              \<comment> \<open>in the order of \<^verbatim>\<open>dir(module)\<close>\<close>

datatype module_ref = ModuleName string | ModuleObj py_module

datatype router_ref = RouterName string | RouterClass nat | RouterOther

record app_info =
  ai_models :: "module_ref list option"
  ai_default :: "string option"             \<comment> \<open>\<^verbatim>\<open>default_connection\<close>\<close>

record init_config =
  c_connections :: "(string, db_info) dict option"
  c_apps :: "(string, app_info) dict option"
  c_use_tz :: "bool option"
  c_timezone :: "string option"
  c_routers :: "router_ref list option"

record 'd setup_env =
  st_engines :: engines
  st_task :: task
  st_import :: "string \<Rightarrow> py_module option"  \<comment> \<open>\<open>None\<close> is \<^verbatim>\<open>ImportError\<close>\<close>
  st_import_router :: "string \<Rightarrow> string \<Rightarrow> nat option"
  st_load_yaml :: "string \<Rightarrow> init_config res"
  st_load_json :: "string \<Rightarrow> init_config res"
  st_db_create :: "nat \<Rightarrow> ('d proc, unit) io"
  st_db_delete :: "nat \<Rightarrow> ('d proc, unit) io"
  st_generate :: "nat \<Rightarrow> bool \<Rightarrow> ('d tortoise, unit) io"  \<comment> \<open>\<^verbatim>\<open>generate_schema_for_client\<close>\<close>
  st_overrides :: "nat \<Rightarrow> (filter_op, filter_op) dict"

definition on_proc :: "('d proc, 'a) io \<Rightarrow> ('d, 'a) tio" where
  "on_proc c s = (case c (t_proc s) of (r, p) \<Rightarrow> (r, s\<lparr>t_proc := p\<rparr>))"

definition on_world :: "(world \<Rightarrow> world res) \<Rightarrow> ('d, unit) tio" where
  "on_world g s = (case g (t_world s) of Inl e \<Rightarrow> (Raise e, s) | Inr w \<Rightarrow> (Ret (), s\<lparr>t_world := w\<rparr>))"

section \<open>Discovering models\<close>

definition possible_models :: "py_module \<Rightarrow> mod_attr list" where
  "possible_models md = (case mod_models md of Some (x # xs) \<Rightarrow> x # xs | _ \<Rightarrow> mod_attrs md)"

text \<open>The app of a model is set when it has none; a model of another app is left out.\<close>

definition discover_step :: "string \<Rightarrow> mod_attr \<Rightarrow> mid list \<times> world \<Rightarrow> mid list \<times> world" where
  "discover_step label x sw =
     (case (x, sw) of
        (AOther, _) \<Rightarrow> sw
      | (AClass m, (ms, w)) \<Rightarrow>
          if abstract (w_metas w m) then sw
          else if (case mapp (w_metas w m) of None \<Rightarrow> False | Some a \<Rightarrow> a \<noteq> [] \<and> a \<noteq> label) then sw
          else (ms @ [m], upd_meta m (\<lambda>mt. mt\<lparr>mapp := Some label\<rparr>) w))"

definition discover_models :: "'d setup_env \<Rightarrow> module_ref \<Rightarrow> string \<Rightarrow> mid list \<times> world \<Rightarrow> (mid list \<times> world) res" where
  "discover_models env md label sw =
     (case md of
        ModuleObj x \<Rightarrow> Inr (fold (discover_step label) (possible_models x) sw)
      | ModuleName n \<Rightarrow>
          (case st_import env n of
             None \<Rightarrow> Inl ConfigurationError
           | Some x \<Rightarrow> Inr (fold (discover_step label) (possible_models x) sw)))"

definition app_models :: "(mid \<Rightarrow> meta) \<Rightarrow> mid list \<Rightarrow> (string, mid) dict" where
  "app_models metas ms = dict_update [] (map (\<lambda>m. (mname (metas m), m)) ms)"

definition init_models :: "'d setup_env \<Rightarrow> module_ref list \<Rightarrow> string \<Rightarrow> bool \<Rightarrow> world \<Rightarrow> world res" where
  "init_models env mods label with_relations w =
     rbind (rfold (\<lambda>md sw. discover_models env md label sw) mods ([], w)) (\<lambda>(ms, w1).
     let w2 = w1\<lparr>w_apps := AList.update label (app_models (w_metas w1) ms) (w_apps w1)\<rparr>
     in if with_relations then init_relations w2 else Inr w2)"

section \<open>Apps\<close>

definition app_default :: "app_info \<Rightarrow> string" where
  "app_default info = (case ai_default info of None \<Rightarrow> ''default'' | Some a \<Rightarrow> a)"

definition set_default_connection :: "string option \<Rightarrow> (string, mid) dict \<Rightarrow> world \<Rightarrow> world" where
  "set_default_connection a models w = fold (\<lambda>(n, m). upd_meta m (\<lambda>mt. mt\<lparr>default_connection := a\<rparr>)) models w"

definition app_of :: "world \<Rightarrow> string \<Rightarrow> (string, mid) dict" where
  "app_of w a = (case map_of (w_apps w) a of None \<Rightarrow> [] | Some models \<Rightarrow> models)"

definition init_app :: "'d setup_env \<Rightarrow> string \<times> app_info \<Rightarrow> ('d, unit) tio" where
  "init_app env ai =
     (case ai of (name, info) \<Rightarrow>
        ibind (icatch (on_proc (conn_get (st_engines env) (st_task env) (app_default info)))
                 (\<lambda>e. if exn_isa e PyKeyError then iraise ConfigurationError else iraise e)) (\<lambda>_.
        ibind (ilift (case ai_models info of None \<Rightarrow> Inl PyKeyError | Some ms \<Rightarrow> Inr ms)) (\<lambda>ms.
        iseq (on_world (init_models env ms name False))
          (on_world (\<lambda>w. Inr (set_default_connection (Some (app_default info)) (app_of w name) w))))))"

text \<open>
  \<^verbatim>\<open>_build_initial_querysets\<close> for one model: \<^verbatim>\<open>finalise_model\<close> with the filters of the executor of
  its connection. The base table and query are functions of the metadata.
\<close>

definition build_model :: "'d setup_env \<Rightarrow> mid \<Rightarrow> ('d, unit) tio" where
  "build_model env m s =
     (case default_connection (w_metas (t_world s) m) of
        None \<Rightarrow> (Raise ConfigurationError, s)
      | Some a \<Rightarrow>
          ibind (on_proc (conn_get (st_engines env) (st_task env) a)) (\<lambda>c.
          on_world (\<lambda>w. Inr (upd_meta m (\<lambda>mt. generate_filters (st_overrides env c) (finalise_fields mt)) w))) s)"

definition all_models :: "world \<Rightarrow> mid list" where
  "all_models w = concat (map (\<lambda>(a, models). map snd models) (w_apps w))"

definition build_initial_querysets :: "'d setup_env \<Rightarrow> ('d, unit) tio" where
  "build_initial_querysets env =
     ibind (iget (\<lambda>s. all_models (t_world s))) (\<lambda>ms. ifold (\<lambda>m _. build_model env m) ms ())"

definition init_apps :: "'d setup_env \<Rightarrow> (string, app_info) dict \<Rightarrow> ('d, unit) tio" where
  "init_apps env apps =
     iseq (ifold (\<lambda>ai _. init_app env ai) apps ())
     (iseq (on_world init_relations) (build_initial_querysets env))"

section \<open>Routers\<close>

text \<open>\<^verbatim>\<open>r.rsplit(".", 1)\<close>, which has to give two parts.\<close>

definition rsplit_dot :: "string \<Rightarrow> (string \<times> string) option" where
  "rsplit_dot s =
     (let parts = split_chr (CHR ''.'') s
      in if length parts < 2 then None
         else Some (drop 1 (concat (map (\<lambda>p. CHR ''.'' # p) (butlast parts))), last parts))"

definition router_class :: "'d setup_env \<Rightarrow> router_ref \<Rightarrow> nat res" where
  "router_class env r =
     (case r of
        RouterClass c \<Rightarrow> Inr c
      | RouterOther \<Rightarrow> Inl ConfigurationError
      | RouterName n \<Rightarrow>
          (case rsplit_dot n of
             None \<Rightarrow> Inl ConfigurationError
           | Some (md, cl) \<Rightarrow> (case st_import_router env md cl of None \<Rightarrow> Inl ConfigurationError | Some c \<Rightarrow> Inr c)))"

definition init_routers :: "'d setup_env \<Rightarrow> router_ref list option \<Rightarrow> ('d, unit) tio" where
  "init_routers env rs =
     ibind (ilift (rmap (router_class env) (case rs of None \<Rightarrow> [] | Some xs \<Rightarrow> xs))) (\<lambda>cs.
     imodify (\<lambda>s. s\<lparr>t_routers := cs\<rparr>))"

section \<open>Configuration\<close>

text \<open>\<^verbatim>\<open>os.path.splitext(name)[1]\<close>: dots that begin the last component of the path do not count.\<close>

definition file_extension :: "string \<Rightarrow> string" where
  "file_extension s =
     (let b = dropWhile (\<lambda>c. c = CHR ''.'') (last (split_chr (CHR ''/'') s));
          parts = split_chr (CHR ''.'') b
      in if length parts < 2 then [] else CHR ''.'' # last parts)"

definition config_from_file :: "'d setup_env \<Rightarrow> string \<Rightarrow> init_config res" where
  "config_from_file env s =
     (if file_extension s \<in> {''.yml'', ''.yaml''} then st_load_yaml env s
      else if file_extension s = ''.json'' then st_load_json env s
      else Inl ConfigurationError)"

text \<open>\<^verbatim>\<open>generate_config(db_url, modules)\<close> as a configuration.\<close>

definition config_from_url :: "'d setup_env \<Rightarrow> url \<Rightarrow> (string, module_ref list) dict \<Rightarrow> init_config res" where
  "config_from_url env u modules =
     rbind (expand_db_url (e_lib (st_engines env)) (e_unquote (st_engines env)) Inr u False) (\<lambda>(eng, creds).
     Inr \<lparr> c_connections = Some [(''default'', InfoDict (Some eng) (Some creds))],
           c_apps = Some (dict_update [] (map (\<lambda>(a, ms). (a, \<lparr> ai_models = Some ms, ai_default = Some ''default'' \<rparr>)) modules)),
           c_use_tz = None, c_timezone = None, c_routers = None \<rparr>)"

text \<open>The arguments of \<^verbatim>\<open>init\<close>.\<close>

record init_args =
  a_config :: "init_config option"
  a_config_file :: "string option"
  a_create_db :: bool
  a_db_url :: "url option"
  a_modules :: "(string, module_ref list) dict option"
  a_use_tz :: bool
  a_timezone :: string
  a_routers :: "router_ref list option"

definition config_given :: "init_config option \<Rightarrow> bool" where
  "config_given c =
     (case c of None \<Rightarrow> False
      | Some x \<Rightarrow> c_connections x \<noteq> None \<or> c_apps x \<noteq> None \<or> c_use_tz x \<noteq> None \<or> c_timezone x \<noteq> None \<or> c_routers x \<noteq> None)"

definition text_given :: "string option \<Rightarrow> bool" where
  "text_given x = (case x of None \<Rightarrow> False | Some s \<Rightarrow> s \<noteq> [])"

text \<open>Exactly one of the three ways to configure; a parsed URL is not empty.\<close>

definition given_config :: "init_config option \<Rightarrow> init_config res" where
  "given_config c = (case c of None \<Rightarrow> Inl PyTypeError | Some x \<Rightarrow> Inr x)"

definition choose_config :: "'d setup_env \<Rightarrow> init_args \<Rightarrow> init_config res" where
  "choose_config env a =
     (if length (filter id [config_given (a_config a), text_given (a_config_file a), a_db_url a \<noteq> None]) \<noteq> 1
      then Inl ConfigurationError
      else case (a_db_url a, a_config_file a) of
        (Some u, _) \<Rightarrow>
          (case a_modules a of Some (m # ms) \<Rightarrow> config_from_url env u (m # ms) | _ \<Rightarrow> Inl ConfigurationError)
      | (None, Some s) \<Rightarrow> if s \<noteq> [] then config_from_file env s else given_config (a_config a)
      | (None, None) \<Rightarrow> given_config (a_config a))"

text \<open>The passwords that are masked in the log: a URL is expanded for it, which may fail.\<close>

definition check_urls :: "'d setup_env \<Rightarrow> (string, db_info) dict \<Rightarrow> unit res" where
  "check_urls env cs =
     rfold (\<lambda>(a, info) _. case info of
         InfoDict e c \<Rightarrow> Inr ()
       | InfoUrl u \<Rightarrow> rbind (expand_db_url (e_lib (st_engines env)) (e_unquote (st_engines env)) Inr u False) (\<lambda>_. Inr ())) cs ()"

section \<open>Tortoise.init\<close>

definition missing_section :: "'a option \<Rightarrow> 'a res" where
  "missing_section x = (case x of None \<Rightarrow> Inl ConfigurationError | Some y \<Rightarrow> Inr y)"

text \<open>The configuration comes before the arguments.\<close>

definition chosen_use_tz :: "init_args \<Rightarrow> init_config \<Rightarrow> bool" where
  "chosen_use_tz a cfg = (case c_use_tz cfg of None \<Rightarrow> a_use_tz a | Some b \<Rightarrow> b)"

definition chosen_timezone :: "init_args \<Rightarrow> init_config \<Rightarrow> string" where
  "chosen_timezone a cfg = (case c_timezone cfg of None \<Rightarrow> a_timezone a | Some z \<Rightarrow> z)"

definition init_timezone :: "bool \<Rightarrow> string \<Rightarrow> ('d, unit) tio" where
  "init_timezone use z =
     imodify (\<lambda>s. s\<lparr>t_environ := AList.update ''TIMEZONE'' z
       (AList.update ''USE_TZ'' (if use then ''True'' else ''False'') (t_environ s))\<rparr>)"

text \<open>\<^verbatim>\<open>init\<close> once the configuration is there.\<close>

definition init_with :: "'d setup_env \<Rightarrow> init_args \<Rightarrow> init_config \<Rightarrow> ('d, unit) tio" where
  "init_with env a cfg =
     ibind (ilift (missing_section (c_connections cfg))) (\<lambda>conns.
     ibind (ilift (missing_section (c_apps cfg))) (\<lambda>apps.
     ibind (ilift (check_urls env conns)) (\<lambda>_.
     iseq (init_timezone (chosen_use_tz a cfg) (chosen_timezone a cfg))
     (iseq (on_proc (conn_init (st_engines env) (st_db_create env) (st_task env) conns (a_create_db a)))
     (iseq (init_apps env apps)
     (iseq (init_routers env (case c_routers cfg of None \<Rightarrow> a_routers a | Some rs \<Rightarrow> Some rs))
      (imodify (\<lambda>s. s\<lparr>t_inited := True\<rparr>))))))))"

definition tortoise_init :: "'d setup_env \<Rightarrow> init_args \<Rightarrow> ('d, unit) tio" where
  "tortoise_init env a =
     ibind (iget t_inited) (\<lambda>again.
     iseq (iwhen again (on_proc (close_all (st_engines env) (st_task env) True)))
       (ibind (ilift (choose_config env a)) (init_with env a)))"

text \<open>\<^verbatim>\<open>_reset_apps\<close>\<close>

definition reset_apps :: "world \<Rightarrow> world" where
  "reset_apps w =
     (fold (\<lambda>(a, models). set_default_connection None models) (w_apps w) w)\<lparr>w_apps := []\<rparr>"

definition generate_schemas :: "'d setup_env \<Rightarrow> bool \<Rightarrow> ('d, unit) tio" where
  "generate_schemas env safe =
     ibind (iget t_inited) (\<lambda>i.
     if \<not> i then iraise ConfigurationError
     else ibind (on_proc (conn_all (st_engines env) (st_task env))) (\<lambda>cs.
       ifold (\<lambda>c _. st_generate env c safe) cs ()))"

definition drop_databases :: "'d setup_env \<Rightarrow> ('d, unit) tio" where
  "drop_databases env =
     ibind (iget t_inited) (\<lambda>i.
     if \<not> i then iraise ConfigurationError
     else
       iseq (on_proc (close_all (st_engines env) (st_task env) False))
       (ibind (on_proc (conn_all (st_engines env) (st_task env))) (\<lambda>cs.
        iseq (ifold (\<lambda>c _. on_proc (iseq (st_db_delete env c)
               (ibind (iget (\<lambda>p. connection_name (clients p c))) (\<lambda>n. iseq (conn_discard (st_task env) n) (iret ()))))) cs ())
        (on_world (\<lambda>w. Inr (reset_apps w))))))"

definition close_connections :: "'d setup_env \<Rightarrow> ('d, unit) tio" where
  "close_connections env = on_proc (close_all (st_engines env) (st_task env) True)"

text \<open>\<^verbatim>\<open>run_async\<close>: the program, then \<^verbatim>\<open>close_all(discard=True)\<close> whatever happened.\<close>

definition run_async :: "'d setup_env \<Rightarrow> ('d, 'a) tio \<Rightarrow> ('d, unit) tio" where
  "run_async env coro =
     ifinally (iseq coro (iret ())) (on_proc (close_all (st_engines env) (st_task env) True))"

section \<open>After a successful init\<close>

lemma on_world_Ret: "on_world g s = (Ret u, s') \<longleftrightarrow> (\<exists>w. g (t_world s) = Inr w \<and> s' = s\<lparr>t_world := w\<rparr>)"
  by (auto simp: on_world_def split: sum.splits)

lemma on_proc_Ret: "on_proc c s = (Ret x, s') \<longleftrightarrow> (\<exists>p. c (t_proc s) = (Ret x, p) \<and> s' = s\<lparr>t_proc := p\<rparr>)"
  by (auto simp: on_proc_def split: prod.splits)

lemmas setup_Ret = ibind_Ret on_world_Ret on_proc_Ret iseq_def

text \<open>Changes of metadata that well-formedness does not look at.\<close>

lemma discover_step_wf: "world_wf (snd sw) \<Longrightarrow> world_wf (snd (discover_step label x sw))"
  by (cases sw; cases x) (auto simp: discover_step_def intro!: world_wf_neutral)

lemma discover_steps_wf: "world_wf (snd sw) \<Longrightarrow> world_wf (snd (fold (discover_step label) xs sw))"
  by (induction xs arbitrary: sw) (simp_all add: discover_step_wf)

lemma discover_models_wf: "world_wf (snd sw) \<Longrightarrow> discover_models env md label sw = Inr sw' \<Longrightarrow> world_wf (snd sw')"
  by (auto simp: discover_models_def discover_steps_wf split: module_ref.splits option.splits)

lemma init_models_wf:
  assumes "world_wf w" and "init_models env mods label rels w = Inr w'"
  shows "world_wf w'"
proof -
  from assms(2) obtain ms w1 where r: "rfold (\<lambda>md sw. discover_models env md label sw) mods ([], w) = Inr (ms, w1)"
    and w': "(let w2 = w1\<lparr>w_apps := AList.update label (app_models (w_metas w1) ms) (w_apps w1)\<rparr>
     in if rels then init_relations w2 else Inr w2) = Inr w'"
    by (auto simp: init_models_def rbind_eq_Inr)
  have "world_wf (snd (ms, w1))"
    by (rule rfold_invariant [where P = "\<lambda>sw. world_wf (snd sw)", OF r]) (simp_all add: assms(1) discover_models_wf)
  then have "world_wf (w1\<lparr>w_apps := AList.update label (app_models (w_metas w1) ms) (w_apps w1)\<rparr>)"
    by (simp add: world_wf_def)
  with w' init_relations_keeps_wf show ?thesis by (auto simp: Let_def split: if_splits)
qed

lemma set_default_connection_simps:
  "w_apps (set_default_connection a models w) = w_apps w"
  "world_wf w \<Longrightarrow> world_wf (set_default_connection a models w)"
proof -
  show "w_apps (set_default_connection a models w) = w_apps w"
    unfolding set_default_connection_def by (induction models arbitrary: w) auto
  show "world_wf (set_default_connection a models w)" if "world_wf w"
    using that unfolding set_default_connection_def
  proof (induction models arbitrary: w)
    case (Cons x models)
    obtain n m where "x = (n, m)" by (cases x)
    moreover have "world_wf (upd_meta m (\<lambda>mt. mt\<lparr>default_connection := a\<rparr>) w)"
      using Cons.prems by (rule world_wf_neutral) simp
    ultimately show ?case using Cons.IH by simp
  qed simp
qed

lemma icatch_Ret:
  "icatch c h s = (Ret a, t) \<longleftrightarrow> c s = (Ret a, t) \<or> (\<exists>e u. c s = (Raise e, u) \<and> h e u = (Ret a, t))"
  by (cases "c s"; cases "fst (c s)") (auto simp: icatch_def)

lemma init_app_Ret:
  assumes "init_app env (name, info) s = (Ret u, s')"
  obtains ms w where "init_models env ms name False (t_world s) = Inr w"
    "t_world s' = set_default_connection (Some (app_default info)) (app_of w name) w"
proof -
  from assms obtain c t where c: "icatch (on_proc (conn_get (st_engines env) (st_task env) (app_default info)))
      (\<lambda>e. if exn_isa e PyKeyError then iraise ConfigurationError else iraise e) s = (Ret c, t)"
    and r: "ibind (ilift (case ai_models info of None \<Rightarrow> Inl PyKeyError | Some ms \<Rightarrow> Inr ms)) (\<lambda>ms.
        iseq (on_world (init_models env ms name False))
          (on_world (\<lambda>w. Inr (set_default_connection (Some (app_default info)) (app_of w name) w)))) t = (Ret u, s')"
    unfolding init_app_def by (auto simp: ibind_Ret)
  from c have "t_world t = t_world s" by (auto simp: icatch_Ret on_proc_Ret iraise_def split: if_splits)
  moreover from r obtain ms w where "init_models env ms name False (t_world t) = Inr w"
    "t_world s' = set_default_connection (Some (app_default info)) (app_of w name) w"
    by (auto simp: setup_Ret)
  ultimately show thesis using that by simp
qed

lemma init_app_wf: "init_app env ai s = (Ret u, s') \<Longrightarrow> world_wf (t_world s) \<Longrightarrow> world_wf (t_world s')"
  by (cases ai) (auto elim!: init_app_Ret intro!: set_default_connection_simps(2) intro: init_models_wf)

text \<open>An app of the configuration is registered, and apps stay.\<close>

lemma init_models_apps:
  assumes "init_models env mods label False w = Inr w'"
  shows "dict_has (w_apps w') a \<longleftrightarrow> a = label \<or> dict_has (w_apps w) a"
proof -
  have step: "w_apps (snd (discover_step label x sw)) = w_apps (snd sw)" for x sw
    by (cases sw; cases x) (simp_all add: discover_step_def)
  have steps: "w_apps (snd (fold (discover_step label) xs sw)) = w_apps (snd sw)" for xs sw
    by (induction xs arbitrary: sw) (simp_all add: step)
  from assms obtain ms w1 where r: "rfold (\<lambda>md sw. discover_models env md label sw) mods ([], w) = Inr (ms, w1)"
    and w': "w' = w1\<lparr>w_apps := AList.update label (app_models (w_metas w1) ms) (w_apps w1)\<rparr>"
    by (auto simp: init_models_def rbind_eq_Inr)
  have one: "w_apps (snd sw') = w_apps (snd sw)" if "discover_models env md label sw = Inr sw'" for md sw sw'
    using that by (cases md) (auto simp: discover_models_def steps split: option.splits)
  have "w_apps (snd (ms, w1)) = w_apps w"
    by (rule rfold_invariant [where P = "\<lambda>sw. w_apps (snd sw) = w_apps w", OF r]) (simp_all add: one)
  then show ?thesis by (simp add: w' dict_has_update)
qed

lemma init_app_apps:
  assumes "init_app env (name, info) s = (Ret u, s')"
  shows "dict_has (w_apps (t_world s')) a \<longleftrightarrow> a = name \<or> dict_has (w_apps (t_world s)) a"
  using assms by (rule init_app_Ret) (simp add: set_default_connection_simps(1) init_models_apps)

text \<open>One model: it has a connection that exists, and no other changes.\<close>

definition connected :: "task \<Rightarrow> mid \<Rightarrow> 'd tortoise \<Rightarrow> bool" where
  "connected t m s \<longleftrightarrow> (\<exists>al. default_connection (w_metas (t_world s) m) = Some al \<and> alias_of t al (t_proc s) \<noteq> None)"

lemma build_model_step:
  assumes "build_model env m s = (Ret u, s')"
  shows "connected (st_task env) m s'" "connected (st_task env) k s \<Longrightarrow> connected (st_task env) k s'"
    and "world_wf (t_world s) \<Longrightarrow> world_wf (t_world s')" "w_apps (t_world s') = w_apps (t_world s)"
    and "inited (w_metas (t_world s') k) = inited (w_metas (t_world s) k)"
proof -
  from assms obtain al c p where al: "default_connection (w_metas (t_world s) m) = Some al"
    and c: "conn_get (st_engines env) (st_task env) al (t_proc s) = (Ret c, p)"
    and s': "s' = s\<lparr>t_proc := p, t_world := upd_meta m (\<lambda>mt. generate_filters (st_overrides env c) (finalise_fields mt)) (t_world s)\<rparr>"
    by (auto simp: build_model_def setup_Ret iraise_def split: option.splits)
  have d: "default_connection (w_metas (t_world s') k) = default_connection (w_metas (t_world s) k)" for k
    by (simp add: s' generate_filters_def finalise_fields_def Let_def)
  note look = conn_get_alias [OF c]
  have p: "t_proc s' = p" by (simp add: s')
  show "connected (st_task env) m s'" unfolding connected_def d p using al look [of al] by simp
  show "connected (st_task env) k s \<Longrightarrow> connected (st_task env) k s'" unfolding connected_def d p using look by auto
  show "world_wf (t_world s) \<Longrightarrow> world_wf (t_world s')"
    by (simp add: s' world_wf_upd meta_wf_finalise world_wfD)
  show "w_apps (t_world s') = w_apps (t_world s)" by (simp add: s')
  show "inited (w_metas (t_world s') k) = inited (w_metas (t_world s) k)"
    by (simp add: s' generate_filters_def)
qed

lemma init_apps_ready:
  assumes "init_apps env apps s = (Ret u, s')" and "world_wf (t_world s)"
  shows "world_wf (t_world s')"
    and "registered (t_world s') m \<Longrightarrow> inited (w_metas (t_world s') m) \<and> connected (st_task env) m s'"
    and "dict_has (w_apps (t_world s')) a \<longleftrightarrow> a \<in> fst ` set apps \<or> dict_has (w_apps (t_world s)) a"
proof -
  from assms(1) obtain s1 w s2 where a: "ifold (\<lambda>ai _. init_app env ai) apps () s = (Ret (), s1)"
    and w: "init_relations (t_world s1) = Inr w" and s2: "s2 = s1\<lparr>t_world := w\<rparr>"
    and b: "ifold (\<lambda>m _. build_model env m) (all_models w) () s2 = (Ret u, s')"
    unfolding init_apps_def build_initial_querysets_def setup_Ret by auto
  have "world_wf (t_world s1)"
    by (rule ifold_invariant [where P = "\<lambda>s. world_wf (t_world s)", OF a assms(2)]) (erule init_app_wf)
  then have wf2: "world_wf (t_world s2)" using init_relations_keeps_wf [OF _ w] by (simp add: s2)
  show "world_wf (t_world s')"
    by (rule ifold_invariant [where P = "\<lambda>s. world_wf (t_world s)", OF b wf2]) (erule build_model_step(3))
  have ap: "w_apps (t_world s') = w_apps w"
    by (rule ifold_invariant [where P = "\<lambda>s. w_apps (t_world s) = w_apps w", OF b]) (simp_all add: s2 build_model_step(4))
  show "inited (w_metas (t_world s') m) \<and> connected (st_task env) m s'" if m: "registered (t_world s') m"
  proof
    have r: "registered w m" "registered (t_world s1) m"
      using m ap init_relations_apps [OF w] by (simp_all add: registered_def)
    show "inited (w_metas (t_world s') m)"
      by (rule ifold_invariant [where P = "\<lambda>s. inited (w_metas (t_world s) m)", OF b])
        (simp_all add: s2 init_relations_inited [OF w r(2)] build_model_step(5))
    have "m \<in> set (all_models w)" using r(1) by (force simp: registered_def all_models_def)
    then show "connected (st_task env) m s'"
      by (rule ifold_each [OF b]) (erule build_model_step(1), erule (1) build_model_step(2))
  qed
  have each: "ifold (\<lambda>ai _. init_app env ai) xs () u = (Ret (), v) \<Longrightarrow>
      dict_has (w_apps (t_world v)) a \<longleftrightarrow> a \<in> fst ` set xs \<or> dict_has (w_apps (t_world u)) a" for xs u v
  proof (induction xs arbitrary: u)
    case (Cons x xs)
    obtain name info where x: "x = (name, info)" by (cases x)
    from Cons.prems obtain s1 where i: "init_app env (name, info) u = (Ret (), s1)" and r: "ifold (\<lambda>ai _. init_app env ai) xs () s1 = (Ret (), v)"
      unfolding x by (auto simp: ibind_Ret)
    from Cons.IH [OF r] init_app_apps [OF i, of a] show ?case by (auto simp: x)
  qed (simp add: iret_def)
  show "dict_has (w_apps (t_world s')) a \<longleftrightarrow> a \<in> fst ` set apps \<or> dict_has (w_apps (t_world s)) a"
    using each [OF a] init_relations_apps [OF w] by (simp add: ap)
qed

text \<open>Apps do not touch the environment of the process; the settings are read back from it.\<close>

lemma init_app_environ:
  "init_app env ai s = (Ret u, s') \<Longrightarrow> t_environ s' = t_environ s"
  by (cases ai) (auto simp: init_app_def setup_Ret icatch_def on_proc_def iraise_def split: prod.splits outcome.splits if_splits)

lemma init_apps_environ:
  assumes "init_apps env apps s = (Ret u, s')"
  shows "t_environ s' = t_environ s"
proof -
  from assms obtain s1 w where a: "ifold (\<lambda>ai _. init_app env ai) apps () s = (Ret (), s1)"
    and b: "ifold (\<lambda>m _. build_model env m) (all_models w) () (s1\<lparr>t_world := w\<rparr>) = (Ret u, s')"
    unfolding init_apps_def build_initial_querysets_def setup_Ret by auto
  have "t_environ s1 = t_environ s"
    by (rule ifold_invariant [where P = "\<lambda>v. t_environ v = t_environ s", OF a]) (simp_all add: init_app_environ)
  moreover have "t_environ s' = t_environ s1"
    by (rule ifold_invariant [where P = "\<lambda>v. t_environ v = t_environ s1", OF b])
      (auto simp: build_model_def setup_Ret iraise_def split: option.splits)
  ultimately show ?thesis by simp
qed

definition zone_known :: "init_args \<Rightarrow> init_config \<Rightarrow> 'd tortoise \<Rightarrow> bool" where
  "zone_known a cfg s \<longleftrightarrow>
     (\<forall>ce. environ ce = map_of (t_environ s) \<longrightarrow> get_use_tz ce = chosen_use_tz a cfg \<and>
        get_timezone ce = (if chosen_timezone a cfg = [] then ''UTC'' else chosen_timezone a cfg))"

lemma zone_known_init:
  "init_timezone (chosen_use_tz a cfg) (chosen_timezone a cfg) s = (r, s') \<Longrightarrow> zone_known a cfg s'"
  by (auto simp: init_timezone_def imodify_def zone_known_def get_use_tz_def get_timezone_def update_conv split: if_splits)

lemma zone_known_environ: "zone_known a cfg s \<Longrightarrow> t_environ s' = t_environ s \<Longrightarrow> zone_known a cfg s'"
  by (simp add: zone_known_def)

text \<open>Connecting and looking at the configuration leave the models alone.\<close>

lemma init_with_Ret:
  assumes "init_with env args cfg s = (Ret (), s')"
  obtains apps u v where "c_apps cfg = Some apps" "init_apps env apps u = (Ret (), v)" "t_world u = t_world s"
    "t_world s' = t_world v" "t_proc s' = t_proc v" "t_inited s'" "zone_known args cfg s'"
proof -
  let ?rs = "case c_routers cfg of None \<Rightarrow> a_routers args | Some rs \<Rightarrow> Some rs"
  from assms obtain conns apps where apps': "missing_section (c_apps cfg) = Inr apps" and 1: "iseq (init_timezone (chosen_use_tz args cfg) (chosen_timezone args cfg))
     (iseq (on_proc (conn_init (st_engines env) (st_db_create env) (st_task env) conns (a_create_db args)))
     (iseq (init_apps env apps) (iseq (init_routers env ?rs) (imodify (\<lambda>s. s\<lparr>t_inited := True\<rparr>))))) s = (Ret (), s')"
    by (simp only: init_with_def ibind_Ret [where c = "ilift _"] ilift_Ret) blast
  from apps' have apps: "c_apps cfg = Some apps" by (simp add: missing_section_def split: option.splits)
  from 1 obtain s1 s2 where 2: "init_timezone (chosen_use_tz args cfg) (chosen_timezone args cfg) s = (Ret (), s1)"
    "on_proc (conn_init (st_engines env) (st_db_create env) (st_task env) conns (a_create_db args)) s1 = (Ret (), s2)"
    and 3: "iseq (init_apps env apps) (iseq (init_routers env ?rs) (imodify (\<lambda>s. s\<lparr>t_inited := True\<rparr>))) s2 = (Ret (), s')"
    unfolding iseq_def ibind_Ret by auto
  from 3 obtain v w where 4: "init_apps env apps s2 = (Ret (), v)" "init_routers env ?rs v = (Ret (), w)"
    "s' = w\<lparr>t_inited := True\<rparr>"
    unfolding iseq_def ibind_Ret imodify_def by auto
  have "t_world s2 = t_world s" using 2 by (auto simp: on_proc_Ret init_timezone_def imodify_def)
  moreover have "t_world w = t_world v" "t_proc w = t_proc v" "t_environ w = t_environ v"
    using 4(2) by (auto simp: init_routers_def ibind_Ret imodify_def)
  moreover from this have "t_environ s' = t_environ s1"
    using 2(2) 4(3) init_apps_environ [OF 4(1)] by (auto simp: on_proc_Ret)
  then have "zone_known args cfg s'" by (rule zone_known_environ [OF zone_known_init [OF 2(1)]])
  ultimately show thesis using that [OF apps 4(1)] 4(3) by simp
qed

lemma init_before_apps:
  assumes "tortoise_init env args s = (Ret (), s')" and "choose_config env args = Inr cfg"
  obtains apps u v where "c_apps cfg = Some apps" "init_apps env apps u = (Ret (), v)" "t_world u = t_world s"
    "t_world s' = t_world v" "t_proc s' = t_proc v" "t_inited s'" "zone_known args cfg s'"
proof -
  from assms obtain u0 where u0: "iwhen (t_inited s) (on_proc (close_all (st_engines env) (st_task env) True)) s = (Ret (), u0)"
    and i: "init_with env args cfg u0 = (Ret (), s')"
    unfolding tortoise_init_def iseq_def ibind_Ret iget_def ilift_Ret by auto
  from u0 have "t_world u0 = t_world s" by (auto simp: iwhen_def on_proc_Ret iret_def split: if_splits)
  with init_with_Ret [OF i] that show thesis by metis
qed

text \<open>
  C20. When \<^verbatim>\<open>Tortoise.init\<close> returns, the ORM is ready: the apps of the configuration are
  registered (those of earlier calls stay), the metadata of every model is well-formed, and every
  registered model has its relations initialised and a default connection that stands for a
  client. The time zone settings that the fields read are those of the configuration, or else the
  arguments.
\<close>

theorem init_ready:
  assumes "tortoise_init env args s = (Ret (), s')" and "world_wf (t_world s)" and "choose_config env args = Inr cfg"
  shows "t_inited s' \<and> world_wf (t_world s') \<and>
     (\<forall>m. registered (t_world s') m \<longrightarrow> inited (w_metas (t_world s') m) \<and>
        (\<exists>al. default_connection (w_metas (t_world s') m) = Some al \<and> alias_of (st_task env) al (t_proc s') \<noteq> None)) \<and>
     (\<exists>apps. c_apps cfg = Some apps \<and>
        (\<forall>a. dict_has (w_apps (t_world s')) a \<longleftrightarrow> a \<in> fst ` set apps \<or> dict_has (w_apps (t_world s)) a)) \<and>
     (\<forall>ce. environ ce = map_of (t_environ s') \<longrightarrow> get_use_tz ce = chosen_use_tz args cfg \<and>
        get_timezone ce = (if chosen_timezone args cfg = [] then ''UTC'' else chosen_timezone args cfg))"
proof -
  from init_before_apps [OF assms(1,3)] obtain apps u v where u: "c_apps cfg = Some apps" "init_apps env apps u = (Ret (), v)"
    "t_world u = t_world s" "t_world s' = t_world v" "t_proc s' = t_proc v" "t_inited s'" "zone_known args cfg s'" .
  have wf: "world_wf (t_world u)" using assms(2) u(3) by simp
  note ready = init_apps_ready [OF u(2) wf]
  show ?thesis using ready(1) ready(2) [unfolded connected_def] ready(3) u [unfolded zone_known_def] by simp
qed

text \<open>A module of one model, and a configuration that names it.\<close>

definition setup_env :: "nat setup_env" where
  "setup_env = \<lparr> st_engines = sample_engines, st_task = 0,
     st_import = (\<lambda>n. if n = ''models'' then Some \<lparr> mod_models = None, mod_attrs = [AOther, AClass (''app'', ''User'')] \<rparr> else None),
     st_import_router = (\<lambda>m c. None), st_load_yaml = (\<lambda>n. Inl ConfigurationError), st_load_json = (\<lambda>n. Inl ConfigurationError),
     st_db_create = (\<lambda>c. iret ()), st_db_delete = (\<lambda>c. iret ()), st_generate = (\<lambda>c b. iret ()), st_overrides = (\<lambda>c. []) \<rparr>"

definition setup_config :: init_config where
  "setup_config = \<lparr> c_connections = Some [(''default'', InfoDict (Some ''sqlite'') (Some []))],
     c_apps = Some [(''app'', \<lparr> ai_models = Some [ModuleName ''models''], ai_default = None \<rparr>)],
     c_use_tz = None, c_timezone = None, c_routers = None \<rparr>"

definition setup_args :: init_args where
  "setup_args = \<lparr> a_config = Some setup_config, a_config_file = None, a_create_db = False, a_db_url = None, a_modules = None,
     a_use_tz = False, a_timezone = ''UTC'', a_routers = None \<rparr>"

definition setup_start :: "nat tortoise" where
  "setup_start = \<lparr> t_world = sample_world\<lparr>w_apps := []\<rparr>, t_proc = sample_proc, t_inited = False, t_routers = [], t_environ = [] \<rparr>"

theorem init_ready_witness:
  "\<exists>s'. tortoise_init setup_env setup_args setup_start = (Ret (), s') \<and> t_inited s' \<and>
     inited (w_metas (t_world s') (''app'', ''User''))"
proof -
  let ?r = "tortoise_init setup_env setup_args setup_start"
  have "(case ?r of (r, s) \<Rightarrow> r = Ret () \<and> w_apps (t_world s) = [(''app'', [(''User'', (''app'', ''User''))])])" by code_simp
  then obtain s' where s': "?r = (Ret (), s')" "w_apps (t_world s') = [(''app'', [(''User'', (''app'', ''User''))])]"
    by (cases ?r) auto
  have "world_wf (t_world setup_start)" using sample_world_wf by (simp add: setup_start_def world_wf_def)
  moreover have "choose_config setup_env setup_args = Inr setup_config" by code_simp
  moreover have "registered (t_world s') (''app'', ''User'')" using s'(2) by (simp add: registered_def)
  ultimately show ?thesis using init_ready [OF s'(1)] s'(1) by blast
qed

end
